(* ===== verification/Prelude.thy ===== *)
theory Prelude
  imports Main "HOL-Library.Multiset" "HOL-Library.AList" "HOL-Library.Char_ord" "HOL-Library.List_Lexorder"
    "HOL-Library.Product_Lexorder"
begin

text \<open>
  Shared ground of the development: insertion-ordered dictionaries (Python's dict, as an
  association list without duplicate keys), the store interface every persistent table of
  the program satisfies, the result of a remote command, and generic list lemmas.

  The collections: \<open>dict_simps\<close> evaluates dictionary reads after writes and \<open>dict_inv\<close> holds
  the rules that keep a dictionary free of duplicate keys.
\<close>

named_theorems dict_simps "reads of a dictionary after writes"
named_theorems dict_inv "operations that keep a dictionary free of duplicate keys"

section \<open>Insertion-ordered dictionaries\<close>

type_synonym ('k, 'v) dict = "('k \<times> 'v) list"

definition dget :: "('k, 'v) dict \<Rightarrow> 'k \<Rightarrow> 'v option" where
  "dget d k = map_of d k"

definition dset :: "'k \<Rightarrow> 'v \<Rightarrow> ('k, 'v) dict \<Rightarrow> ('k, 'v) dict" where
  "dset k v d = AList.update k v d"

definition dpop :: "'k \<Rightarrow> ('k, 'v) dict \<Rightarrow> ('k, 'v) dict" where
  "dpop k d = AList.delete k d"

definition dkeys :: "('k, 'v) dict \<Rightarrow> 'k list" where
  "dkeys d = map fst d"

definition dvals :: "('k, 'v) dict \<Rightarrow> 'v list" where
  "dvals d = map snd d"

definition dget_or :: "'v \<Rightarrow> ('k, 'v) dict \<Rightarrow> 'k \<Rightarrow> 'v" where
  "dget_or v d k = (case dget d k of None \<Rightarrow> v | Some x \<Rightarrow> x)"

definition dhas :: "('k, 'v) dict \<Rightarrow> 'k \<Rightarrow> bool" where
  "dhas d k = (dget d k \<noteq> None)"

definition dinv :: "('k, 'v) dict \<Rightarrow> bool" where
  "dinv d = distinct (map fst d)"

text \<open>\<open>d.setdefault(k, init)\<close> followed by an in-place change of the value: the shape of every
  grouping loop of the program.\<close>

definition dmodify :: "'k \<Rightarrow> 'v \<Rightarrow> ('v \<Rightarrow> 'v) \<Rightarrow> ('k, 'v) dict \<Rightarrow> ('k, 'v) dict" where
  "dmodify k init f d = dset k (f (dget_or init d k)) d"

lemma dget_nil [dict_simps, simp]: "dget [] k = None"
  by (simp add: dget_def)

lemma dget_cons [dict_simps]: "dget ((k', v) # d) k = (if k = k' then Some v else dget d k)"
  by (simp add: dget_def)

lemma dget_dset [dict_simps, simp]: "dget (dset k v d) k' = (if k' = k then Some v else dget d k')"
  by (simp add: dget_def dset_def update_conv')

lemma dget_dpop [dict_simps, simp]: "dget (dpop k d) k' = (if k' = k then None else dget d k')"
  by (simp add: dget_def dpop_def delete_conv')

lemma dget_dmodify [dict_simps, simp]:
  "dget (dmodify k i f d) k' = (if k' = k then Some (f (dget_or i d k)) else dget d k')"
  by (simp add: dmodify_def)

lemma dget_or_dmodify [dict_simps, simp]:
  "dget_or i (dmodify k i f d) k' = (if k' = k then f (dget_or i d k) else dget_or i d k')"
  by (simp add: dget_or_def)

lemma dinv_nil [dict_inv, simp]: "dinv []"
  by (simp add: dinv_def)

lemma dinv_dset [dict_inv, simp]: "dinv d \<Longrightarrow> dinv (dset k v d)"
  by (simp add: dinv_def dset_def distinct_update)

lemma dinv_dpop [dict_inv, simp]: "dinv d \<Longrightarrow> dinv (dpop k d)"
  by (simp add: dinv_def dpop_def distinct_delete)

lemma dinv_dmodify [dict_inv, simp]: "dinv d \<Longrightarrow> dinv (dmodify k i f d)"
  by (simp add: dmodify_def)

lemma set_dkeys: "k \<in> set (dkeys d) \<longleftrightarrow> dget d k \<noteq> None"
  by (induction d) (auto simp: dkeys_def dget_def)

lemma dget_SomeI: "dinv d \<Longrightarrow> (k, v) \<in> set d \<Longrightarrow> dget d k = Some v"
  by (simp add: dget_def dinv_def)

lemma dget_SomeD: "dget d k = Some v \<Longrightarrow> (k, v) \<in> set d"
  by (simp add: dget_def map_of_SomeD)

lemma dget_Some_iff: "dinv d \<Longrightarrow> dget d k = Some v \<longleftrightarrow> (k, v) \<in> set d"
  by (auto intro: dget_SomeI dget_SomeD)

lemma dinv_dkeys: "dinv d \<longleftrightarrow> distinct (dkeys d)"
  by (simp add: dinv_def dkeys_def)

lemma set_dkeys_dset [simp]: "set (dkeys (dset k v d)) = insert k (set (dkeys d))"
  by (auto simp: set_dkeys split: if_splits)

lemma set_dkeys_dmodify [simp]: "set (dkeys (dmodify k i f d)) = insert k (set (dkeys d))"
  by (simp add: dmodify_def)

lemma dget_filter_key: "dget (filter (\<lambda>(k, _). P k) d) k = (if P k then dget d k else None)"
  by (induction d) (auto simp: dget_def)

lemma dinv_filter [dict_inv]: "dinv d \<Longrightarrow> dinv (filter P d)"
  by (induction d) (auto simp: dinv_def)

lemma dset_new: "dget d k = None \<Longrightarrow> dset k v d = d @ [(k, v)]"
  by (induction d) (auto simp: dget_def dset_def split: if_splits)

lemma length_dpop: "dinv d \<Longrightarrow> length (dpop k d) = length d - (if dhas d k then 1 else 0)"
proof (induction d)
  case (Cons p d)
  have *: "dhas d k \<Longrightarrow> d \<noteq> []" by (auto simp: dhas_def)
  show ?case
  proof (cases "fst p = k")
    case True
    with Cons.prems have "k \<notin> fst ` set d" by (auto simp: dinv_def)
    then have "AList.delete k d = d" by (simp add: delete_idem)
    with True show ?thesis
      by (cases p) (auto simp: dpop_def dhas_def dget_def)
  next
    case False
    with Cons * show ?thesis
      by (cases p; cases d) (auto simp: dpop_def dhas_def dget_def dinv_def)
  qed
qed (simp add: dpop_def)

text \<open>A loop that changes one entry per element: every entry sees exactly its own elements, in
  order.\<close>

lemma dget_or_fold_dmodify:
  "dget_or i (fold (\<lambda>x. dmodify (key x) i (f x)) xs d) k = fold f (filter (\<lambda>x. key x = k) xs) (dget_or i d k)"
  by (induction xs arbitrary: d) auto

lemma dkeys_fold_dmodify:
  "set (dkeys (fold (\<lambda>x. dmodify (key x) i (f x)) xs d)) = set (dkeys d) \<union> key ` set xs"
  by (induction xs arbitrary: d) auto

lemma dinv_fold_dmodify [dict_inv]: "dinv d \<Longrightarrow> dinv (fold (\<lambda>x. dmodify (key x) i (f x)) xs d)"
  by (induction xs arbitrary: d) auto

lemma fold_if_filter: "fold (\<lambda>x s. if P x then f x s else s) xs s = fold f (filter P xs) s"
  by (induction xs arbitrary: s) auto

lemma dget_fold_dmodify:
  "dget (fold (\<lambda>x. dmodify (key x) i (f x)) xs []) k =
   (if k \<in> key ` set xs then Some (fold f (filter (\<lambda>x. key x = k) xs) i) else None)"
proof -
  let ?d = "fold (\<lambda>x. dmodify (key x) i (f x)) xs []"
  have "dget ?d k \<noteq> None \<longleftrightarrow> k \<in> key ` set xs"
    unfolding set_dkeys [symmetric] dkeys_fold_dmodify by (simp add: dkeys_def)
  moreover have "dget_or i ?d k = fold f (filter (\<lambda>x. key x = k) xs) i"
    unfolding dget_or_fold_dmodify by (simp add: dget_or_def)
  ultimately show ?thesis by (auto simp: dget_or_def split: option.splits)
qed

lemma dget_map_val: "dget (map (\<lambda>(k, v). (k, g k v)) d) k = map_option (g k) (dget d k)"
  by (induction d) (auto simp: dget_def)

text \<open>\<open>d.setdefault(key(x), []).append(val(x))\<close> for every element of a list.\<close>

definition group_into :: "('a \<Rightarrow> 'k) \<Rightarrow> ('a \<Rightarrow> 'v) \<Rightarrow> 'a list \<Rightarrow> ('k, 'v list) dict \<Rightarrow> ('k, 'v list) dict" where
  "group_into key val xs d = fold (\<lambda>x. dmodify (key x) [] (\<lambda>l. l @ [val x])) xs d"

lemma group_into_nil [simp]: "group_into key val [] d = d"
  by (simp add: group_into_def)

lemma group_into_cons:
  "group_into key val (x # xs) d = group_into key val xs (dmodify (key x) [] (\<lambda>l. l @ [val x]) d)"
  by (simp add: group_into_def)

lemma dget_or_group_into:
  "dget_or [] (group_into key val xs d) k = dget_or [] d k @ map val (filter (\<lambda>x. key x = k) xs)"
  by (induction xs arbitrary: d) (auto simp: group_into_cons)

lemma set_dkeys_group_into: "set (dkeys (group_into key val xs d)) = set (dkeys d) \<union> key ` set xs"
  by (induction xs arbitrary: d) (auto simp: group_into_cons)

lemma dinv_group_into [dict_inv]: "dinv d \<Longrightarrow> dinv (group_into key val xs d)"
  by (induction xs arbitrary: d) (auto simp: group_into_cons)

lemma group_into_entry:
  assumes "(k, l) \<in> set (group_into key val xs [])"
  shows "l = map val (filter (\<lambda>x. key x = k) xs)" and "\<exists>x \<in> set xs. key x = k"
proof -
  have inv: "dinv (group_into key val xs [])" by (rule dinv_group_into) simp
  have g: "dget (group_into key val xs []) k = Some l" by (rule dget_SomeI [OF inv assms])
  then show "l = map val (filter (\<lambda>x. key x = k) xs)"
    using dget_or_group_into [of key val xs "[]" k] by (simp add: dget_or_def)
  have "k \<in> set (dkeys (group_into key val xs []))" using g by (simp add: set_dkeys)
  then show "\<exists>x \<in> set xs. key x = k" unfolding set_dkeys_group_into by (auto simp: dkeys_def)
qed

text \<open>Grouping loses and invents nothing.\<close>

lemma mset_dmodify_append:
  "mset (concat (map snd (dmodify k [] (\<lambda>l. l @ [v]) d))) = add_mset v (mset (concat (map snd d)))"
proof (induction d)
  case (Cons p d)
  then show ?case
    by (cases p) (auto simp: dmodify_def dset_def dget_or_def dget_def)
qed (simp add: dmodify_def dset_def dget_or_def)

lemma mset_group_into:
  "mset (concat (map snd (group_into key val xs d))) = mset (concat (map snd d)) + mset (map val xs)"
  by (induction xs arbitrary: d) (simp_all add: group_into_cons mset_dmodify_append)

section \<open>The store interface\<close>

text \<open>
  What every table of the program promises to the code that uses it: reading after a write or
  a removal gives what was written, other keys keep what they had, and the table stays
  well formed. The in-memory caches, the task registry, the JSON files keyed by host and the
  \<open>monitor_state\<close> table are interpretations.
\<close>

locale kv_store =
  fixes lookup :: "'s \<Rightarrow> 'k \<Rightarrow> 'v option"
    and put :: "'k \<Rightarrow> 'v \<Rightarrow> 's \<Rightarrow> 's"
    and drop_key :: "'k \<Rightarrow> 's \<Rightarrow> 's"
    and ok :: "'s \<Rightarrow> bool"
  assumes lookup_put: "ok s \<Longrightarrow> lookup (put k v s) k' = (if k' = k then Some v else lookup s k')"
    and lookup_drop: "ok s \<Longrightarrow> lookup (drop_key k s) k' = (if k' = k then None else lookup s k')"
    and ok_put: "ok s \<Longrightarrow> ok (put k v s)"
    and ok_drop: "ok s \<Longrightarrow> ok (drop_key k s)"
begin

lemma ok_fold_drop: "ok s \<Longrightarrow> ok (fold drop_key ks s)"
  by (induction ks arbitrary: s) (auto intro: ok_drop)

lemma lookup_fold_drop:
  "ok s \<Longrightarrow> lookup (fold drop_key ks s) k = (if k \<in> set ks then None else lookup s k)"
proof (induction ks arbitrary: s)
  case (Cons a ks)
  then have "lookup (fold drop_key ks (drop_key a s)) k
      = (if k \<in> set ks then None else lookup (drop_key a s) k)"
    by (simp add: ok_drop)
  with Cons.prems show ?case by (auto simp: lookup_drop)
qed simp

lemma ok_fold_put: "ok s \<Longrightarrow> ok (fold (\<lambda>x. put (key x) (val x)) xs s)"
  by (induction xs arbitrary: s) (auto intro: ok_put)

lemma lookup_fold_put_other:
  "ok s \<Longrightarrow> k \<notin> key ` set xs \<Longrightarrow> lookup (fold (\<lambda>x. put (key x) (val x)) xs s) k = lookup s k"
  by (induction xs arbitrary: s) (auto simp: ok_put lookup_put)

lemma lookup_fold_put_distinct:
  "ok s \<Longrightarrow> distinct (map key xs) \<Longrightarrow> x \<in> set xs \<Longrightarrow>
   lookup (fold (\<lambda>x. put (key x) (val x)) xs s) (key x) = Some (val x)"
proof (induction xs arbitrary: s)
  case (Cons a xs)
  show ?case
  proof (cases "x = a")
    case True
    with Cons.prems have "key a \<notin> key ` set xs" by auto
    with True Cons.prems show ?thesis
      by (simp add: lookup_fold_put_other ok_put lookup_put)
  next
    case False
    with Cons show ?thesis by (auto simp: ok_put)
  qed
qed simp

end

interpretation dict_store: kv_store dget dset dpop dinv
  by unfold_locales simp_all

section \<open>Hosts and remote commands\<close>

text \<open>An entry of \<open>hosts.json\<close>. Keys that may be missing have the default the code gives them.\<close>

record host =
  ho_name :: string
  ho_address :: string
  ho_port :: int
  ho_user :: string
  ho_password :: string
  ho_muted :: bool
  ho_muted_until :: "int option"
  ho_standby :: bool
  ho_identity :: "(string, string) dict"

definition plain_host :: "string \<Rightarrow> string \<Rightarrow> host" where
  "plain_host name address = \<lparr>ho_name = name, ho_address = address, ho_port = 22, ho_user = ''root'',
     ho_password = [], ho_muted = False, ho_muted_until = None, ho_standby = False, ho_identity = []\<rparr>"

text \<open>What \<open>run_command\<close> returns: success is exit status 0.\<close>

record cmd_result =
  cr_success :: bool
  cr_stdout :: string
  cr_stderr :: string

definition cmd_ok :: "string \<Rightarrow> cmd_result" where
  "cmd_ok out = \<lparr>cr_success = True, cr_stdout = out, cr_stderr = []\<rparr>"

definition cmd_fail :: "string \<Rightarrow> cmd_result" where
  "cmd_fail err = \<lparr>cr_success = False, cr_stdout = [], cr_stderr = err\<rparr>"

section \<open>Lists\<close>

text \<open>Duplicate-free list of the elements in order of first appearance (\<open>dict.fromkeys\<close>).\<close>

fun nub :: "'a list \<Rightarrow> 'a list" where
  "nub [] = []"
| "nub (x # xs) = x # filter (\<lambda>y. y \<noteq> x) (nub xs)"

lemma set_nub [simp]: "set (nub xs) = set xs"
  by (induction xs) auto

lemma distinct_nub [simp]: "distinct (nub xs)"
  by (induction xs) auto

text \<open>\<open>sorted(set(xs))\<close>: ascending, without duplicates.\<close>

definition sorted_set :: "'a::linorder list \<Rightarrow> 'a list" where
  "sorted_set xs = sort (nub xs)"

lemma set_sorted_set [simp]: "set (sorted_set xs) = set xs"
  by (simp add: sorted_set_def)

lemma sorted_sorted_set [simp]: "sorted (sorted_set xs)"
  by (simp add: sorted_set_def)

lemma distinct_sorted_set [simp]: "distinct (sorted_set xs)"
  by (simp add: sorted_set_def)

lemma sorted_set_cong: "set xs = set ys \<Longrightarrow> sorted_set xs = sorted_set ys"
  by (rule sorted_distinct_set_unique) simp_all

lemma sorted_set_idem: "sorted xs \<Longrightarrow> distinct xs \<Longrightarrow> sorted_set xs = xs"
  by (rule sorted_distinct_set_unique) simp_all

text \<open>Python's \<open>max(xs, key=f)\<close>: the first element with the largest key; None for an empty list,
  where Python raises \<open>ValueError\<close>.\<close>

fun py_max :: "('a \<Rightarrow> 'b::linorder) \<Rightarrow> 'a list \<Rightarrow> 'a option" where
  "py_max f [] = None"
| "py_max f (x # xs) = Some (fold (\<lambda>y m. if f m < f y then y else m) xs x)"

lemma fold_max_mem: "fold (\<lambda>y m. if f m < (f y :: 'b::linorder) then y else m) xs x \<in> insert x (set xs)"
  by (induction xs arbitrary: x) auto

lemma fold_max_ge_start:
  fixes f :: "'a \<Rightarrow> 'b::linorder"
  shows "f x \<le> f (fold (\<lambda>y m. if f m < f y then y else m) xs x)"
  by (induction xs arbitrary: x) (auto intro: order_trans less_imp_le)

lemma fold_max_ge:
  fixes f :: "'a \<Rightarrow> 'b::linorder"
  shows "y \<in> set xs \<Longrightarrow> f y \<le> f (fold (\<lambda>y m. if f m < f y then y else m) xs x)"
proof (induction xs arbitrary: x)
  case (Cons a xs)
  let ?m = "if f x < f a then a else x"
  show ?case
  proof (cases "y = a")
    case True
    then have "f y \<le> f ?m" by auto
    also have "f ?m \<le> f (fold (\<lambda>y m. if f m < f y then y else m) xs ?m)"
      by (rule fold_max_ge_start)
    finally show ?thesis by simp
  next
    case False
    with Cons.prems have "y \<in> set xs" by simp
    from Cons.IH [OF this, of ?m] show ?thesis by simp
  qed
qed simp

lemma py_max_None_iff [simp]: "py_max f xs = None \<longleftrightarrow> xs = []"
  by (cases xs) auto

lemma py_max_mem: "py_max f xs = Some m \<Longrightarrow> m \<in> set xs"
  using fold_max_mem by (cases xs) fastforce+

lemma py_max_ge:
  fixes f :: "'a \<Rightarrow> 'b::linorder"
  assumes "py_max f xs = Some m" and "y \<in> set xs"
  shows "f y \<le> f m"
proof (cases xs)
  case (Cons a ys)
  then have m: "m = fold (\<lambda>y m. if f m < f y then y else m) ys a" using assms(1) by simp
  show ?thesis
    using assms(2) fold_max_ge_start [of f a ys] fold_max_ge [of y ys f a] unfolding Cons m by auto
qed (use assms in simp)

lemma fold_map_comp: "fold f (map g xs) s = fold (\<lambda>x. f (g x)) xs s"
  by (induction xs arbitrary: s) auto

lemma map_filter_mem: "y \<in> set (List.map_filter f xs) \<longleftrightarrow> (\<exists>x \<in> set xs. f x = Some y)"
  by (induction xs) (auto simp: List.map_filter_simps split: option.splits)

text \<open>An invariant kept by every step of a loop holds after the loop.\<close>

lemma fold_inv: "P s \<Longrightarrow> (\<And>x s. x \<in> set xs \<Longrightarrow> P s \<Longrightarrow> P (f x s)) \<Longrightarrow> P (fold f xs s)"
  by (induction xs arbitrary: s) auto

lemma sorted_le_last: "sorted xs \<Longrightarrow> x \<in> set xs \<Longrightarrow> x \<le> last xs"
  by (induction xs) (auto split: if_splits)

lemma sorted_hd_le: "sorted xs \<Longrightarrow> x \<in> set xs \<Longrightarrow> hd xs \<le> x"
  by (cases xs) auto

end
