(* ===== verification/PyStr.thy ===== *)
theory PyStr
  imports Prelude
begin

text \<open>
  Python's string operations, as far as the program uses them, on lists of characters. A
  character is a code point below 256; the character classes are those of Python's \<open>str\<close> on
  that range (\<open>isspace\<close>, the line boundaries of \<open>splitlines\<close>, the decimal digits of \<open>int\<close>).
\<close>

section \<open>Character classes\<close>

definition cc :: "char \<Rightarrow> int" where
  "cc c = of_char c"

definition is_digit :: "char \<Rightarrow> bool" where
  "is_digit c = (48 \<le> cc c \<and> cc c \<le> 57)"

definition is_lower :: "char \<Rightarrow> bool" where
  "is_lower c = (97 \<le> cc c \<and> cc c \<le> 122)"

definition is_upper :: "char \<Rightarrow> bool" where
  "is_upper c = (65 \<le> cc c \<and> cc c \<le> 90)"

definition is_alnum :: "char \<Rightarrow> bool" where
  "is_alnum c = (is_lower c \<or> is_upper c \<or> is_digit c)"

definition is_space :: "char \<Rightarrow> bool" where
  "is_space c = (let n = cc c in (9 \<le> n \<and> n \<le> 13) \<or> (28 \<le> n \<and> n \<le> 32) \<or> n = 133 \<or> n = 160)"

definition is_linebreak :: "char \<Rightarrow> bool" where
  "is_linebreak c = (let n = cc c in (10 \<le> n \<and> n \<le> 13) \<or> (28 \<le> n \<and> n \<le> 30) \<or> n = 133)"

definition newline :: char where "newline = CHR 0x0A"
definition tab :: char where "tab = CHR 0x09"

section \<open>Trimming\<close>

definition lstrip :: "string \<Rightarrow> string" where
  "lstrip s = dropWhile is_space s"

definition rstrip :: "string \<Rightarrow> string" where
  "rstrip s = rev (dropWhile is_space (rev s))"

definition strip :: "string \<Rightarrow> string" where
  "strip s = rstrip (lstrip s)"

definition rstrip_chars :: "string \<Rightarrow> string \<Rightarrow> string" where
  "rstrip_chars cs s = rev (dropWhile (\<lambda>c. c \<in> set cs) (rev s))"

definition lstrip_chars :: "string \<Rightarrow> string \<Rightarrow> string" where
  "lstrip_chars cs s = dropWhile (\<lambda>c. c \<in> set cs) s"

section \<open>Searching and splitting\<close>

definition starts_with :: "string \<Rightarrow> string \<Rightarrow> bool" where
  "starts_with p s = (take (length p) s = p)"

fun contains_str :: "string \<Rightarrow> string \<Rightarrow> bool" where
  "contains_str p [] = (p = [])"
| "contains_str p (c # s) = (starts_with p (c # s) \<or> contains_str p s)"

text \<open>\<open>s.split(sep, 1)\<close> on a one-character separator: the two sides of the first one, or None.\<close>

fun split_once :: "char \<Rightarrow> string \<Rightarrow> (string \<times> string) option" where
  "split_once sep [] = None"
| "split_once sep (c # s) =
     (if c = sep then Some ([], s) else map_option (\<lambda>(a, b). (c # a, b)) (split_once sep s))"

text \<open>\<open>s.split(sep)\<close>: never empty.\<close>

fun split_on :: "(char \<Rightarrow> bool) \<Rightarrow> string \<Rightarrow> string list" where
  "split_on P [] = [[]]"
| "split_on P (c # s) =
     (if P c then [] # split_on P s
      else (case split_on P s of [] \<Rightarrow> [[c]] | p # ps \<Rightarrow> (c # p) # ps))"

text \<open>\<open>s.split()\<close>: the maximal runs of non-space characters.\<close>

definition split_ws :: "string \<Rightarrow> string list" where
  "split_ws s = filter (\<lambda>p. p \<noteq> []) (split_on is_space s)"

text \<open>\<open>s.splitlines()\<close>: a carriage return and a following newline are one boundary, and a final
  boundary opens no further line.\<close>

fun squash_crlf :: "string \<Rightarrow> string" where
  "squash_crlf (c # d # s) =
     (if cc c = 13 \<and> cc d = 10 then d # squash_crlf s else c # squash_crlf (d # s))"
| "squash_crlf s = s"

fun lines_of :: "string \<Rightarrow> string list" where
  "lines_of [] = []"
| "lines_of (c # s) =
     (if is_linebreak c then [] # lines_of s
      else (case lines_of s of [] \<Rightarrow> [[c]] | l # ls \<Rightarrow> (c # l) # ls))"

definition splitlines :: "string \<Rightarrow> string list" where
  "splitlines s = lines_of (squash_crlf s)"

fun join :: "string \<Rightarrow> string list \<Rightarrow> string" where
  "join sep [] = []"
| "join sep [p] = p"
| "join sep (p # ps) = p @ sep @ join sep ps"

section \<open>Letter case\<close>

definition lower_char :: "char \<Rightarrow> char" where
  "lower_char c = (let n = cc c in
     if is_upper c \<or> (192 \<le> n \<and> n \<le> 222 \<and> n \<noteq> 215) then char_of (n + 32) else c)"

definition lower_str :: "string \<Rightarrow> string" where
  "lower_str s = map lower_char s"

text \<open>Upper case, for the ASCII and Latin letters whose capital is below 256.\<close>

definition upper_char :: "char \<Rightarrow> string" where
  "upper_char c = (let n = cc c in
     if is_lower c \<or> (224 \<le> n \<and> n \<le> 254 \<and> n \<noteq> 247) then [char_of (n - 32)]
     else if n = 223 then ''SS'' else [c])"

definition upper_str :: "string \<Rightarrow> string" where
  "upper_str s = concat (map upper_char s)"

section \<open>Integers\<close>

definition digit_val :: "char \<Rightarrow> int" where
  "digit_val c = cc c - 48"

definition digits_val :: "string \<Rightarrow> int" where
  "digits_val s = foldl (\<lambda>n c. n * 10 + digit_val c) 0 s"

text \<open>The digits \<open>int()\<close> takes: at least one, single underscores allowed between two digits.\<close>

fun int_digits :: "string \<Rightarrow> string option" where
  "int_digits [] = None"
| "int_digits [c] = (if is_digit c then Some [c] else None)"
| "int_digits (c # d # s) =
     (if \<not> is_digit c then None
      else if d = CHR ''_'' then map_option (Cons c) (int_digits s)
      else map_option (Cons c) (int_digits (d # s)))"

text \<open>\<open>int(s)\<close>: None where Python raises \<open>ValueError\<close>.\<close>

definition py_int :: "string \<Rightarrow> int option" where
  "py_int s = (let t = strip s in
     case t of [] \<Rightarrow> None
     | c # r \<Rightarrow>
        if c = CHR ''-'' then map_option (\<lambda>ds. - digits_val ds) (int_digits r)
        else if c = CHR ''+'' then map_option digits_val (int_digits r)
        else map_option digits_val (int_digits t))"

text \<open>\<open>str(i)\<close>.\<close>

function show_digits :: "int \<Rightarrow> string" where
  "show_digits n = (if n < 10 then [char_of (48 + n)]
                    else show_digits (n div 10) @ [char_of (48 + n mod 10)])"
  by pat_completeness auto
termination
  by (relation "measure nat") auto

declare show_digits.simps [simp del]

definition show_nat :: "nat \<Rightarrow> string" where
  "show_nat n = show_digits (int n)"

definition show_int :: "int \<Rightarrow> string" where
  "show_int i = (if i < 0 then CHR ''-'' # show_digits (- i) else show_digits i)"

text \<open>\<open>str.isdigit\<close> below 256: the decimal digits and the three superscripts.\<close>

definition is_digit_str :: "string \<Rightarrow> bool" where
  "is_digit_str s = (s \<noteq> [] \<and> list_all (\<lambda>c. is_digit c \<or> cc c = 178 \<or> cc c = 179 \<or> cc c = 185) s)"

section \<open>Lemmas\<close>

lemma dropWhile_idem [simp]: "dropWhile P (dropWhile P xs) = dropWhile P xs"
  by (induction xs) auto

lemma rstrip_rstrip [simp]: "rstrip (rstrip s) = rstrip s"
  by (simp add: rstrip_def)

lemma set_strip: "set (strip s) \<subseteq> set s"
  unfolding strip_def rstrip_def lstrip_def
  by (metis (no_types, opaque_lifting) set_dropWhileD set_rev subsetI)

lemma dropWhile_fix: "dropWhile P xs = xs \<longleftrightarrow> (xs = [] \<or> \<not> P (hd xs))"
proof
  assume *: "dropWhile P xs = xs"
  show "xs = [] \<or> \<not> P (hd xs)"
  proof (cases xs)
    case (Cons a ys)
    have "length (dropWhile P ys) \<le> length ys" by (rule length_dropWhile_le)
    with * Cons show ?thesis by (auto split: if_splits)
  qed simp
next
  assume "xs = [] \<or> \<not> P (hd xs)"
  then show "dropWhile P xs = xs" by (cases xs) auto
qed

lemma rstrip_hd: "s \<noteq> [] \<Longrightarrow> \<not> is_space (hd s) \<Longrightarrow> rstrip s \<noteq> [] \<and> hd (rstrip s) = hd s"
proof (induction s rule: rev_induct)
  case (snoc x xs)
  show ?case
  proof (cases "is_space x")
    case True
    with snoc have "xs \<noteq> []" by (cases xs) auto
    with snoc True show ?thesis by (simp add: rstrip_def)
  next
    case False
    then show ?thesis by (simp add: rstrip_def)
  qed
qed simp

lemma rstrip_last: "rstrip s \<noteq> [] \<Longrightarrow> \<not> is_space (last (rstrip s))"
proof -
  assume "rstrip s \<noteq> []"
  then have "dropWhile is_space (rev s) \<noteq> []" by (simp add: rstrip_def)
  then show ?thesis by (simp only: rstrip_def last_rev) (rule hd_dropWhile)
qed

lemma strip_last: "strip s \<noteq> [] \<Longrightarrow> \<not> is_space (last (strip s))"
  unfolding strip_def by (rule rstrip_last)

lemma strip_hd: "strip s \<noteq> [] \<Longrightarrow> \<not> is_space (hd (strip s))"
proof -
  assume "strip s \<noteq> []"
  then have ne: "lstrip s \<noteq> []" by (auto simp: strip_def rstrip_def)
  then have "\<not> is_space (hd (lstrip s))" unfolding lstrip_def by (rule hd_dropWhile)
  with ne show ?thesis using rstrip_hd unfolding strip_def by metis
qed

lemma rstrip_id: "s = [] \<or> \<not> is_space (last s) \<Longrightarrow> rstrip s = s"
proof (cases "s = []")
  case False
  assume "s = [] \<or> \<not> is_space (last s)"
  with False have "dropWhile is_space (rev s) = rev s" by (simp only: dropWhile_fix hd_rev) simp
  then show ?thesis by (simp add: rstrip_def)
qed (simp add: rstrip_def)

lemma lstrip_id: "s = [] \<or> \<not> is_space (hd s) \<Longrightarrow> lstrip s = s"
  by (auto simp: lstrip_def dropWhile_fix)

lemma strip_id: "s \<noteq> [] \<Longrightarrow> \<not> is_space (hd s) \<Longrightarrow> \<not> is_space (last s) \<Longrightarrow> strip s = s"
  by (simp add: strip_def lstrip_id rstrip_id)

lemma strip_strip [simp]: "strip (strip s) = strip s"
proof (cases "strip s = []")
  case True
  have "strip [] = []" by (simp add: strip_def lstrip_def rstrip_def)
  with True show ?thesis by simp
next
  case False
  then show ?thesis by (intro strip_id strip_hd strip_last)
qed

lemma starts_with_append [simp]: "starts_with p (p @ s)"
  by (simp add: starts_with_def)

lemma starts_with_iff: "starts_with p s \<longleftrightarrow> (\<exists>t. s = p @ t)"
  by (auto simp: starts_with_def) (metis append_take_drop_id)

lemma starts_withD: "starts_with p s \<Longrightarrow> s = p @ drop (length p) s"
  by (auto simp: starts_with_iff)

lemma contains_str_iff: "contains_str p s \<longleftrightarrow> (\<exists>a b. s = a @ p @ b)"
proof (induction s)
  case (Cons c s)
  show ?case
  proof
    assume "contains_str p (c # s)"
    then consider "starts_with p (c # s)" | "contains_str p s" by auto
    then show "\<exists>a b. c # s = a @ p @ b"
    proof cases
      case 1
      then obtain t where "c # s = p @ t" by (auto simp: starts_with_iff)
      then show ?thesis by (metis append_Nil)
    next
      case 2
      with Cons.IH obtain a b where "s = a @ p @ b" by blast
      then show ?thesis by (metis append_Cons)
    qed
  next
    assume "\<exists>a b. c # s = a @ p @ b"
    then obtain a b where ab: "c # s = a @ p @ b" by blast
    show "contains_str p (c # s)"
    proof (cases a)
      case Nil
      with ab have "starts_with p (c # s)" by (simp add: starts_with_iff)
      then show ?thesis by simp
    next
      case (Cons x a')
      with ab have "s = a' @ p @ b" by simp
      then have "contains_str p s" using Cons.IH by blast
      then show ?thesis by simp
    qed
  qed
qed auto

lemma split_once_Some: "split_once sep s = Some (a, b) \<longleftrightarrow> s = a @ sep # b \<and> sep \<notin> set a"
proof (induction s arbitrary: a)
  case (Cons c s)
  show ?case
  proof (cases "c = sep")
    case True
    then show ?thesis by (cases a) auto
  next
    case False
    with Cons.IH show ?thesis by (cases a) auto
  qed
qed simp

lemma split_once_None: "split_once sep s = None \<longleftrightarrow> sep \<notin> set s"
  by (induction s) auto

lemma split_on_ne [simp]: "split_on P s \<noteq> []"
  by (induction s) (auto split: list.splits)

lemma split_on_parts: "p \<in> set (split_on P s) \<Longrightarrow> list_all (\<lambda>c. \<not> P c) p"
proof (induction s arbitrary: p)
  case (Cons c s)
  then show ?case
    by (cases "split_on P s") (auto split: if_splits)
qed simp

lemma split_on_none: "list_all (\<lambda>c. \<not> P c) s \<Longrightarrow> split_on P s = [s]"
  by (induction s) auto

lemma split_on_append:
  "list_all (\<lambda>c. \<not> P c) a \<Longrightarrow> P c \<Longrightarrow> split_on P (a @ c # s) = a # split_on P s"
  by (induction a) auto

text \<open>\<open>sep.join(s.split(sep))\<close> is \<open>s\<close>.\<close>

lemma join_split_on: "join [sep] (split_on (\<lambda>c. c = sep) s) = s"
proof (induction s)
  case (Cons c s)
  obtain p ps where ps: "split_on (\<lambda>c. c = sep) s = p # ps"
    by (cases "split_on (\<lambda>c. c = sep) s") auto
  with Cons show ?case by (cases ps) auto
qed simp

lemma split_on_join:
  "ps \<noteq> [] \<Longrightarrow> \<forall>p \<in> set ps. list_all (\<lambda>c. c \<noteq> sep) p \<Longrightarrow> split_on (\<lambda>c. c = sep) (join [sep] ps) = ps"
proof (induction ps)
  case (Cons p ps)
  then show ?case by (cases ps) (simp_all add: split_on_append split_on_none)
qed simp

text \<open>Lines without a boundary inside survive being joined by newlines, if the last is not empty.\<close>

definition plain_line :: "string \<Rightarrow> bool" where
  "plain_line l = list_all (\<lambda>c. \<not> is_linebreak c) l"

lemma squash_id: "list_all (\<lambda>c. cc c \<noteq> 13) s \<Longrightarrow> squash_crlf s = s"
  by (induction s rule: squash_crlf.induct) auto

lemma lines_of_plain: "plain_line l \<Longrightarrow> l \<noteq> [] \<Longrightarrow> lines_of l = [l]"
proof (induction l)
  case (Cons c l)
  then show ?case by (cases "l = []") (auto simp: plain_line_def)
qed simp

lemma lines_of_append:
  "plain_line l \<Longrightarrow> is_linebreak c \<Longrightarrow> lines_of (l @ c # s) = l # lines_of s"
  by (induction l) (auto simp: plain_line_def)

lemma newline_break [simp]: "is_linebreak newline"
  by (simp add: is_linebreak_def newline_def cc_def)

lemma lines_of_join:
  "ls \<noteq> [] \<Longrightarrow> last ls \<noteq> [] \<Longrightarrow> \<forall>l \<in> set ls. plain_line l \<Longrightarrow> lines_of (join [newline] ls) = ls"
proof (induction ls)
  case (Cons l ls)
  then show ?case by (cases ls) (simp_all add: lines_of_plain lines_of_append)
qed simp

lemma splitlines_plain: "l \<in> set (splitlines s) \<Longrightarrow> plain_line l"
proof -
  have "l \<in> set (lines_of t) \<Longrightarrow> plain_line l" for t
    by (induction t arbitrary: l) (auto simp: plain_line_def split: if_splits list.splits)
  then show "l \<in> set (splitlines s) \<Longrightarrow> plain_line l" by (simp add: splitlines_def)
qed

lemma cc_bounds [simp]: "0 \<le> cc c" "cc c < 256"
proof -
  have "cc c = cc c mod 256" by (simp add: cc_def)
  then show "0 \<le> cc c" "cc c < 256" by presburger+
qed

lemma cc_char_of [simp]: "0 \<le> n \<Longrightarrow> n < 256 \<Longrightarrow> cc (char_of n) = n"
  by (simp add: cc_def)

lemma is_digit_char_of: "(0::int) \<le> d \<Longrightarrow> d < 10 \<Longrightarrow> is_digit (char_of (48 + d))"
  by (simp add: is_digit_def)

lemma show_digits_ne [simp]: "show_digits n \<noteq> []"
  by (subst show_digits.simps) simp

lemma show_digits_digits: "0 \<le> n \<Longrightarrow> list_all is_digit (show_digits n)"
proof (induction n rule: show_digits.induct)
  case (1 n)
  have "0 \<le> n mod 10" "n mod 10 < 10" by simp_all
  with 1 show ?case
    by (subst show_digits.simps) (auto simp: is_digit_char_of)
qed

lemma digits_val_snoc: "digits_val (s @ [c]) = digits_val s * 10 + digit_val c"
  by (simp add: digits_val_def)

lemma digits_val_show: "0 \<le> n \<Longrightarrow> digits_val (show_digits n) = n"
proof (induction n rule: show_digits.induct)
  case (1 n)
  show ?case
  proof (cases "n < 10")
    case True
    with "1.prems" show ?thesis
      by (subst show_digits.simps) (simp add: digits_val_def digit_val_def)
  next
    case False
    have m: "0 \<le> n mod 10" "n mod 10 < 10" by simp_all
    have "digits_val (show_digits n) = digits_val (show_digits (n div 10)) * 10 + n mod 10"
      using False m by (subst show_digits.simps) (simp add: digits_val_snoc digit_val_def)
    with 1 False have "digits_val (show_digits n) = n div 10 * 10 + n mod 10" by simp
    then show ?thesis by simp
  qed
qed

lemma show_nat_ne [simp]: "show_nat n \<noteq> []"
  by (simp add: show_nat_def)

lemma show_nat_digits: "list_all is_digit (show_nat n)"
  by (simp add: show_nat_def show_digits_digits)

lemma digit_not_special:
  "is_digit c \<Longrightarrow> c \<noteq> CHR ''_'' \<and> c \<noteq> CHR ''-'' \<and> c \<noteq> CHR ''+'' \<and> \<not> is_space c \<and> c \<noteq> newline
     \<and> c \<noteq> CHR ''/'' \<and> c \<noteq> CHR ''.'' \<and> c \<noteq> CHR '':'' \<and> c \<noteq> CHR '','' \<and> c \<noteq> CHR ''@''"
  by (auto simp: is_digit_def is_space_def cc_def newline_def)

lemma digit_not_space: "is_digit c \<Longrightarrow> \<not> is_space c"
  using digit_not_special by blast

lemma int_digits_all: "s \<noteq> [] \<Longrightarrow> list_all is_digit s \<Longrightarrow> int_digits s = Some s"
proof (induction s rule: int_digits.induct)
  case (3 c d s)
  then show ?case by (auto simp: digit_not_special)
qed auto

lemma py_int_digits: "s \<noteq> [] \<Longrightarrow> list_all is_digit s \<Longrightarrow> py_int s = Some (digits_val s)"
proof -
  assume ne: "s \<noteq> []" and d: "list_all is_digit s"
  then have "is_digit (hd s)" "is_digit (last s)" by (auto simp: list_all_iff)
  with ne have "strip s = s" by (intro strip_id) (auto dest: digit_not_special)
  with ne d show ?thesis
    by (cases s) (auto simp: py_int_def int_digits_all dest: digit_not_special)
qed

text \<open>Parsing a printed number gives it back.\<close>

lemma py_int_show_digits: "0 \<le> n \<Longrightarrow> py_int (show_digits n) = Some n"
  by (simp add: py_int_digits show_digits_digits digits_val_show)

lemma py_int_show_nat: "py_int (show_nat n) = Some (int n)"
  by (simp add: show_nat_def py_int_show_digits)

lemma strip_neg: "0 \<le> n \<Longrightarrow> strip (CHR ''-'' # show_digits n) = CHR ''-'' # show_digits n"
proof (rule strip_id)
  assume "0 \<le> n"
  then have "is_digit (last (show_digits n))"
    using show_digits_digits [of n] by (simp add: list_all_iff)
  then show "\<not> is_space (last (CHR ''-'' # show_digits n))" by (simp add: digit_not_space)
qed (simp_all add: is_space_def cc_def)

lemma py_int_show_int: "py_int (show_int i) = Some i"
proof (cases "i < 0")
  case False
  then show ?thesis by (simp add: show_int_def py_int_show_digits)
next
  case True
  then show ?thesis
    by (simp add: show_int_def py_int_def strip_neg int_digits_all show_digits_digits digits_val_show)
qed

lemma show_int_inj: "show_int i = show_int j \<Longrightarrow> i = j"
  by (metis option.inject py_int_show_int)

lemma show_nat_inj: "show_nat m = show_nat n \<Longrightarrow> m = n"
  by (metis option.inject py_int_show_nat of_nat_eq_iff)

text \<open>Every part occurs in the joined text.\<close>

lemma contains_str_append: "contains_str p s \<Longrightarrow> contains_str p (a @ s @ b)"
  unfolding contains_str_iff by (metis append_assoc)

lemma contains_str_refl [simp]: "contains_str p p"
  unfolding contains_str_iff by (metis append_Nil append_Nil2)

lemma join_contains: "p \<in> set ps \<Longrightarrow> contains_str p (join sep ps)"
proof (induction ps)
  case (Cons q qs)
  show ?case
  proof (cases qs)
    case Nil
    with Cons.prems show ?thesis by simp
  next
    case (Cons r rs)
    with Cons.prems Cons.IH consider "p = q" | "contains_str p (join sep qs)" by auto
    then show ?thesis
    proof cases
      case 1
      then show ?thesis using contains_str_append [OF contains_str_refl, of q "[]"] Cons by simp
    next
      case 2
      then show ?thesis using contains_str_append [OF 2, of "q @ sep" "[]"] Cons by simp
    qed
  qed
qed simp


lemma set_join: "set (join sep ls) \<subseteq> set sep \<union> (\<Union>l \<in> set ls. set l)"
proof (induction ls)
  case (Cons l ls)
  then show ?case by (cases ls) auto
qed simp

lemma splitlines_join:
  assumes "ls \<noteq> []" "last ls \<noteq> []" "\<forall>l \<in> set ls. plain_line l"
  shows "splitlines (join [newline] ls) = ls"
proof -
  have "cc c \<noteq> 13" if "c \<in> set (join [newline] ls)" for c
  proof (cases "c = newline")
    case False
    with that set_join [of "[newline]" ls] obtain l where l: "l \<in> set ls" "c \<in> set l" by auto
    with assms(3) have "\<not> is_linebreak c" by (auto simp: plain_line_def list_all_iff)
    then show ?thesis by (auto simp: is_linebreak_def Let_def)
  qed (simp add: newline_def cc_def)
  then have "squash_crlf (join [newline] ls) = join [newline] ls"
    by (intro squash_id) (simp add: list_all_iff)
  then show ?thesis unfolding splitlines_def using lines_of_join [OF assms] by simp
qed

text \<open>The same with a newline after the last line, empty lines allowed.\<close>

lemma lines_of_join_nl:
  "\<forall>l \<in> set ls. plain_line l \<Longrightarrow> ls \<noteq> [] \<Longrightarrow> lines_of (join [newline] ls @ [newline]) = ls"
proof (induction ls)
  case (Cons l ls)
  then have "lines_of (l @ newline # s) = l # lines_of s" for s by (simp add: lines_of_append)
  with Cons show ?case by (cases ls) auto
qed simp

lemma splitlines_join_nl:
  assumes "\<forall>l \<in> set ls. plain_line l" "ls \<noteq> []"
  shows "splitlines (join [newline] ls @ [newline]) = ls"
proof -
  have nl: "cc newline \<noteq> 13" by (simp add: newline_def cc_def)
  have "cc c \<noteq> 13" if "c \<in> set (join [newline] ls)" for c
  proof (cases "c = newline")
    case False
    with that set_join [of "[newline]" ls] obtain l where l: "l \<in> set ls" "c \<in> set l" by auto
    with assms(1) have "\<not> is_linebreak c" by (auto simp: plain_line_def list_all_iff)
    then show ?thesis by (auto simp: is_linebreak_def Let_def)
  qed (simp add: nl)
  then have "squash_crlf (join [newline] ls @ [newline]) = join [newline] ls @ [newline]"
    using nl by (intro squash_id) (auto simp: list_all_iff)
  then show ?thesis unfolding splitlines_def using lines_of_join_nl [OF assms] by simp
qed

lemma show_int_chars: "c \<in> set (show_int i) \<Longrightarrow> is_digit c \<or> c = CHR ''-''"
  using show_digits_digits [of i] show_digits_digits [of "- i"]
  by (auto simp: show_int_def list_all_iff split: if_splits)

lemma linebreak_space: "is_linebreak c \<Longrightarrow> is_space c"
  by (auto simp: is_linebreak_def is_space_def Let_def)

end
