(* ===== verification/PyRegex.thy ===== *)
theory PyRegex
  imports PyStr
begin

text \<open>
  The regular expressions of Python's \<open>re\<close>, as far as the program uses them: a pattern is a
  value of type \<open>re\<close>, and \<open>steps\<close> enumerates the matches from a position in the order in which
  the backtracking matcher of \<open>re\<close> tries them, so the first is the one \<open>re\<close> reports. Greedy and
  lazy repetition, groups, \<open>^\<close>, \<open>$\<close> (which also matches before a final newline) and one-character
  lookbehind are there; a match remembers the text before it, the text after it and its groups.
\<close>

datatype re =
    Emp
  | Ch "char \<Rightarrow> bool"
  | Seq re re
  | Alt re re
  | Star re
  | Lazy re
  | Grp nat re
  | Bol
  | Eol
  | NotBehind "char \<Rightarrow> bool"
  | Ahead re

type_synonym groups = "(nat \<times> string) list"

text \<open>The text already consumed (reversed), the text still to match, the groups set so far.\<close>

type_synonym mstate = "string \<times> string \<times> groups"

fun ch_step :: "(char \<Rightarrow> bool) \<Rightarrow> mstate \<Rightarrow> mstate list" where
  "ch_step P (b, [], g) = []"
| "ch_step P (b, c # s, g) = (if P c then [(c # b, s, g)] else [])"

fun close_group :: "nat \<Rightarrow> string \<Rightarrow> mstate \<Rightarrow> mstate" where
  "close_group n s (b', s', g') = (b', s', (n, take (length s - length s') s) # g')"

fun rest_of :: "mstate \<Rightarrow> string" where
  "rest_of (b, s, g) = s"

function steps :: "re \<Rightarrow> mstate \<Rightarrow> mstate list" where
  "steps Emp st = [st]"
| "steps (Ch P) st = ch_step P st"
| "steps (Seq r1 r2) st = concat (map (steps r2) (steps r1 st))"
| "steps (Alt r1 r2) st = steps r1 st @ steps r2 st"
| "steps (Star r) st =
     concat (map (\<lambda>t. if length (rest_of t) < length (rest_of st) then steps (Star r) t else [])
       (steps r st)) @ [st]"
| "steps (Lazy r) st =
     st # concat (map (\<lambda>t. if length (rest_of t) < length (rest_of st) then steps (Lazy r) t else [])
       (steps r st))"
| "steps (Grp n r) st = map (close_group n (rest_of st)) (steps r st)"
| "steps Bol st = (if fst st = [] then [st] else [])"
| "steps Eol st = (if rest_of st = [] \<or> rest_of st = [newline] then [st] else [])"
| "steps (NotBehind P) st = (case fst st of [] \<Rightarrow> [st] | c # _ \<Rightarrow> (if P c then [] else [st]))"
| "steps (Ahead r) st = (if steps r st = [] then [] else [st])"
  by pat_completeness auto
termination
  by (relation "measures [\<lambda>(r, st). size r, \<lambda>(r, st). length (rest_of st)]") auto

section \<open>The functions of the module\<close>

definition re_match :: "re \<Rightarrow> string \<Rightarrow> mstate option" where
  "re_match r s = (case steps r ([], s, []) of [] \<Rightarrow> None | m # _ \<Rightarrow> Some m)"

definition re_test :: "re \<Rightarrow> string \<Rightarrow> bool" where
  "re_test r s = (steps r ([], s, []) \<noteq> [])"

fun search_from :: "re \<Rightarrow> string \<Rightarrow> string \<Rightarrow> mstate option" where
  "search_from r b [] = (case steps r (b, [], []) of m # _ \<Rightarrow> Some m | [] \<Rightarrow> None)"
| "search_from r b (c # s) =
     (case steps r (b, c # s, []) of m # _ \<Rightarrow> Some m | [] \<Rightarrow> search_from r (c # b) s)"

definition re_search :: "re \<Rightarrow> string \<Rightarrow> mstate option" where
  "re_search r s = search_from r [] s"

definition group :: "nat \<Rightarrow> mstate \<Rightarrow> string option" where
  "group n m = map_of (snd (snd m)) n"

definition group_str :: "nat \<Rightarrow> mstate \<Rightarrow> string" where
  "group_str n m = (case group n m of None \<Rightarrow> [] | Some s \<Rightarrow> s)"

text \<open>\<open>re.sub\<close> for patterns that never match the empty string.\<close>

function sub_from :: "re \<Rightarrow> string \<Rightarrow> string \<Rightarrow> string \<Rightarrow> string" where
  "sub_from r repl b s =
     (case steps r (b, s, []) of
        (b', s', g) # _ \<Rightarrow>
          (if length s' < length s then repl @ sub_from r repl b' s'
           else (case s of [] \<Rightarrow> [] | c # t \<Rightarrow> c # sub_from r repl (c # b) t))
      | [] \<Rightarrow> (case s of [] \<Rightarrow> [] | c # t \<Rightarrow> c # sub_from r repl (c # b) t))"
  by pat_completeness auto
termination
  by (relation "measure (\<lambda>(r, repl, b, s). length s)") auto

declare sub_from.simps [simp del]

definition re_sub :: "re \<Rightarrow> string \<Rightarrow> string \<Rightarrow> string" where
  "re_sub r repl s = sub_from r repl [] s"

section \<open>Derived patterns\<close>

definition opt :: "re \<Rightarrow> re" where "opt r = Alt r Emp"
definition plus :: "re \<Rightarrow> re" where "plus r = Seq r (Star r)"
definition chr :: "char \<Rightarrow> re" where "chr c = Ch (\<lambda>x. x = c)"
definition any_char :: re where "any_char = Ch (\<lambda>c. c \<noteq> newline)"

fun lit :: "string \<Rightarrow> re" where
  "lit [] = Emp"
| "lit [c] = chr c"
| "lit (c # s) = Seq (chr c) (lit s)"

fun seqs :: "re list \<Rightarrow> re" where
  "seqs [] = Emp"
| "seqs [r] = r"
| "seqs (r # rs) = Seq r (seqs rs)"

fun times :: "nat \<Rightarrow> re \<Rightarrow> re" where
  "times 0 r = Emp"
| "times (Suc n) r = Seq r (times n r)"

text \<open>\<open>r{0,n}\<close>, greedy.\<close>

fun upto :: "nat \<Rightarrow> re \<Rightarrow> re" where
  "upto 0 r = Emp"
| "upto (Suc n) r = Alt (Seq r (upto n r)) Emp"

definition one_of :: "string \<Rightarrow> char \<Rightarrow> bool" where
  "one_of s c = (c \<in> set s)"

section \<open>What a match is\<close>

declare steps.simps(5,6) [simp del]

text \<open>A match consumes a prefix of the text and adds it to what is before it.\<close>

definition extends :: "mstate \<Rightarrow> mstate \<Rightarrow> bool" where
  "extends st t = (\<exists>p. rest_of st = p @ rest_of t \<and> fst t = rev p @ fst st)"

lemma extends_refl: "extends st st"
  by (simp add: extends_def)

lemma extends_trans: "extends r s \<Longrightarrow> extends s t \<Longrightarrow> extends r t"
  by (auto simp: extends_def)

lemma extends_ch: "t \<in> set (ch_step P st) \<Longrightarrow> extends st t"
  by (cases "(P, st)" rule: ch_step.cases) (auto simp: extends_def split: if_splits)

lemma close_group_same [simp]:
  "rest_of (close_group n s t) = rest_of t" "fst (close_group n s t) = fst t"
  by (cases t; simp)+

lemma star_cases:
  "t \<in> set (steps (Star r) st) \<longleftrightarrow>
   t = st \<or> (\<exists>u \<in> set (steps r st). length (rest_of u) < length (rest_of st) \<and> t \<in> set (steps (Star r) u))"
  by (subst steps.simps) (auto split: if_splits)

lemma lazy_cases:
  "t \<in> set (steps (Lazy r) st) \<longleftrightarrow>
   t = st \<or> (\<exists>u \<in> set (steps r st). length (rest_of u) < length (rest_of st) \<and> t \<in> set (steps (Lazy r) u))"
  by (subst steps.simps) (auto split: if_splits)

lemma steps_extends: "t \<in> set (steps r st) \<Longrightarrow> extends st t"
proof (induction r st arbitrary: t rule: steps.induct)
  case (2 P st)
  then show ?case by (simp add: extends_ch)
next
  case (3 r1 r2 st)
  then obtain u where u: "u \<in> set (steps r1 st)" "t \<in> set (steps r2 u)" by auto
  show ?case by (rule extends_trans [OF "3.IH"(1) [OF u(1)] "3.IH"(2) [OF u]])
next
  case (5 r st)
  from star_cases [THEN iffD1, OF "5.prems"] show ?case
  proof (elim disjE bexE conjE)
    fix u assume u: "u \<in> set (steps r st)" "length (rest_of u) < length (rest_of st)"
      "t \<in> set (steps (Star r) u)"
    show ?thesis by (rule extends_trans [OF "5.IH"(1) [OF u(1)] "5.IH"(2) [OF u]])
  qed (simp add: extends_refl)
next
  case (6 r st)
  from lazy_cases [THEN iffD1, OF "6.prems"] show ?case
  proof (elim disjE bexE conjE)
    fix u assume u: "u \<in> set (steps r st)" "length (rest_of u) < length (rest_of st)"
      "t \<in> set (steps (Lazy r) u)"
    show ?thesis by (rule extends_trans [OF "6.IH"(1) [OF u(1)] "6.IH"(2) [OF u]])
  qed (simp add: extends_refl)
next
  case (7 n r st)
  then show ?case by (auto simp: extends_def)
next
  case (10 P st)
  then show ?case by (auto simp: extends_refl split: list.splits if_splits)
qed (auto simp: extends_refl split: if_splits)

lemma steps_suffix: "t \<in> set (steps r (b, s, g)) \<Longrightarrow> \<exists>p. s = p @ rest_of t \<and> fst t = rev p @ b"
  using steps_extends by (fastforce simp: extends_def)

section \<open>Character classes under a star\<close>

lemma steps_star_ch:
  "steps (Star (Ch P)) (b, s, g) =
   map (\<lambda>k. (rev (take k s) @ b, drop k s, g)) (rev [0..<Suc (length (takeWhile P s))])"
proof (induction s arbitrary: b)
  case (Cons c s)
  show ?case
  proof (cases "P c")
    case True
    have "steps (Star (Ch P)) (b, c # s, g) = steps (Star (Ch P)) (c # b, s, g) @ [(b, c # s, g)]"
      using True by (subst steps.simps) simp
    also have "\<dots> = map (\<lambda>k. (rev (take k (c # s)) @ b, drop k (c # s), g))
        (rev (map Suc [0..<Suc (length (takeWhile P s))])) @ [(b, c # s, g)]"
      unfolding Cons.IH by (simp add: rev_map comp_def del: upt_Suc)
    also have "map Suc [0..<Suc (length (takeWhile P s))] = [1..<Suc (length (takeWhile P (c # s)))]"
      using True by (simp add: map_Suc_upt del: upt_Suc)
    also have "map (\<lambda>k. (rev (take k (c # s)) @ b, drop k (c # s), g))
        (rev [1..<Suc (length (takeWhile P (c # s)))]) @ [(b, c # s, g)]
      = map (\<lambda>k. (rev (take k (c # s)) @ b, drop k (c # s), g))
        (rev (0 # [1..<Suc (length (takeWhile P (c # s)))]))" by simp
    also have "0 # [1..<Suc (length (takeWhile P (c # s)))] = [0..<Suc (length (takeWhile P (c # s)))]"
      by (simp add: upt_conv_Cons del: upt_Suc)
    finally show ?thesis .
  next
    case False
    then show ?thesis by (subst steps.simps) simp
  qed
next
  case Nil
  show ?case by (subst steps.simps) simp
qed

text \<open>The lazy star tries the shortest first.\<close>

lemma steps_lazy_ch:
  "steps (Lazy (Ch P)) (b, s, g) =
   map (\<lambda>k. (rev (take k s) @ b, drop k s, g)) [0..<Suc (length (takeWhile P s))]"
proof (induction s arbitrary: b)
  case (Cons c s)
  show ?case
  proof (cases "P c")
    case True
    have "steps (Lazy (Ch P)) (b, c # s, g) = (b, c # s, g) # steps (Lazy (Ch P)) (c # b, s, g)"
      using True by (subst steps.simps) simp
    also have "\<dots> = (b, c # s, g) # map (\<lambda>k. (rev (take k (c # s)) @ b, drop k (c # s), g))
        (map Suc [0..<Suc (length (takeWhile P s))])"
      unfolding Cons.IH by (simp add: comp_def del: upt_Suc)
    also have "map Suc [0..<Suc (length (takeWhile P s))] = [1..<Suc (length (takeWhile P (c # s)))]"
      using True by (simp add: map_Suc_upt del: upt_Suc)
    also have "(b, c # s, g) # map (\<lambda>k. (rev (take k (c # s)) @ b, drop k (c # s), g)) [1..<Suc (length (takeWhile P (c # s)))]
      = map (\<lambda>k. (rev (take k (c # s)) @ b, drop k (c # s), g)) (0 # [1..<Suc (length (takeWhile P (c # s)))])" by simp
    also have "0 # [1..<Suc (length (takeWhile P (c # s)))] = [0..<Suc (length (takeWhile P (c # s)))]"
      by (simp add: upt_conv_Cons del: upt_Suc)
    finally show ?thesis .
  next
    case False
    then show ?thesis by (subst steps.simps) simp
  qed
next
  case Nil
  show ?case by (subst steps.simps) simp
qed

lemma steps_star_ch_first:
  "\<exists>ts. steps (Star (Ch P)) (b, s, g) = (rev (takeWhile P s) @ b, dropWhile P s, g) # ts"
  unfolding steps_star_ch
  by (simp add: takeWhile_eq_take [symmetric] dropWhile_eq_drop [symmetric])

lemma takeWhile_list_all: "k \<le> length (takeWhile P s) \<Longrightarrow> list_all P (take k s)"
proof (induction s arbitrary: k)
  case (Cons c s)
  then show ?case by (cases k) (auto split: if_splits)
qed simp

lemma set_steps_star_ch:
  "t \<in> set (steps (Star (Ch P)) (b, s, g)) \<longleftrightarrow>
   (\<exists>u v. s = u @ v \<and> list_all P u \<and> t = (rev u @ b, v, g))"
proof
  assume "t \<in> set (steps (Star (Ch P)) (b, s, g))"
  then obtain k where "k \<in> set (rev [0..<Suc (length (takeWhile P s))])"
    and t: "t = (rev (take k s) @ b, drop k s, g)"
    unfolding steps_star_ch set_map by blast
  then have k: "k \<le> length (takeWhile P s)" by (simp del: upt_Suc)
  have "list_all P (take k s)" by (rule takeWhile_list_all [OF k])
  with t show "\<exists>u v. s = u @ v \<and> list_all P u \<and> t = (rev u @ b, v, g)"
    by (intro exI [of _ "take k s"] exI [of _ "drop k s"]) simp
next
  assume "\<exists>u v. s = u @ v \<and> list_all P u \<and> t = (rev u @ b, v, g)"
  then obtain u v where uv: "s = u @ v" "list_all P u" "t = (rev u @ b, v, g)" by blast
  then have "takeWhile P s = u @ takeWhile P v" by (simp add: takeWhile_append2 list_all_iff)
  then have "length u < Suc (length (takeWhile P s))" by simp
  then have "length u \<in> set (rev [0..<Suc (length (takeWhile P s))])" by (simp del: upt_Suc)
  moreover have "t = (rev (take (length u) s) @ b, drop (length u) s, g)" using uv by simp
  ultimately show "t \<in> set (steps (Star (Ch P)) (b, s, g))"
    unfolding steps_star_ch set_map by (rule rev_image_eqI)
qed

lemma steps_ne_iff: "steps r st \<noteq> [] \<longleftrightarrow> (\<exists>t. t \<in> set (steps r st))"
  by (cases "steps r st") auto

text \<open>The whitelist patterns \<open>^[first][rest]*$\<close>: a first character, then only allowed ones, then
  the end or a final newline.\<close>

definition whitelist :: "(char \<Rightarrow> bool) \<Rightarrow> (char \<Rightarrow> bool) \<Rightarrow> re" where
  "whitelist P Q = seqs [Bol, Ch P, Star (Ch Q), Eol]"

lemma whitelist_iff:
  "re_test (whitelist P Q) s \<longleftrightarrow>
   (\<exists>c u v. s = c # u @ v \<and> P c \<and> list_all Q u \<and> (v = [] \<or> v = [newline]))"
proof (cases s)
  case (Cons c t)
  have "re_test (whitelist P Q) s \<longleftrightarrow>
    P c \<and> (\<exists>x \<in> set (steps (Star (Ch Q)) ([c], t, [])). rest_of x = [] \<or> rest_of x = [newline])"
    by (auto simp: re_test_def whitelist_def Cons)
  also have "\<dots> \<longleftrightarrow> P c \<and> (\<exists>u v. t = u @ v \<and> list_all Q u \<and> (v = [] \<or> v = [newline]))"
  proof (intro conj_cong refl iffI; (elim bexE exE conjE)?)
    fix x assume "x \<in> set (steps (Star (Ch Q)) ([c], t, []))" "rest_of x = [] \<or> rest_of x = [newline]"
    then show "\<exists>u v. t = u @ v \<and> list_all Q u \<and> (v = [] \<or> v = [newline])"
      unfolding set_steps_star_ch by (elim exE conjE) (rule exI, rule exI, simp)
  next
    fix u v assume *: "t = u @ v" "list_all Q u" "v = [] \<or> v = [newline]"
    then have "(rev u @ [c], v, []) \<in> set (steps (Star (Ch Q)) ([c], t, []))"
      unfolding set_steps_star_ch by blast
    with * show "\<exists>x \<in> set (steps (Star (Ch Q)) ([c], t, [])). rest_of x = [] \<or> rest_of x = [newline]"
      by (intro bexI [of _ "(rev u @ [c], v, [])"]) auto
  qed
  also have "\<dots> \<longleftrightarrow> (\<exists>d u v. s = d # u @ v \<and> P d \<and> list_all Q u \<and> (v = [] \<or> v = [newline]))"
    unfolding Cons by blast
  finally show ?thesis .
qed (simp add: re_test_def whitelist_def)

text \<open>Text that has been stripped cannot end in the newline that \<open>$\<close> would let through.\<close>

lemma whitelist_strip:
  "re_test (whitelist P Q) (strip s) \<longleftrightarrow>
   (\<exists>c u. strip s = c # u \<and> P c \<and> list_all Q u)"
proof -
  have "\<not> is_space (last (c # u @ [newline])) \<Longrightarrow> False" for c u
    by (simp add: is_space_def newline_def cc_def)
  then have "strip s \<noteq> c # u @ [newline]" for c u
    using strip_last [of s] by (metis list.discI)
  then show ?thesis unfolding whitelist_iff by (metis append_Nil2)
qed

lemma whitelist_stripD:
  "re_test (whitelist P Q) (strip s) \<Longrightarrow> strip s \<noteq> [] \<and> P (hd (strip s)) \<and> list_all Q (tl (strip s))"
  by (auto simp: whitelist_strip)

section \<open>First matches\<close>

text \<open>For a pattern whose first part matches greedily and cannot be continued, only the longest try
  matters: a star of a character class before a character outside of the class takes all of it.\<close>

lemma hd_concat_map_first:
  "f x \<noteq> [] \<Longrightarrow> concat (map f (x # xs)) \<noteq> [] \<and> hd (concat (map f (x # xs))) = hd (f x)"
  by simp

lemma hd_concat_map_last:
  assumes "\<And>y. y \<in> set xs \<Longrightarrow> f y = []"
  shows "concat (map f (xs @ [x])) = f x"
  using assms by (induction xs) auto

lemma star_ch_first:
  assumes "list_all P u" and "v = [] \<or> \<not> P (hd v)"
  shows "\<exists>ts. steps (Star (Ch P)) (b, u @ v, g) = (rev u @ b, v, g) # ts"
proof -
  have "takeWhile P (u @ v) = u" "dropWhile P (u @ v) = v"
    using assms by (cases v; simp add: takeWhile_append2 dropWhile_append2 list_all_iff)+
  with steps_star_ch_first [of P b "u @ v" g] show ?thesis by simp
qed

text \<open>What can follow the end of the text: nothing but the pattern's own white space.\<close>

lemma star_eol_fail:
  assumes "s \<noteq> []" and "\<not> P (last s)" and "last s \<noteq> newline"
  shows "steps (seqs [Star (Ch P), Eol]) (b, s, g) = []"
proof (rule ccontr)
  assume "steps (seqs [Star (Ch P), Eol]) (b, s, g) \<noteq> []"
  then obtain x where x: "x \<in> set (steps (Star (Ch P)) (b, s, g))" "steps Eol x \<noteq> []"
    by (auto simp del: steps.simps(9))
  then have e: "rest_of x = [] \<or> rest_of x = [newline]" by (auto split: if_splits)
  from x(1) obtain u v where uv: "s = u @ v" "list_all P u" "x = (rev u @ b, v, g)"
    unfolding set_steps_star_ch by auto
  with e consider "v = []" | "v = [newline]" by auto
  then show False
  proof cases
    case 1
    then have "last s \<in> set u" using uv(1) assms(1) by auto
    with uv(2) assms(2) show False by (auto simp: list_all_iff)
  next
    case 2
    then show False using uv(1) assms(3) by simp
  qed
qed

section \<open>Literals, alternatives, groups\<close>

lemma steps_lit:
  "steps (lit w) (b, s, g) = (if starts_with w s then [(rev w @ b, drop (length w) s, g)] else [])"
proof (induction w arbitrary: b s rule: lit.induct)
  case (2 c)
  then show ?case by (cases s) (auto simp: chr_def starts_with_def)
next
  case (3 c d w)
  then show ?case by (cases s) (auto simp: chr_def starts_with_def)
qed (simp add: starts_with_def)

text \<open>What a group captured is part of the text.\<close>

lemma contains_trans: "contains_str p q \<Longrightarrow> contains_str q s \<Longrightarrow> contains_str p s"
  unfolding contains_str_iff by (metis append.assoc)

lemma extends_contains: "extends st t \<Longrightarrow> contains_str (rest_of t) (rest_of st)"
  unfolding extends_def contains_str_iff by (metis append_Nil2)

lemma take_contains: "contains_str (take n s) s"
  unfolding contains_str_iff by (metis append_Nil append_take_drop_id)

definition groups_in :: "string \<Rightarrow> mstate \<Rightarrow> bool" where
  "groups_in s t = (\<forall>(n, x) \<in> set (snd (snd t)). contains_str x s)"

lemma groups_in_ch: "t \<in> set (ch_step P st) \<Longrightarrow> groups_in s st \<Longrightarrow> groups_in s t"
  by (cases "(P, st)" rule: ch_step.cases) (auto simp: groups_in_def split: if_splits)

lemma groups_in_close:
  "groups_in s t \<Longrightarrow> contains_str r s \<Longrightarrow> groups_in s (close_group n r t)"
  by (cases t) (auto simp: groups_in_def intro: contains_trans [OF take_contains])

lemma steps_groups_in:
  "t \<in> set (steps r st) \<Longrightarrow> groups_in s st \<Longrightarrow> contains_str (rest_of st) s \<Longrightarrow> groups_in s t"
proof (induction r st arbitrary: t rule: steps.induct)
  case (2 P st)
  then show ?case by (auto intro: groups_in_ch)
next
  case (3 r1 r2 st)
  then obtain u where u: "u \<in> set (steps r1 st)" "t \<in> set (steps r2 u)" by auto
  have "contains_str (rest_of u) s"
    using contains_trans [OF extends_contains [OF steps_extends [OF u(1)]]] "3.prems" by blast
  with "3.IH"(1) [OF u(1)] "3.IH"(2) [OF u] "3.prems" show ?case by blast
next
  case (5 r st)
  from star_cases [THEN iffD1, OF "5.prems"(1)] show ?case
  proof (elim disjE bexE conjE)
    fix u assume u: "u \<in> set (steps r st)" "length (rest_of u) < length (rest_of st)"
      "t \<in> set (steps (Star r) u)"
    have "contains_str (rest_of u) s"
      using contains_trans [OF extends_contains [OF steps_extends [OF u(1)]]] "5.prems" by blast
    with "5.IH"(1) [OF u(1)] "5.IH"(2) [OF u] "5.prems" show ?thesis by blast
  qed (simp add: "5.prems")
next
  case (6 r st)
  from lazy_cases [THEN iffD1, OF "6.prems"(1)] show ?case
  proof (elim disjE bexE conjE)
    fix u assume u: "u \<in> set (steps r st)" "length (rest_of u) < length (rest_of st)"
      "t \<in> set (steps (Lazy r) u)"
    have "contains_str (rest_of u) s"
      using contains_trans [OF extends_contains [OF steps_extends [OF u(1)]]] "6.prems" by blast
    with "6.IH"(1) [OF u(1)] "6.IH"(2) [OF u] "6.prems" show ?thesis by blast
  qed (simp add: "6.prems")
next
  case (7 n r st)
  then show ?case by (auto intro: groups_in_close)
next
  case (10 P st)
  then show ?case by (auto split: list.splits if_splits)
qed (auto split: if_splits)

lemma re_match_steps: "re_match r s = Some m \<Longrightarrow> m \<in> set (steps r ([], s, []))"
  by (auto simp: re_match_def split: list.splits)

lemma search_from_steps:
  "search_from r b s = Some m \<Longrightarrow>
   \<exists>b' s'. m \<in> set (steps r (b', s', [])) \<and> (\<exists>p. s = p @ s')"
proof (induction r b s rule: search_from.induct)
  case (1 r b)
  then have "m \<in> set (steps r (b, [], []))" by (auto split: list.splits)
  then show ?case by blast
next
  case (2 r b c s)
  show ?case
  proof (cases "steps r (b, c # s, [])")
    case Nil
    with 2 obtain b' s' p where "m \<in> set (steps r (b', s', []))" "s = p @ s'" by auto
    then show ?thesis by (intro exI [of _ b'] exI [of _ s'] conjI exI [of _ "c # p"]) simp_all
  next
    case (Cons x xs)
    with "2.prems" have "m \<in> set (steps r (b, c # s, []))" by simp
    then show ?thesis by blast
  qed
qed

lemma re_search_steps:
  "re_search r s = Some m \<Longrightarrow> \<exists>b' s'. m \<in> set (steps r (b', s', [])) \<and> contains_str s' s"
  using search_from_steps [of r "[]" s m] unfolding re_search_def contains_str_iff
  by (metis append_Nil2)

lemma group_str_contains: "groups_in s m \<Longrightarrow> group n m = Some x \<Longrightarrow> contains_str x s"
  by (auto simp: groups_in_def group_def dest: map_of_SomeD)

lemma nil_contains [simp]: "contains_str [] s"
  by (cases s) (auto simp: starts_with_def)

lemma group_str_in: "groups_in s m \<Longrightarrow> contains_str (group_str n m) s"
  by (auto simp: group_str_def split: option.splits intro: group_str_contains)

lemma re_match_group_in: "re_match r s = Some m \<Longrightarrow> contains_str (group_str n m) s"
  by (rule group_str_in, rule steps_groups_in [OF re_match_steps]) (auto simp: groups_in_def)

lemma re_search_group_in: "re_search r s = Some m \<Longrightarrow> contains_str (group_str n m) s"
proof -
  assume "re_search r s = Some m"
  then obtain b s' where m: "m \<in> set (steps r (b, s', []))" and s': "contains_str s' s"
    using re_search_steps by blast
  have "groups_in s m" by (rule steps_groups_in [OF m]) (simp_all add: groups_in_def s')
  then show ?thesis by (rule group_str_in)
qed

end
