(* ===== verification/PyVal.thy ===== *)
theory PyVal
  imports PyStr
begin

text \<open>
  Values whose type the program checks at run time: request parameters and decoded JSON. Numbers
  are integers. \<open>truthy\<close> is the truth value, \<open>py_str\<close> is \<open>str()\<close> (with \<open>repr\<close> for what stands
  inside a container), and \<open>shell_quote\<close> is \<open>shlex.quote\<close>, through which every value passes on
  its way into a command line.
\<close>

datatype pyval =
    VNone
  | VBool bool
  | VInt int
  | VStr string
  | VList "pyval list"
  | VDict "(string \<times> pyval) list"

fun truthy :: "pyval \<Rightarrow> bool" where
  "truthy VNone = False"
| "truthy (VBool b) = b"
| "truthy (VInt i) = (i \<noteq> 0)"
| "truthy (VStr s) = (s \<noteq> [])"
| "truthy (VList xs) = (xs \<noteq> [])"
| "truthy (VDict d) = (d \<noteq> [])"

text \<open>The exceptions the modelled code raises.\<close>

datatype py_exc = ValueError string | TypeError string | KeyError string

text \<open>\<open>row.get(key)\<close>.\<close>

definition vget :: "(string, pyval) dict \<Rightarrow> string \<Rightarrow> pyval" where
  "vget row k = dget_or VNone row k"

definition hex_digit :: "int \<Rightarrow> char" where
  "hex_digit n = char_of (if n < 10 then 48 + n else 87 + n)"

definition repr_char :: "char \<Rightarrow> char \<Rightarrow> string" where
  "repr_char q c = (let n = cc c in
     if c = q \<or> c = CHR 0x5C then [CHR 0x5C, c]
     else if n = 9 then [CHR 0x5C, CHR ''t'']
     else if n = 10 then [CHR 0x5C, CHR ''n'']
     else if n = 13 then [CHR 0x5C, CHR ''r'']
     else if n < 32 \<or> (127 \<le> n \<and> n \<le> 160) \<or> n = 173
       then [CHR 0x5C, CHR ''x'', hex_digit (n div 16), hex_digit (n mod 16)]
     else [c])"

definition repr_str :: "string \<Rightarrow> string" where
  "repr_str s = (let q = (if CHR 0x27 \<in> set s \<and> CHR 0x22 \<notin> set s then CHR 0x22 else CHR 0x27)
     in [q] @ concat (map (repr_char q) s) @ [q])"

fun py_repr :: "pyval \<Rightarrow> string" where
  "py_repr VNone = ''None''"
| "py_repr (VBool b) = (if b then ''True'' else ''False'')"
| "py_repr (VInt i) = show_int i"
| "py_repr (VStr s) = repr_str s"
| "py_repr (VList xs) = ''['' @ join '', '' (map py_repr xs) @ '']''"
| "py_repr (VDict d) = ''{'' @ join '', '' (map (\<lambda>(k, v). repr_str k @ '': '' @ py_repr v) d) @ ''}''"

definition py_str :: "pyval \<Rightarrow> string" where
  "py_str v = (case v of VStr s \<Rightarrow> s | _ \<Rightarrow> py_repr v)"

text \<open>\<open>str(v or "")\<close>.\<close>

definition str_or_empty :: "pyval \<Rightarrow> string" where
  "str_or_empty v = (if truthy v then py_str v else [])"

definition sq :: string where
  "sq = [CHR 0x27]"

section \<open>Quoting for the shell\<close>

definition quote_safe :: "char \<Rightarrow> bool" where
  "quote_safe c = (is_alnum c \<or> c \<in> set ''_@%+=:,./-'')"

definition shell_quote :: "string \<Rightarrow> string" where
  "shell_quote s =
     (if s = [] then [CHR 0x27, CHR 0x27]
      else if list_all quote_safe s then s
      else [CHR 0x27] @ concat (map (\<lambda>c. if c = CHR 0x27
             then [CHR 0x27, CHR 0x22, CHR 0x27, CHR 0x22, CHR 0x27] else [c]) s) @ [CHR 0x27])"

lemma shell_quote_safe: "s \<noteq> [] \<Longrightarrow> list_all quote_safe s \<Longrightarrow> shell_quote s = s"
  by (simp add: shell_quote_def)

lemma digit_quote_safe: "is_digit c \<Longrightarrow> quote_safe c"
  by (simp add: quote_safe_def is_alnum_def)

end
