(* ===== verification/Validators.thy ===== *)
theory Validators
  imports PyRegex PyVal
begin

text \<open>
  \<open>app/validators.py\<close>: the whitelist every user-supplied value passes before it reaches a shell
  command. A validator returns the cleaned value or the message of the \<open>ValueError\<close> it raises.
  The patterns are those of the source; the interface \<open>shell_validator\<close> states what a caller
  may rely on, and the validators for names, properties and guest ids are its instances.
\<close>

type_synonym 'a checked = "py_exc + 'a"

text \<open>\<open>str(e)\<close>.\<close>

definition exc_text :: "py_exc \<Rightarrow> string" where
  "exc_text e = (case e of ValueError m \<Rightarrow> m | TypeError m \<Rightarrow> m | KeyError m \<Rightarrow> m)"

section \<open>Patterns\<close>

definition zfs_name_char :: "char \<Rightarrow> bool" where
  "zfs_name_char c = (is_alnum c \<or> one_of ''_./@:-'' c)"

definition ZFS_NAME_RE :: re where
  "ZFS_NAME_RE = whitelist is_alnum zfs_name_char"

definition pool_name_char :: "char \<Rightarrow> bool" where
  "pool_name_char c = (is_alnum c \<or> one_of ''_.-'' c)"

definition POOL_NAME_RE :: re where
  "POOL_NAME_RE = whitelist is_alnum pool_name_char"

definition zfs_prop_char :: "char \<Rightarrow> bool" where
  "zfs_prop_char c = (is_lower c \<or> is_digit c \<or> one_of ''_:.-'' c)"

definition ZFS_PROP_RE :: re where
  "ZFS_PROP_RE = whitelist is_lower zfs_prop_char"

definition zfs_value_char :: "char \<Rightarrow> bool" where
  "zfs_value_char c = (is_alnum c \<or> one_of ''_./:@=, -'' c)"

definition ZFS_VALUE_RE :: re where
  "ZFS_VALUE_RE = whitelist is_alnum zfs_value_char"

definition VMID_RE :: re where
  "VMID_RE = whitelist is_digit is_digit"

definition VM_TYPES :: "string list" where
  "VM_TYPES = [''qemu'', ''lxc'']"

definition safe_path_char :: "char \<Rightarrow> bool" where
  "safe_path_char c = (is_alnum c \<or> one_of ''/_.@ -'' c)"

definition SAFE_PATH_RE :: re where
  "SAFE_PATH_RE = whitelist safe_path_char safe_path_char"

definition LIMIT_RE :: re where
  "LIMIT_RE = whitelist is_digit is_digit"

definition MAX_INPUT_LENGTH :: nat where
  "MAX_INPUT_LENGTH = 512"

definition bad :: "string \<Rightarrow> 'a checked" where
  "bad msg = Inl (ValueError msg)"

section \<open>Validators\<close>

definition check_length :: "string \<Rightarrow> string \<Rightarrow> unit checked" where
  "check_length value name =
     (if length value > MAX_INPUT_LENGTH
      then bad (name @ '' too long (max '' @ show_nat MAX_INPUT_LENGTH @ '' chars)'') else Inr ())"

definition validate_pool_name :: "pyval \<Rightarrow> string checked" where
  "validate_pool_name value =
     (case value of
        VStr s \<Rightarrow>
          if s = [] then bad ''Pool name is required''
          else let v = strip s in
            case check_length v ''Pool name'' of Inl e \<Rightarrow> Inl e
            | Inr _ \<Rightarrow>
              if \<not> re_test POOL_NAME_RE v
              then bad ''Invalid pool name: only alphanumeric, _, -, . allowed'' else Inr v
      | _ \<Rightarrow> bad ''Pool name is required'')"

definition validate_zfs_name :: "pyval \<Rightarrow> string \<Rightarrow> string checked" where
  "validate_zfs_name value label =
     (case value of
        VStr s \<Rightarrow>
          if s = [] then bad (label @ '' is required'')
          else let v = strip s in
            case check_length v label of Inl e \<Rightarrow> Inl e
            | Inr _ \<Rightarrow>
              if \<not> re_test ZFS_NAME_RE v
              then bad (''Invalid '' @ label @ '': only alphanumeric, _, -, ., :, /, @ allowed'')
              else Inr v
      | _ \<Rightarrow> bad (label @ '' is required''))"

definition validate_zfs_property :: "pyval \<Rightarrow> string checked" where
  "validate_zfs_property prop =
     (case prop of
        VStr s \<Rightarrow>
          if s = [] then bad ''Property name is required''
          else let v = strip s in
            case check_length v ''Property name'' of Inl e \<Rightarrow> Inl e
            | Inr _ \<Rightarrow>
              if \<not> re_test ZFS_PROP_RE v
              then bad ''Invalid property name: only lowercase, digits, _, :, ., - allowed''
              else Inr v
      | _ \<Rightarrow> bad ''Property name is required'')"

definition validate_zfs_value :: "pyval \<Rightarrow> string checked" where
  "validate_zfs_value value =
     (if value = VNone then bad ''Property value is required''
      else let v = strip (py_str value) in
        case check_length v ''Property value'' of Inl e \<Rightarrow> Inl e
        | Inr _ \<Rightarrow>
          if \<not> re_test ZFS_VALUE_RE v
          then bad ''Invalid property value: contains disallowed characters'' else Inr v)"

definition validate_vmid :: "pyval \<Rightarrow> string checked" where
  "validate_vmid value =
     (if \<not> truthy value then bad ''VMID is required''
      else let v = strip (py_str value) in
        if \<not> re_test VMID_RE v then bad ''Invalid VMID: must be numeric'' else Inr v)"

text \<open>Membership in a set hashes the value first: a list or a dict raises \<open>TypeError\<close>.\<close>

definition validate_vm_type :: "pyval \<Rightarrow> string checked" where
  "validate_vm_type value =
     (let msg = ''Invalid VM type: must be '' @ sq @ ''qemu'' @ sq @ '' or '' @ sq @ ''lxc'' @ sq in
      if \<not> truthy value then bad msg
      else case value of
          VStr s \<Rightarrow> if s \<notin> set VM_TYPES then bad msg else Inr s
        | VList _ \<Rightarrow> Inl (TypeError ''unhashable type'')
        | VDict _ \<Rightarrow> Inl (TypeError ''unhashable type'')
        | _ \<Rightarrow> bad msg)"

definition validate_path :: "pyval \<Rightarrow> string \<Rightarrow> string checked" where
  "validate_path value label =
     (case value of
        VStr s \<Rightarrow>
          if s = [] then bad (label @ '' is required'')
          else let v = strip s in
            case check_length v label of Inl e \<Rightarrow> Inl e
            | Inr _ \<Rightarrow>
              if contains_str ''..'' v then bad (label @ '': path traversal (..) not allowed'')
              else if CHR 0x00 \<in> set v then bad (label @ '': null bytes not allowed'')
              else if \<not> re_test SAFE_PATH_RE v then bad (label @ '': contains disallowed characters'')
              else Inr v
      | _ \<Rightarrow> bad (label @ '' is required''))"

definition validate_limit :: "pyval \<Rightarrow> int \<Rightarrow> int \<Rightarrow> int checked" where
  "validate_limit value default_n maximum =
     (if value = VNone then Inr default_n
      else let v = strip (py_str value) in
        if \<not> re_test LIMIT_RE v then bad ''Limit must be a positive integer''
        else case py_int v of
            None \<Rightarrow> bad ''Limit must be a positive integer''
          | Some n \<Rightarrow>
              if n > maximum then bad (''Limit too large (max '' @ show_int maximum @ '')'') else Inr n)"

definition validate_snapshot_name :: "pyval \<Rightarrow> string checked" where
  "validate_snapshot_name value = validate_zfs_name value ''Snapshot name''"

definition validate_dataset_name :: "pyval \<Rightarrow> string checked" where
  "validate_dataset_name value = validate_zfs_name value ''Dataset name''"

definition validate_clone_name :: "pyval \<Rightarrow> string checked" where
  "validate_clone_name value = validate_zfs_name value ''Clone name''"

section \<open>What a validator guarantees\<close>

text \<open>A value that goes into a command line unharmed: not empty, no character the shell treats
  specially, and no leading dash that a command would read as an option.\<close>

definition shell_word :: "string \<Rightarrow> bool" where
  "shell_word s = (s \<noteq> [] \<and> list_all quote_safe s \<and> hd s \<noteq> CHR ''-'')"

text \<open>The interface a caller relies on: whatever the input, an accepted value is a shell word, and
  validating an accepted value again accepts it unchanged.\<close>

locale shell_validator =
  fixes check :: "pyval \<Rightarrow> string checked"
  assumes accepted_word: "check v = Inr s \<Longrightarrow> shell_word s"
    and accepted_again: "check v = Inr s \<Longrightarrow> check (VStr s) = Inr s"
begin

lemma accepted_quote: "check v = Inr s \<Longrightarrow> shell_quote s = s"
  using accepted_word by (auto simp: shell_word_def shell_quote_safe)

lemma accepted_no_meta: "check v = Inr s \<Longrightarrow> c \<in> set s \<Longrightarrow> quote_safe c"
  using accepted_word by (auto simp: shell_word_def list_all_iff)

lemma accepted_fix: "check v = Inr s \<Longrightarrow> check (VStr s) = Inr s \<and> shell_quote s = s"
  using accepted_again accepted_quote by blast

end

lemma is_alnum_safe: "is_alnum c \<Longrightarrow> quote_safe c \<and> c \<noteq> CHR ''-''"
  by (auto simp: quote_safe_def is_alnum_def is_lower_def is_upper_def is_digit_def cc_def)

lemma zfs_name_char_safe: "zfs_name_char c \<Longrightarrow> quote_safe c"
  by (auto simp: zfs_name_char_def quote_safe_def one_of_def)

lemma pool_name_char_safe: "pool_name_char c \<Longrightarrow> quote_safe c"
  by (auto simp: pool_name_char_def quote_safe_def one_of_def)

lemma zfs_prop_char_safe: "zfs_prop_char c \<Longrightarrow> quote_safe c"
  by (auto simp: zfs_prop_char_def quote_safe_def one_of_def is_alnum_def)

lemma whitelist_word:
  assumes "re_test (whitelist P Q) (strip s)"
    and "\<And>c. P c \<Longrightarrow> is_alnum c" and "\<And>c. Q c \<Longrightarrow> quote_safe c"
  shows "shell_word (strip s)"
proof -
  obtain c u where "strip s = c # u" "P c" "list_all Q u"
    using assms(1) unfolding whitelist_strip by blast
  with assms(2,3) is_alnum_safe show ?thesis
    by (auto simp: shell_word_def list_all_iff)
qed

lemmas validator_defs = validate_zfs_name_def validate_pool_name_def validate_zfs_property_def
  validate_vmid_def check_length_def bad_def Let_def

lemma zfs_name_Inr:
  "validate_zfs_name v l = Inr s \<longleftrightarrow>
   (\<exists>t. v = VStr t \<and> s = strip t \<and> length s \<le> MAX_INPUT_LENGTH \<and> re_test ZFS_NAME_RE s)"
  by (auto simp: validator_defs re_test_def ZFS_NAME_RE_def whitelist_def strip_def lstrip_def rstrip_def
      split: pyval.splits if_splits sum.splits)

lemma pool_name_Inr:
  "validate_pool_name v = Inr s \<longleftrightarrow>
   (\<exists>t. v = VStr t \<and> s = strip t \<and> length s \<le> MAX_INPUT_LENGTH \<and> re_test POOL_NAME_RE s)"
  by (auto simp: validator_defs re_test_def POOL_NAME_RE_def whitelist_def strip_def lstrip_def rstrip_def
      split: pyval.splits if_splits sum.splits)

lemma zfs_property_Inr:
  "validate_zfs_property v = Inr s \<longleftrightarrow>
   (\<exists>t. v = VStr t \<and> s = strip t \<and> length s \<le> MAX_INPUT_LENGTH \<and> re_test ZFS_PROP_RE s)"
  by (auto simp: validator_defs re_test_def ZFS_PROP_RE_def whitelist_def strip_def lstrip_def rstrip_def
      split: pyval.splits if_splits sum.splits)

lemma vmid_Inr:
  "validate_vmid v = Inr s \<longleftrightarrow> truthy v \<and> s = strip (py_str v) \<and> re_test VMID_RE s"
  by (auto simp: validator_defs)

lemma vmid_accepted:
  "validate_vmid v = Inr s \<Longrightarrow> s \<noteq> [] \<and> list_all is_digit s"
proof -
  assume "validate_vmid v = Inr s"
  then have s: "s = strip (py_str v)" and "re_test (whitelist is_digit is_digit) s"
    unfolding vmid_Inr VMID_RE_def by blast+
  then have re: "re_test (whitelist is_digit is_digit) (strip (py_str v))" by (simp only:)
  from whitelist_stripD [OF re] show ?thesis unfolding s by (cases "strip (py_str v)") auto
qed

interpretation zfs_name: shell_validator "\<lambda>v. validate_zfs_name v label" for label
proof unfold_locales
  fix v s assume a: "validate_zfs_name v label = Inr s"
  then show "shell_word s"
    by (auto simp: zfs_name_Inr ZFS_NAME_RE_def zfs_name_char_safe intro: whitelist_word)
  from a show "validate_zfs_name (VStr s) label = Inr s" by (auto simp: zfs_name_Inr)
qed

interpretation pool_name: shell_validator validate_pool_name
proof unfold_locales
  fix v s assume a: "validate_pool_name v = Inr s"
  then show "shell_word s"
    by (auto simp: pool_name_Inr POOL_NAME_RE_def pool_name_char_safe intro: whitelist_word)
  from a show "validate_pool_name (VStr s) = Inr s" by (auto simp: pool_name_Inr)
qed

lemma lower_alnum: "is_lower c \<Longrightarrow> is_alnum c"
  by (simp add: is_alnum_def)

interpretation zfs_property: shell_validator validate_zfs_property
proof unfold_locales
  fix v s assume a: "validate_zfs_property v = Inr s"
  then show "shell_word s"
    by (auto simp: zfs_property_Inr ZFS_PROP_RE_def zfs_prop_char_safe lower_alnum intro: whitelist_word)
  from a show "validate_zfs_property (VStr s) = Inr s" by (auto simp: zfs_property_Inr)
qed

interpretation vmid: shell_validator validate_vmid
proof unfold_locales
  fix v s assume a: "validate_vmid v = Inr s"
  then show "shell_word s"
    by (auto simp: vmid_Inr VMID_RE_def digit_quote_safe is_alnum_def intro: whitelist_word)
  from a vmid_accepted [OF a] show "validate_vmid (VStr s) = Inr s"
    by (auto simp: vmid_Inr py_str_def)
qed

lemma path_Inr:
  "validate_path v l = Inr s \<longleftrightarrow>
   (\<exists>t. v = VStr t \<and> t \<noteq> [] \<and> s = strip t \<and> length s \<le> MAX_INPUT_LENGTH \<and>
        \<not> contains_str ''..'' s \<and> CHR 0x00 \<notin> set s \<and> re_test SAFE_PATH_RE s)"
  by (auto simp: validate_path_def check_length_def bad_def Let_def
      split: pyval.splits if_splits sum.splits)

lemma limit_Inr:
  "validate_limit v d m = Inr n \<longleftrightarrow>
   v = VNone \<and> n = d \<or>
   v \<noteq> VNone \<and> re_test LIMIT_RE (strip (py_str v)) \<and> py_int (strip (py_str v)) = Some n \<and> n \<le> m"
  by (auto simp: validate_limit_def bad_def Let_def split: option.splits)

lemma digits_val_nonneg: "list_all is_digit s \<Longrightarrow> 0 \<le> digits_val s"
proof (induction s rule: rev_induct)
  case (snoc c s)
  then have "0 \<le> digits_val s" "0 \<le> digit_val c" by (auto simp: digit_val_def is_digit_def)
  then show ?case by (simp add: digits_val_snoc)
qed (simp add: digits_val_def)

lemma limit_digits:
  "re_test LIMIT_RE (strip s) \<Longrightarrow> strip s \<noteq> [] \<and> list_all is_digit (strip s)"
  unfolding LIMIT_RE_def by (drule whitelist_stripD) (cases "strip s"; simp)

lemma strip_digits: "s \<noteq> [] \<Longrightarrow> list_all is_digit s \<Longrightarrow> strip s = s"
  by (intro strip_id digit_not_space) (auto simp: list_all_iff)

lemma re_test_digits: "s \<noteq> [] \<Longrightarrow> list_all is_digit s \<Longrightarrow> re_test (whitelist is_digit is_digit) s"
  unfolding whitelist_iff by (cases s) auto

section \<open>Properties\<close>

text \<open>C10: whatever the request carries, a name, pool, property or guest id that its validator accepts
  reaches the shell as it is: quoting leaves it unchanged, it is not empty and it cannot be read
  as an option.\<close>

theorem validated_argument_safe:
  assumes "validate_zfs_name v l = Inr s \<or> validate_pool_name v = Inr s \<or>
           validate_zfs_property v = Inr s \<or> validate_vmid v = Inr s"
  shows "shell_quote s = s \<and> s \<noteq> [] \<and> hd s \<noteq> CHR ''-'' \<and> list_all quote_safe s"
proof -
  from assms have "shell_word s"
  proof (elim disjE)
    assume "validate_zfs_name v l = Inr s"
    then show ?thesis by (rule zfs_name.accepted_word)
  next
    assume "validate_pool_name v = Inr s"
    then show ?thesis by (rule pool_name.accepted_word)
  next
    assume "validate_zfs_property v = Inr s"
    then show ?thesis by (rule zfs_property.accepted_word)
  next
    assume "validate_vmid v = Inr s"
    then show ?thesis by (rule vmid.accepted_word)
  qed
  then show ?thesis by (simp add: shell_word_def shell_quote_safe)
qed

theorem validated_argument_safe_witness:
  "validate_zfs_name (VStr '' tank/vm@a '') ''ZFS name'' = Inr ''tank/vm@a'' \<and>
   shell_quote ''tank/vm@a'' = ''tank/vm@a''"
proof -
  have a: "validate_zfs_name (VStr '' tank/vm@a '') ''ZFS name'' = Inr ''tank/vm@a''" by code_simp
  then show ?thesis using validated_argument_safe [of "VStr '' tank/vm@a ''" "''ZFS name''"] by blast
qed

text \<open>a path that is accepted has no parent component, no null byte and only whitelisted
  characters, and validating it again changes nothing.\<close>

theorem validated_path_no_traversal:
  assumes "validate_path v l = Inr s"
  shows "''..'' \<notin> set (split_on (\<lambda>c. c = CHR ''/'') s) \<and> list_all safe_path_char s \<and>
         length s \<le> 512 \<and> validate_path (VStr s) l = Inr s"
proof -
  from assms obtain t where t: "v = VStr t" "s = strip t" and len: "length s \<le> MAX_INPUT_LENGTH"
    and dots: "\<not> contains_str ''..'' s" and nul: "CHR 0x00 \<notin> set s" and re: "re_test SAFE_PATH_RE s"
    by (auto simp: path_Inr)
  have chars: "list_all safe_path_char s" "s \<noteq> []"
    using whitelist_stripD [OF re [unfolded SAFE_PATH_RE_def t(2)]] unfolding t(2)
    by (cases "strip t"; simp)+
  have "''..'' \<notin> set (split_on (\<lambda>c. c = CHR ''/'') s)"
    using dots join_contains [of "''..''" "split_on (\<lambda>c. c = CHR ''/'') s" "[CHR ''/'']"]
    by (auto simp: join_split_on)
  moreover have "validate_path (VStr s) l = Inr s"
    unfolding path_Inr using t len dots nul re chars by auto
  ultimately show ?thesis using chars len by (simp add: MAX_INPUT_LENGTH_def)
qed

theorem validated_path_no_traversal_witness:
  "validate_path (VStr ''/tank/a.b '') ''Path'' = Inr ''/tank/a.b'' \<and>
   validate_path (VStr ''/tank/../etc'') ''Path'' = Inl (ValueError ''Path: path traversal (..) not allowed'') \<and>
   ''..'' \<notin> set (split_on (\<lambda>c. c = CHR ''/'') ''/tank/a.b'')"
proof -
  have a: "validate_path (VStr ''/tank/a.b '') ''Path'' = Inr ''/tank/a.b''" by code_simp
  have b: "validate_path (VStr ''/tank/../etc'') ''Path'' = Inl (ValueError ''Path: path traversal (..) not allowed'')"
    by code_simp
  from validated_path_no_traversal [OF a] a b show ?thesis by blast
qed

text \<open>a numeric limit is accepted exactly when it is a natural number up to the maximum, and
  then its value is the number; only an absent parameter gives the default.\<close>

theorem validate_limit_exact:
  "(validate_limit (VInt i) d m = Inr n \<longleftrightarrow> n = i \<and> 0 \<le> i \<and> i \<le> m) \<and>
   (validate_limit (VStr s) d m = Inr n \<longrightarrow> 0 \<le> n \<and> n \<le> m) \<and>
   validate_limit VNone d m = Inr d"
proof (intro conjI impI)
  show "validate_limit VNone d m = Inr d" by (simp add: validate_limit_def)
next
  assume "validate_limit (VStr s) d m = Inr n"
  then have *: "re_test LIMIT_RE (strip s)" "py_int (strip s) = Some n" "n \<le> m"
    by (auto simp: limit_Inr py_str_def)
  with limit_digits [OF *(1)] show "0 \<le> n" and "n \<le> m"
    by (auto simp: py_int_digits dest: digits_val_nonneg)
next
  show "validate_limit (VInt i) d m = Inr n \<longleftrightarrow> n = i \<and> 0 \<le> i \<and> i \<le> m"
  proof (cases "0 \<le> i")
    case True
    then have s: "py_str (VInt i) = show_digits i" by (simp add: py_str_def show_int_def)
    with True show ?thesis
      unfolding limit_Inr s LIMIT_RE_def
      by (auto simp: strip_digits show_digits_digits re_test_digits py_int_show_digits)
  next
    case False
    have "\<not> is_digit CHR ''-''" by (simp add: is_digit_def cc_def)
    have "strip (py_str (VInt i)) = CHR ''-'' # show_digits (- i)"
      using False strip_neg [of "- i"] by (simp add: py_str_def show_int_def)
    then have "\<not> re_test LIMIT_RE (strip (py_str (VInt i)))"
      using limit_digits \<open>\<not> is_digit CHR ''-''\<close> by fastforce
    with False show ?thesis by (auto simp: limit_Inr)
  qed
qed

theorem validate_limit_exact_witness:
  "validate_limit (VStr '' 007'') 200 10000 = Inr 7 \<and> (0::int) \<le> 7 \<and>
   validate_limit (VInt 10001) 200 10000 = Inl (ValueError ''Limit too large (max 10000)'')"
proof -
  have a: "validate_limit (VStr '' 007'') 200 10000 = Inr 7" by code_simp
  have b: "validate_limit (VInt 10001) 200 10000 = Inl (ValueError ''Limit too large (max 10000)'')"
    by code_simp
  have c: "(0::int) \<le> 7 \<and> (7::int) \<le> 10000"
    by (rule validate_limit_exact [THEN conjunct2, THEN conjunct1, THEN mp, OF a])
  show ?thesis by (rule conjI [OF a conjI [OF conjunct1 [OF c] b]])
qed

end
