(* ===== verification/SnapTags.thy ===== *)
theory SnapTags
  imports PyRegex PyVal
begin

text \<open>
  \<open>app/snaptags.py\<close>: the tag of a snapshot name, the tags of a host, the label pattern built from
  a selection, and the per-host selection stored in \<open>snapcheck_tags.json\<close>. The file is a value
  of type \<open>pyval option\<close>: None when it is missing or cannot be parsed. Exceptions of the
  element test on foreign file contents are values.
\<close>

section \<open>Tags\<close>

definition DEFAULT_TAGS :: "string list" where
  "DEFAULT_TAGS = [''frequent'', ''hourly'', ''daily'', ''weekly'', ''monthly'', ''yearly'',
     ''backup-zfs'', ''bashclub-zfs'']"

definition tag_char :: "char \<Rightarrow> bool" where
  "tag_char c = (is_alnum c \<or> one_of ''._-'' c)"

definition TAG_RE :: re where
  "TAG_RE = seqs [Bol, Ch is_alnum, upto 63 (Ch tag_char), Eol]"

definition AUTOSNAP_RE :: re where
  "AUTOSNAP_RE = Seq (lit ''zfs-auto-snap_'') (Grp 1 (plus (Ch is_alnum)))"

definition PREFIX_RE :: re where
  "PREFIX_RE = seqs [Bol, Grp 1 (Lazy any_char), opt (Ch (one_of ''-_.'')), times 4 (Ch is_digit)]"

definition is_valid_tag :: "string \<Rightarrow> bool" where
  "is_valid_tag tag = (tag \<noteq> [] \<and> re_test TAG_RE tag)"

definition extract_tag :: "string \<Rightarrow> string option" where
  "extract_tag snap_name =
     (case re_search AUTOSNAP_RE snap_name of
        Some m \<Rightarrow> Some (group_str 1 m)
      | None \<Rightarrow>
          (case find (\<lambda>tag. contains_str tag snap_name) DEFAULT_TAGS of
             Some tag \<Rightarrow> Some tag
           | None \<Rightarrow>
               (case re_match PREFIX_RE snap_name of
                  Some m \<Rightarrow>
                    (let prefix = rstrip_chars ''-_.'' (group_str 1 m)
                     in if is_valid_tag prefix then Some prefix else None)
                | None \<Rightarrow> None)))"

text \<open>The empty tag is not counted.\<close>

definition discover_tags :: "string list \<Rightarrow> (string, nat) dict" where
  "discover_tags snapshot_names =
     fold (\<lambda>name counts.
        case extract_tag name of
          Some tag \<Rightarrow> if tag = [] then counts else dmodify tag 0 Suc counts
        | None \<Rightarrow> counts) snapshot_names []"

text \<open>The alternatives of the label pattern, longest first. Equally long tags are in an order the
  source leaves open (iteration of a set); two different ones never match at the same place.\<close>

definition label_order :: "string list \<Rightarrow> string list" where
  "label_order tags = sort_key (\<lambda>t. - int (length t)) (nub (filter is_valid_tag tags))"

fun alts :: "re list \<Rightarrow> re" where
  "alts [] = Ch (\<lambda>_. False)"
| "alts [r] = r"
| "alts (r # rs) = Alt r (alts rs)"

definition build_label_regex :: "string list option \<Rightarrow> re" where
  "build_label_regex tags =
     (let tags = (case tags of None \<Rightarrow> DEFAULT_TAGS | Some ts \<Rightarrow> ts)
      in alts (map lit (label_order tags)))"

section \<open>The stored selection\<close>

type_synonym json_file = "pyval option"

definition tags_load_all :: "json_file \<Rightarrow> (string, pyval) dict" where
  "tags_load_all f = (case f of Some (VDict d) \<Rightarrow> d | _ \<Rightarrow> [])"

text \<open>\<open>is_valid_tag\<close> on a decoded element: a true value that is not a string raises.\<close>

fun valid_tag_val :: "pyval \<Rightarrow> py_exc + bool" where
  "valid_tag_val (VStr s) = Inr (is_valid_tag s)"
| "valid_tag_val v = (if truthy v then Inl (TypeError ''expected string or bytes-like object'') else Inr False)"

fun filter_valid :: "pyval list \<Rightarrow> py_exc + string list" where
  "filter_valid [] = Inr []"
| "filter_valid (v # vs) =
     (case valid_tag_val v of
        Inl e \<Rightarrow> Inl e
      | Inr ok \<Rightarrow>
          (case filter_valid vs of
             Inl e \<Rightarrow> Inl e
           | Inr ts \<Rightarrow> Inr (if ok then (case v of VStr s \<Rightarrow> s # ts | _ \<Rightarrow> ts) else ts)))"

definition load_tag_selection :: "json_file \<Rightarrow> string \<Rightarrow> py_exc + string list option" where
  "load_tag_selection f address =
     (case dget (tags_load_all f) address of
        Some (VList sel) \<Rightarrow> map_sum id Some (filter_valid sel)
      | _ \<Rightarrow> Inr None)"

definition save_tag_selection ::
    "string \<Rightarrow> string list \<Rightarrow> bool \<Rightarrow> json_file \<Rightarrow> string list option \<times> json_file" where
  "save_tag_selection address tags reset f =
     (let valid = sorted_set (filter is_valid_tag tags);
          data = tags_load_all f;
          data' = (if reset then dpop address data
                   else dset address (VList (map VStr valid)) data)
      in (if reset then None else Some valid, Some (VDict data')))"

definition effective_tags :: "json_file \<Rightarrow> string \<Rightarrow> py_exc + string list" where
  "effective_tags f address =
     map_sum id (\<lambda>sel. case sel of None \<Rightarrow> DEFAULT_TAGS | Some ts \<Rightarrow> ts) (load_tag_selection f address)"

record tag_row =
  tr_tag :: string
  tr_count :: nat
  tr_selected :: bool

definition visible_tags :: "(string, nat) dict \<Rightarrow> string list option \<Rightarrow> tag_row list" where
  "visible_tags counts selection =
     (let checked = (case selection of None \<Rightarrow> DEFAULT_TAGS | Some s \<Rightarrow> s);
          shown = dkeys counts @ (case selection of None \<Rightarrow> [] | Some s \<Rightarrow> s)
      in map (\<lambda>tg. \<lparr>tr_tag = tg, tr_count = dget_or 0 counts tg, tr_selected = (tg \<in> set checked)\<rparr>)
           (sorted_set shown))"

section \<open>Lemmas\<close>

lemma steps_alts: "steps (alts rs) st = concat (map (\<lambda>r. steps r st) rs)"
proof (induction rs rule: alts.induct)
  case 1
  then show ?case by (cases st rule: rest_of.cases; cases "rest_of st") (auto elim: ch_step.elims)
qed auto

lemma rstrip_chars_contains: "contains_str (rstrip_chars cs s) s"
proof -
  have "rev s = takeWhile (\<lambda>c. c \<in> set cs) (rev s) @ dropWhile (\<lambda>c. c \<in> set cs) (rev s)"
    by (rule takeWhile_dropWhile_id [symmetric])
  then have "s = rstrip_chars cs s @ rev (takeWhile (\<lambda>c. c \<in> set cs) (rev s))"
    unfolding rstrip_chars_def by (metis rev_append rev_rev_ident)
  then show ?thesis unfolding contains_str_iff by (metis append_Nil)
qed

lemma autosnap_group_ne: "re_search AUTOSNAP_RE s = Some m \<Longrightarrow> group_str 1 m \<noteq> []"
proof -
  assume "re_search AUTOSNAP_RE s = Some m"
  then obtain b s' where "m \<in> set (steps AUTOSNAP_RE (b, s', []))" using re_search_steps by blast
  then obtain u t where t: "t \<in> set (steps (plus (Ch is_alnum)) u)" and m: "m = close_group 1 (rest_of u) t"
    by (auto simp: AUTOSNAP_RE_def)
  from t obtain c r where "rest_of u = c # r" and "\<exists>b g. t \<in> set (steps (Star (Ch is_alnum)) (b, r, g))"
    by (cases u rule: rest_of.cases; cases "rest_of u") (auto simp: plus_def split: if_splits)
  then have "length (rest_of t) < length (rest_of u)"
    using steps_suffix by (fastforce)
  then show ?thesis unfolding m
    by (cases t) (auto simp: group_str_def group_def)
qed

lemma filter_valid_strs: "filter_valid (map VStr ts) = Inr (filter is_valid_tag ts)"
  by (induction ts) auto

lemma tags_load_all_saved [simp]: "tags_load_all (Some (VDict d)) = d"
  by (simp add: tags_load_all_def)

lemma label_order_set: "set (label_order tags) = {t \<in> set tags. is_valid_tag t}"
  by (auto simp: label_order_def)

lemma label_order_sorted: "sorted_wrt (\<lambda>t u. length u \<le> length t) (label_order tags)"
proof -
  have "sorted (map (\<lambda>t. - int (length t)) (label_order tags))"
    unfolding label_order_def by (rule sorted_sort_key)
  then show ?thesis by (simp add: sorted_map)
qed

lemma concat_first:
  "concat (map (\<lambda>w. if starts_with w s then [f w] else []) ws) = m # ms \<Longrightarrow>
   sorted_wrt (\<lambda>t u. length u \<le> length t) ws \<Longrightarrow>
   \<exists>w \<in> set ws. starts_with w s \<and> m = f w \<and> (\<forall>u \<in> set ws. starts_with u s \<longrightarrow> length u \<le> length w)"
  by (induction ws) (auto split: if_splits)

section \<open>Properties\<close>

text \<open>a tag derived from a snapshot name is not empty and occurs in the name: no branch of the
  derivation invents a label.\<close>

theorem extract_tag_occurs:
  assumes "extract_tag name = Some tag"
  shows "tag \<noteq> [] \<and> contains_str tag name"
proof (cases "re_search AUTOSNAP_RE name")
  case (Some m)
  with assms have "tag = group_str 1 m" by (simp add: extract_tag_def)
  with autosnap_group_ne [OF Some] re_search_group_in [OF Some] show ?thesis by simp
next
  case auto: None
  show ?thesis
  proof (cases "find (\<lambda>tag. contains_str tag name) DEFAULT_TAGS")
    case (Some t)
    with auto assms have t: "tag = t" by (simp add: extract_tag_def)
    from Some have "t \<in> set DEFAULT_TAGS" "contains_str t name"
      by (auto simp: find_Some_iff in_set_conv_nth)
    then show ?thesis unfolding t by (auto simp: DEFAULT_TAGS_def)
  next
    case None
    with auto assms obtain m where m: "re_match PREFIX_RE name = Some m"
      and tag: "tag = rstrip_chars ''-_.'' (group_str 1 m)" "is_valid_tag tag"
      by (auto simp: extract_tag_def Let_def split: option.splits if_splits)
    from tag(2) have "tag \<noteq> []" by (simp add: is_valid_tag_def)
    with contains_trans [OF rstrip_chars_contains re_match_group_in [OF m]] tag(1)
    show ?thesis by blast
  qed
qed

theorem extract_tag_occurs_witness:
  "extract_tag ''foo-backup_2024-05'' = Some ''foo-backup'' \<and>
   contains_str ''foo-backup'' ''foo-backup_2024-05''"
proof -
  have a: "extract_tag ''foo-backup_2024-05'' = Some ''foo-backup''" by code_simp
  show ?thesis by (rule conjI [OF a conjunct2 [OF extract_tag_occurs [OF a]]])
qed

text \<open>saving a selection and loading it back gives the valid tags, sorted and without duplicates,
  leaves every other host's selection alone, and a reset leads back to the default tags.\<close>

theorem tag_selection_roundtrip:
  "save_tag_selection a tags False f = (r, f') \<Longrightarrow>
     load_tag_selection f' a = Inr r \<and> r = Some (sorted_set (filter is_valid_tag tags)) \<and>
     (b \<noteq> a \<longrightarrow> load_tag_selection f' b = load_tag_selection f b) \<and>
     effective_tags (snd (save_tag_selection a tags True f')) a = Inr DEFAULT_TAGS"
proof -
  assume s: "save_tag_selection a tags False f = (r, f')"
  let ?v = "sorted_set (filter is_valid_tag tags)"
  from s have r: "r = Some ?v" and f': "f' = Some (VDict (dset a (VList (map VStr ?v)) (tags_load_all f)))"
    by (auto simp: save_tag_selection_def Let_def)
  have "filter is_valid_tag ?v = ?v" by (auto simp: filter_id_conv)
  then have "load_tag_selection f' a = Inr r"
    unfolding f' r by (simp add: load_tag_selection_def filter_valid_strs)
  moreover have "b \<noteq> a \<longrightarrow> load_tag_selection f' b = load_tag_selection f b"
    unfolding f' by (simp add: load_tag_selection_def)
  moreover have "effective_tags (snd (save_tag_selection a tags True f')) a = Inr DEFAULT_TAGS"
    by (simp add: effective_tags_def save_tag_selection_def Let_def load_tag_selection_def)
  ultimately show ?thesis using r by blast
qed

theorem tag_selection_roundtrip_witness:
  "load_tag_selection (snd (save_tag_selection ''h'' [''daily'', ''-x'', ''abc'', ''daily''] False None)) ''h''
     = Inr (Some [''abc'', ''daily''])"
proof -
  have s: "save_tag_selection ''h'' [''daily'', ''-x'', ''abc'', ''daily''] False None =
    (Some [''abc'', ''daily''], Some (VDict [(''h'', VList [VStr ''abc'', VStr ''daily''])]))"
    by code_simp
  show ?thesis unfolding s snd_conv by (rule tag_selection_roundtrip [OF s, THEN conjunct1])
qed

text \<open>at any position the label pattern matches the longest selected tag that stands there, and it
  matches nothing when none of the valid selected tags stands there; an empty selection matches
  nothing at all.\<close>

theorem label_regex_longest:
  "(case re_match (build_label_regex (Some tags)) s of
      Some m \<Rightarrow> (\<exists>w \<in> set tags. is_valid_tag w \<and> s = w @ rest_of m \<and>
          (\<forall>u \<in> set tags. is_valid_tag u \<and> starts_with u s \<longrightarrow> length u \<le> length w))
    | None \<Rightarrow> (\<forall>u \<in> set tags. is_valid_tag u \<longrightarrow> \<not> starts_with u s)) \<and>
   re_match (build_label_regex (Some [])) s = None"
proof -
  let ?f = "\<lambda>w. (rev w @ [], drop (length w) s, []) :: mstate"
  have st: "steps (build_label_regex (Some tags)) ([], s, []) =
    concat (map (\<lambda>w. if starts_with w s then [?f w] else []) (label_order tags))" for tags
    by (simp add: build_label_regex_def steps_alts steps_lit comp_def)
  have "re_match (build_label_regex (Some [])) s = None"
    unfolding re_match_def st by (simp add: label_order_def)
  moreover have "case re_match (build_label_regex (Some tags)) s of
      Some m \<Rightarrow> (\<exists>w \<in> set tags. is_valid_tag w \<and> s = w @ rest_of m \<and>
          (\<forall>u \<in> set tags. is_valid_tag u \<and> starts_with u s \<longrightarrow> length u \<le> length w))
    | None \<Rightarrow> (\<forall>u \<in> set tags. is_valid_tag u \<longrightarrow> \<not> starts_with u s)"
  proof (cases "concat (map (\<lambda>w. if starts_with w s then [?f w] else []) (label_order tags))")
    case Nil
    then have "\<forall>w \<in> set (label_order tags). \<not> starts_with w s" by (auto split: if_splits)
    then show ?thesis
      by (simp only: re_match_def st Nil list.case option.case) (simp add: label_order_set)
  next
    case (Cons m ms)
    from concat_first [OF this label_order_sorted] obtain w where
      w: "w \<in> set (label_order tags)" "starts_with w s" "m = ?f w"
        "\<forall>u \<in> set (label_order tags). starts_with u s \<longrightarrow> length u \<le> length w" by blast
    from w(2) have "s = w @ drop (length w) s" by (rule starts_withD)
    then have "s = w @ rest_of m" unfolding w(3) by (simp only: rest_of.simps)
    moreover have "re_match (build_label_regex (Some tags)) s = Some m"
      by (simp only: re_match_def st Cons list.case)
    moreover have "w \<in> set tags" "is_valid_tag w" using w(1) by (simp_all add: label_order_set)
    moreover have "\<forall>u \<in> set tags. is_valid_tag u \<and> starts_with u s \<longrightarrow> length u \<le> length w"
      using w(4) by (simp add: label_order_set)
    ultimately show ?thesis by auto
  qed
  ultimately show ?thesis by blast
qed

theorem label_regex_longest_witness:
  "\<exists>w \<in> {''backup'', ''backup-zfs''}. is_valid_tag w \<and> ''backup-zfs_1'' = w @ ''_1'' \<and>
     length ''backup-zfs'' \<le> length w"
proof -
  let ?ts = "[''backup'', ''backup-zfs'']"
  obtain b g where m: "re_match (build_label_regex (Some ?ts)) ''backup-zfs_1'' = Some (b, ''_1'', g)"
    and v: "is_valid_tag ''backup-zfs''" "starts_with ''backup-zfs'' ''backup-zfs_1''"
  proof -
    have "re_match (build_label_regex (Some ?ts)) ''backup-zfs_1'' = Some (rev ''backup-zfs'', ''_1'', [])"
      "is_valid_tag ''backup-zfs''" "starts_with ''backup-zfs'' ''backup-zfs_1''" by code_simp+
    then show thesis by (rule that)
  qed
  from label_regex_longest [of ?ts "''backup-zfs_1''", THEN conjunct1, unfolded m option.case rest_of.simps]
  show ?thesis using v by auto
qed

end
