(* ===== verification/UnionFind.thy ===== *)
theory UnionFind
  imports Prelude
begin

text \<open>
  The union-find of \<open>group_lineages\<close> in \<open>app/replication_inventory.py\<close>: a dictionary from each
  element to its parent, \<open>find\<close> with path halving, \<open>union\<close> of two roots. Nothing in the code
  bounds the loop of \<open>find\<close>, so it is a partial function: None stands for a call that does not
  return a value (an endless loop, or a \<open>KeyError\<close> for a parent that is no key). The interface
  \<open>partition_ds\<close> says what the two operations promise; its interpretation proves that they
  always return on the tables the program builds.
\<close>

section \<open>The code\<close>

partial_function (option) find_loop :: "('k, 'k) dict \<Rightarrow> 'k \<Rightarrow> (('k, 'k) dict \<times> 'k) option" where
  [code]: "find_loop p k =
     (case dget p k of
        None \<Rightarrow> None
      | Some a \<Rightarrow>
          if a = k then Some (p, k)
          else (case dget p a of
                  None \<Rightarrow> None
                | Some b \<Rightarrow> find_loop (dset k b p) b))"

definition uf_find :: "('k, 'k) dict \<Rightarrow> 'k \<Rightarrow> (('k, 'k) dict \<times> 'k) option" where
  "uf_find p k = find_loop (if dhas p k then p else dset k k p) k"

definition uf_union :: "('k, 'k) dict \<Rightarrow> 'k \<Rightarrow> 'k \<Rightarrow> ('k, 'k) dict option" where
  "uf_union p a b =
     (case uf_find p a of
        None \<Rightarrow> None
      | Some (p1, ra) \<Rightarrow>
          (case uf_find p1 b of
             None \<Rightarrow> None
           | Some (p2, rb) \<Rightarrow> Some (if ra \<noteq> rb then dset ra rb p2 else p2)))"

section \<open>The interface\<close>

text \<open>\<open>rep s\<close> maps every element to the representative of its class.\<close>

locale partition_ds =
  fixes find :: "'s \<Rightarrow> 'k \<Rightarrow> ('s \<times> 'k) option"
    and union :: "'s \<Rightarrow> 'k \<Rightarrow> 'k \<Rightarrow> 's option"
    and ok :: "'s \<Rightarrow> bool"
    and rep :: "'s \<Rightarrow> 'k \<Rightarrow> 'k option"
  assumes find_known: "ok s \<Longrightarrow> rep s k = Some r \<Longrightarrow> \<exists>s'. find s k = Some (s', r) \<and> ok s' \<and> rep s' = rep s"
    and find_new: "ok s \<Longrightarrow> rep s k = None \<Longrightarrow> \<exists>s'. find s k = Some (s', k) \<and> ok s' \<and> rep s' = (rep s)(k \<mapsto> k)"
    and union_known: "ok s \<Longrightarrow> rep s a = Some ra \<Longrightarrow> rep s b = Some rb \<Longrightarrow>
      \<exists>s'. union s a b = Some s' \<and> ok s' \<and> rep s' = (\<lambda>x. if rep s x = Some ra then Some rb else rep s x)"
begin

text \<open>Finding every element of a list registers exactly these elements, each in its own class if
  it is new.\<close>

fun find_all :: "'s \<Rightarrow> 'k list \<Rightarrow> 's option" where
  "find_all s [] = Some s"
| "find_all s (k # ks) = (case find s k of None \<Rightarrow> None | Some (s', _) \<Rightarrow> find_all s' ks)"

fun union_all :: "'s \<Rightarrow> ('k \<times> 'k) list \<Rightarrow> 's option" where
  "union_all s [] = Some s"
| "union_all s (e # es) = (case union s (fst e) (snd e) of None \<Rightarrow> None | Some s' \<Rightarrow> union_all s' es)"

definition discrete :: "'s \<Rightarrow> bool" where
  "discrete s = (ok s \<and> (\<forall>x r. rep s x = Some r \<longrightarrow> r = x))"

lemma find_all_discrete:
  "discrete s \<Longrightarrow> \<exists>s'. find_all s ks = Some s' \<and> discrete s' \<and> dom (rep s') = dom (rep s) \<union> set ks"
proof (induction ks arbitrary: s)
  case (Cons k ks)
  show ?case
  proof (cases "rep s k")
    case None
    with Cons.prems obtain s1 where s1: "find s k = Some (s1, k)" "ok s1" "rep s1 = (rep s)(k \<mapsto> k)"
      using find_new unfolding discrete_def by blast
    with Cons.prems have "discrete s1" by (auto simp: discrete_def split: if_splits)
    from Cons.IH [OF this] obtain s' where
      "find_all s1 ks = Some s'" "discrete s'" "dom (rep s') = dom (rep s1) \<union> set ks" by blast
    with s1 show ?thesis by auto
  next
    case (Some r)
    with Cons.prems obtain s1 where s1: "find s k = Some (s1, r)" "ok s1" "rep s1 = rep s"
      using find_known unfolding discrete_def by blast
    with Cons.prems have "discrete s1" by (auto simp: discrete_def)
    from Cons.IH [OF this] obtain s' where
      "find_all s1 ks = Some s'" "discrete s'" "dom (rep s') = dom (rep s1) \<union> set ks" by blast
    with s1 Some show ?thesis by auto
  qed
qed simp

text \<open>After uniting the edges of a list, two elements have the same representative exactly when a
  path of edges, taken in either direction, leads from one to the other.\<close>

definition same :: "'s \<Rightarrow> 'k \<Rightarrow> 'k \<Rightarrow> bool" where
  "same s x y = (rep s x = rep s y)"

definition connects :: "'s \<Rightarrow> ('k \<times> 'k) set \<Rightarrow> bool" where
  "connects s E = (\<forall>x \<in> dom (rep s). \<forall>y \<in> dom (rep s). same s x y \<longleftrightarrow> (x, y) \<in> (E \<union> E\<inverse>)\<^sup>*)"

lemma connects_union:
  assumes "ok s" and "connects s E" and "a \<in> dom (rep s)" and "b \<in> dom (rep s)"
    and E: "E \<subseteq> dom (rep s) \<times> dom (rep s)"
  shows "\<exists>s'. union s a b = Some s' \<and> ok s' \<and> dom (rep s') = dom (rep s) \<and> connects s' (insert (a, b) E)"
proof -
  obtain ra rb where r: "rep s a = Some ra" "rep s b = Some rb" using assms(3,4) by blast
  from union_known [OF assms(1) r] obtain s' where s': "union s a b = Some s'" "ok s'"
    "rep s' = (\<lambda>x. if rep s x = Some ra then Some rb else rep s x)" by blast
  let ?E = "E \<union> E\<inverse>" and ?F = "insert (a, b) E \<union> (insert (a, b) E)\<inverse>"
  have dom': "dom (rep s') = dom (rep s)" unfolding s'(3) dom_def using r by auto
  have sub: "?E\<^sup>* \<subseteq> ?F\<^sup>*" by (rule rtrancl_mono) auto
  have sym: "sym (?F\<^sup>*)" by (rule sym_rtrancl) (auto simp: sym_def)
  have ab: "(a, b) \<in> ?F\<^sup>*" by auto
  have conn: "rep s x = rep s y \<longleftrightarrow> (x, y) \<in> ?E\<^sup>*" if "x \<in> dom (rep s)" "y \<in> dom (rep s)" for x y
    using assms(2) that unfolding connects_def same_def by blast
  have step: "(x, y) \<in> ?F\<^sup>* \<Longrightarrow> x \<in> dom (rep s) \<Longrightarrow> rep s' x = rep s' y \<and> y \<in> dom (rep s)" for x y
  proof (induction rule: rtrancl_induct)
    case (step y z)
    then have y: "y \<in> dom (rep s)" "rep s' x = rep s' y" by auto
    from step.hyps(2) consider "(y, z) \<in> ?E" | "y = a" "z = b" | "y = b" "z = a" by auto
    then show ?case
    proof cases
      case 1
      then have z: "z \<in> dom (rep s)" using E by auto
      with 1 y conn have "rep s y = rep s z" by auto
      with y z show ?thesis unfolding s'(3) by auto
    next
      case 2
      then show ?thesis using r y unfolding s'(3) by auto
    next
      case 3
      then show ?thesis using r y unfolding s'(3) by auto
    qed
  qed simp
  have conv: "(x, y) \<in> ?F\<^sup>*" if "x \<in> dom (rep s)" "y \<in> dom (rep s)" "rep s' x = rep s' y" for x y
  proof -
    have to: "(x, b) \<in> ?F\<^sup>*" if "x \<in> dom (rep s)" "rep s' x = Some rb" for x
    proof (cases "rep s x = Some ra")
      case True
      with that r assms(3) conn [of x a] sub have "(x, a) \<in> ?F\<^sup>*" by auto
      then show ?thesis using ab by (rule rtrancl_trans)
    next
      case False
      with that r assms(4) conn [of x b] sub show ?thesis unfolding s'(3) by auto
    qed
    show ?thesis
    proof (cases "rep s' x = Some rb")
      case True
      with that to [of x] to [of y] have "(x, b) \<in> ?F\<^sup>*" "(y, b) \<in> ?F\<^sup>*" by auto
      with sym show ?thesis by (meson rtrancl_trans symD)
    next
      case False
      with that have "rep s x = rep s y" unfolding s'(3) by (auto split: if_splits)
      with that conn sub show ?thesis by blast
    qed
  qed
  have "connects s' (insert (a, b) E)"
    unfolding connects_def same_def dom' using step conv by blast
  with s' dom' show ?thesis by blast
qed

lemma union_all_connects:
  "ok s \<Longrightarrow> connects s E \<Longrightarrow> E \<subseteq> dom (rep s) \<times> dom (rep s) \<Longrightarrow> set es \<subseteq> dom (rep s) \<times> dom (rep s) \<Longrightarrow>
   \<exists>s'. union_all s es = Some s' \<and> ok s' \<and> dom (rep s') = dom (rep s) \<and> connects s' (set es \<union> E)"
proof (induction es arbitrary: s E)
  case (Cons e es)
  obtain a b where e: "e = (a, b)" by (cases e)
  with Cons.prems have "a \<in> dom (rep s)" "b \<in> dom (rep s)" by auto
  from connects_union [OF Cons.prems(1,2) this Cons.prems(3)] obtain s1 where s1:
    "union s a b = Some s1" "ok s1" "dom (rep s1) = dom (rep s)" "connects s1 (insert (a, b) E)" by blast
  have "insert (a, b) E \<subseteq> dom (rep s1) \<times> dom (rep s1)" "set es \<subseteq> dom (rep s1) \<times> dom (rep s1)"
    using Cons.prems e unfolding s1(3) by auto
  from Cons.IH [OF s1(2,4) this] s1 e show ?case by auto
qed simp

lemma discrete_connects: "discrete s \<Longrightarrow> connects s {}"
  by (auto simp: discrete_def connects_def same_def)

lemma partition_correct:
  assumes "discrete s" and "set es \<subseteq> set ks \<times> set ks" and "dom (rep s) = {}"
  shows "\<exists>s1 s2. find_all s ks = Some s1 \<and> union_all s1 es = Some s2 \<and> ok s2 \<and>
    dom (rep s2) = set ks \<and> connects s2 (set es)"
proof -
  from find_all_discrete [OF assms(1), of ks] assms(3) obtain s1 where
    s1: "find_all s ks = Some s1" "discrete s1" "dom (rep s1) = set ks" by auto
  have "ok s1" using s1(2) by (simp add: discrete_def)
  from union_all_connects [OF this discrete_connects [OF s1(2)], of es] assms(2) s1 show ?thesis by auto
qed

end

section \<open>The code meets the interface\<close>

inductive path_to :: "('k, 'k) dict \<Rightarrow> 'k \<Rightarrow> nat \<Rightarrow> 'k \<Rightarrow> bool" for p where
  here: "dget p k = Some k \<Longrightarrow> path_to p k 0 k"
| up: "dget p k = Some a \<Longrightarrow> a \<noteq> k \<Longrightarrow> path_to p a n r \<Longrightarrow> path_to p k (Suc n) r"

inductive_cases path_toE: "path_to p k n r"

definition forest :: "('k, 'k) dict \<Rightarrow> bool" where
  "forest p = (\<forall>k. dhas p k \<longrightarrow> (\<exists>n r. path_to p k n r))"

definition uf_rep :: "('k, 'k) dict \<Rightarrow> 'k \<Rightarrow> 'k option" where
  "uf_rep p k = map_option snd (find_loop p k)"

lemma path_det: "path_to p k n r \<Longrightarrow> path_to p k m s \<Longrightarrow> n = m \<and> r = s"
proof (induction arbitrary: m s rule: path_to.induct)
  case (here k)
  from here.prems here.hyps show ?case by (auto elim: path_toE)
next
  case (up k a n r)
  from up.prems up.hyps obtain m' where "m = Suc m'" "path_to p a m' s" by (auto elim: path_toE)
  with up.IH show ?case by blast
qed

lemma path_root: "path_to p k n r \<Longrightarrow> dget p r = Some r"
  by (induction rule: path_to.induct) auto

lemma path_key: "path_to p k n r \<Longrightarrow> dhas p k"
  by (auto elim: path_toE simp: dhas_def)

text \<open>Path halving keeps every root and lengthens no path.\<close>

lemma path_halve:
  assumes k: "dget p k = Some a" "a \<noteq> k" and a: "dget p a = Some b"
  shows "path_to p x n r \<Longrightarrow> \<exists>m \<le> n. path_to (dset k b p) x m r"
proof (induction rule: path_to.induct)
  case (here x)
  with k have "x \<noteq> k" by auto
  with here have "path_to (dset k b p) x 0 x" by (intro path_to.here) simp
  then show ?case by blast
next
  case (up x y n r)
  then obtain m where m: "m \<le> n" "path_to (dset k b p) y m r" by blast
  show ?case
  proof (cases "x = k")
    case False
    with up m have "path_to (dset k b p) x (Suc m) r" by (intro path_to.up [of _ _ y]) auto
    with m(1) show ?thesis by (intro exI [of _ "Suc m"]) simp
  next
    case True
    with up k have y: "y = a" by simp
    have r: "dget p r = Some r" "r \<noteq> k" using path_root [OF up.hyps(3)] k by auto
    show ?thesis
    proof (cases "b = a")
      case True
      with a k have "path_to (dset k b p) a 0 a" by (intro path_to.here) simp
      with m y have "r = a" using path_det by metis
      with \<open>path_to (dset k b p) a 0 a\<close> True k have "path_to (dset k b p) k (Suc 0) r"
        by (intro path_to.up [of _ _ a]) auto
      with \<open>x = k\<close> show ?thesis by (intro exI [of _ "Suc 0"]) simp
    next
      case False
      from m(2) obtain m' where m': "m = Suc m'" "path_to (dset k b p) b m' r"
        using a k False unfolding y by (auto elim: path_toE)
      have "b \<noteq> k"
      proof
        assume "b = k"
        with m'(2) have "r = k" by (auto elim: path_toE)
        with r show False by simp
      qed
      with m' have "path_to (dset k b p) k (Suc m') r" by (intro path_to.up [of _ _ b]) auto
      with m(1) m'(1) \<open>x = k\<close> show ?thesis by (intro exI [of _ "Suc m'"]) simp
    qed
  qed
qed

lemma find_loop_returns:
  "path_to p k n r \<Longrightarrow>
   \<exists>p'. find_loop p k = Some (p', r) \<and> (\<forall>x m s. path_to p x m s \<longrightarrow> (\<exists>m'. path_to p' x m' s)) \<and>
        (\<forall>x. dhas p' x = dhas p x)"
proof (induction n arbitrary: p k rule: less_induct)
  case (less n)
  show ?case
  proof (cases "dget p k = Some k")
    case True
    with less.prems have "r = k" by (auto elim: path_toE)
    with True show ?thesis by (subst find_loop.simps) auto
  next
    case False
    with less.prems obtain a n1 where a: "dget p k = Some a" "a \<noteq> k" "n = Suc n1" "path_to p a n1 r"
      by (auto elim: path_toE)
    from a(4) obtain b where b: "dget p a = Some b" by (auto elim: path_toE)
    have "\<exists>n2 \<le> n1. path_to p b n2 r"
    proof (cases "b = a")
      case True
      with a(4) show ?thesis by blast
    next
      case False
      with b a(4) obtain n2 where "n1 = Suc n2" "path_to p b n2 r" by (auto elim: path_toE)
      then show ?thesis by (intro exI [of _ n2]) simp
    qed
    then obtain n2 where n2: "n2 \<le> n1" "path_to p b n2 r" by blast
    from path_halve [OF a(1,2) b n2(2)] obtain n3 where n3: "n3 \<le> n2" "path_to (dset k b p) b n3 r" by blast
    from less.IH [OF _ n3(2)] n3(1) n2(1) a(3) obtain p' where p':
      "find_loop (dset k b p) b = Some (p', r)"
      "\<And>x m s. path_to (dset k b p) x m s \<Longrightarrow> \<exists>m'. path_to p' x m' s"
      "\<And>x. dhas p' x = dhas (dset k b p) x" by force
    have "find_loop p k = Some (p', r)" using a(1,2) b p'(1) by (subst find_loop.simps) simp
    moreover have "\<exists>m'. path_to p' x m' s" if "path_to p x m s" for x m s
      using path_halve [OF a(1,2) b that] p'(2) by blast
    moreover have "dhas p' x = dhas p x" for x unfolding p'(3) using a(1) by (auto simp: dhas_def)
    ultimately show ?thesis by blast
  qed
qed

lemma uf_rep_path: "path_to p k n r \<Longrightarrow> uf_rep p k = Some r"
  using find_loop_returns by (fastforce simp: uf_rep_def)

lemma uf_rep_None: "\<not> dhas p k \<Longrightarrow> uf_rep p k = None"
  unfolding uf_rep_def by (subst find_loop.simps) (simp add: dhas_def)

lemma uf_rep_Some: "forest p \<Longrightarrow> uf_rep p k = Some r \<Longrightarrow> \<exists>n. path_to p k n r"
  by (metis forest_def option.inject option.distinct(1) uf_rep_None uf_rep_path)

lemma uf_rep_eqI:
  assumes "forest p" and "\<And>x n r. path_to p x n r \<Longrightarrow> \<exists>m. path_to p' x m r"
    and "\<And>x. dhas p' x = dhas p x"
  shows "forest p' \<and> uf_rep p' = uf_rep p"
proof
  show "forest p'" using assms unfolding forest_def by blast
  show "uf_rep p' = uf_rep p"
  proof
    fix x
    show "uf_rep p' x = uf_rep p x"
    proof (cases "dhas p x")
      case True
      with assms(1) obtain n r where "path_to p x n r" by (auto simp: forest_def)
      with assms(2) show ?thesis by (metis uf_rep_path)
    next
      case False
      with assms(3) show ?thesis by (simp add: uf_rep_None)
    qed
  qed
qed

lemma uf_find_known:
  assumes "forest p" and "uf_rep p k = Some r"
  shows "\<exists>p'. uf_find p k = Some (p', r) \<and> forest p' \<and> uf_rep p' = uf_rep p"
proof -
  from uf_rep_Some [OF assms] obtain n where n: "path_to p k n r" by blast
  from find_loop_returns [OF n] obtain p' where p': "find_loop p k = Some (p', r)"
    "\<And>x m s. path_to p x m s \<Longrightarrow> \<exists>m'. path_to p' x m' s" "\<And>x. dhas p' x = dhas p x" by blast
  from path_key [OF n] p'(1) have "uf_find p k = Some (p', r)" by (simp add: uf_find_def)
  moreover have "forest p' \<and> uf_rep p' = uf_rep p" using p'(2,3) by (intro uf_rep_eqI [OF assms(1)])
  ultimately show ?thesis by blast
qed

lemma path_new: "path_to p x n r \<Longrightarrow> dget p k = None \<Longrightarrow> path_to (dset k k p) x n r"
proof (induction rule: path_to.induct)
  case (here x)
  then show ?case by (intro path_to.here) auto
next
  case (up x a n r)
  then show ?case by (intro path_to.up [of _ _ a]) auto
qed

lemma uf_find_new:
  assumes "forest p" and "uf_rep p k = None"
  shows "\<exists>p'. uf_find p k = Some (p', k) \<and> forest p' \<and> uf_rep p' = (uf_rep p)(k \<mapsto> k)"
proof -
  have k: "\<not> dhas p k" using assms uf_rep_path by (fastforce simp: forest_def)
  let ?p = "dset k k p"
  have kk: "path_to ?p k 0 k" by (intro path_to.here) simp
  have old: "path_to ?p x n r" if "path_to p x n r" for x n r
    using k that by (auto simp: dhas_def intro: path_new)
  have "find_loop ?p k = Some (?p, k)" by (subst find_loop.simps) simp
  then have f: "uf_find p k = Some (?p, k)" using k by (simp add: uf_find_def)
  have "dhas ?p x \<longleftrightarrow> x = k \<or> dhas p x" for x by (simp add: dhas_def)
  then have "forest ?p" using assms(1) kk old unfolding forest_def by metis
  moreover have "uf_rep ?p x = ((uf_rep p)(k \<mapsto> k)) x" for x
  proof (cases "x = k")
    case True
    then show ?thesis using uf_rep_path [OF kk] by simp
  next
    case False
    show ?thesis
    proof (cases "dhas p x")
      case True
      with assms(1) obtain n r where "path_to p x n r" by (auto simp: forest_def)
      with False old [OF this] show ?thesis by (simp add: uf_rep_path)
    next
      case no: False
      with False have "\<not> dhas ?p x" by (simp add: dhas_def)
      with no False show ?thesis by (simp add: uf_rep_None)
    qed
  qed
  ultimately show ?thesis using f by (auto simp: fun_eq_iff)
qed

lemma path_link:
  assumes "dget p ra = Some ra" "dget p rb = Some rb" "ra \<noteq> rb"
  shows "path_to p x n r \<Longrightarrow> \<exists>m. path_to (dset ra rb p) x m (if r = ra then rb else r)"
proof (induction rule: path_to.induct)
  case (here x)
  show ?case
  proof (cases "x = ra")
    case True
    have "path_to (dset ra rb p) rb 0 rb" using assms by (intro path_to.here) simp
    then have "path_to (dset ra rb p) ra (Suc 0) rb" using assms by (intro path_to.up [of _ _ rb]) auto
    with True show ?thesis by auto
  next
    case False
    with here have "path_to (dset ra rb p) x 0 x" by (intro path_to.here) simp
    with False show ?thesis by auto
  qed
next
  case (up x a n r)
  then obtain m where "path_to (dset ra rb p) a m (if r = ra then rb else r)" by blast
  moreover have "x \<noteq> ra" using up.hyps assms(1) by auto
  ultimately have "path_to (dset ra rb p) x (Suc m) (if r = ra then rb else r)"
    using up.hyps by (intro path_to.up [of _ _ a]) auto
  then show ?case by blast
qed

lemma uf_union_known:
  assumes "forest p" "uf_rep p a = Some ra" "uf_rep p b = Some rb"
  shows "\<exists>p'. uf_union p a b = Some p' \<and> forest p' \<and>
    uf_rep p' = (\<lambda>x. if uf_rep p x = Some ra then Some rb else uf_rep p x)"
proof -
  from uf_find_known [OF assms(1,2)] obtain p1 where
    p1: "uf_find p a = Some (p1, ra)" "forest p1" "uf_rep p1 = uf_rep p" by blast
  from uf_find_known [OF p1(2), of b rb] assms(3) p1(3) obtain p2 where
    p2: "uf_find p1 b = Some (p2, rb)" "forest p2" "uf_rep p2 = uf_rep p" by auto
  show ?thesis
  proof (cases "ra = rb")
    case True
    with p1 p2 have "uf_union p a b = Some p2" by (simp add: uf_union_def)
    with p2 True show ?thesis by (auto simp: fun_eq_iff)
  next
    case False
    let ?p = "dset ra rb p2"
    have u: "uf_union p a b = Some ?p" using p1 p2 False by (simp add: uf_union_def)
    have ra: "dget p2 ra = Some ra" and rb: "dget p2 rb = Some rb"
      using uf_rep_Some [OF p2(2)] path_root assms(2,3) p2(3) by metis+
    note link = path_link [OF ra rb False]
    have has: "dhas ?p x = dhas p2 x" for x using ra by (auto simp: dhas_def)
    have "forest ?p" using p2(2) link unfolding forest_def has by blast
    moreover have "uf_rep ?p x = (if uf_rep p x = Some ra then Some rb else uf_rep p x)" for x
    proof (cases "dhas p2 x")
      case True
      with p2(2) obtain n r where n: "path_to p2 x n r" by (auto simp: forest_def)
      then have "uf_rep p x = Some r" using uf_rep_path p2(3) by metis
      moreover from link [OF n] obtain m where m: "path_to ?p x m (if r = ra then rb else r)" by blast
      have "uf_rep ?p x = Some (if r = ra then rb else r)" by (rule uf_rep_path [OF m])
      ultimately show ?thesis by simp
    next
      case False
      then have "uf_rep p x = None" "uf_rep ?p x = None"
        using uf_rep_None [of p2 x] p2(3) has by (auto simp: uf_rep_None)
      then show ?thesis by simp
    qed
    ultimately show ?thesis using u by (auto simp: fun_eq_iff)
  qed
qed

interpretation uf: partition_ds uf_find uf_union forest uf_rep
  by unfold_locales (fact uf_find_known uf_find_new uf_union_known)+

lemma forest_nil: "forest []" and uf_rep_nil: "uf_rep [] k = None"
  by (simp_all add: forest_def dhas_def uf_rep_None)

lemma uf_discrete_nil: "uf.discrete []"
  by (simp add: uf.discrete_def forest_nil uf_rep_nil)

end
