(* ===== verification/ReplInventory.thy ===== *)
theory ReplInventory
  imports UnionFind SnapTags "HOL-Library.Monad_Syntax"
begin

text \<open>
  \<open>app/replication_inventory.py\<close>: which host holds the original of a guest and where its copies
  are. Snapshot rows are grouped into lineages by shared guids (a union-find over (host,
  dataset)), the source of a lineage is its newest copy, every other copy is compared with it,
  and the matrix has one entry per guest. Sets of guids and labels are HOL sets. \<open>group_lineages\<close>
  and what calls it return an option, because \<open>find\<close> is a loop without a bound;
  \<open>group_lineages_partition\<close> proves that it always returns.
\<close>

section \<open>Snapshot rows\<close>

record snap_row =
  sr_dataset :: string
  sr_snapshot :: string
  sr_guid :: string
  sr_creation :: int
  sr_full :: string

type_synonym per_host = "(string, snap_row list) dict"
type_synonym lkey = "string \<times> string"

definition MIGRATE_SNAP_RE :: re where
  "MIGRATE_SNAP_RE = seqs [Bol, lit ''migrate-'', times 8 (Ch is_digit), chr CHR ''-'',
     times 6 (Ch is_digit), Eol]"

definition parse_guid_line :: "string \<Rightarrow> snap_row option" where
  "parse_guid_line line =
     (let parts = split_on (\<lambda>c. c = tab) line
      in if length parts < 3 \<or> CHR ''@'' \<notin> set (parts ! 0) then None
         else let full = strip (parts ! 0) in
           case split_once CHR ''@'' full of
             None \<Rightarrow> None
           | Some (dataset, snapshot) \<Rightarrow>
               (case py_int (parts ! 2) of
                  None \<Rightarrow> None
                | Some creation \<Rightarrow>
                    (let guid = strip (parts ! 1)
                     in if guid = [] then None
                        else Some \<lparr>sr_dataset = dataset, sr_snapshot = snapshot, sr_guid = guid,
                                   sr_creation = creation, sr_full = full\<rparr>)))"

definition parse_snapshot_guids :: "string \<Rightarrow> snap_row list" where
  "parse_snapshot_guids stdout = List.map_filter parse_guid_line (splitlines stdout)"

text \<open>The line \<open>zfs list -Hp -t snapshot -o name,guid,creation\<close> prints for a row.\<close>

definition render_row :: "snap_row \<Rightarrow> string" where
  "render_row r = join [tab] [sr_dataset r @ ''@'' @ sr_snapshot r, sr_guid r, show_int (sr_creation r)]"

definition row_ok :: "snap_row \<Rightarrow> bool" where
  "row_ok r = (list_all (\<lambda>c. \<not> is_space c \<and> c \<noteq> CHR ''@'') (sr_dataset r) \<and>
     list_all (\<lambda>c. \<not> is_space c) (sr_snapshot r) \<and> sr_dataset r \<noteq> [] \<and>
     sr_guid r \<noteq> [] \<and> list_all (\<lambda>c. \<not> is_space c) (sr_guid r) \<and>
     sr_full r = sr_dataset r @ ''@'' @ sr_snapshot r)"

lemma strip_no_space: "list_all (\<lambda>c. \<not> is_space c) s \<Longrightarrow> strip s = s"
proof (cases "s = []")
  case False
  then show "list_all (\<lambda>c. \<not> is_space c) s \<Longrightarrow> strip s = s"
    by (intro strip_id) (simp_all add: list_all_iff)
qed (simp add: strip_def lstrip_def rstrip_def)

lemma tab_space [simp]: "is_space tab"
  by (simp add: is_space_def tab_def cc_def)

lemma parse_render_row:
  assumes "row_ok r"
  shows "parse_guid_line (render_row r) = Some r"
proof -
  let ?n = "sr_dataset r @ ''@'' @ sr_snapshot r"
  have no_at: "\<not> is_space CHR ''@''" by (simp add: is_space_def cc_def)
  have n: "list_all (\<lambda>c. \<not> is_space c) ?n" using assms no_at by (auto simp: row_ok_def list_all_iff)
  have i: "list_all (\<lambda>c. \<not> is_space c) (show_int (sr_creation r))"
    unfolding list_all_iff using show_int_chars digit_not_space by (force simp: is_space_def cc_def)
  have tab: "list_all (\<lambda>c. c \<noteq> tab) s" if "list_all (\<lambda>c. \<not> is_space c) s" for s
    using that tab_space by (auto simp: list_all_iff)
  have "split_on (\<lambda>c. c = tab) (render_row r) = [?n, sr_guid r, show_int (sr_creation r)]"
    unfolding render_row_def using tab [OF n] tab [OF i] tab [of "sr_guid r"] assms
    by (intro split_on_join) (auto simp: row_ok_def)
  moreover have "split_once CHR ''@'' ?n = Some (sr_dataset r, sr_snapshot r)"
    unfolding split_once_Some using assms by (auto simp: row_ok_def list_all_iff)
  moreover have "strip (sr_guid r) = sr_guid r" using assms by (simp add: row_ok_def strip_no_space)
  ultimately show ?thesis using assms strip_no_space [OF n]
    by (simp add: parse_guid_line_def Let_def py_int_show_int row_ok_def)
qed

text \<open>Parsing what \<open>zfs list\<close> prints for a list of snapshots gives exactly these snapshots, in
  order.\<close>

theorem parse_snapshot_guids_roundtrip:
  assumes "\<forall>r \<in> set rows. row_ok r"
  shows "parse_snapshot_guids (join [newline] (map render_row rows)) = rows"
proof (cases "rows = []")
  case True
  have "parse_snapshot_guids (join [newline] (map render_row [])) = []" by code_simp
  with True show ?thesis by simp
next
  case False
  have plain: "plain_line (render_row r)" if "r \<in> set rows" for r
  proof -
    have "\<not> is_linebreak tab" by (simp add: is_linebreak_def tab_def cc_def)
    moreover have "\<not> is_linebreak c" if "\<not> is_space c" for c using that linebreak_space by blast
    moreover have "\<not> is_space c" if "c \<in> set (show_int (sr_creation r))" for c
      using show_int_chars [OF that] digit_not_space by (auto simp: is_space_def cc_def)
    moreover have "\<not> is_space CHR ''@''" by (simp add: is_space_def cc_def)
    ultimately show ?thesis using assms that
      by (auto simp: plain_line_def render_row_def row_ok_def list_all_iff)
  qed
  have "splitlines (join [newline] (map render_row rows)) = map render_row rows"
    using False plain by (intro splitlines_join) (auto simp: render_row_def last_map)
  moreover have "List.map_filter parse_guid_line (map render_row rows) = rows" if "\<forall>r \<in> set rows. row_ok r" for rows
    using that by (induction rows) (simp_all add: List.map_filter_simps parse_render_row)
  ultimately show ?thesis using assms by (simp add: parse_snapshot_guids_def)
qed

theorem parse_snapshot_guids_roundtrip_witness:
  "parse_snapshot_guids (join [newline] (map render_row
     [\<lparr>sr_dataset = ''rpool/data'', sr_snapshot = ''s@1'', sr_guid = ''77'', sr_creation = 123, sr_full = ''rpool/data@s@1''\<rparr>]))
   = [\<lparr>sr_dataset = ''rpool/data'', sr_snapshot = ''s@1'', sr_guid = ''77'', sr_creation = 123, sr_full = ''rpool/data@s@1''\<rparr>]"
  by (rule parse_snapshot_guids_roundtrip) code_simp

section \<open>Correlation\<close>

text \<open>All rows of all hosts, in the order of the two nested loops.\<close>

definition host_rows :: "per_host \<Rightarrow> (string \<times> snap_row) list" where
  "host_rows per_host = concat (map (\<lambda>(host, rows). map (Pair host) rows) per_host)"

definition lineage_key :: "string \<Rightarrow> string \<Rightarrow> lkey" where
  "lineage_key host dataset = (host, dataset)"

definition place_key :: "string \<times> snap_row \<Rightarrow> lkey" where
  "place_key p = lineage_key (fst p) (sr_dataset (snd p))"

definition build_guid_index :: "per_host \<Rightarrow> (string, (string \<times> snap_row) list) dict" where
  "build_guid_index per_host = group_into (\<lambda>p. sr_guid (snd p)) (\<lambda>p. p) (host_rows per_host) []"

text \<open>The first loop of \<open>group_lineages\<close>: the rows of every dataset, and its entry in the
  union-find.\<close>

fun register :: "(string \<times> snap_row) list \<Rightarrow> (lkey, snap_row list) dict \<times> (lkey, lkey) dict \<Rightarrow>
    ((lkey, snap_row list) dict \<times> (lkey, lkey) dict) option" where
  "register [] st = Some st"
| "register (p # ps) (members, parent) =
     do { (parent', _) \<leftarrow> uf_find parent (place_key p);
          register ps (dmodify (place_key p) [] (\<lambda>l. l @ [snd p]) members, parent') }"

text \<open>The pairs the second loop unites: the first place of a guid with each other one, unless a
  migration snapshot carries the guid.\<close>

definition guid_edges :: "(string \<times> snap_row) list \<Rightarrow> (lkey \<times> lkey) list" where
  "guid_edges places =
     (if length places < 2 then []
      else if list_ex (\<lambda>p. re_test MIGRATE_SNAP_RE (sr_snapshot (snd p))) places then []
      else map (\<lambda>p. (place_key (hd places), place_key p)) (tl places))"

fun link_all :: "(lkey \<times> lkey) list \<Rightarrow> (lkey, lkey) dict \<Rightarrow> (lkey, lkey) dict option" where
  "link_all [] parent = Some parent"
| "link_all (e # es) parent = do { parent' \<leftarrow> uf_union parent (fst e) (snd e); link_all es parent' }"

text \<open>The third loop: the keys of \<open>members\<close> by their root.\<close>

fun group_roots :: "lkey list \<Rightarrow> (lkey, lkey) dict \<times> (lkey, lkey list) dict \<Rightarrow>
    ((lkey, lkey) dict \<times> (lkey, lkey list) dict) option" where
  "group_roots [] st = Some st"
| "group_roots (k # ks) (parent, grouped) =
     do { (parent', root) \<leftarrow> uf_find parent k;
          group_roots ks (parent', dmodify root [] (\<lambda>l. l @ [k]) grouped) }"

record copy =
  cp_host :: string
  cp_dataset :: string
  cp_snapshot_count :: nat
  cp_oldest :: "int option"
  cp_newest :: "int option"
  cp_guids :: "string set"
  cp_by_guid :: "(string, string option) dict"
  cp_labels :: "string set"
  cp_newest_snapshot :: string

definition label_by_guid :: "snap_row list \<Rightarrow> (string, string option) dict" where
  "label_by_guid snaps = fold (\<lambda>s. dset (sr_guid s) (extract_tag (sr_snapshot s))) snaps []"

definition make_copy :: "(lkey, snap_row list) dict \<Rightarrow> lkey \<Rightarrow> copy" where
  "make_copy members k =
     (let snaps = sort_key sr_creation (dget_or [] members k);
          by_guid = label_by_guid snaps
      in \<lparr>cp_host = fst k, cp_dataset = snd k,
          cp_snapshot_count = length snaps,
          cp_oldest = (if snaps = [] then None else Some (sr_creation (hd snaps))),
          cp_newest = (if snaps = [] then None else Some (sr_creation (last snaps))),
          cp_guids = set (map sr_guid snaps),
          cp_by_guid = by_guid,
          cp_labels = set (filter (\<lambda>l. l \<noteq> []) (List.map_filter (\<lambda>l. l) (dvals by_guid))),
          cp_newest_snapshot = (if snaps = [] then [] else sr_snapshot (last snaps))\<rparr>)"

definition group_lineages :: "per_host \<Rightarrow> copy list list option" where
  "group_lineages per_host =
     do { (members, parent) \<leftarrow> register (host_rows per_host) ([], []);
          parent' \<leftarrow> link_all (concat (map (\<lambda>(guid, places). guid_edges places) (build_guid_index per_host))) parent;
          (_, grouped) \<leftarrow> group_roots (dkeys members) (parent', []);
          Some (map (\<lambda>(root, keys). map (make_copy members) (sort keys)) grouped) }"

section \<open>What a lineage is\<close>

definition lineage_keys :: "copy list \<Rightarrow> lkey list" where
  "lineage_keys l = map (\<lambda>c. (cp_host c, cp_dataset c)) l"

text \<open>The specification: two datasets share evidence when both carry a guid that no migration
  snapshot carries anywhere.\<close>

definition shares :: "per_host \<Rightarrow> (lkey \<times> lkey) set" where
  "shares per_host = {(a, b). \<exists>p \<in> set (host_rows per_host). \<exists>q \<in> set (host_rows per_host).
     place_key p = a \<and> place_key q = b \<and> sr_guid (snd p) = sr_guid (snd q) \<and>
     (\<forall>x \<in> set (host_rows per_host). sr_guid (snd x) = sr_guid (snd p) \<longrightarrow>
        \<not> re_test MIGRATE_SNAP_RE (sr_snapshot (snd x)))}"

definition edges :: "per_host \<Rightarrow> (lkey \<times> lkey) list" where
  "edges per_host = concat (map (\<lambda>(guid, places). guid_edges places) (build_guid_index per_host))"

definition members_of :: "per_host \<Rightarrow> (lkey, snap_row list) dict" where
  "members_of per_host = group_into place_key snd (host_rows per_host) []"

lemma sharesI:
  "p \<in> set (host_rows ph) \<Longrightarrow> q \<in> set (host_rows ph) \<Longrightarrow> sr_guid (snd p) = sr_guid (snd q) \<Longrightarrow>
   (\<And>x. x \<in> set (host_rows ph) \<Longrightarrow> sr_guid (snd x) = sr_guid (snd p) \<Longrightarrow>
      \<not> re_test MIGRATE_SNAP_RE (sr_snapshot (snd x))) \<Longrightarrow>
   (place_key p, place_key q) \<in> shares ph"
  unfolding shares_def by blast

lemma sharesE:
  assumes "(a, b) \<in> shares ph"
  obtains p q where "p \<in> set (host_rows ph)" "q \<in> set (host_rows ph)" "place_key p = a" "place_key q = b"
    "sr_guid (snd p) = sr_guid (snd q)"
    "\<And>x. x \<in> set (host_rows ph) \<Longrightarrow> sr_guid (snd x) = sr_guid (snd p) \<Longrightarrow>
       \<not> re_test MIGRATE_SNAP_RE (sr_snapshot (snd x))"
  using assms unfolding shares_def by blast

lemma register_eq:
  "register ps (m, p) =
   map_option (\<lambda>p'. (group_into place_key snd ps m, p')) (uf.find_all p (map place_key ps))"
  by (induction ps arbitrary: m p) (auto simp: group_into_cons split: option.splits)

lemma link_all_eq: "link_all es p = uf.union_all p es"
  by (induction es arbitrary: p) (auto split: option.splits)

lemma group_roots_eq:
  "forest p \<Longrightarrow> set ks \<subseteq> dom (uf_rep p) \<Longrightarrow>
   \<exists>p'. group_roots ks (p, g) = Some (p', group_into (\<lambda>k. the (uf_rep p k)) (\<lambda>k. k) ks g)"
proof (induction ks arbitrary: p g)
  case (Cons k ks)
  then obtain r where r: "uf_rep p k = Some r" by auto
  from uf.find_known [OF Cons.prems(1) r] obtain p1 where
    p1: "uf_find p k = Some (p1, r)" "forest p1" "uf_rep p1 = uf_rep p" by blast
  from Cons.prems(2) p1(3) have "set ks \<subseteq> dom (uf_rep p1)" by simp
  from Cons.IH [OF p1(2) this] show ?case using p1 r by (simp add: group_into_cons)
qed simp

lemma index_entry:
  assumes "(g, places) \<in> set (build_guid_index ph)"
  shows "places = filter (\<lambda>p. sr_guid (snd p) = g) (host_rows ph)"
  using group_into_entry(1) [OF assms [unfolded build_guid_index_def]] by simp

lemma edges_shares: "set (edges ph) \<subseteq> shares ph"
proof
  fix e assume "e \<in> set (edges ph)"
  then obtain g places where i: "(g, places) \<in> set (build_guid_index ph)" "e \<in> set (guid_edges places)"
    unfolding edges_def by auto
  note pl = index_entry [OF i(1)]
  from i(2) have no: "\<not> list_ex (\<lambda>p. re_test MIGRATE_SNAP_RE (sr_snapshot (snd p))) places"
    and two: "\<not> length places < 2" by (auto simp: guid_edges_def split: if_splits)
  from i(2) obtain q where q: "q \<in> set (tl places)" "e = (place_key (hd places), place_key q)"
    by (auto simp: guid_edges_def split: if_splits)
  from two have "places \<noteq> []" by auto
  then have "hd places \<in> set places" and "q \<in> set places" using q(1) by (auto dest: list.set_sel(2))
  note m = this
  have in_rows: "x \<in> set (host_rows ph) \<and> sr_guid (snd x) = g" if "x \<in> set places" for x
    using that unfolding pl by simp
  have "(place_key (hd places), place_key q) \<in> shares ph"
  proof (rule sharesI)
    fix x assume "x \<in> set (host_rows ph)" "sr_guid (snd x) = sr_guid (snd (hd places))"
    then have "x \<in> set places" using in_rows [OF m(1)] unfolding pl by simp
    then show "\<not> re_test MIGRATE_SNAP_RE (sr_snapshot (snd x))" using no by (auto simp: list_ex_iff)
  qed (use in_rows [OF m(1)] in_rows [OF m(2)] in simp_all)
  then show "e \<in> shares ph" using q(2) by simp
qed

lemma shares_edges: "shares ph \<subseteq> (set (edges ph) \<union> (set (edges ph))\<inverse>)\<^sup>*"
proof clarify
  fix a1 a2 b1 b2 assume "((a1, a2), (b1, b2)) \<in> shares ph"
  then obtain p q where pq: "p \<in> set (host_rows ph)" "q \<in> set (host_rows ph)" "place_key p = (a1, a2)"
    "place_key q = (b1, b2)" "sr_guid (snd p) = sr_guid (snd q)"
    and no: "\<forall>x \<in> set (host_rows ph). sr_guid (snd x) = sr_guid (snd p) \<longrightarrow>
      \<not> re_test MIGRATE_SNAP_RE (sr_snapshot (snd x))" by (elim sharesE) blast
  define places where "places = filter (\<lambda>x. sr_guid (snd x) = sr_guid (snd p)) (host_rows ph)"
  have "sr_guid (snd p) \<in> set (dkeys (build_guid_index ph))"
    unfolding build_guid_index_def set_dkeys_group_into using pq(1) by blast
  then obtain l where l: "(sr_guid (snd p), l) \<in> set (build_guid_index ph)" by (auto simp: dkeys_def)
  have l_eq: "l = places" unfolding places_def by (rule index_entry [OF l])
  have mem: "p \<in> set places" "q \<in> set places" using pq unfolding places_def by auto
  have first: "(place_key (hd places), place_key x) \<in> (set (edges ph) \<union> (set (edges ph))\<inverse>)\<^sup>*"
    if "x \<in> set places" for x
  proof (cases "x = hd places")
    case False
    with that obtain y ys where ys: "places = y # ys" "x \<in> set ys" by (cases places) auto
    have "\<not> list_ex (\<lambda>p. re_test MIGRATE_SNAP_RE (sr_snapshot (snd p))) places"
      using no unfolding places_def list_ex_iff by auto
    with ys have "(place_key (hd places), place_key x) \<in> set (guid_edges places)"
      by (auto simp: guid_edges_def)
    with l have "(place_key (hd places), place_key x) \<in> set (edges ph)" unfolding l_eq edges_def by auto
    then show ?thesis by blast
  qed simp
  have "sym ((set (edges ph) \<union> (set (edges ph))\<inverse>)\<^sup>*)" by (rule sym_rtrancl) (auto simp: sym_def)
  with first [OF mem(1)] have "(place_key p, place_key (hd places)) \<in> (set (edges ph) \<union> (set (edges ph))\<inverse>)\<^sup>*"
    by (auto dest: symD)
  from rtrancl_trans [OF this first [OF mem(2)]]
  show "((a1, a2), (b1, b2)) \<in> (set (edges ph) \<union> (set (edges ph))\<inverse>)\<^sup>*" using pq by simp
qed

lemma shares_sym: "(a, b) \<in> shares ph \<Longrightarrow> (b, a) \<in> shares ph"
proof (elim sharesE)
  fix p q assume *: "p \<in> set (host_rows ph)" "q \<in> set (host_rows ph)" "place_key p = a" "place_key q = b"
    "sr_guid (snd p) = sr_guid (snd q)"
    "\<And>x. x \<in> set (host_rows ph) \<Longrightarrow> sr_guid (snd x) = sr_guid (snd p) \<Longrightarrow>
       \<not> re_test MIGRATE_SNAP_RE (sr_snapshot (snd x))"
  have "(place_key q, place_key p) \<in> shares ph" by (rule sharesI) (use * in auto)
  with * show ?thesis by simp
qed

lemma shares_closure: "(set (edges ph) \<union> (set (edges ph))\<inverse>)\<^sup>* = (shares ph)\<^sup>*"
proof
  have "set (edges ph) \<union> (set (edges ph))\<inverse> \<subseteq> shares ph"
    using edges_shares by (auto intro: shares_sym)
  then show "(set (edges ph) \<union> (set (edges ph))\<inverse>)\<^sup>* \<subseteq> (shares ph)\<^sup>*" by (rule rtrancl_mono)
  show "(shares ph)\<^sup>* \<subseteq> (set (edges ph) \<union> (set (edges ph))\<inverse>)\<^sup>*"
    by (rule rtrancl_subset_rtrancl [OF shares_edges])
qed

lemma shares_places: "shares ph \<subseteq> (place_key ` set (host_rows ph)) \<times> (place_key ` set (host_rows ph))"
proof
  fix e assume e: "e \<in> shares ph"
  obtain a b where ab: "e = (a, b)" by (cases e)
  from e [unfolded ab] show "e \<in> (place_key ` set (host_rows ph)) \<times> (place_key ` set (host_rows ph))"
    unfolding ab by (rule sharesE) (metis SigmaI imageI)
qed

lemma set_members: "set (dkeys (members_of ph)) = place_key ` set (host_rows ph)"
  unfolding members_of_def set_dkeys_group_into by (simp add: dkeys_def)

lemma group_lineages_form:
  "\<exists>f :: lkey \<Rightarrow> lkey. group_lineages ph = Some (map (\<lambda>(root, keys). map (make_copy (members_of ph)) (sort keys))
         (group_into f (\<lambda>k. k) (dkeys (members_of ph)) [])) \<and>
       (\<forall>x \<in> set (dkeys (members_of ph)). \<forall>y \<in> set (dkeys (members_of ph)).
          f x = f y \<longleftrightarrow> (x, y) \<in> (shares ph)\<^sup>*)"
proof -
  let ?ks = "map place_key (host_rows ph)"
  have sub: "set (edges ph) \<subseteq> set ?ks \<times> set ?ks" using edges_shares shares_places by fastforce
  have "dom (uf_rep []) = {}" by (auto simp: uf_rep_nil)
  from uf.partition_correct [OF uf_discrete_nil sub this] obtain p1 p2 where
    p: "uf.find_all [] ?ks = Some p1" "uf.union_all p1 (edges ph) = Some p2" "forest p2"
      "dom (uf_rep p2) = set ?ks" "uf.connects p2 (set (edges ph))" by blast
  have dom: "dom (uf_rep p2) = set (dkeys (members_of ph))" using p(4) by (simp add: set_members)
  let ?f = "\<lambda>k. the (uf_rep p2 k)"
  from group_roots_eq [OF p(3)] dom obtain p3 where
    p3: "group_roots (dkeys (members_of ph)) (p2, []) = Some (p3, group_into ?f (\<lambda>k. k) (dkeys (members_of ph)) [])"
    by fastforce
  have form: "group_lineages ph = Some (map (\<lambda>(root, keys). map (make_copy (members_of ph)) (sort keys))
      (group_into ?f (\<lambda>k. k) (dkeys (members_of ph)) []))"
    using p(1,2) p3 unfolding group_lineages_def register_eq link_all_eq members_of_def edges_def by simp
  have conn: "?f x = ?f y \<longleftrightarrow> (x, y) \<in> (shares ph)\<^sup>*"
    if "x \<in> set (dkeys (members_of ph))" "y \<in> set (dkeys (members_of ph))" for x y
  proof -
    have d: "x \<in> dom (uf_rep p2)" "y \<in> dom (uf_rep p2)" using that dom by auto
    then have "uf_rep p2 x = uf_rep p2 y \<longleftrightarrow> (x, y) \<in> (shares ph)\<^sup>*"
      using p(5) unfolding uf.connects_def uf.same_def shares_closure by blast
    moreover from d have "?f x = ?f y \<longleftrightarrow> uf_rep p2 x = uf_rep p2 y" by auto
    ultimately show ?thesis by simp
  qed
  show ?thesis by (rule exI [of _ ?f], rule conjI, rule form, intro ballI, rule conn)
qed


lemma dinv_members: "dinv (members_of ph)"
  unfolding members_of_def by (rule dinv_group_into) simp

definition rows_of :: "per_host \<Rightarrow> lkey \<Rightarrow> snap_row list" where
  "rows_of per_host k = map snd (filter (\<lambda>p. place_key p = k) (host_rows per_host))"

lemma members_rows: "dget_or [] (members_of ph) k = rows_of ph k"
  unfolding members_of_def dget_or_group_into rows_of_def by (simp add: dget_or_def)

lemma rows_of_ne: "rows_of ph k \<noteq> [] \<longleftrightarrow> k \<in> place_key ` set (host_rows ph)"
  by (auto simp: rows_of_def filter_empty_conv)

lemma lineage_keys_copies: "lineage_keys (map (make_copy m) ks) = ks"
  by (simp add: lineage_keys_def make_copy_def Let_def comp_def)

lemma lineage_shape:
  assumes "group_lineages ph = Some ls" "l \<in> set ls"
  shows "\<exists>(f :: lkey \<Rightarrow> lkey) root. l = map (make_copy (members_of ph)) (sort (filter (\<lambda>k. f k = root) (dkeys (members_of ph)))) \<and>
    (\<forall>x \<in> set (dkeys (members_of ph)). \<forall>y \<in> set (dkeys (members_of ph)).
       f x = f y \<longleftrightarrow> (x, y) \<in> (shares ph)\<^sup>*)"
proof -
  obtain f :: "lkey \<Rightarrow> lkey" where f: "group_lineages ph = Some (map (\<lambda>(root, keys). map (make_copy (members_of ph)) (sort keys))
       (group_into f (\<lambda>k. k) (dkeys (members_of ph)) []))"
    and conn: "\<forall>x \<in> set (dkeys (members_of ph)). \<forall>y \<in> set (dkeys (members_of ph)).
       f x = f y \<longleftrightarrow> (x, y) \<in> (shares ph)\<^sup>*" using group_lineages_form [of ph] by blast
  from f assms obtain root keys where k: "(root, keys) \<in> set (group_into f (\<lambda>k. k) (dkeys (members_of ph)) [])"
    "l = map (make_copy (members_of ph)) (sort keys)" by auto
  from group_into_entry(1) [OF k(1)] have "keys = filter (\<lambda>k. f k = root) (dkeys (members_of ph))" by simp
  with k(2) conn show ?thesis by blast
qed

lemma shares_closure_places:
  assumes "(a, b) \<in> (shares ph)\<^sup>*" and "a \<in> place_key ` set (host_rows ph)"
  shows "b \<in> place_key ` set (host_rows ph)"
  using assms by (induction rule: rtrancl_induct) (use shares_places in auto)

lemma lineage_mem:
  assumes "group_lineages ph = Some ls" "l \<in> set ls" "a \<in> set (lineage_keys l)"
  shows "b \<in> set (lineage_keys l) \<longleftrightarrow> (a, b) \<in> (shares ph)\<^sup>*"
proof -
  from lineage_shape [OF assms(1,2)] obtain f :: "lkey \<Rightarrow> lkey" and root where
    l: "l = map (make_copy (members_of ph)) (sort (filter (\<lambda>k. f k = root) (dkeys (members_of ph))))"
    and conn: "\<forall>x \<in> set (dkeys (members_of ph)). \<forall>y \<in> set (dkeys (members_of ph)).
       f x = f y \<longleftrightarrow> (x, y) \<in> (shares ph)\<^sup>*" by blast
  have keys: "x \<in> set (lineage_keys l) \<longleftrightarrow> x \<in> set (dkeys (members_of ph)) \<and> f x = root" for x
    unfolding l lineage_keys_copies by auto
  show ?thesis
  proof (cases "b \<in> set (dkeys (members_of ph))")
    case True
    with keys conn assms(3) show ?thesis by metis
  next
    case False
    with shares_closure_places [of a b ph] keys assms(3) show ?thesis by (auto simp: set_members)
  qed
qed

lemma lineage_copies:
  assumes "group_lineages ph = Some ls" "l \<in> set ls" "c \<in> set l"
  shows "c = make_copy (members_of ph) (cp_host c, cp_dataset c)" and "rows_of ph (cp_host c, cp_dataset c) \<noteq> []"
proof -
  from lineage_shape [OF assms(1,2)] obtain f :: "lkey \<Rightarrow> lkey" and root where
    l: "l = map (make_copy (members_of ph)) (sort (filter (\<lambda>k. f k = root) (dkeys (members_of ph))))" by blast
  then obtain k where k: "k \<in> set (dkeys (members_of ph))" "c = make_copy (members_of ph) k"
    using assms(3) by auto
  then have "(cp_host c, cp_dataset c) = k" by (simp add: make_copy_def Let_def)
  with k show "c = make_copy (members_of ph) (cp_host c, cp_dataset c)"
    and "rows_of ph (cp_host c, cp_dataset c) \<noteq> []" by (simp_all add: rows_of_ne set_members)
qed

lemma partition_keys:
  "\<exists>ls. group_lineages ph = Some ls \<and> distinct (concat (map lineage_keys ls)) \<and>
    set (concat (map lineage_keys ls)) = place_key ` set (host_rows ph)"
proof -
  obtain f :: "lkey \<Rightarrow> lkey" where f: "group_lineages ph = Some (map (\<lambda>(root, keys). map (make_copy (members_of ph)) (sort keys))
       (group_into f (\<lambda>k. k) (dkeys (members_of ph)) []))" using group_lineages_form [of ph] by blast
  let ?G = "group_into f (\<lambda>k. k) (dkeys (members_of ph)) []"
  let ?ls = "map (\<lambda>(root, keys). map (make_copy (members_of ph)) (sort keys)) ?G"
  have srt: "mset (concat (map (\<lambda>x. sort (snd x)) G)) = mset (concat (map snd G))" for G :: "(lkey \<times> lkey list) list"
    by (induction G) auto
  have keys: "map lineage_keys ?ls = map (\<lambda>x. sort (snd x)) ?G"
    by (simp add: comp_def case_prod_beta lineage_keys_copies)
  have m: "mset (concat (map lineage_keys ?ls)) = mset (dkeys (members_of ph))"
    unfolding keys srt mset_group_into by simp
  have "distinct (concat (map lineage_keys ?ls))"
    using mset_eq_imp_distinct_iff [OF m] dinv_members [of ph] by (simp add: dinv_dkeys)
  moreover have "set (concat (map lineage_keys ?ls)) = place_key ` set (host_rows ph)"
    using mset_eq_setD [OF m] set_members by simp
  ultimately show ?thesis using f by blast
qed

text \<open>C2: Grouping always returns (the loop of \<open>find\<close> ends), and the lineages are a partition of
  the datasets that have a snapshot: every one is in exactly one lineage, once.\<close>

theorem group_lineages_partition:
  "\<exists>ls. group_lineages ph = Some ls \<and> distinct (concat (map lineage_keys ls)) \<and>
    set (concat (map lineage_keys ls)) = place_key ` set (host_rows ph)"
  by (rule partition_keys)

text \<open>C1: Two datasets are in one lineage exactly when a chain of datasets leads from one to the
  other in which neighbours carry a common guid that no migration snapshot carries.\<close>

theorem lineage_iff_connected:
  assumes "group_lineages ph = Some ls" and "l \<in> set ls" and "a \<in> set (lineage_keys l)"
  shows "b \<in> set (lineage_keys l) \<longleftrightarrow> (a, b) \<in> (shares ph)\<^sup>*"
  by (rule lineage_mem [OF assms])

definition ex_rows :: per_host where
  "ex_rows = [(''pve1'', [\<lparr>sr_dataset = ''a'', sr_snapshot = ''s'', sr_guid = ''1'', sr_creation = 5, sr_full = ''a@s''\<rparr>]),
     (''pve2'', [\<lparr>sr_dataset = ''b'', sr_snapshot = ''s'', sr_guid = ''1'', sr_creation = 5, sr_full = ''b@s''\<rparr>])]"

lemma ex_rows_facts:
  "group_lineages ex_rows \<noteq> None" "the (group_lineages ex_rows) \<noteq> []"
  "(''pve1'', ''a'') \<in> set (lineage_keys (hd (the (group_lineages ex_rows))))"
  "(''pve2'', ''b'') \<in> set (lineage_keys (hd (the (group_lineages ex_rows))))"
  by code_simp+

theorem lineage_iff_connected_witness:
  "((''pve1'', ''a''), (''pve2'', ''b'')) \<in> (shares ex_rows)\<^sup>*"
proof -
  have "group_lineages ex_rows = Some (the (group_lineages ex_rows))" using ex_rows_facts(1) by simp
  from lineage_iff_connected [OF this hd_in_set [OF ex_rows_facts(2)] ex_rows_facts(3)] ex_rows_facts(4)
  show ?thesis by blast
qed

end
