(* ===== verification/ReplMatrix.thy ===== *)
theory ReplMatrix
  imports ReplInventory
begin

text \<open>
  The second half of \<open>app/replication_inventory.py\<close>: the source of a lineage, the comparison of a
  copy with it, the matrix with one entry per guest, its restriction to one host and the digest
  for the report. \<open>guest_ref_from_dataset\<close> is from \<open>app/dr.py\<close>. Fields that other parts of the
  program attach to an entry later (backup verdict, declared exception, protection) are there from
  the start, with a value that stands for an absent key.
\<close>

section \<open>Source and comparison\<close>

definition source_rank :: "copy \<Rightarrow> int \<times> nat \<times> string" where
  "source_rank c = (case cp_newest c of None \<Rightarrow> 0 | Some n \<Rightarrow> n, cp_snapshot_count c, cp_host c)"

definition detect_source :: "copy list \<Rightarrow> copy option" where
  "detect_source copies = py_max source_rank (filter (\<lambda>c. cp_newest c \<noteq> None) copies)"

record comparison =
  cm_shared_snapshots :: nat
  cm_missing_from_source :: nat
  cm_excluded_labels :: "string list"
  cm_lag_seconds :: "int option"
  cm_in_sync :: bool

text \<open>The guids of the source that should be on the copy and are not.\<close>

definition missing_guids :: "copy \<Rightarrow> copy \<Rightarrow> string set" where
  "missing_guids source copy =
     (if cp_labels copy \<noteq> {}
      then {g \<in> cp_guids source - cp_guids copy.
              (case dget (cp_by_guid source) g of Some (Some l) \<Rightarrow> l \<in> cp_labels copy | _ \<Rightarrow> False)}
      else cp_guids source - cp_guids copy)"

definition compare_copy :: "copy \<Rightarrow> copy \<Rightarrow> comparison" where
  "compare_copy source copy =
     (let shared = cp_guids source \<inter> cp_guids copy;
          excluded = sorted_list_of_set {l \<in> cp_labels source - cp_labels copy. l \<noteq> []};
          missing = missing_guids source copy;
          lag = (case (cp_newest source, cp_newest copy) of
                   (Some s, Some c) \<Rightarrow> Some (max 0 (s - c)) | _ \<Rightarrow> None)
      in \<lparr>cm_shared_snapshots = card shared, cm_missing_from_source = card missing,
          cm_excluded_labels = excluded, cm_lag_seconds = lag,
          cm_in_sync = (shared \<noteq> {} \<and> missing = {})\<rparr>)"

section \<open>Guests\<close>

definition GUEST_KIND :: "(string, string) dict" where
  "GUEST_KIND = [(''vm'', ''qemu''), (''base'', ''qemu''), (''subvol'', ''lxc''), (''basevol'', ''lxc'')]"

definition GUEST_DS_RE :: re where
  "GUEST_DS_RE = seqs [Alt Bol (chr CHR ''/''),
     Grp 1 (Alt (lit ''vm'') (Alt (lit ''subvol'') (Alt (lit ''base'') (lit ''basevol'')))),
     chr CHR ''-'', Grp 2 (plus (Ch is_digit)), lit ''-disk-'', plus (Ch is_digit)]"

definition guest_ref_from_dataset :: "string \<Rightarrow> string option \<times> string option" where
  "guest_ref_from_dataset dataset =
     (case re_search GUEST_DS_RE dataset of
        None \<Rightarrow> (None, None)
      | Some m \<Rightarrow> (dget GUEST_KIND (group_str 1 m), Some (group_str 2 m)))"

text \<open>A guest as \<open>get_pve_vms\<close> and \<open>get_pve_cts\<close> report it, and the guests of every host.\<close>

type_synonym guest = "(string, pyval) dict"
type_synonym guests_by_host = "(string, guest list) dict"

record cfg_pair =
  cf_target_host :: string
  cf_source :: string
  cf_target :: string

record autosnap_info =
  as_disabled :: "string set"
  as_active :: bool

section \<open>The matrix\<close>

record row =
  rw_host :: string
  rw_dataset :: string
  rw_is_source :: bool
  rw_snapshot_count :: nat
  rw_oldest :: "int option"
  rw_newest :: "int option"
  rw_newest_snapshot :: string
  rw_cmp :: comparison
  rw_local_autosnap :: "bool option"

record backup_verdict =
  bv_state :: string
  bv_reason :: string
  bv_count :: int
  bv_age_seconds :: "int option"
  bv_newest :: int
  bv_newest_volid :: string
  bv_storages :: "string list"
  bv_types :: "string list"
  bv_protected :: int
  bv_covered :: bool
  bv_covered_by :: "string list"

record guest_exception =
  ge_no_backup :: bool
  ge_no_replication :: bool
  ge_reason :: string
  ge_by :: string
  ge_at :: "int option"
  ge_documented :: bool

record entry =
  en_vmid :: string
  en_guest_type :: "string option"
  en_guest_name :: pyval
  en_source_host :: string
  en_source_dataset :: string
  en_copy_count :: int
  en_copies :: "row list"
  en_config_mismatch :: string
  en_no_snapshots :: bool
  en_backup :: "backup_verdict option"
  en_exception :: "guest_exception option"
  en_stale_exception :: string
  en_protection :: string

record matrix =
  mx_guests :: "entry list"
  mx_generated :: bool

definition config_mismatch :: "copy \<Rightarrow> row list \<Rightarrow> cfg_pair list \<Rightarrow> string" where
  "config_mismatch source rows configured =
     (case find (\<lambda>cfg. let target_host = strip (cf_target_host cfg); source_host = strip (cf_source cfg) in
               target_host \<noteq> [] \<and> source_host \<noteq> [] \<and> cp_host source = target_host \<and>
               list_ex (\<lambda>r. rw_host r = source_host) rows) configured of
        None \<Rightarrow> []
      | Some cfg \<Rightarrow> ''holds the newest snapshots on '' @ cp_host source @
          '', which is configured as a replication target of '' @ strip (cf_source cfg))"

definition self_comparison :: "copy \<Rightarrow> comparison" where
  "self_comparison c = \<lparr>cm_shared_snapshots = cp_snapshot_count c, cm_missing_from_source = 0,
     cm_excluded_labels = [], cm_lag_seconds = Some 0, cm_in_sync = True\<rparr>"

definition make_row :: "(string, autosnap_info) dict \<Rightarrow> copy \<Rightarrow> copy \<Rightarrow> row" where
  "make_row autosnap source c =
     (let is_src = ((cp_host c, cp_dataset c) = (cp_host source, cp_dataset source))
      in \<lparr>rw_host = cp_host c, rw_dataset = cp_dataset c, rw_is_source = is_src,
          rw_snapshot_count = cp_snapshot_count c, rw_oldest = cp_oldest c, rw_newest = cp_newest c,
          rw_newest_snapshot = cp_newest_snapshot c,
          rw_cmp = (if is_src then self_comparison c else compare_copy source c),
          rw_local_autosnap =
            (if is_src then None
             else case dget autosnap (cp_host c) of
                    Some info \<Rightarrow> if as_active info then Some (cp_dataset c \<notin> as_disabled info) else None
                  | None \<Rightarrow> None)\<rparr>)"

definition guest_pairs :: "guests_by_host \<Rightarrow> (string \<times> guest) list" where
  "guest_pairs gbh = concat (map (\<lambda>(host, gs). map (Pair host) gs) gbh)"

definition guest_names :: "guests_by_host \<Rightarrow> (string \<times> string, pyval) dict" where
  "guest_names gbh =
     fold (\<lambda>(host, g). dset (host, py_str (vget g ''vmid'')) (dget_or (VStr []) g ''name''))
       (guest_pairs gbh) []"

text \<open>One turn of the loop over the lineages; None where the code goes on with the next one.\<close>

definition lineage_entry ::
  "(string \<times> string, pyval) dict \<Rightarrow> cfg_pair list \<Rightarrow> (string, autosnap_info) dict \<Rightarrow> copy list \<Rightarrow> entry option" where
  "lineage_entry names configured autosnap copies =
     (case detect_source copies of
        None \<Rightarrow> None
      | Some source \<Rightarrow>
          (case guest_ref_from_dataset (cp_dataset source) of
             (_, None) \<Rightarrow> None
           | (gtype, Some vmid) \<Rightarrow>
               if vmid = [] then None
               else let rows = sort_key (\<lambda>r. (\<not> rw_is_source r, rw_host r))
                                 (map (make_row autosnap source) copies)
                 in Some \<lparr>en_vmid = vmid, en_guest_type = gtype,
                          en_guest_name = dget_or (VStr []) names (cp_host source, vmid),
                          en_source_host = cp_host source, en_source_dataset = cp_dataset source,
                          en_copy_count = int (length rows) - 1, en_copies = rows,
                          en_config_mismatch = config_mismatch source rows configured,
                          en_no_snapshots = False, en_backup = None, en_exception = None,
                          en_stale_exception = [], en_protection = []\<rparr>))"

text \<open>The entry of a guest PVE knows on a host that is not the source of one of its lineages.\<close>

definition bare_entry :: "string \<Rightarrow> string \<Rightarrow> guest \<Rightarrow> entry" where
  "bare_entry host vmid g = \<lparr>en_vmid = vmid,
     en_guest_type = Some (if vget g ''type'' = VStr ''lxc'' then ''lxc'' else ''qemu''),
     en_guest_name = dget_or (VStr []) g ''name'', en_source_host = host, en_source_dataset = [],
     en_copy_count = 0, en_copies = [], en_config_mismatch = [], en_no_snapshots = True,
     en_backup = None, en_exception = None, en_stale_exception = [], en_protection = []\<rparr>"

definition bare_entries :: "entry list \<Rightarrow> guests_by_host \<Rightarrow> entry list" where
  "bare_entries entries gbh =
     (let seen = set (map (\<lambda>e. (en_source_host e, en_vmid e)) entries)
      in List.map_filter (\<lambda>(host, g).
           let vmid = str_or_empty (vget g ''vmid'')
           in if vmid = [] \<or> (host, vmid) \<in> seen then None else Some (bare_entry host vmid g))
         (guest_pairs gbh))"

definition entry_order :: "entry \<Rightarrow> string \<times> int \<times> string" where
  "entry_order e = (en_source_host e,
     (if is_digit_str (en_vmid e) then (case py_int (en_vmid e) of Some i \<Rightarrow> i | None \<Rightarrow> 0) else 0),
     en_source_dataset e)"

definition build_matrix ::
  "per_host \<Rightarrow> guests_by_host \<Rightarrow> cfg_pair list \<Rightarrow> (string, autosnap_info) dict \<Rightarrow> matrix option" where
  "build_matrix per_host gbh configured autosnap =
     (case group_lineages per_host of
        None \<Rightarrow> None
      | Some lineages \<Rightarrow>
          (let entries = List.map_filter (lineage_entry (guest_names gbh) configured autosnap) lineages
           in Some \<lparr>mx_guests = sort_key entry_order (entries @ bare_entries entries gbh),
                    mx_generated = True\<rparr>))"

section \<open>One host's view\<close>

record without_copy =
  wc_vmid :: string
  wc_guest_name :: pyval
  wc_guest_type :: "string option"
  wc_source_dataset :: string

record filtered =
  fm_matrix :: matrix
  fm_replicated_count :: nat
  fm_without_copy_count :: nat
  fm_without_copy_guests :: "without_copy list"
  fm_source_host :: string

definition filter_matrix :: "matrix \<Rightarrow> string \<Rightarrow> filtered" where
  "filter_matrix m source_host =
     (let guests = (if source_host \<noteq> [] then filter (\<lambda>g. en_source_host g = source_host) (mx_guests m)
                    else mx_guests m);
          replicated = filter (\<lambda>g. en_copy_count g > 0) guests;
          without = filter (\<lambda>g. en_copy_count g = 0) guests
      in \<lparr>fm_matrix = m\<lparr>mx_guests := replicated @ without\<rparr>,
          fm_replicated_count = length replicated, fm_without_copy_count = length without,
          fm_without_copy_guests = map (\<lambda>g. \<lparr>wc_vmid = en_vmid g, wc_guest_name = en_guest_name g,
             wc_guest_type = en_guest_type g, wc_source_dataset = en_source_dataset g\<rparr>) without,
          fm_source_host = source_host\<rparr>)"

definition source_hosts :: "matrix \<Rightarrow> string list" where
  "source_hosts m = sorted_set (map en_source_host (filter (\<lambda>g. en_copy_count g > 0) (mx_guests m)))"

section \<open>The digest for the report\<close>

record copy_digest =
  cd_host :: string
  cd_role :: string
  cd_snapshots :: nat
  cd_newest :: "int option"
  cd_lag_seconds :: "int option"
  cd_missing_from_source :: nat

record backup_digest =
  bd_state :: string
  bd_reason :: string
  bd_age_seconds :: "int option"
  bd_count :: int
  bd_storages :: "string list"

record exception_digest =
  xd_no_backup :: bool
  xd_no_replication :: bool
  xd_reason :: string
  xd_documented :: bool

record guest_digest =
  gd_vmid :: string
  gd_type :: "string option"
  gd_name :: pyval
  gd_source :: string
  gd_copies :: "copy_digest list"
  gd_copy_count :: int
  gd_config_mismatch :: string
  gd_backup :: "backup_digest option"
  gd_exception :: "exception_digest option"
  gd_no_longer_matches :: "string option"
  gd_protection :: "string option"

record digest =
  dg_guests :: "guest_digest list"
  dg_guest_count :: nat
  dg_truncated :: bool
  dg_guests_without_copy :: nat
  dg_declared_exceptions :: nat
  dg_guests_without_backup :: nat

definition digest_row :: "row \<Rightarrow> copy_digest" where
  "digest_row c = \<lparr>cd_host = rw_host c, cd_role = (if rw_is_source c then ''source'' else ''copy''),
     cd_snapshots = rw_snapshot_count c, cd_newest = rw_newest c,
     cd_lag_seconds = cm_lag_seconds (rw_cmp c),
     cd_missing_from_source = cm_missing_from_source (rw_cmp c)\<rparr>"

definition digest_guest :: "entry \<Rightarrow> guest_digest" where
  "digest_guest g = \<lparr>gd_vmid = en_vmid g, gd_type = en_guest_type g, gd_name = en_guest_name g,
     gd_source = en_source_host g @ '':'' @ en_source_dataset g,
     gd_copies = map digest_row (en_copies g), gd_copy_count = en_copy_count g,
     gd_config_mismatch = en_config_mismatch g,
     gd_backup = map_option (\<lambda>bk. \<lparr>bd_state = bv_state bk, bd_reason = bv_reason bk,
        bd_age_seconds = bv_age_seconds bk, bd_count = bv_count bk, bd_storages = bv_storages bk\<rparr>) (en_backup g),
     gd_exception = map_option (\<lambda>exc. \<lparr>xd_no_backup = ge_no_backup exc,
        xd_no_replication = ge_no_replication exc, xd_reason = ge_reason exc,
        xd_documented = ge_documented exc\<rparr>) (en_exception g),
     gd_no_longer_matches = (if en_stale_exception g \<noteq> [] then Some (en_stale_exception g) else None),
     gd_protection = (if en_protection g \<noteq> [] then Some (en_protection g) else None)\<rparr>"

definition condense_for_report :: "matrix \<Rightarrow> nat \<Rightarrow> digest" where
  "condense_for_report m max_guests =
     (let guests = mx_guests m
      in \<lparr>dg_guests = map digest_guest (take max_guests guests),
          dg_guest_count = length guests,
          dg_truncated = (max_guests < length guests),
          dg_guests_without_copy = length (filter (\<lambda>g. en_copy_count g = 0) guests),
          dg_declared_exceptions = length (filter (\<lambda>g. en_exception g \<noteq> None) guests),
          dg_guests_without_backup = length (filter (\<lambda>g. case en_backup g of
             Some bk \<Rightarrow> bv_state bk = ''red'' | None \<Rightarrow> False) guests)\<rparr>)"


section \<open>Lemmas\<close>

lemma make_copy_key [simp]:
  "cp_host (make_copy m k) = fst k" "cp_dataset (make_copy m k) = snd k"
  by (simp_all add: make_copy_def Let_def)

lemma make_copy_newest:
  assumes "rows_of ph k \<noteq> []"
  shows "cp_newest (make_copy (members_of ph) k) = Some (Max (sr_creation ` set (rows_of ph k)))"
proof -
  let ?s = "sort_key sr_creation (rows_of ph k)"
  have ne: "?s \<noteq> []" using assms by (metis set_empty set_sort)
  have "sorted (map sr_creation ?s)" by simp
  then have "sr_creation r \<le> last (map sr_creation ?s)" if "r \<in> set (rows_of ph k)" for r
    using that by (intro sorted_le_last) auto
  then have le: "sr_creation r \<le> sr_creation (last ?s)" if "r \<in> set (rows_of ph k)" for r
    using that ne by (simp add: last_map)
  have "last ?s \<in> set (rows_of ph k)" using last_in_set [OF ne] by simp
  with le have "Max (sr_creation ` set (rows_of ph k)) = sr_creation (last ?s)"
    by (intro Max_eqI) auto
  with ne show ?thesis by (simp add: make_copy_def Let_def members_rows)
qed

lemma detect_source_max:
  assumes "detect_source l = Some src"
  shows "src \<in> set l" and "\<And>c k. c \<in> set l \<Longrightarrow> cp_newest c = Some k \<Longrightarrow> \<exists>n. cp_newest src = Some n \<and> k \<le> n"
proof -
  note m = assms [unfolded detect_source_def]
  have s: "src \<in> set l" "cp_newest src \<noteq> None" using py_max_mem [OF m] by auto
  then show "src \<in> set l" by simp
  fix c k assume c: "c \<in> set l" "cp_newest c = Some k"
  then have "source_rank c \<le> source_rank src" by (intro py_max_ge [OF m]) auto
  with c s show "\<exists>n. cp_newest src = Some n \<and> k \<le> n"
    by (auto simp: source_rank_def less_eq_prod_def)
qed

definition guest_vmid :: "guest \<Rightarrow> string" where
  "guest_vmid g = str_or_empty (vget g ''vmid'')"

lemma bare_entries_mem:
  "e \<in> set (bare_entries es gbh) \<longleftrightarrow> (\<exists>p \<in> set (guest_pairs gbh).
     guest_vmid (snd p) \<noteq> [] \<and>
     (fst p, guest_vmid (snd p)) \<notin> set (map (\<lambda>e. (en_source_host e, en_vmid e)) es) \<and>
     e = bare_entry (fst p) (guest_vmid (snd p)) (snd p))"
  unfolding bare_entries_def Let_def map_filter_mem guest_vmid_def case_prod_beta
  by (rule bex_cong [OF refl]) (auto simp del: set_map)

lemma matrix_entries:
  assumes "build_matrix ph gbh cfg auto = Some m"
  obtains ls where "group_lineages ph = Some ls"
    "set (mx_guests m) = set (List.map_filter (lineage_entry (guest_names gbh) cfg auto) ls) \<union>
       set (bare_entries (List.map_filter (lineage_entry (guest_names gbh) cfg auto) ls) gbh)"
  using assms by (auto simp: build_matrix_def Let_def split: option.splits)

lemma matrix_lineage_entry:
  assumes "build_matrix ph gbh cfg auto = Some m" "e \<in> set (mx_guests m)" "\<not> en_no_snapshots e"
  obtains ls l where "group_lineages ph = Some ls" "l \<in> set ls"
    "lineage_entry (guest_names gbh) cfg auto l = Some e"
proof -
  from matrix_entries [OF assms(1)] obtain ls where ls: "group_lineages ph = Some ls"
    "set (mx_guests m) = set (List.map_filter (lineage_entry (guest_names gbh) cfg auto) ls) \<union>
       set (bare_entries (List.map_filter (lineage_entry (guest_names gbh) cfg auto) ls) gbh)" .
  have "e \<notin> set (bare_entries (List.map_filter (lineage_entry (guest_names gbh) cfg auto) ls) gbh)"
    using assms(3) by (auto simp: bare_entries_mem bare_entry_def)
  with assms(2) ls that show thesis by (auto simp: map_filter_mem)
qed

lemma make_row_key [simp]:
  "rw_host (make_row auto s c) = cp_host c" "rw_dataset (make_row auto s c) = cp_dataset c"
  "rw_newest (make_row auto s c) = cp_newest c"
  "rw_is_source (make_row auto s c) \<longleftrightarrow> (cp_host c, cp_dataset c) = (cp_host s, cp_dataset s)"
  by (simp_all add: make_row_def Let_def)

lemma compare_lag: "cp_newest s = Some n \<Longrightarrow> cp_newest c = Some k \<Longrightarrow> k \<le> n \<Longrightarrow>
  cm_lag_seconds (compare_copy s c) = Some (n - k)"
  by (simp add: compare_copy_def Let_def)

lemma source_row_first:
  assumes "distinct (lineage_keys l)" "src \<in> set l"
  shows "\<exists>s rest. sort_key (\<lambda>r. (\<not> rw_is_source r, rw_host r)) (map (make_row auto src) l) = s # rest \<and>
    s = make_row auto src src \<and> set rest \<subseteq> make_row auto src ` (set l - {src}) \<and> length rest = length l - 1 \<and>
    (\<forall>c \<in> set rest. \<not> rw_is_source c)"
proof -
  let ?K = "\<lambda>r. (\<not> rw_is_source r, rw_host r)"
  let ?rows = "sort_key ?K (map (make_row auto src) l)"
  have inj: "x = y" if "x \<in> set l" "y \<in> set l" "(cp_host x, cp_dataset x) = (cp_host y, cp_dataset y)" for x y
    using assms(1) that unfolding lineage_keys_def distinct_map inj_on_def by blast
  have "?rows \<noteq> []" using assms(2) by (metis empty_iff list.set_map set_empty set_sort empty_set image_is_empty)
  then obtain s rest where r: "?rows = s # rest" by (cases ?rows) auto
  have "sorted (map ?K ?rows)" by simp
  moreover have "make_row auto src src \<in> set ?rows" using assms(2) by simp
  then have "?K (make_row auto src src) \<in> set (map ?K ?rows)" unfolding set_map by (rule imageI)
  ultimately have "hd (map ?K ?rows) \<le> ?K (make_row auto src src)" by (rule sorted_hd_le)
  then have src: "rw_is_source s" unfolding r by (auto simp: less_eq_prod_def)
  have mem: "set (s # rest) = make_row auto src ` set l" unfolding r [symmetric] by simp
  then have "s \<in> make_row auto src ` set l" by (metis list.set_intros(1))
  then obtain c where c: "c \<in> set l" "s = make_row auto src c" by blast
  with src have "(cp_host c, cp_dataset c) = (cp_host src, cp_dataset src)" by simp
  with c inj assms(2) have s: "s = make_row auto src src" by blast
  have "distinct (map (\<lambda>r. (rw_host r, rw_dataset r)) (map (make_row auto src) l))"
    using assms(1) by (simp add: lineage_keys_def comp_def)
  moreover have "mset (map (\<lambda>r. (rw_host r, rw_dataset r)) ?rows) = mset (map (\<lambda>r. (rw_host r, rw_dataset r)) (map (make_row auto src) l))"
    by (simp only: mset_map mset_sort)
  ultimately have "distinct (map (\<lambda>r. (rw_host r, rw_dataset r)) (s # rest))"
    unfolding r [symmetric] using mset_eq_imp_distinct_iff by blast
  then have d: "(rw_host s, rw_dataset s) \<notin> (\<lambda>r. (rw_host r, rw_dataset r)) ` set rest" by simp
  have other: "\<exists>x \<in> set l - {src}. c = make_row auto src x \<and> \<not> rw_is_source c" if "c \<in> set rest" for c
  proof -
    from that mem obtain x where x: "x \<in> set l" "c = make_row auto src x" by auto
    with d that s have "(cp_host x, cp_dataset x) \<noteq> (cp_host src, cp_dataset src)" by force
    with x show ?thesis by auto
  qed
  have "length (s # rest) = length l" unfolding r [symmetric] by simp
  with r s other show ?thesis by (intro exI [of _ s] exI [of _ rest]) auto
qed


lemma lineage_entry_source:
  assumes "lineage_entry names cfg auto l = Some e"
  obtains src where "detect_source l = Some src" "src \<in> set l"
    "guest_ref_from_dataset (cp_dataset src) = (en_guest_type e, Some (en_vmid e))"
    "en_source_host e = cp_host src" "en_source_dataset e = cp_dataset src"
    "en_copies e = sort_key (\<lambda>r. (\<not> rw_is_source r, rw_host r)) (map (make_row auto src) l)"
    "en_copy_count e = int (length l) - 1" "en_vmid e \<noteq> []"
  using assms detect_source_max(1) [of l]
  by (auto simp: lineage_entry_def Let_def split: option.splits prod.splits if_splits)

lemma lineage_distinct:
  assumes "group_lineages ph = Some ls" "l \<in> set ls"
  shows "distinct (lineage_keys l)"
proof -
  from partition_keys [of ph] assms(1) have "distinct (concat (map lineage_keys ls))" by auto
  with assms(2) show ?thesis by (auto simp: distinct_concat_iff)
qed

lemma row_newest:
  assumes "group_lineages ph = Some ls" "l \<in> set ls" "c \<in> set l"
  shows "cp_newest c = Some (Max (sr_creation ` set (rows_of ph (cp_host c, cp_dataset c))))"
  using make_copy_newest lineage_copies [OF assms] by metis

text \<open>C3: In every entry of the matrix that has copies, the first row is the source and the only
  source; every row's newest time is the newest snapshot of its dataset, none is newer than the
  source's, and the lag of a copy is exactly the difference (it is never clamped).\<close>

theorem matrix_source_is_newest:
  assumes "build_matrix ph gbh cfg auto = Some m" and "e \<in> set (mx_guests m)" and "\<not> en_no_snapshots e"
  shows "\<exists>s rest n. en_copies e = s # rest \<and> rw_is_source s \<and> rw_host s = en_source_host e \<and>
    rw_dataset s = en_source_dataset e \<and> rw_newest s = Some n \<and> en_copy_count e = int (length rest) \<and>
    (\<forall>c \<in> set (en_copies e). rw_newest c = Some (Max (sr_creation ` set (rows_of ph (rw_host c, rw_dataset c))))) \<and>
    (\<forall>c \<in> set rest. \<not> rw_is_source c \<and>
       (\<exists>k. rw_newest c = Some k \<and> k \<le> n \<and> cm_lag_seconds (rw_cmp c) = Some (n - k)))"
proof -
  from matrix_lineage_entry [OF assms] obtain ls l where l: "group_lineages ph = Some ls" "l \<in> set ls"
    "lineage_entry (guest_names gbh) cfg auto l = Some e" .
  obtain src where src: "detect_source l = Some src" "src \<in> set l"
    "en_source_host e = cp_host src" "en_source_dataset e = cp_dataset src"
    "en_copies e = sort_key (\<lambda>r. (\<not> rw_is_source r, rw_host r)) (map (make_row auto src) l)"
    "en_copy_count e = int (length l) - 1" by (rule lineage_entry_source [OF l(3)])
  from source_row_first [OF lineage_distinct [OF l(1,2)] src(2), of auto] obtain s rest where
    r: "en_copies e = s # rest" "s = make_row auto src src"
      "set rest \<subseteq> make_row auto src ` (set l - {src})" "length rest = length l - 1"
      "\<forall>c \<in> set rest. \<not> rw_is_source c" unfolding src(5) by blast
  obtain n where n: "cp_newest src = Some n" using row_newest [OF l(1,2) src(2)] by blast
  have new: "rw_newest c = Some (Max (sr_creation ` set (rows_of ph (rw_host c, rw_dataset c))))"
    if "c \<in> set (en_copies e)" for c
    using that row_newest [OF l(1,2)] unfolding src(5) by auto
  have lag: "\<exists>k. rw_newest c = Some k \<and> k \<le> n \<and> cm_lag_seconds (rw_cmp c) = Some (n - k)"
    if "c \<in> set rest" for c
  proof -
    from that r(3) obtain x where x: "x \<in> set l" "c = make_row auto src x" by auto
    then obtain k where k: "cp_newest x = Some k" using row_newest [OF l(1,2)] by blast
    with detect_source_max(2) [OF src(1) x(1)] n have "k \<le> n" by auto
    moreover have "rw_cmp c = compare_copy src x" using r(5) that x(2) by (auto simp: make_row_def Let_def)
    ultimately show ?thesis using k n x(2) compare_lag by simp
  qed
  have "l \<noteq> []" using src(2) by auto
  then have "en_copy_count e = int (length rest)" using r(4) src(6) by (cases l) auto
  then show ?thesis using r n src(3,4) new lag by (intro exI [of _ s] exI [of _ rest] exI [of _ n]) auto
qed

text \<open>Two hosts: the original of VM 100 with two snapshots and a replica that has the older one; a
  container without a snapshot.\<close>

definition ex_hosts :: per_host where
  "ex_hosts = [(''pve1'', parse_snapshot_guids (join [newline]
       [join [tab] [''rpool/vm-100-disk-0@a_hourly_1'', ''11'', ''10''],
        join [tab] [''rpool/vm-100-disk-0@a_hourly_2'', ''12'', ''20'']])),
     (''pve2'', parse_snapshot_guids (join [tab] [''tank/vm-100-disk-0@a_hourly_1'', ''11'', ''10'']))]"

definition ex_guests :: guests_by_host where
  "ex_guests = [(''pve1'', [[(''vmid'', VStr ''100''), (''name'', VStr ''web''), (''type'', VStr ''qemu'')],
     [(''vmid'', VStr ''101''), (''name'', VStr ''ct''), (''type'', VStr ''lxc'')]])]"

definition ex_matrix :: matrix where
  "ex_matrix = the (build_matrix ex_hosts ex_guests [] [])"

lemma ex_matrix_facts:
  "build_matrix ex_hosts ex_guests [] [] \<noteq> None" "mx_guests ex_matrix \<noteq> []"
  "en_no_snapshots (hd (mx_guests ex_matrix)) = False"
  "map (\<lambda>e. (en_vmid e, en_copy_count e)) (mx_guests ex_matrix) = [(''100'', 1), (''101'', 0)]"
  by code_simp+

lemma ex_matrix_build: "build_matrix ex_hosts ex_guests [] [] = Some ex_matrix"
  using ex_matrix_facts(1) by (simp add: ex_matrix_def)

theorem matrix_source_is_newest_witness:
  "\<exists>s rest n. en_copies (hd (mx_guests ex_matrix)) = s # rest \<and> rw_is_source s \<and> rw_newest s = Some n \<and>
    (\<forall>c \<in> set rest. \<not> rw_is_source c \<and>
       (\<exists>k. rw_newest c = Some k \<and> k \<le> n \<and> cm_lag_seconds (rw_cmp c) = Some (n - k)))"
  using matrix_source_is_newest [OF ex_matrix_build hd_in_set [OF ex_matrix_facts(2)]] ex_matrix_facts(3)
  by blast

text \<open>Every guest that PVE reports with a vmid on some host is in the matrix, under that host.
  So a guest without any snapshot is listed rather than dropped.\<close>

theorem matrix_lists_every_guest:
  assumes "build_matrix ph gbh cfg auto = Some m" and "(host, gs) \<in> set gbh" and "g \<in> set gs"
    and "guest_vmid g \<noteq> []"
  shows "\<exists>e \<in> set (mx_guests m). en_source_host e = host \<and> en_vmid e = guest_vmid g"
proof -
  from matrix_entries [OF assms(1)] obtain ls where ls:
    "set (mx_guests m) = set (List.map_filter (lineage_entry (guest_names gbh) cfg auto) ls) \<union>
       set (bare_entries (List.map_filter (lineage_entry (guest_names gbh) cfg auto) ls) gbh)" .
  let ?es = "List.map_filter (lineage_entry (guest_names gbh) cfg auto) ls"
  have p: "(host, g) \<in> set (guest_pairs gbh)" using assms(2,3) by (auto simp: guest_pairs_def)
  show ?thesis
  proof (cases "(host, guest_vmid g) \<in> set (map (\<lambda>e. (en_source_host e, en_vmid e)) ?es)")
    case True
    then show ?thesis unfolding ls by auto
  next
    case False
    with p assms(4) have "bare_entry host (guest_vmid g) g \<in> set (bare_entries ?es gbh)"
      unfolding bare_entries_mem by (intro bexI [of _ "(host, g)"]) auto
    then show ?thesis unfolding ls by (intro bexI [of _ "bare_entry host (guest_vmid g) g"]) (auto simp: bare_entry_def)
  qed
qed

theorem matrix_lists_every_guest_witness:
  "\<exists>e \<in> set (mx_guests ex_matrix). en_source_host e = ''pve1'' \<and>
     en_vmid e = guest_vmid [(''vmid'', VStr ''101''), (''name'', VStr ''ct''), (''type'', VStr ''lxc'')]"
  by (rule matrix_lists_every_guest [OF ex_matrix_build, of "''pve1''" "snd (hd ex_guests)"])
    (code_simp, code_simp, code_simp)

text \<open>A copy is in sync exactly when it shares a snapshot with its source and holds every
  snapshot of the source whose label the copy carries at all (every snapshot, when it carries no
  label); a snapshot whose label never travels is not counted as missing, and its label is
  reported as excluded.\<close>

theorem compare_copy_in_sync:
  "cm_in_sync (compare_copy s c) \<longleftrightarrow>
     cp_guids s \<inter> cp_guids c \<noteq> {} \<and>
     {g \<in> cp_guids s. cp_labels c = {} \<or>
        (\<exists>l \<in> cp_labels c. dget (cp_by_guid s) g = Some (Some l))} \<subseteq> cp_guids c"
  by (auto simp: compare_copy_def Let_def missing_guids_def split: option.splits)

text \<open>The view of one host shows exactly the guests of that host (all guests without a choice),
  each once, the ones with a copy before the ones without, and the two counts are the sizes of
  the two parts.\<close>

theorem filter_matrix_partition:
  assumes "build_matrix ph gbh cfg auto = Some m"
  shows "let fm = filter_matrix m h; shown = mx_guests (fm_matrix fm);
      chosen = filter (\<lambda>g. h = [] \<or> en_source_host g = h) (mx_guests m)
    in mset shown = mset chosen \<and> fm_replicated_count fm + fm_without_copy_count fm = length chosen \<and>
       list_all (\<lambda>g. en_copy_count g > 0) (take (fm_replicated_count fm) shown) \<and>
       list_all (\<lambda>g. en_copy_count g = 0) (drop (fm_replicated_count fm) shown)"
proof -
  have nonneg: "0 \<le> en_copy_count e" if "e \<in> set (mx_guests m)" for e
  proof -
    from matrix_entries [OF assms] obtain ls where
      "set (mx_guests m) = set (List.map_filter (lineage_entry (guest_names gbh) cfg auto) ls) \<union>
         set (bare_entries (List.map_filter (lineage_entry (guest_names gbh) cfg auto) ls) gbh)" .
    with that have "e \<in> set (List.map_filter (lineage_entry (guest_names gbh) cfg auto) ls) \<union>
         set (bare_entries (List.map_filter (lineage_entry (guest_names gbh) cfg auto) ls) gbh)" by simp
    then consider l where "lineage_entry (guest_names gbh) cfg auto l = Some e"
      | "\<exists>p. e = bare_entry (fst p) (guest_vmid (snd p)) (snd p)"
      unfolding Un_iff map_filter_mem bare_entries_mem by blast
    then show ?thesis
    proof cases
      case 1
      from lineage_entry_source [OF this] obtain src where "src \<in> set l" "en_copy_count e = int (length l) - 1"
        by metis
      then show ?thesis by (cases l) auto
    qed (auto simp: bare_entry_def)
  qed
  let ?c = "filter (\<lambda>g. h = [] \<or> en_source_host g = h) (mx_guests m)"
  have c: "(if h \<noteq> [] then filter (\<lambda>g. en_source_host g = h) (mx_guests m) else mx_guests m) = ?c" by simp
  have z: "filter (\<lambda>g. en_copy_count g = 0) ?c = filter (\<lambda>g. \<not> en_copy_count g > 0) ?c"
    using nonneg by (intro filter_cong) (auto simp: order.order_iff_strict)
  have part: "mset (filter P C @ filter (\<lambda>g. \<not> P g) C) = mset C \<and>
      length (filter P C) + length (filter (\<lambda>g. \<not> P g) C) = length C" for P and C :: "entry list"
    by (induction C) auto
  have zero: "list_all (\<lambda>g. en_copy_count g = 0) (filter (\<lambda>g. \<not> en_copy_count g > 0) ?c)"
    unfolding z [symmetric] by (simp add: list_all_iff)
  have pos: "list_all (\<lambda>g. en_copy_count g > 0) (filter (\<lambda>g. en_copy_count g > 0) ?c)"
    by (simp add: list_all_iff)
  show ?thesis
    unfolding filter_matrix_def Let_def c z using part [of _ ?c] zero pos
    by (simp del: filter_filter mset_append)
qed

theorem filter_matrix_partition_witness:
  "let fm = filter_matrix ex_matrix ''pve1''; shown = mx_guests (fm_matrix fm);
      chosen = filter (\<lambda>g. ''pve1'' = [] \<or> en_source_host g = ''pve1'') (mx_guests ex_matrix)
    in mset shown = mset chosen \<and> fm_replicated_count fm + fm_without_copy_count fm = length chosen \<and>
       list_all (\<lambda>g. en_copy_count g > 0) (take (fm_replicated_count fm) shown) \<and>
       list_all (\<lambda>g. en_copy_count g = 0) (drop (fm_replicated_count fm) shown)"
  by (rule filter_matrix_partition [OF ex_matrix_build])

text \<open>A guest listed as having no snapshots may have them: the code only compares with the
  source host of a lineage. Here VM 100 is known to PVE on both hosts, host pve2 holds a snapshot
  of its disk, and the entry for pve2 says \<open>no_snapshots\<close>.\<close>

theorem no_snapshots_on_replica_host:
  "\<exists>m e. build_matrix ex_hosts [(''pve2'', [[(''vmid'', VStr ''100'')]])] [] [] = Some m \<and>
     e \<in> set (mx_guests m) \<and> en_no_snapshots e \<and> en_source_host e = ''pve2'' \<and> en_vmid e = ''100'' \<and>
     rows_of ex_hosts (''pve2'', ''tank/vm-100-disk-0'') \<noteq> []"
proof -
  let ?b = "build_matrix ex_hosts [(''pve2'', [[(''vmid'', VStr ''100'')]])] [] []"
  have "?b \<noteq> None" by code_simp
  moreover have "list_ex (\<lambda>e. en_no_snapshots e \<and> en_source_host e = ''pve2'' \<and> en_vmid e = ''100'') (mx_guests (the ?b))"
    by code_simp
  moreover have "rows_of ex_hosts (''pve2'', ''tank/vm-100-disk-0'') \<noteq> []" by code_simp
  ultimately show ?thesis unfolding list_ex_iff by (metis option.collapse)
qed

end
