(* ===== verification/Backups.thy ===== *)
theory Backups
  imports ReplMatrix
begin

text \<open>
  \<open>app/backups.py\<close>: the backup state per guest, read through \<open>pvesh\<close> on the PVE node. The parsers
  take \<open>json.loads\<close> as an argument (None: it raises), the collecting functions take \<open>run_command\<close>.
  Numbers in JSON and hours are integers; a set that is only iterated is taken in sorted order.
\<close>

section \<open>Parsers\<close>

definition STATE_OK :: string where "STATE_OK = ''green''"
definition STATE_WARN :: string where "STATE_WARN = ''yellow''"
definition STATE_BAD :: string where "STATE_BAD = ''red''"
definition STATE_UNKNOWN :: string where "STATE_UNKNOWN = ''unknown''"

definition VERIFYING_TYPES :: "string list" where
  "VERIFYING_TYPES = [''pbs'']"

definition as_int :: "int \<Rightarrow> pyval \<Rightarrow> int" where
  "as_int dflt v = (case v of
       VInt i \<Rightarrow> i
     | VBool b \<Rightarrow> if b then 1 else 0
     | VStr s \<Rightarrow> (case py_int s of Some i \<Rightarrow> i | None \<Rightarrow> dflt)
     | _ \<Rightarrow> dflt)"

fun str_find :: "char \<Rightarrow> string \<Rightarrow> nat option" where
  "str_find c [] = None"
| "str_find c (d # s) = (if c = d then Some 0 else map_option Suc (str_find c s))"

definition json_starts :: "string \<Rightarrow> nat list" where
  "json_starts text = filter (\<lambda>i. 0 < i)
     (List.map_filter (\<lambda>c. str_find c text) [CHR ''['', CHR 0x7B])"

definition load_json_list :: "(string \<Rightarrow> pyval option) \<Rightarrow> string \<Rightarrow> (string, pyval) dict list" where
  "load_json_list loads raw =
     (let text = strip raw;
          data = (case loads text of
                    Some v \<Rightarrow> Some v
                  | None \<Rightarrow> (case json_starts text of
                       [] \<Rightarrow> None
                     | i # is \<Rightarrow> loads (drop (fold min is i) text)));
          data = (case data of Some (VDict d) \<Rightarrow> Some (vget d ''data'') | d \<Rightarrow> d)
      in case data of
           Some (VList xs) \<Rightarrow> List.map_filter (\<lambda>x. case x of VDict d \<Rightarrow> Some d | _ \<Rightarrow> None) xs
         | _ \<Rightarrow> [])"

record storage =
  st_storage :: string
  st_type :: string
  st_enabled :: bool
  st_active :: bool
  st_total :: int
  st_used :: int
  st_avail :: int

definition storage_of_row :: "(string, pyval) dict \<Rightarrow> storage option" where
  "storage_of_row row =
     (let sid = strip (str_or_empty (vget row ''storage''))
      in if sid = [] then None
         else Some \<lparr>st_storage = sid, st_type = str_or_empty (vget row ''type''),
                st_enabled = (as_int 1 (vget row ''enabled'') \<noteq> 0),
                st_active = (as_int 0 (vget row ''active'') \<noteq> 0),
                st_total = as_int 0 (vget row ''total''), st_used = as_int 0 (vget row ''used''),
                st_avail = as_int 0 (vget row ''avail'')\<rparr>)"

definition parse_storage_list :: "(string \<Rightarrow> pyval option) \<Rightarrow> string \<Rightarrow> storage list" where
  "parse_storage_list loads text = sort_key st_storage (List.map_filter storage_of_row (load_json_list loads text))"

record volume =
  vo_volid :: string
  vo_storage :: string
  vo_storage_type :: string
  vo_verifies :: bool
  vo_vmid :: string
  vo_ctime :: int
  vo_size :: int
  vo_format :: string
  vo_subtype :: string
  vo_verify :: "string option"
  vo_protected :: bool
  vo_notes :: string

definition verify_of :: "pyval \<Rightarrow> string option" where
  "verify_of verification =
     (case verification of
        VDict d \<Rightarrow> (let s = lower_str (strip (str_or_empty (vget d ''state'')))
                    in if s = [] then None else Some s)
      | VStr v \<Rightarrow> if strip v = [] then None else Some (lower_str (strip v))
      | _ \<Rightarrow> None)"

definition before_colon :: "string \<Rightarrow> string" where
  "before_colon s = takeWhile (\<lambda>c. c \<noteq> CHR '':'') s"

definition volume_of_row :: "string \<Rightarrow> string \<Rightarrow> (string, pyval) dict \<Rightarrow> volume option" where
  "volume_of_row storage storage_type row =
     (let volid = strip (str_or_empty (vget row ''volid''))
      in if volid = [] then None
         else Some \<lparr>vo_volid = volid,
                vo_storage = (if storage \<noteq> [] then storage else before_colon volid),
                vo_storage_type = storage_type,
                vo_verifies = (storage_type \<in> set VERIFYING_TYPES),
                vo_vmid = strip (str_or_empty (vget row ''vmid'')),
                vo_ctime = as_int 0 (vget row ''ctime''),
                vo_size = as_int 0 (vget row ''size''),
                vo_format = str_or_empty (vget row ''format''),
                vo_subtype = str_or_empty (vget row ''subtype''),
                vo_verify = verify_of (vget row ''verification''),
                vo_protected = (as_int 0 (vget row ''protected'') \<noteq> 0),
                vo_notes = take 200 (str_or_empty (vget row ''notes''))\<rparr>)"

definition parse_backup_content :: "(string \<Rightarrow> pyval option) \<Rightarrow> string \<Rightarrow> string \<Rightarrow> string \<Rightarrow> volume list" where
  "parse_backup_content loads text storage storage_type =
     sort_key (\<lambda>v. (vo_vmid v, - vo_ctime v))
       (List.map_filter (volume_of_row storage storage_type) (load_json_list loads text))"

definition split_ids :: "string \<Rightarrow> string list" where
  "split_ids value = filter (\<lambda>p. p \<noteq> [])
     (split_on (\<lambda>c. c = CHR '','' \<or> c = CHR '';'' \<or> is_space c) (strip value))"

section \<open>Backup jobs\<close>

record job =
  jb_id :: string
  jb_storage :: string
  jb_schedule :: string
  jb_enabled :: bool
  jb_all :: bool
  jb_vmid :: "string list"
  jb_exclude :: "string list"
  jb_mode :: string
  jb_pool :: string

definition new_job :: "string \<Rightarrow> job" where
  "new_job i = \<lparr>jb_id = i, jb_storage = [], jb_schedule = [], jb_enabled = True, jb_all = False,
     jb_vmid = [], jb_exclude = [], jb_mode = [], jb_pool = []\<rparr>"

definition JOB_HEADER_RE :: re where
  "JOB_HEADER_RE = seqs [Bol, Grp 1 (plus (Ch (\<lambda>c. is_alnum c \<or> one_of ''_-'' c))), chr CHR '':'',
     Star (Ch is_space), Grp 2 (plus (Ch (\<lambda>c. \<not> is_space c))), Star (Ch is_space), Eol]"

definition JOB_OPTION_RE :: re where
  "JOB_OPTION_RE = seqs [Bol, plus (Ch is_space),
     Grp 1 (plus (Ch (\<lambda>c. is_lower c \<or> is_digit c \<or> c = CHR ''-''))), plus (Ch is_space),
     Grp 2 (Star any_char), Eol]"

definition set_job_option :: "string \<Rightarrow> string \<Rightarrow> job \<Rightarrow> job" where
  "set_job_option key val cur =
     (if key = ''storage'' then cur\<lparr>jb_storage := val\<rparr>
      else if key = ''schedule'' then cur\<lparr>jb_schedule := val\<rparr>
      else if key = ''enabled'' then cur\<lparr>jb_enabled := (as_int 1 (VStr val) \<noteq> 0)\<rparr>
      else if key = ''all'' then cur\<lparr>jb_all := (as_int 0 (VStr val) \<noteq> 0)\<rparr>
      else if key = ''vmid'' then cur\<lparr>jb_vmid := split_ids val\<rparr>
      else if key = ''exclude'' then cur\<lparr>jb_exclude := split_ids val\<rparr>
      else if key = ''mode'' then cur\<lparr>jb_mode := val\<rparr>
      else if key = ''pool'' then cur\<lparr>jb_pool := val\<rparr>
      else cur)"

text \<open>The section walk: the finished jobs and the one whose body is being read, if any. In the
  code the open job is already in the output list; it is put there here when it is closed.\<close>

fun jobs_step :: "string \<Rightarrow> job list \<times> job option \<Rightarrow> job list \<times> job option" where
  "jobs_step raw (out, cur) =
     (case re_match JOB_HEADER_RE raw of
        Some m \<Rightarrow>
          (out @ (case cur of Some j \<Rightarrow> [j] | None \<Rightarrow> []),
           if group_str 1 m = ''vzdump'' then Some (new_job (group_str 2 m)) else None)
      | None \<Rightarrow>
          (case cur of
             None \<Rightarrow> (out, None)
           | Some j \<Rightarrow>
               if strip raw = [] then (out, Some j)
               else (case re_match JOB_OPTION_RE raw of
                       None \<Rightarrow> (out, Some j)
                     | Some p \<Rightarrow> (out, Some (set_job_option (group_str 1 p) (strip (group_str 2 p)) j)))))"

definition parse_backup_jobs :: "string \<Rightarrow> job list" where
  "parse_backup_jobs text =
     (case fold jobs_step (splitlines text) ([], None) of
        (out, Some j) \<Rightarrow> out @ [j]
      | (out, None) \<Rightarrow> out)"

definition job_covers :: "job \<Rightarrow> string \<Rightarrow> bool" where
  "job_covers j vmid =
     (if vmid = [] \<or> \<not> jb_enabled j then False
      else if jb_all j then vmid \<notin> set (jb_exclude j)
      else vmid \<in> set (jb_vmid j))"

section \<open>One record per guest\<close>

record guest_backups =
  gb_count :: int
  gb_newest :: int
  gb_newest_volid :: string
  gb_newest_verify :: "string option"
  gb_newest_verifies :: bool
  gb_storages :: "string list"
  gb_types :: "string list"
  gb_verify_failed :: int
  gb_protected :: int
  gb_total_size :: int
  gb_covered_by :: "string list"

definition no_backups :: guest_backups where
  "no_backups = \<lparr>gb_count = 0, gb_newest = 0, gb_newest_volid = [], gb_newest_verify = None,
     gb_newest_verifies = False, gb_storages = [], gb_types = [], gb_verify_failed = 0,
     gb_protected = 0, gb_total_size = 0, gb_covered_by = []\<rparr>"

definition add_new :: "string \<Rightarrow> string list \<Rightarrow> string list" where
  "add_new s xs = (if s \<noteq> [] \<and> s \<notin> set xs then xs @ [s] else xs)"

definition add_volume :: "volume \<Rightarrow> guest_backups \<Rightarrow> guest_backups" where
  "add_volume v r =
     (let r = r\<lparr>gb_count := gb_count r + 1, gb_total_size := gb_total_size r + vo_size v,
            gb_protected := gb_protected r + (if vo_protected v then 1 else 0),
            gb_verify_failed := gb_verify_failed r
              + (if vo_verifies v \<and> vo_verify v = Some ''failed'' then 1 else 0),
            gb_storages := add_new (vo_storage v) (gb_storages r),
            gb_types := add_new (vo_storage_type v) (gb_types r)\<rparr>
      in if vo_ctime v > gb_newest r
         then r\<lparr>gb_newest := vo_ctime v, gb_newest_volid := vo_volid v,
                gb_newest_verify := vo_verify v, gb_newest_verifies := vo_verifies v\<rparr>
         else r)"

definition fold_volumes :: "volume list \<Rightarrow> (string, guest_backups) dict" where
  "fold_volumes volumes =
     fold (\<lambda>v d. if vo_vmid v = [] then d else dmodify (vo_vmid v) no_backups (add_volume v) d) volumes []"

definition guest_backup_map :: "volume list \<Rightarrow> job list \<Rightarrow> (string, guest_backups) dict" where
  "guest_backup_map volumes jobs =
     map (\<lambda>(vmid, r). (vmid, r\<lparr>gb_covered_by := map jb_id (filter (\<lambda>j. job_covers j vmid) jobs),
                               gb_storages := sort (gb_storages r), gb_types := sort (gb_types r)\<rparr>))
       (fold_volumes volumes)"

section \<open>Thresholds and state\<close>

definition BACKUP_WARN_HOURS :: int where "BACKUP_WARN_HOURS = 36"
definition BACKUP_CRIT_HOURS :: int where "BACKUP_CRIT_HOURS = 168"

text \<open>\<open>float(v)\<close> of a decoded value; None where it raises.\<close>

definition to_number :: "pyval \<Rightarrow> int option" where
  "to_number v = (case v of VInt i \<Rightarrow> Some i | VBool b \<Rightarrow> Some (if b then 1 else 0)
     | VStr s \<Rightarrow> py_int s | _ \<Rightarrow> None)"

text \<open>A failing conversion leaves what was assigned before it. \<open>th\<close> is the thresholds section of
  the configuration, None when reading it raises.\<close>

definition raw_thresholds :: "int \<Rightarrow> int \<Rightarrow> string \<Rightarrow> string \<Rightarrow> (string, pyval) dict option \<Rightarrow> int \<times> int" where
  "raw_thresholds warn crit kw kc th =
     (case th of
        None \<Rightarrow> (warn, crit)
      | Some d \<Rightarrow>
          (case to_number (dget_or (VInt warn) d kw) of
             None \<Rightarrow> (warn, crit)
           | Some w \<Rightarrow>
               (case to_number (dget_or (VInt crit) d kc) of
                  None \<Rightarrow> (w, crit)
                | Some c \<Rightarrow> (w, c))))"

definition backup_thresholds :: "(string, pyval) dict option \<Rightarrow> int \<times> int" where
  "backup_thresholds th =
     (let (w, c) = raw_thresholds BACKUP_WARN_HOURS BACKUP_CRIT_HOURS ''backup_warn_hours'' ''backup_crit_hours'' th;
          warn = min (max w 1) 8760;
          crit = min (max c 1) 8760
      in (if warn > crit then crit else warn, crit))"

definition missing_verdict :: "string \<Rightarrow> string \<Rightarrow> backup_verdict" where
  "missing_verdict state reason = \<lparr>bv_state = state, bv_reason = reason, bv_count = 0,
     bv_age_seconds = None, bv_newest = 0, bv_newest_volid = [], bv_storages = [], bv_types = [],
     bv_protected = 0, bv_covered = False, bv_covered_by = []\<rparr>"

definition backup_state :: "guest_backups option \<Rightarrow> int \<Rightarrow> int \<Rightarrow> int \<Rightarrow> bool \<Rightarrow> backup_verdict" where
  "backup_state rec now warn_hours crit_hours covered_known =
     (case rec of
        None \<Rightarrow> missing_verdict STATE_BAD ''none''
      | Some r \<Rightarrow>
          if gb_count r = 0 then missing_verdict STATE_BAD ''none''
          else
            let age = max 0 (now - gb_newest r);
                verdict = (\<lambda>s why. \<lparr>bv_state = s, bv_reason = why, bv_count = gb_count r,
                  bv_age_seconds = Some age, bv_newest = gb_newest r, bv_newest_volid = gb_newest_volid r,
                  bv_storages = gb_storages r, bv_types = gb_types r, bv_protected = gb_protected r,
                  bv_covered = (gb_covered_by r \<noteq> []), bv_covered_by = gb_covered_by r\<rparr>)
            in if gb_newest_verifies r \<and> gb_newest_verify r = Some ''failed'' then verdict STATE_BAD ''verify_failed''
               else if gb_newest r = 0 then (verdict STATE_WARN ''no_timestamp'')\<lparr>bv_age_seconds := None\<rparr>
               else if age > crit_hours * 3600 then verdict STATE_BAD ''stale_crit''
               else if age > warn_hours * 3600 then verdict STATE_WARN ''stale_warn''
               else if gb_newest_verifies r \<and> gb_newest_verify r = None then verdict STATE_WARN ''verify_pending''
               else if covered_known \<and> gb_covered_by r = [] then verdict STATE_WARN ''no_job''
               else verdict STATE_OK ''ok'')"

definition guest_backup_states ::
  "(string, guest_backups) dict \<Rightarrow> string list \<Rightarrow> int \<Rightarrow> int \<Rightarrow> int \<Rightarrow> bool \<Rightarrow> bool \<Rightarrow> (string, backup_verdict) dict" where
  "guest_backup_states bmap vmids now warn_hours crit_hours covered_known unknown =
     map (\<lambda>vmid. (vmid, if unknown then missing_verdict STATE_UNKNOWN ''unreadable''
                        else backup_state (dget bmap vmid) now warn_hours crit_hours covered_known))
       (sorted_set (dkeys bmap @ filter (\<lambda>v. v \<noteq> []) vmids))"

section \<open>Collection\<close>

definition first_line :: "string \<Rightarrow> string \<Rightarrow> string" where
  "first_line dflt text = take 300 (case splitlines (strip text) of [] \<Rightarrow> dflt | l # _ \<Rightarrow> l)"

definition error_text :: "cmd_result \<Rightarrow> string" where
  "error_text r = (if cr_stderr r \<noteq> [] then cr_stderr r else cr_stdout r)"

definition node_name :: "(host \<Rightarrow> string \<Rightarrow> cmd_result) \<Rightarrow> host \<Rightarrow> string" where
  "node_name run host =
     (let r = run host ''hostname''
      in if cr_success r then hd (split_on (\<lambda>c. c = CHR ''.'') (strip (cr_stdout r))) else [])"

record backup_data =
  bd_node :: string
  bd_storage_rows :: "storage list"
  bd_volumes :: "volume list"
  bd_jobs :: "job list"
  bd_unreadable :: "(string \<times> string) list"
  bd_readable :: bool
  bd_jobs_known :: bool
  bd_error :: string

definition read_jobs :: "(host \<Rightarrow> string \<Rightarrow> cmd_result) \<Rightarrow> host \<Rightarrow> job list \<times> bool" where
  "read_jobs run host =
     (let jr = run host ''cat /etc/pve/jobs.cfg 2>/dev/null''
      in if \<not> cr_success jr then ([], False) else (parse_backup_jobs (cr_stdout jr), True))"

definition storage_cmd :: "string \<Rightarrow> string" where
  "storage_cmd node = ''pvesh get /nodes/'' @ shell_quote node @ ''/storage --content backup --output-format=json''"

definition content_cmd :: "string \<Rightarrow> string \<Rightarrow> string" where
  "content_cmd node sid = ''pvesh get /nodes/'' @ shell_quote node @ ''/storage/'' @ shell_quote sid
     @ ''/content --content backup --output-format=json''"

text \<open>One storage: its volumes, or why it could not be listed.\<close>

definition read_storage ::
  "(string \<Rightarrow> pyval option) \<Rightarrow> (host \<Rightarrow> string \<Rightarrow> cmd_result) \<Rightarrow> host \<Rightarrow> string \<Rightarrow> storage \<Rightarrow> string + volume list" where
  "read_storage loads run host node st =
     (if \<not> st_enabled st then Inl ''disabled''
      else if \<not> st_active st then Inl ''inactive''
      else let cr = run host (content_cmd node (st_storage st));
               vols = parse_backup_content loads (cr_stdout cr) (st_storage st) (st_type st)
           in if vols = [] \<and> \<not> cr_success cr then Inl (first_line ''no answer'' (error_text cr))
              else Inr vols)"

fun add_storage_result :: "storage \<times> (string + volume list) \<Rightarrow> backup_data \<Rightarrow> backup_data" where
  "add_storage_result (st, Inl err) out = out\<lparr>bd_unreadable := bd_unreadable out @ [(st_storage st, err)]\<rparr>"
| "add_storage_result (st, Inr vols) out = out\<lparr>bd_readable := True, bd_volumes := bd_volumes out @ vols\<rparr>"

definition collect_backups ::
  "(string \<Rightarrow> pyval option) \<Rightarrow> (host \<Rightarrow> string \<Rightarrow> cmd_result) \<Rightarrow> host \<Rightarrow> string \<Rightarrow> backup_data" where
  "collect_backups loads run host node0 =
     (let node = (if node0 \<noteq> [] then node0 else node_name run host);
          out = \<lparr>bd_node = node, bd_storage_rows = [], bd_volumes = [], bd_jobs = [], bd_unreadable = [],
                 bd_readable = False, bd_jobs_known = False, bd_error = []\<rparr>
      in if node = [] then out\<lparr>bd_error := ''could not determine the node name''\<rparr>
         else
           let sr = run host (storage_cmd node);
               storages = parse_storage_list loads (cr_stdout sr);
               (jobs, known) = read_jobs run host
           in if storages = []
              then out\<lparr>bd_error := first_line ''no backup storage found'' (error_text sr),
                       bd_readable := cr_success sr, bd_jobs := jobs, bd_jobs_known := known\<rparr>
              else (fold add_storage_result
                      (map (\<lambda>st. (st, read_storage loads run host node st)) storages)
                      (out\<lparr>bd_storage_rows := storages\<rparr>))
                   \<lparr>bd_jobs := jobs, bd_jobs_known := known\<rparr>)"

record host_states =
  hs_states :: "(string, backup_verdict) dict"
  hs_data :: backup_data
  hs_warn_hours :: int
  hs_crit_hours :: int

definition host_backup_states ::
  "(string \<Rightarrow> pyval option) \<Rightarrow> (host \<Rightarrow> string \<Rightarrow> cmd_result) \<Rightarrow> (string, pyval) dict option \<Rightarrow> int \<Rightarrow>
   host \<Rightarrow> string list \<Rightarrow> host_states" where
  "host_backup_states loads run th now host vmids =
     (let data = collect_backups loads run host [];
          (warn_h, crit_h) = backup_thresholds th;
          bmap = guest_backup_map (bd_volumes data) (bd_jobs data)
      in \<lparr>hs_states = guest_backup_states bmap vmids now warn_h crit_h (bd_jobs_known data) (\<not> bd_readable data),
          hs_data = data, hs_warn_hours = warn_h, hs_crit_hours = crit_h\<rparr>)"

record merged =
  mg_guests :: "entry list"
  mg_at_risk :: nat
  mg_states_present :: bool

definition merge_backups :: "entry list \<Rightarrow> (string, backup_verdict) dict \<Rightarrow> string \<Rightarrow> merged" where
  "merge_backups guests states source_host =
     (let pick = (\<lambda>g. if source_host \<noteq> [] \<and> en_source_host g \<noteq> source_host then None
                      else dget states (en_vmid g))
      in \<lparr>mg_guests = map (\<lambda>g. case pick g of None \<Rightarrow> g | Some st \<Rightarrow> g\<lparr>en_backup := Some st\<rparr>) guests,
          mg_at_risk = length (filter (\<lambda>g. case pick g of None \<Rightarrow> False | Some st \<Rightarrow> bv_state st = STATE_BAD) guests),
          mg_states_present = (states \<noteq> [])\<rparr>)"

section \<open>Overall protection\<close>

definition backup_known :: "entry \<Rightarrow> bool" where
  "backup_known g = (case en_backup g of None \<Rightarrow> False | Some bk \<Rightarrow> bv_state bk \<noteq> STATE_UNKNOWN)"

definition backup_holds :: "entry \<Rightarrow> bool" where
  "backup_holds g = (case en_backup g of None \<Rightarrow> False
     | Some bk \<Rightarrow> bv_state bk \<noteq> STATE_UNKNOWN \<and> bv_state bk \<noteq> STATE_BAD)"

definition excused :: "(guest_exception \<Rightarrow> bool) \<Rightarrow> entry \<Rightarrow> bool" where
  "excused flag g = (case en_exception g of None \<Rightarrow> False | Some exc \<Rightarrow> flag exc)"

definition protection_state :: "entry \<Rightarrow> string" where
  "protection_state g =
     (let has_copy = (en_copy_count g > 0); known = backup_known g; has_backup = backup_holds g;
          ok_without_backup = excused ge_no_backup g;
          ok_without_copy = excused ge_no_replication g
      in if en_config_mismatch g \<noteq> [] then ''warn''
         else if \<not> has_copy \<and> \<not> has_backup then
           (if ok_without_backup \<and> ok_without_copy then ''accepted''
            else if \<not> known \<and> ok_without_copy then ''accepted''
            else ''crit'')
         else if \<not> has_copy then ''ok''
         else if known \<and> \<not> has_backup then (if ok_without_backup then ''accepted'' else ''warn'')
         else ''ok'')"

fun overall_loop :: "string \<Rightarrow> entry list \<Rightarrow> string" where
  "overall_loop worst [] = worst"
| "overall_loop worst (g # gs) =
     (let s = protection_state g
      in if s = ''crit'' then ''crit'' else overall_loop (if s = ''warn'' then ''warn'' else worst) gs)"

definition overall_verdict :: "entry list \<Rightarrow> string" where
  "overall_verdict guests = overall_loop ''ok'' guests"

definition stale_exception :: "entry \<Rightarrow> string" where
  "stale_exception g =
     (case en_exception g of
        None \<Rightarrow> []
      | Some exc \<Rightarrow>
          if ge_no_backup exc \<and> backup_holds g then ''backup''
          else if ge_no_replication exc \<and> en_copy_count g > 0 then ''replication''
          else [])"


section \<open>What the verdicts mean\<close>

lemmas state_names = STATE_OK_def STATE_WARN_def STATE_BAD_def STATE_UNKNOWN_def

definition age_of :: "guest_backups \<Rightarrow> int \<Rightarrow> int" where
  "age_of r now = max 0 (now - gb_newest r)"

text \<open>C4: A guest is red exactly when it has no backup, its newest one failed verification, or the
  newest one has a time and is older than the critical limit. It is green exactly when the newest
  backup has a time within both limits, is verified wherever the storage verifies, and an enabled
  job covers the guest (if the jobs could be read). A missing time is never red by age.\<close>

theorem backup_state_meaning:
  "(bv_state (backup_state rec now w c known) = STATE_BAD \<longleftrightarrow>
      (case rec of None \<Rightarrow> True | Some r \<Rightarrow>
         gb_count r = 0 \<or> (gb_newest_verifies r \<and> gb_newest_verify r = Some ''failed'') \<or>
         (gb_newest r \<noteq> 0 \<and> c * 3600 < age_of r now))) \<and>
   (bv_state (backup_state rec now w c known) = STATE_OK \<longleftrightarrow>
      (case rec of None \<Rightarrow> False | Some r \<Rightarrow>
         gb_count r \<noteq> 0 \<and> gb_newest r \<noteq> 0 \<and> age_of r now \<le> min w c * 3600 \<and>
         (gb_newest_verifies r \<longrightarrow> gb_newest_verify r \<notin> {None, Some ''failed''}) \<and>
         (known \<longrightarrow> gb_covered_by r \<noteq> []))) \<and>
   bv_state (backup_state rec now w c known) \<noteq> STATE_UNKNOWN"
proof (cases rec)
  case (Some r)
  have "min w c * 3600 = min (w * 3600) (c * 3600)" by (simp add: min_def)
  then show ?thesis unfolding Some
    by (auto simp: backup_state_def state_names missing_verdict_def Let_def age_of_def)
qed (simp add: backup_state_def state_names missing_verdict_def)

lemma backup_state_meaning_witness:
  "bv_state (backup_state (Some (no_backups\<lparr>gb_count := 1, gb_newest := 1000, gb_newest_verifies := True,
     gb_newest_verify := Some ''ok'', gb_covered_by := [''daily'']\<rparr>)) 2000 36 168 True) = STATE_OK"
  using backup_state_meaning [of "Some (no_backups\<lparr>gb_count := 1, gb_newest := 1000, gb_newest_verifies := True,
     gb_newest_verify := Some ''ok'', gb_covered_by := [''daily'']\<rparr>)" 2000 36 168 True]
  by (simp add: no_backups_def age_of_def)

lemma states_unknown:
  "(v, st) \<in> set (guest_backup_states bmap vmids now w c known True) \<Longrightarrow> bv_state st = STATE_UNKNOWN"
  by (auto simp: guest_backup_states_def missing_verdict_def)

text \<open>A host on which no command succeeds is reported as unknown for every guest that was asked
  about, never as having no backup.\<close>

theorem unreachable_host_unknown:
  assumes "\<And>cmd. \<not> cr_success (run host cmd)"
    and "(v, st) \<in> set (hs_states (host_backup_states loads run th now host vmids))"
  shows "bv_state st = STATE_UNKNOWN"
proof -
  have "node_name run host = []" using assms(1) by (simp add: node_name_def Let_def)
  then have "\<not> bd_readable (collect_backups loads run host [])"
    by (simp add: collect_backups_def Let_def)
  with assms(2) show ?thesis
    by (auto simp: host_backup_states_def Let_def split: prod.splits intro: states_unknown)
qed

theorem unreachable_host_unknown_witness:
  "let run = (\<lambda>h cmd. cmd_fail ''timed out''); h = plain_host ''a'' ''10.0.0.1'';
       st = hd (hs_states (host_backup_states (\<lambda>s. None) run None 0 h [''100'']))
   in fst st = ''100'' \<and> bv_state (snd st) = STATE_UNKNOWN"
proof -
  let ?s = "hs_states (host_backup_states (\<lambda>s. None) (\<lambda>h cmd. cmd_fail ''timed out'') None 0
    (plain_host ''a'' ''10.0.0.1'') [''100''])"
  have s: "?s \<noteq> []" "fst (hd ?s) = ''100''" by code_simp+
  have f: "\<not> cr_success ((\<lambda>h cmd. cmd_fail ''timed out'') (plain_host ''a'' ''10.0.0.1'') cmd)" for cmd
    by (simp add: cmd_fail_def)
  have "(fst (hd ?s), snd (hd ?s)) \<in> set ?s" using hd_in_set [OF s(1)] by simp
  from unreachable_host_unknown [OF f this] s(2) show ?thesis by (simp add: Let_def)
qed

section \<open>The record of a guest\<close>

lemma fold_volumes_get:
  "dget (fold_volumes vols) vmid =
   (if vmid \<noteq> [] \<and> vmid \<in> vo_vmid ` set vols
    then Some (fold add_volume (filter (\<lambda>v. vo_vmid v = vmid) vols) no_backups) else None)"
proof -
  have swap: "(\<lambda>v d. if vo_vmid v = [] then d else dmodify (vo_vmid v) no_backups (add_volume v) d)
    = (\<lambda>v d. if vo_vmid v \<noteq> [] then dmodify (vo_vmid v) no_backups (add_volume v) d else d)" by (intro ext) simp
  have "filter (\<lambda>v. vo_vmid v = vmid) (filter (\<lambda>v. vo_vmid v \<noteq> []) vols) = filter (\<lambda>v. vo_vmid v = vmid) vols"
    if "vmid \<noteq> []" using that by (auto intro: filter_cong)
  then show ?thesis
    unfolding fold_volumes_def swap fold_if_filter dget_fold_dmodify by auto
qed

definition newest_from :: "guest_backups \<Rightarrow> volume list \<Rightarrow> bool" where
  "newest_from r vols = (if gb_newest r = 0 then gb_newest_verify r = None \<and> \<not> gb_newest_verifies r
     else \<exists>v \<in> set vols. vo_ctime v = gb_newest r \<and> vo_volid v = gb_newest_volid r \<and>
       vo_verify v = gb_newest_verify r \<and> vo_verifies v = gb_newest_verifies r)"

lemma add_volume_simps:
  "gb_count (add_volume v r) = gb_count r + 1"
  "gb_newest (add_volume v r) = max (gb_newest r) (vo_ctime v)"
  by (auto simp: add_volume_def Let_def)

lemma fold_add_volume:
  "gb_count (fold add_volume vols r) = gb_count r + int (length vols)"
  "gb_newest (fold add_volume vols r) = fold (\<lambda>v m. max m (vo_ctime v)) vols (gb_newest r)"
  by (induction vols arbitrary: r) (simp_all add: add_volume_simps)

lemma fold_max_bounds:
  "m \<le> fold (\<lambda>v m. max m (f v :: int)) vols m"
  "v \<in> set vols \<Longrightarrow> f v \<le> fold (\<lambda>v m. max m (f v)) vols m"
proof -
  have ge': "m \<le> fold (\<lambda>v m. max m (f v)) vols m" for m and vols :: "'a list"
    by (induction vols arbitrary: m) (auto intro: order_trans [OF max.cobounded1])
  show "m \<le> fold (\<lambda>v m. max m (f v)) vols m" by (rule ge')
  show "v \<in> set vols \<Longrightarrow> f v \<le> fold (\<lambda>v m. max m (f v)) vols m"
    by (induction vols arbitrary: m) (auto intro: order_trans [OF max.cobounded2 ge'])
qed

lemma newest_from_step:
  assumes "newest_from r vols" "0 \<le> gb_newest r"
  shows "newest_from (add_volume v r) (vols @ [v])"
proof (cases "gb_newest r < vo_ctime v")
  case True
  then show ?thesis using assms by (auto simp: newest_from_def add_volume_def Let_def)
next
  case False
  then show ?thesis using assms by (auto simp: newest_from_def add_volume_def Let_def)
qed

lemma newest_from_fold:
  "newest_from r vs \<Longrightarrow> 0 \<le> gb_newest r \<Longrightarrow> newest_from (fold add_volume vols r) (vs @ vols)"
proof (induction vols arbitrary: r vs)
  case (Cons v vols)
  have "newest_from (add_volume v r) (vs @ [v])" by (rule newest_from_step [OF Cons.prems])
  from Cons.IH [OF this] Cons.prems show ?case by (simp add: add_volume_simps)
qed simp

text \<open>The record of a guest counts its volumes, its newest time is the largest of them, and the
  verification verdict it carries is the one of a newest volume: an older backup that verified
  never stands in for a newer one. The jobs listed are exactly the enabled ones that name the
  guest or take all but it.\<close>

theorem guest_backup_map_newest:
  assumes "dget (guest_backup_map vols jobs) vmid = Some r"
  shows "gb_count r = int (length (filter (\<lambda>v. vo_vmid v = vmid) vols)) \<and> 0 < gb_count r \<and>
    (\<forall>v \<in> set vols. vo_vmid v = vmid \<longrightarrow> vo_ctime v \<le> gb_newest r) \<and>
    newest_from r (filter (\<lambda>v. vo_vmid v = vmid) vols) \<and>
    set (gb_covered_by r) = jb_id ` {j \<in> set jobs. job_covers j vmid}"
proof -
  let ?vs = "filter (\<lambda>v. vo_vmid v = vmid) vols"
  let ?f = "fold add_volume ?vs no_backups"
  from assms obtain r0 where r0: "dget (fold_volumes vols) vmid = Some r0"
    and r: "r = r0\<lparr>gb_covered_by := map jb_id (filter (\<lambda>j. job_covers j vmid) jobs),
                  gb_storages := sort (gb_storages r0), gb_types := sort (gb_types r0)\<rparr>"
    unfolding guest_backup_map_def dget_map_val by auto
  from r0 have f: "r0 = ?f" and ne: "?vs \<noteq> []"
    unfolding fold_volumes_get by (auto split: if_splits simp: filter_empty_conv)
  have "newest_from no_backups []" by (simp add: newest_from_def no_backups_def)
  from newest_from_fold [OF this, of ?vs] have "newest_from ?f ?vs" by (simp add: no_backups_def)
  moreover have "vo_ctime v \<le> gb_newest ?f" if "v \<in> set ?vs" for v
    unfolding fold_add_volume by (rule fold_max_bounds(2) [OF that])
  moreover have "gb_count ?f = int (length ?vs)" unfolding fold_add_volume by (simp add: no_backups_def)
  ultimately show ?thesis using ne unfolding r f by (auto simp: newest_from_def)
qed

definition ex_volume :: "string \<Rightarrow> int \<Rightarrow> string option \<Rightarrow> volume" where
  "ex_volume i t vf = \<lparr>vo_volid = i, vo_storage = ''pbs'', vo_storage_type = ''pbs'', vo_verifies = True,
     vo_vmid = ''100'', vo_ctime = t, vo_size = 1, vo_format = [], vo_subtype = [], vo_verify = vf,
     vo_protected = False, vo_notes = []\<rparr>"

definition ex_volumes :: "volume list" where
  "ex_volumes = [ex_volume ''b'' 20 (Some ''failed''), ex_volume ''a'' 10 (Some ''ok'')]"

theorem guest_backup_map_newest_witness:
  "gb_count (the (dget (guest_backup_map ex_volumes []) ''100'')) = 2 \<and>
   newest_from (the (dget (guest_backup_map ex_volumes []) ''100''))
     (filter (\<lambda>v. vo_vmid v = ''100'') ex_volumes)"
proof -
  let ?d = "dget (guest_backup_map ex_volumes []) ''100''"
  have "?d \<noteq> None" by code_simp
  then have d: "?d = Some (the ?d)" by simp
  have l: "int (length (filter (\<lambda>v. vo_vmid v = ''100'') ex_volumes)) = 2" by code_simp
  show ?thesis using guest_backup_map_newest [OF d] unfolding l by (intro conjI) blast+
qed

section \<open>Protection\<close>

definition backup_level :: "entry \<Rightarrow> nat" where
  "backup_level g = (if backup_holds g then 2 else if backup_known g then 0 else 1)"

definition protection_rank :: "string \<Rightarrow> nat" where
  "protection_rank s = (if s = ''ok'' then 0 else if s = ''accepted'' then 1 else if s = ''warn'' then 2 else 3)"

lemma protection_state_cases:
  "protection_state g \<in> {''ok'', ''accepted'', ''warn'', ''crit''}"
  by (simp add: protection_state_def Let_def)

lemma excused_cong: "en_exception g = en_exception h \<Longrightarrow> excused f g = excused f h"
  by (simp add: excused_def)

text \<open>The protection verdict is monotone: with the same declarations and the same configuration
  check, a guest that has at least as many kinds of copies and a backup that is not worse (red
  below unknown below holding) never gets a worse verdict.\<close>

theorem protection_monotone:
  assumes "en_copy_count g > 0 \<longrightarrow> en_copy_count h > 0" and "backup_level g \<le> backup_level h"
    and "en_exception g = en_exception h" and "en_config_mismatch g = en_config_mismatch h"
  shows "protection_rank (protection_state h) \<le> protection_rank (protection_state g)"
  using assms
  by (auto simp: protection_state_def protection_rank_def backup_level_def Let_def
      excused_cong [OF assms(3)] split: if_splits)

definition ex_entry :: "int \<Rightarrow> entry" where
  "ex_entry n = (bare_entry ''pve1'' ''100'' [])\<lparr>en_copy_count := n\<rparr>"

theorem protection_monotone_witness:
  "protection_rank (protection_state (ex_entry 1)) \<le> protection_rank (protection_state (ex_entry 0)) \<and>
   protection_state (ex_entry 0) = ''crit''"
  by (rule conjI, rule protection_monotone) (code_simp+)

text \<open>Only what is excused becomes \<open>accepted\<close>; a verdict \<open>ok\<close> has a line of defence behind it.\<close>

lemma protection_ok: "protection_state g = ''ok'' \<Longrightarrow> en_copy_count g > 0 \<or> backup_holds g"
  by (auto simp: protection_state_def Let_def split: if_splits)

lemma protection_accepted:
  "protection_state g = ''accepted'' \<Longrightarrow> excused ge_no_backup g \<or> excused ge_no_replication g"
  by (auto simp: protection_state_def Let_def split: if_splits)

lemma overall_loop_eq:
  "overall_loop w gs = (if \<exists>g \<in> set gs. protection_state g = ''crit'' then ''crit''
     else if \<exists>g \<in> set gs. protection_state g = ''warn'' then ''warn'' else w)"
  by (induction gs arbitrary: w) (auto simp: Let_def)

lemma backup_thresholds_sane:
  "backup_thresholds th = (w, c) \<Longrightarrow> 1 \<le> w \<and> w \<le> c \<and> c \<le> 8760"
  by (auto simp: backup_thresholds_def Let_def split: prod.splits if_splits)

text \<open>With two backup storages of which one cannot be listed, a guest whose backups are all on
  that one is red with the reason \<open>none\<close>, not unknown: the fallback to unknown needs every storage
  to be unreadable. Here the PBS is inactive and the readable directory is empty.\<close>

theorem red_while_pbs_is_down:
  "\<exists>loads run. let d = collect_backups loads run (plain_host ''a'' ''10.0.0.1'') ''a'' in
     map fst (bd_unreadable d) = [''pbs''] \<and>
     map (\<lambda>(v, s). (v, bv_state s, bv_reason s))
       (guest_backup_states (guest_backup_map (bd_volumes d) (bd_jobs d)) [''100''] 0 36 168
          (bd_jobs_known d) (\<not> bd_readable d)) = [(''100'', STATE_BAD, ''none'')]"
proof -
  let ?loads = "\<lambda>t. if t = ''S'' then Some (VList
      [VDict [(''storage'', VStr ''local''), (''type'', VStr ''dir''), (''active'', VInt 1)],
       VDict [(''storage'', VStr ''pbs''), (''type'', VStr ''pbs''), (''active'', VInt 0)]]) else Some (VList [])"
  let ?run = "\<lambda>h cmd. cmd_ok (if cmd = storage_cmd ''a'' then ''S'' else ''L'')"
  show ?thesis
    by (rule exI [of _ ?loads], rule exI [of _ ?run]) code_simp
qed

end
