(* ===== verification/PoolTopology.thy ===== *)
theory PoolTopology
  imports PyRegex Prelude
begin

text \<open>
  \<open>app/pool_topology.py\<close>: the device tree in the output of \<open>zpool status\<close> and the vdevs whose loss
  costs the pool. The parser's local variables are a record, one line of the output is one
  step. The open vdev of the code is always the last one of the current pool, so the state only
  says whether there is one.
\<close>

section \<open>The parser\<close>

definition TIER_HEADERS :: "(string, string) dict" where
  "TIER_HEADERS = [(''logs'', ''log''), (''log'', ''log''), (''cache'', ''cache''),
     (''special'', ''special''), (''dedup'', ''dedup''), (''spares'', ''spare''), (''spare'', ''spare'')]"

definition DEV_STATES :: "string list" where
  "DEV_STATES = [''ONLINE'', ''DEGRADED'', ''FAULTED'', ''UNAVAIL'', ''OFFLINE'', ''REMOVED'',
     ''AVAIL'', ''INUSE'', ''SUSPENDED'', ''SPLIT'']"

definition dash_number :: re where
  "dash_number = opt (Seq (chr CHR ''-'') (plus (Ch is_digit)))"

definition MIRROR_RE :: re where
  "MIRROR_RE = seqs [Bol, lit ''mirror'', dash_number, Eol]"

definition RAIDZ_RE :: re where
  "RAIDZ_RE = seqs [Bol, lit ''raidz'', opt (Grp 1 (Ch (one_of ''123''))), dash_number, Eol]"

definition DRAID_RE :: re where
  "DRAID_RE = seqs [Bol, lit ''draid'', opt (Ch (one_of ''123'')), Star (Ch (\<lambda>c. \<not> is_space c)), Eol]"

definition FATAL_TIERS :: "string list" where
  "FATAL_TIERS = [''data'', ''special'', ''dedup'']"

definition indent :: "string \<Rightarrow> nat" where
  "indent line = length (takeWhile (\<lambda>c. c = CHR '' '')
     (concat (map (\<lambda>c. if c = tab then ''    '' else [c]) line)))"

text \<open>The patterns ignore case: the name is lowered first.\<close>

definition redundancy :: "string \<Rightarrow> string" where
  "redundancy name =
     (let n = lower_str name
      in if re_test MIRROR_RE n then ''mirror''
         else case re_match RAIDZ_RE n of
                Some m \<Rightarrow> ''raidz'' @ (case group 1 m of Some d \<Rightarrow> d | None \<Rightarrow> ''1'')
              | None \<Rightarrow> if re_test DRAID_RE n then ''draid'' else ''none'')"

record vdev =
  vd_tier :: string
  vd_name :: string
  vd_redundancy :: string
  vd_state :: string
  vd_devices :: "string list"

type_synonym topology = "(string, vdev list) dict"

record topo_state =
  ts_pools :: topology
  ts_pool :: "string option"
  ts_in_config :: bool
  ts_tier :: string
  ts_pool_indent :: "nat option"
  ts_vdev_indent :: "nat option"
  ts_current :: bool

definition topo_start :: topo_state where
  "topo_start = \<lparr>ts_pools = [], ts_pool = None, ts_in_config = False, ts_tier = ''data'',
     ts_pool_indent = None, ts_vdev_indent = None, ts_current = False\<rparr>"

definition POOL_LINE_RE :: re where
  "POOL_LINE_RE = seqs [Bol, Star (Ch is_space), lit ''pool:'', Star (Ch is_space),
     Grp 1 (plus (Ch (\<lambda>c. \<not> is_space c)))]"

definition CONFIG_LINE_RE :: re where
  "CONFIG_LINE_RE = seqs [Bol, Star (Ch is_space), lit ''config:'', Star (Ch is_space), Eol]"

definition ERRORS_LINE_RE :: re where
  "ERRORS_LINE_RE = seqs [Bol, Star (Ch is_space), lit ''errors:'']"

definition new_vdev :: "string \<Rightarrow> string \<Rightarrow> string \<Rightarrow> vdev" where
  "new_vdev tier name state = \<lparr>vd_tier = tier, vd_name = name, vd_redundancy = redundancy name,
     vd_state = state, vd_devices = (if redundancy name \<noteq> ''none'' then [] else [name])\<rparr>"

definition add_device :: "string \<Rightarrow> vdev list \<Rightarrow> vdev list" where
  "add_device name vs = (if vs = [] then []
     else butlast vs @ [(last vs)\<lparr>vd_devices := vd_devices (last vs) @ [name]\<rparr>])"

text \<open>A line of the device tree of pool \<open>pool\<close> that is a device or a header.\<close>

definition device_line :: "string \<Rightarrow> string \<Rightarrow> topo_state \<Rightarrow> topo_state" where
  "device_line pool raw st =
     (let parts = split_ws (strip raw); name = hd parts; depth = indent raw;
          state = (if length parts > 1 then upper_str (parts ! 1) else []);
          has_state = (state \<in> set DEV_STATES)
      in if name = ''NAME'' then st
         else if name = pool \<and> has_state \<and> ts_pool_indent st = None then st\<lparr>ts_pool_indent := Some depth\<rparr>
         else if ts_pool_indent st = None then st
         else if \<not> has_state then
           (case dget TIER_HEADERS (lower_str name) of
              Some t \<Rightarrow> st\<lparr>ts_tier := t, ts_current := False\<rparr>
            | None \<Rightarrow> st)
         else
           let vi = (case ts_vdev_indent st of None \<Rightarrow> depth | Some i \<Rightarrow> i);
               st = st\<lparr>ts_vdev_indent := Some vi\<rparr>
           in if depth \<le> vi
              then st\<lparr>ts_pools := dset pool (dget_or [] (ts_pools st) pool @ [new_vdev (ts_tier st) name state]) (ts_pools st),
                      ts_current := True\<rparr>
              else if ts_current st
              then st\<lparr>ts_pools := dset pool (add_device name (dget_or [] (ts_pools st) pool)) (ts_pools st)\<rparr>
              else st)"

definition topo_step :: "string \<Rightarrow> topo_state \<Rightarrow> topo_state" where
  "topo_step raw st =
     (case re_match POOL_LINE_RE raw of
        Some m \<Rightarrow>
          (let pool = group_str 1 m
           in st\<lparr>ts_pool := Some pool, ts_pools := dmodify pool [] (\<lambda>v. v) (ts_pools st),
                 ts_in_config := False, ts_tier := ''data'', ts_pool_indent := None,
                 ts_vdev_indent := None, ts_current := False\<rparr>)
      | None \<Rightarrow>
          if re_test CONFIG_LINE_RE raw then st\<lparr>ts_in_config := True\<rparr>
          else if re_test ERRORS_LINE_RE raw then st\<lparr>ts_in_config := False, ts_current := False\<rparr>
          else if \<not> ts_in_config st \<or> strip raw = [] then st
          else (case ts_pool st of None \<Rightarrow> st | Some pool \<Rightarrow> device_line pool raw st))"

definition parse_topology :: "string \<Rightarrow> topology" where
  "parse_topology status_text = ts_pools (fold topo_step (splitlines status_text) topo_start)"

section \<open>Findings\<close>

record finding =
  fi_pool :: string
  fi_vdev :: string
  fi_tier :: string
  fi_severity :: string
  fi_reason :: string

definition finding_of :: "string \<Rightarrow> vdev \<Rightarrow> finding option" where
  "finding_of pool v =
     (if vd_redundancy v \<noteq> ''none'' \<or> vd_tier v \<in> {''cache'', ''spare''} then None
      else let fatal = (vd_tier v \<in> set FATAL_TIERS)
        in Some \<lparr>fi_pool = pool, fi_vdev = vd_name v, fi_tier = vd_tier v,
             fi_severity = (if fatal then ''crit'' else ''warn''),
             fi_reason = (if fatal then ''pool_loss'' else ''sync_writes'')\<rparr>)"

definition redundancy_findings :: "topology \<Rightarrow> finding list" where
  "redundancy_findings topology =
     concat (map (\<lambda>(pool, vdevs). List.map_filter (finding_of pool) vdevs) (sort_key fst topology))"

record summary =
  su_vdevs :: "vdev list"
  su_findings :: "finding list"
  su_worst :: string

definition summarize :: "topology \<Rightarrow> string \<Rightarrow> summary" where
  "summarize topology pool =
     (let vdevs = dget_or [] topology pool; findings = redundancy_findings [(pool, vdevs)]
      in \<lparr>su_vdevs = vdevs, su_findings = findings,
          su_worst = (if list_ex (\<lambda>f. fi_severity f = ''crit'') findings then ''crit''
                      else if findings \<noteq> [] then ''warn'' else ''ok'')\<rparr>)"

section \<open>What the parser keeps\<close>

text \<open>A vdev is well formed when its tier is one the code knows, its redundancy is what its name
  says, and a vdev without redundancy starts its device list with itself.\<close>

definition known_tier :: "string \<Rightarrow> bool" where
  "known_tier t = (t \<in> {''data'', ''log'', ''cache'', ''special'', ''dedup'', ''spare''})"

lemma known_data [simp]: "known_tier ''data''"
  by (simp add: known_tier_def)

definition vdev_ok :: "vdev \<Rightarrow> bool" where
  "vdev_ok v = (known_tier (vd_tier v) \<and>
     vd_redundancy v = redundancy (vd_name v) \<and> vd_state v \<in> set DEV_STATES \<and>
     (vd_redundancy v = ''none'' \<longrightarrow> vd_devices v \<noteq> [] \<and> hd (vd_devices v) = vd_name v))"

definition topo_ok :: "topo_state \<Rightarrow> bool" where
  "topo_ok st = (dinv (ts_pools st) \<and> known_tier (ts_tier st) \<and>
     (\<forall>pool vs. dget (ts_pools st) pool = Some vs \<longrightarrow> list_all vdev_ok vs))"

lemma vdev_ok_add_device: "list_all vdev_ok vs \<Longrightarrow> list_all vdev_ok (add_device name vs)"
proof (cases vs rule: rev_cases)
  case (snoc ys y)
  then show "list_all vdev_ok vs \<Longrightarrow> list_all vdev_ok (add_device name vs)"
    by (auto simp: add_device_def vdev_ok_def)
qed (simp add: add_device_def)

lemma tier_known: "dget TIER_HEADERS n = Some t \<Longrightarrow> known_tier t"
  by (auto simp: known_tier_def TIER_HEADERS_def dget_def split: if_splits)

lemma dget_or_ok: "topo_ok st \<Longrightarrow> list_all vdev_ok (dget_or [] (ts_pools st) pool)"
  by (auto simp: topo_ok_def dget_or_def split: option.splits)

lemma device_line_ok:
  assumes "topo_ok st"
  shows "topo_ok (device_line pool raw st)"
proof -
  have new: "vdev_ok (new_vdev (ts_tier st) name state)" if "state \<in> set DEV_STATES" for name state
    using assms that by (simp add: new_vdev_def vdev_ok_def topo_ok_def)
  note old = dget_or_ok [OF assms, of pool] vdev_ok_add_device [OF dget_or_ok [OF assms, of pool]]
  show ?thesis
    using assms old new unfolding device_line_def Let_def
    by (auto simp: topo_ok_def intro: tier_known split: option.splits)
qed

lemma topo_step_ok: "topo_ok st \<Longrightarrow> topo_ok (topo_step raw st)"
proof -
  assume ok: "topo_ok st"
  show ?thesis
  proof (cases "re_match POOL_LINE_RE raw")
    case None
    with ok device_line_ok [OF ok] show ?thesis
      by (auto simp: topo_step_def topo_ok_def split: option.splits)
  next
    case (Some m)
    with ok dget_or_ok [OF ok] show ?thesis
      by (auto simp: topo_step_def Let_def topo_ok_def split: if_splits)
  qed
qed

lemma parse_ok: "topo_ok (fold topo_step (splitlines text) topo_start)"
proof (rule fold_inv [where P = topo_ok])
  show "topo_ok topo_start" by (simp add: topo_start_def topo_ok_def)
qed (rule topo_step_ok)

lemma parse_topology_ok: "dget (parse_topology text) pool = Some vs \<Longrightarrow> list_all vdev_ok vs"
proof -
  have "topo_ok (fold topo_step (splitlines text) topo_start)" by (rule parse_ok)
  then show "dget (parse_topology text) pool = Some vs \<Longrightarrow> list_all vdev_ok vs"
    by (simp add: topo_ok_def parse_topology_def)
qed

lemma parse_topology_inv: "dinv (parse_topology text)"
proof -
  have "topo_ok (fold topo_step (splitlines text) topo_start)" by (rule parse_ok)
  then show ?thesis by (simp add: topo_ok_def parse_topology_def)
qed

lemma finding_mem:
  "f \<in> set (redundancy_findings t) \<longleftrightarrow>
   (\<exists>pool vs v. (pool, vs) \<in> set t \<and> v \<in> set vs \<and> finding_of pool v = Some f)"
  by (auto simp: redundancy_findings_def map_filter_mem)

text \<open>For the output of \<open>zpool status\<close>, a critical finding is reported for exactly the vdevs of
  the data, special and dedup tiers whose name is no redundant container; log devices give at most
  a warning and cache and spare devices nothing at all. Every such vdev lists itself as its first
  device.\<close>

theorem critical_findings_exact:
  "(\<exists>f \<in> set (redundancy_findings (parse_topology text)).
      fi_pool f = pool \<and> fi_vdev f = name \<and> fi_severity f = ''crit'') \<longleftrightarrow>
   (\<exists>vs v. dget (parse_topology text) pool = Some vs \<and> v \<in> set vs \<and> vd_name v = name \<and>
      vd_tier v \<in> {''data'', ''special'', ''dedup''} \<and> redundancy name = ''none'' \<and>
      vd_devices v \<noteq> [] \<and> hd (vd_devices v) = name)"
proof -
  have ok: "vdev_ok v" if "(p, vs) \<in> set (parse_topology text)" "v \<in> set vs" for p vs v
    using parse_topology_ok [OF dget_SomeI [OF parse_topology_inv that(1)]] that(2) by (simp add: list_all_iff)
  have crit: "(\<exists>f. finding_of p v = Some f \<and> fi_pool f = pool \<and> fi_vdev f = name \<and> fi_severity f = ''crit'') \<longleftrightarrow>
      p = pool \<and> vd_name v = name \<and> vd_tier v \<in> {''data'', ''special'', ''dedup''} \<and> vd_redundancy v = ''none''" for p v
    by (auto simp: finding_of_def FATAL_TIERS_def Let_def)
  have "(\<exists>f \<in> set (redundancy_findings (parse_topology text)).
      fi_pool f = pool \<and> fi_vdev f = name \<and> fi_severity f = ''crit'') \<longleftrightarrow>
    (\<exists>p vs v. (p, vs) \<in> set (parse_topology text) \<and> v \<in> set vs \<and>
      (\<exists>f. finding_of p v = Some f \<and> fi_pool f = pool \<and> fi_vdev f = name \<and> fi_severity f = ''crit''))"
    unfolding Bex_def finding_mem by blast
  also have "\<dots> \<longleftrightarrow> (\<exists>vs v. (pool, vs) \<in> set (parse_topology text) \<and> v \<in> set vs \<and> vd_name v = name \<and>
      vd_tier v \<in> {''data'', ''special'', ''dedup''} \<and> vd_redundancy v = ''none'')"
    unfolding crit by blast
  also have "\<dots> \<longleftrightarrow> (\<exists>vs v. dget (parse_topology text) pool = Some vs \<and> v \<in> set vs \<and> vd_name v = name \<and>
      vd_tier v \<in> {''data'', ''special'', ''dedup''} \<and> redundancy name = ''none'' \<and>
      vd_devices v \<noteq> [] \<and> hd (vd_devices v) = name)"
    unfolding dget_Some_iff [OF parse_topology_inv] using ok unfolding vdev_ok_def by metis
  finally show ?thesis .
qed

lemma summarize_worst:
  "su_worst (summarize t pool) = ''crit'' \<longleftrightarrow>
   (\<exists>v \<in> set (dget_or [] t pool). vd_redundancy v = ''none'' \<and> vd_tier v \<in> set FATAL_TIERS)"
proof -
  have "su_worst (summarize t pool) = ''crit'' \<longleftrightarrow>
      (\<exists>f \<in> set (List.map_filter (finding_of pool) (dget_or [] t pool)). fi_severity f = ''crit'')"
    by (simp add: summarize_def Let_def redundancy_findings_def list_ex_iff)
  also have "\<dots> \<longleftrightarrow> (\<exists>v \<in> set (dget_or [] t pool). \<exists>f. finding_of pool v = Some f \<and> fi_severity f = ''crit'')"
    unfolding Bex_def map_filter_mem by blast
  also have "\<dots> \<longleftrightarrow> (\<exists>v \<in> set (dget_or [] t pool). vd_redundancy v = ''none'' \<and> vd_tier v \<in> set FATAL_TIERS)"
    by (rule bex_cong [OF refl]) (auto simp: finding_of_def FATAL_TIERS_def Let_def)
  finally show ?thesis .
qed

end
