(* ===== verification/Monitor.thy ===== *)
theory Monitor
  imports PoolTopology PyVal
begin

text \<open>
  \<open>app/monitor.py\<close>: the checks that turn a change of state into a notification. The table
  \<open>monitor_state\<close> is a dictionary from (scope, key) to its value, the time of its last alert and of
  its last update; \<open>send_notification\<close> appends to the list of what was sent. Every check takes the
  time \<open>now\<close> (\<open>int(time.time())\<close>). Percentages are whole numbers, which is what \<open>zpool list\<close> prints;
  the thresholds are whole numbers as well. An arrow in a message is
  written with two ASCII characters.
\<close>

section \<open>The state table\<close>

record state_row =
  sw_value :: string
  sw_alert :: "int option"
  sw_updated :: int

type_synonym state_db = "(string \<times> string, state_row) dict"

record notification =
  nt_event :: string
  nt_title :: string
  nt_body :: string
  nt_priority :: int
  nt_state :: string
  nt_key :: string
  nt_host :: string

record mon =
  mo_db :: state_db
  mo_sent :: "notification list"

definition state_get :: "string \<Rightarrow> string \<Rightarrow> mon \<Rightarrow> string option \<times> int option" where
  "state_get scope key m = (case dget (mo_db m) (scope, key) of
     None \<Rightarrow> (None, None) | Some r \<Rightarrow> (Some (sw_value r), sw_alert r))"

text \<open>Without an alert time the one in the table stays.\<close>

definition state_set :: "string \<Rightarrow> string \<Rightarrow> string \<Rightarrow> int option \<Rightarrow> int \<Rightarrow> mon \<Rightarrow> mon" where
  "state_set scope key value last_alert now m =
     (let existing = (case last_alert of Some t \<Rightarrow> None
                      | None \<Rightarrow> (case dget (mo_db m) (scope, key) of None \<Rightarrow> None | Some r \<Rightarrow> sw_alert r));
          alert = (case last_alert of Some t \<Rightarrow> Some t | None \<Rightarrow> existing)
      in m\<lparr>mo_db := dset (scope, key) \<lparr>sw_value = value, sw_alert = alert, sw_updated = now\<rparr> (mo_db m)\<rparr>)"

definition mark_alerted :: "string \<Rightarrow> string \<Rightarrow> int \<Rightarrow> mon \<Rightarrow> mon" where
  "mark_alerted scope key now m =
     (case dget (mo_db m) (scope, key) of
        None \<Rightarrow> m
      | Some r \<Rightarrow> m\<lparr>mo_db := dset (scope, key) (r\<lparr>sw_alert := Some now, sw_updated := now\<rparr>) (mo_db m)\<rparr>)"

definition state_delete :: "string \<Rightarrow> string \<Rightarrow> mon \<Rightarrow> mon" where
  "state_delete scope key m = m\<lparr>mo_db := dpop (scope, key) (mo_db m)\<rparr>"

text \<open>SQLite's LIKE: \<open>%\<close> any text, \<open>_\<close> any character, ASCII letters match in either case; after the
  escape character, if there is one, the next character stands for itself.\<close>

definition ascii_fold :: "char \<Rightarrow> char" where
  "ascii_fold c = (if is_upper c then char_of (cc c + 32) else c)"

function sql_like :: "char option \<Rightarrow> string \<Rightarrow> string \<Rightarrow> bool" where
  "sql_like esc [] s = (s = [])"
| "sql_like esc (p # ps) s =
     (if esc = Some p then
        (case (ps, s) of
           (q # qs, c # cs) \<Rightarrow> ascii_fold q = ascii_fold c \<and> sql_like esc qs cs
         | _ \<Rightarrow> False)
      else if p = CHR ''%'' then
        sql_like esc ps s \<or> (case s of [] \<Rightarrow> False | c # cs \<Rightarrow> sql_like esc (p # ps) cs)
      else (case s of [] \<Rightarrow> False
            | c # cs \<Rightarrow> (p = CHR ''_'' \<or> ascii_fold p = ascii_fold c) \<and> sql_like esc ps cs))"
  by pat_completeness auto
termination
  by (relation "measure (\<lambda>(esc, p, s). length p + length s)") auto

definition state_keys :: "string \<Rightarrow> string \<Rightarrow> mon \<Rightarrow> (string, string) dict" where
  "state_keys scope key_prefix m =
     List.map_filter (\<lambda>((sc, k), r).
        if sc = scope \<and> sql_like None (key_prefix @ ''%'') k then Some (k, sw_value r) else None) (mo_db m)"

definition cooldown_ok :: "int option \<Rightarrow> int \<Rightarrow> int \<Rightarrow> bool" where
  "cooldown_ok last_alert cooldown now =
     (case last_alert of None \<Rightarrow> True | Some t \<Rightarrow> t = 0 \<or> now - t \<ge> cooldown)"

definition send_notification :: "notification \<Rightarrow> mon \<Rightarrow> mon" where
  "send_notification n m = m\<lparr>mo_sent := mo_sent m @ [n]\<rparr>"

definition notif :: "string \<Rightarrow> string \<Rightarrow> string \<Rightarrow> int \<Rightarrow> string \<Rightarrow> string \<Rightarrow> string \<Rightarrow> notification" where
  "notif event title body priority state key host = \<lparr>nt_event = event, nt_title = title, nt_body = body,
     nt_priority = priority, nt_state = state, nt_key = key, nt_host = host\<rparr>"

text \<open>Backslash, percent and underscore are escaped, in this order.\<close>

definition like_escape :: "string \<Rightarrow> string" where
  "like_escape s = concat (map (\<lambda>c. if c = CHR 0x5C \<or> c = CHR ''%'' \<or> c = CHR ''_''
     then [CHR 0x5C, c] else [c]) s)"

definition clear_host_state :: "string \<Rightarrow> mon \<Rightarrow> mon \<times> nat" where
  "clear_host_state address m =
     (let gone = (\<lambda>((sc, k), r). (sc = ''host'' \<and> k = address) \<or>
             sql_like (Some (CHR 0x5C)) (like_escape address @ '':%'') k)
      in (m\<lparr>mo_db := filter (\<lambda>x. \<not> gone x) (mo_db m)\<rparr>, length (filter gone (mo_db m))))"

section \<open>Levels\<close>

definition BAD_HEALTH :: "string list" where
  "BAD_HEALTH = [''DEGRADED'', ''FAULTED'', ''UNAVAIL'', ''REMOVED'', ''SUSPENDED'']"

definition CAPACITY_WARN_PCT :: int where "CAPACITY_WARN_PCT = 70"
definition CAPACITY_CRIT_PCT :: int where "CAPACITY_CRIT_PCT = 80"
definition CAPACITY_ALERT_COOLDOWN :: int where "CAPACITY_ALERT_COOLDOWN = 12 * 3600"
definition ERROR_ALERT_COOLDOWN :: int where "ERROR_ALERT_COOLDOWN = 6 * 3600"

definition LEVEL_ORDER :: "(string, int) dict" where
  "LEVEL_ORDER = [(''below'', 0), (''warn'', 1), (''crit'', 2)]"

text \<open>\<open>th\<close> is the thresholds section of the configuration as numbers, None when it cannot be read or
  holds something that is no number.\<close>

definition capacity_thresholds :: "(int option \<times> int option) option \<Rightarrow> int \<times> int" where
  "capacity_thresholds th =
     (let (w, c) = (case th of None \<Rightarrow> (CAPACITY_WARN_PCT, CAPACITY_CRIT_PCT)
           | Some (w, c) \<Rightarrow> (case w of Some i \<Rightarrow> i | None \<Rightarrow> CAPACITY_WARN_PCT,
                             case c of Some i \<Rightarrow> i | None \<Rightarrow> CAPACITY_CRIT_PCT));
          warn = min (max w 1) 100; crit = min (max c 1) 100
      in (if warn > crit then crit else warn, crit))"

definition capacity_level :: "int \<Rightarrow> int \<Rightarrow> int \<Rightarrow> string" where
  "capacity_level cap warn_pct crit_pct =
     (if cap \<ge> crit_pct then ''crit'' else if cap \<ge> warn_pct then ''warn'' else ''below'')"

definition should_alert_capacity :: "string option \<Rightarrow> string \<Rightarrow> bool" where
  "should_alert_capacity prev_level now_level =
     (if now_level = ''below'' then False
      else case prev_level of
             None \<Rightarrow> True
           | Some p \<Rightarrow> (case (dget LEVEL_ORDER p, dget LEVEL_ORDER now_level) of
                (Some i, Some j) \<Rightarrow> i < j
              | (None, _) \<Rightarrow> True
              | (_, None) \<Rightarrow> False))"

section \<open>The checks\<close>

record pool =
  pl_name :: string
  pl_health :: string
  pl_cap :: string

definition display_name :: "host \<Rightarrow> string" where
  "display_name h = (if ho_name h \<noteq> [] then ho_name h else ho_address h)"

text \<open>\<open>HOST_OFFLINE_CONFIRM_SEC\<close> is read from the environment; \<open>reprobe\<close> is the answer of the second
  probe, False also when it raises.\<close>

definition confirm_offline :: "int \<Rightarrow> host \<Rightarrow> bool \<Rightarrow> mon \<Rightarrow> bool" where
  "confirm_offline confirm_sec h reprobe m =
     (if confirm_sec \<le> 0 then False
      else if fst (state_get ''host'' (ho_address h) m) = Some ''down'' then False
      else reprobe)"

definition check_host_reachability :: "int \<Rightarrow> host \<Rightarrow> bool \<Rightarrow> mon \<Rightarrow> mon" where
  "check_host_reachability now h reachable m =
     (let scope = ''host''; key = ho_address h; new = (if reachable then ''up'' else ''down'');
          name = display_name h; pair_key = ''host_offline:'' @ ho_address h
      in if ho_standby h then state_set scope key new None now m
         else
           let (prev, alerted_ts) = state_get scope key m
           in if prev = None then state_set scope key new None now m
              else if prev = Some new then m
              else if \<not> reachable then
                state_set scope key new (Some now) now
                  (send_notification (notif ''host_offline'' ''Host Offline''
                     (name @ '' ('' @ ho_address h @ '') is not reachable via SSH.'') 8 ''new'' pair_key name) m)
              else
                state_set scope key new (Some 0) now
                  (if alerted_ts \<noteq> None \<and> alerted_ts \<noteq> Some 0
                   then send_notification (notif ''host_offline'' ''Host Back Online''
                     (name @ '' ('' @ ho_address h @ '') is reachable again.'') 3 ''resolved'' pair_key name) m
                   else m))"

definition vanish_key :: "int \<Rightarrow> host \<Rightarrow> string list \<Rightarrow> string \<Rightarrow> string \<times> string \<Rightarrow> mon \<Rightarrow> mon" where
  "vanish_key now h current scope kv m =
     (let key = fst kv; value = snd kv;
          pool_name = drop (length (ho_address h) + 1) key
      in if pool_name \<in> set current then m
         else state_delete scope key
           (if scope = ''pool_health'' \<and> upper_str value \<in> set BAD_HEALTH
            then send_notification (notif ''pool_error'' (''Pool '' @ pool_name @ '': removed while '' @ value)
              (''Pool '' @ sq @ pool_name @ sq @ '' on '' @ display_name h @ '' is no longer present; its last known state was ''
               @ value @ ''. Monitoring state cleared.'') 6 [] [] (ho_address h)) m
            else m))"

definition clear_vanished_pool_state :: "int \<Rightarrow> host \<Rightarrow> pool list \<Rightarrow> mon \<Rightarrow> mon" where
  "clear_vanished_pool_state now h pools m =
     (let current = filter (\<lambda>n. n \<noteq> []) (map pl_name pools)
      in fold (\<lambda>scope m. fold (vanish_key now h current scope) (state_keys scope (ho_address h @ '':'') m) m)
           [''pool_health'', ''capacity'', ''pool_errors'', ''pool_topology''] m)"

definition pool_key :: "host \<Rightarrow> string \<Rightarrow> string" where
  "pool_key h name = ho_address h @ '':'' @ name"

definition check_one_health :: "int \<Rightarrow> host \<Rightarrow> pool \<Rightarrow> mon \<Rightarrow> mon" where
  "check_one_health now h p m =
     (let scope = ''pool_health''; pool_name = pl_name p; health = upper_str (pl_health p);
          key = pool_key h pool_name; name = display_name h; pair_key = ''pool_error:'' @ pool_key h pool_name
      in if pool_name = [] \<or> health = [] then m
         else case fst (state_get scope key m) of
           None \<Rightarrow> state_set scope key health None now m
         | Some prev \<Rightarrow>
             if prev = health then m
             else state_set scope key health (Some now) now
               (if health \<in> set BAD_HEALTH
                then send_notification (notif ''pool_error'' (''Pool '' @ pool_name @ '': '' @ health)
                  (''Pool '' @ sq @ pool_name @ sq @ '' on '' @ name @ '' transitioned from '' @ prev @ '' to '' @ health
                   @ ''.'' @ [newline, newline] @ ''Run '' @ sq @ ''zpool status '' @ pool_name @ sq
                   @ '' on the host for details.'') 9 ''new'' pair_key name) m
                else if prev \<in> set BAD_HEALTH \<and> health = ''ONLINE''
                then send_notification (notif ''pool_error'' (''Pool '' @ pool_name @ '': Recovered'')
                  (''Pool '' @ sq @ pool_name @ sq @ '' on '' @ name @ '' recovered: '' @ prev @ '' -> '' @ health @ ''.'')
                  4 ''resolved'' pair_key name) m
                else m))"

definition check_pool_health :: "int \<Rightarrow> host \<Rightarrow> pool list \<Rightarrow> mon \<Rightarrow> mon" where
  "check_pool_health now h pools m = fold (check_one_health now h) pools m"

definition topology_marker :: "finding list \<Rightarrow> string" where
  "topology_marker fs = join '','' (sort (map (\<lambda>f. fi_tier f @ '':'' @ fi_vdev f) fs))"

text \<open>A pool and the text of its status; an entry without a text is passed over.\<close>

definition check_one_topology :: "int \<Rightarrow> host \<Rightarrow> string \<times> string option \<Rightarrow> mon \<Rightarrow> mon" where
  "check_one_topology now h ps m =
     (let scope = ''pool_topology''; pool_name = fst ps
      in case snd ps of
           None \<Rightarrow> m
         | Some status \<Rightarrow>
             if status = [] then m
             else
               let findings = filter (\<lambda>f. fi_severity f = ''crit'' \<and> fi_pool f = pool_name)
                     (redundancy_findings (parse_topology status));
                   marker = topology_marker findings; key = pool_key h pool_name;
                   prev = fst (state_get scope key m)
               in if prev = Some marker then m
                  else
                    let m' = state_set scope key marker (Some now) now m
                    in if marker = [] \<or> prev = None then m'
                       else let vdevs = join '', '' (map fi_vdev findings)
                         in send_notification (notif ''health_warning'' (''Pool '' @ pool_name @ '': no redundancy on '' @ vdevs)
                           (''Pool '' @ sq @ pool_name @ sq @ '' on '' @ display_name h @ '' now has a vdev without redundancy: ''
                            @ vdevs @ ''.'' @ [newline, newline]
                            @ ''These hold data the rest of the pool cannot be read without -- losing one of these devices loses the entire pool, and it will report ONLINE until it does.'')
                           8 [] [] (ho_address h)) m')"

definition check_pool_topology :: "int \<Rightarrow> host \<Rightarrow> (string \<times> string option) list \<Rightarrow> mon \<Rightarrow> mon" where
  "check_pool_topology now h pools_status m = fold (check_one_topology now h) pools_status m"

definition check_one_capacity :: "int \<Rightarrow> int \<times> int \<Rightarrow> host \<Rightarrow> pool \<Rightarrow> mon \<Rightarrow> mon" where
  "check_one_capacity now th h p m =
     (let scope = ''capacity''; (warn_pct, crit_pct) = th; pool_name = pl_name p
      in if pool_name = [] \<or> pl_cap p = [] then m
         else case py_int (rstrip_chars ''%'' (pl_cap p)) of
           None \<Rightarrow> m
         | Some cap \<Rightarrow>
             let key = pool_key h pool_name; (prev, last_alert) = state_get scope key m;
                 level = capacity_level cap warn_pct crit_pct; crit = (level = ''crit'')
             in if should_alert_capacity prev level \<and> cooldown_ok last_alert CAPACITY_ALERT_COOLDOWN now
                then state_set scope key level (Some now) now
                  (send_notification (notif ''health_warning''
                     (''Capacity '' @ (if crit then ''Critical'' else ''Warning'') @ '': '' @ pool_name)
                     (''Pool '' @ sq @ pool_name @ sq @ '' on '' @ display_name h @ '' is at '' @ show_int cap @ ''% (threshold ''
                      @ show_int (if crit then crit_pct else warn_pct) @ ''%).'' @ [newline, newline]
                      @ ''Snapshots often account for the difference between used data and pool usage -- check the snapshot list if this is unexpected.'')
                     (if crit then 9 else 7) [] [] (ho_address h)) m)
                else state_set scope key level None now m)"

definition check_capacity :: "int \<Rightarrow> int \<times> int \<Rightarrow> host \<Rightarrow> pool list \<Rightarrow> mon \<Rightarrow> mon" where
  "check_capacity now th h pools m = fold (check_one_capacity now th h) pools m"

text \<open>The read, write and checksum totals of a pool.\<close>

definition check_one_errors :: "int \<Rightarrow> host \<Rightarrow> string \<times> int \<times> int \<times> int \<Rightarrow> mon \<Rightarrow> mon" where
  "check_one_errors now h ps m =
     (case ps of (pool_name, r, w, c) \<Rightarrow>
        let scope = ''pool_errors''; total = r + w + c; key = pool_key h pool_name;
            (prev, last_alert) = state_get scope key m;
            prev_n = (case prev of None \<Rightarrow> 0
              | Some s \<Rightarrow> if is_digit_str s then (case py_int s of Some i \<Rightarrow> i | None \<Rightarrow> 0) else 0)
        in if total = prev_n then m
           else if total > prev_n \<and> total > 0 \<and> cooldown_ok last_alert ERROR_ALERT_COOLDOWN now
           then state_set scope key (show_int total) (Some now) now
             (send_notification (notif ''health_warning'' (''I/O Errors: '' @ pool_name)
                (''Pool '' @ sq @ pool_name @ sq @ '' on '' @ display_name h @ '' reports read='' @ show_int r @ '' write=''
                 @ show_int w @ '' cksum='' @ show_int c @ ''.'') 8 [] [] (ho_address h)) m)
           else state_set scope key (show_int total) None now m)"

definition check_pool_errors :: "int \<Rightarrow> host \<Rightarrow> (string \<times> int \<times> int \<times> int) list \<Rightarrow> mon \<Rightarrow> mon" where
  "check_pool_errors now h pools_status m = fold (check_one_errors now h) pools_status m"

section \<open>The store\<close>

text \<open>The three functions over the table satisfy the store interface, for one row per key.\<close>

definition row_put :: "string \<times> string \<Rightarrow> string \<times> int option \<Rightarrow> mon \<Rightarrow> mon" where
  "row_put k v m = m\<lparr>mo_db := dset k \<lparr>sw_value = fst v, sw_alert = snd v, sw_updated = 0\<rparr> (mo_db m)\<rparr>"

definition row_get :: "mon \<Rightarrow> string \<times> string \<Rightarrow> (string \<times> int option) option" where
  "row_get m k = map_option (\<lambda>r. (sw_value r, sw_alert r)) (dget (mo_db m) k)"

definition mon_ok :: "mon \<Rightarrow> bool" where
  "mon_ok m = dinv (mo_db m)"

interpretation monitor_store: kv_store row_get row_put "\<lambda>k. state_delete (fst k) (snd k)" mon_ok
  by unfold_locales (auto simp: row_get_def row_put_def state_delete_def mon_ok_def)

lemma state_get_row: "state_get scope key m = (case row_get m (scope, key) of
    None \<Rightarrow> (None, None) | Some (v, a) \<Rightarrow> (Some v, a))"
  by (auto simp: state_get_def row_get_def split: option.splits)

lemma row_get_state_set [simp]:
  "row_get (state_set scope key v a now m) k =
   (if k = (scope, key) then Some (v, case a of Some t \<Rightarrow> Some t | None \<Rightarrow> snd (state_get scope key m))
    else row_get m k)"
  by (auto simp: row_get_def state_set_def state_get_def Let_def split: option.splits)

lemma row_get_send [simp]: "row_get (send_notification n m) k = row_get m k"
  by (simp add: row_get_def send_notification_def)

lemma row_get_delete [simp]:
  "row_get (state_delete scope key m) k = (if k = (scope, key) then None else row_get m k)"
  by (simp add: row_get_def state_delete_def)

lemma sent_simps [simp]:
  "mo_sent (state_set scope key v a now m) = mo_sent m"
  "mo_sent (state_delete scope key m) = mo_sent m"
  "mo_sent (send_notification n m) = mo_sent m @ [n]"
  by (simp_all add: state_set_def state_delete_def send_notification_def Let_def)


section \<open>Offline and back online\<close>

text \<open>A sequence of probes of one host, each with its time and its outcome.\<close>

definition probes :: "host \<Rightarrow> (int \<times> bool) list \<Rightarrow> mon \<Rightarrow> mon" where
  "probes h ps m = fold (\<lambda>(t, r). check_host_reachability t h r) ps m"

text \<open>Offline and online messages in turn, an offline message first.\<close>

fun alternates :: "bool \<Rightarrow> string list \<Rightarrow> bool" where
  "alternates down [] = True"
| "alternates False (s # ss) = (s = ''new'' \<and> alternates True ss)"
| "alternates True (s # ss) = (s = ''resolved'' \<and> alternates False ss)"

fun open_after :: "bool \<Rightarrow> string list \<Rightarrow> bool" where
  "open_after down [] = down"
| "open_after down (s # ss) = open_after (s = ''new'') ss"

lemma alternates_snoc:
  "alternates d (ss @ [s]) \<longleftrightarrow> alternates d ss \<and> s = (if open_after d ss then ''resolved'' else ''new'')"
proof (induction ss arbitrary: d)
  case Nil
  then show ?case by (cases d) auto
next
  case (Cons a ss)
  then show ?case by (cases d) auto
qed

lemma open_after_snoc: "open_after d (ss @ [s]) = (s = ''new'')"
  by (induction ss arbitrary: d) auto

text \<open>The state agrees with what was announced: up after nothing or a recovery, down and marked with
  an alert time after an announced outage.\<close>

definition reach_inv :: "string \<Rightarrow> mon \<Rightarrow> bool" where
  "reach_inv addr m = (alternates False (map nt_state (mo_sent m)) \<and>
     open_after False (map nt_state (mo_sent m)) =
       (\<exists>t. row_get m (''host'', addr) = Some (''down'', Some t) \<and> t \<noteq> 0) \<and>
     (case row_get m (''host'', addr) of None \<Rightarrow> True | Some (v, a) \<Rightarrow> v \<in> {''up'', ''down''}))"

lemma reach_step:
  assumes "\<not> ho_standby h" "0 < t" "reach_inv (ho_address h) m"
  shows "reach_inv (ho_address h) (check_host_reachability t h r m)"
proof (cases "row_get m (''host'', ho_address h)")
  case None
  with assms show ?thesis
    by (auto simp: reach_inv_def check_host_reachability_def state_get_row)
next
  case (Some va)
  obtain v a where va: "va = (v, a)" by (cases va)
  with Some assms(3) consider "v = ''up''" | "v = ''down''" by (auto simp: reach_inv_def)
  then show ?thesis
  proof cases
    case 1
    with Some va assms show ?thesis
      by (cases r) (auto simp: reach_inv_def check_host_reachability_def state_get_row Let_def
          alternates_snoc open_after_snoc notif_def)
  next
    case 2
    with Some va assms show ?thesis
      by (cases r) (auto simp: reach_inv_def check_host_reachability_def state_get_row Let_def
          alternates_snoc open_after_snoc notif_def)
  qed
qed

text \<open>C5: However the probes of a host that is not on standby turn out, "Host Offline" and "Host Back
  Online" are sent in turn, beginning with the outage; and exactly while an outage has been
  announced and not resolved, the table holds the host as down with the time of the alert.\<close>

theorem reachability_messages_alternate:
  assumes "\<not> ho_standby h" and "\<forall>p \<in> set ps. 0 < fst p"
    and "row_get m (''host'', ho_address h) = None" and "mo_sent m = []"
  shows "alternates False (map nt_state (mo_sent (probes h ps m))) \<and>
    open_after False (map nt_state (mo_sent (probes h ps m))) =
      (\<exists>t. row_get (probes h ps m) (''host'', ho_address h) = Some (''down'', Some t) \<and> t \<noteq> 0)"
proof -
  have "reach_inv (ho_address h) m" using assms(3,4) by (simp add: reach_inv_def)
  moreover have "reach_inv (ho_address h) (check_host_reachability (fst p) h (snd p) m)"
    if "p \<in> set ps" "reach_inv (ho_address h) m" for p m
    using reach_step [OF assms(1) _ that(2)] assms(2) that(1) by blast
  ultimately have "reach_inv (ho_address h) (probes h ps m)"
    unfolding probes_def case_prod_beta by (rule fold_inv)
  then show ?thesis by (simp add: reach_inv_def)
qed

definition ex_host :: host where
  "ex_host = plain_host ''pve1'' ''10.0.0.1''"

definition ex_mon :: mon where
  "ex_mon = \<lparr>mo_db = [], mo_sent = []\<rparr>"

theorem reachability_messages_alternate_witness:
  "alternates False (map nt_state (mo_sent (probes ex_host [(1, True), (2, False), (3, True)] ex_mon))) \<and>
   length (mo_sent (probes ex_host [(1, True), (2, False), (3, True)] ex_mon)) = 2"
proof
  show "alternates False (map nt_state (mo_sent (probes ex_host [(1, True), (2, False), (3, True)] ex_mon)))"
    by (rule conjunct1 [OF reachability_messages_alternate])
      (simp_all add: ex_host_def plain_host_def ex_mon_def row_get_def)
qed code_simp

text \<open>With standby switched on and off in between, a recovery can be announced for an outage that
  was not: the alert time of an earlier outage survives the changes made on standby.\<close>

theorem back_online_for_unannounced_outage:
  "let on = (\<lambda>t r. check_host_reachability t (ex_host\<lparr>ho_standby := True\<rparr>) r);
       off = (\<lambda>t r. check_host_reachability t ex_host r);
       m1 = on 40 False (on 30 True (off 20 False (off 10 True ex_mon)))
   in map nt_title (mo_sent m1) = [''Host Offline''] \<and>
      map nt_title (mo_sent (off 50 True m1)) = [''Host Offline'', ''Host Back Online'']"
  by code_simp

section \<open>Capacity\<close>

lemma capacity_thresholds_sane:
  "capacity_thresholds th = (w, c) \<Longrightarrow> 1 \<le> w \<and> w \<le> c \<and> c \<le> 100"
  by (auto simp: capacity_thresholds_def Let_def split: prod.splits if_splits option.splits)

definition pool_level :: "int \<times> int \<Rightarrow> pool \<Rightarrow> string option" where
  "pool_level th p = (if pl_name p = [] \<or> pl_cap p = [] then None
     else map_option (\<lambda>cap. capacity_level cap (fst th) (snd th)) (py_int (rstrip_chars ''%'' (pl_cap p))))"

lemma pool_level_Some: "pool_level th p = Some l \<Longrightarrow> \<exists>cap. pl_name p \<noteq> [] \<and> pl_cap p \<noteq> [] \<and>
    py_int (rstrip_chars ''%'' (pl_cap p)) = Some cap \<and> l = capacity_level cap (fst th) (snd th)"
  by (auto simp: pool_level_def split: if_splits)

lemma capacity_quiet:
  assumes "pool_level th p = Some l" "row_get m (''capacity'', pool_key h (pl_name p)) = Some (v, a)"
    "\<not> (should_alert_capacity (Some v) l \<and> cooldown_ok a CAPACITY_ALERT_COOLDOWN t)"
  shows "check_one_capacity t th h p m = state_set ''capacity'' (pool_key h (pl_name p)) l None t m"
proof -
  from pool_level_Some [OF assms(1)] obtain cap where c: "pl_name p \<noteq> []" "pl_cap p \<noteq> []"
    "py_int (rstrip_chars ''%'' (pl_cap p)) = Some cap" "l = capacity_level cap (fst th) (snd th)" by blast
  show ?thesis using c assms(2,3) by (cases th) (auto simp: check_one_capacity_def state_get_row)
qed

lemma capacity_first:
  assumes "pool_level th p = Some l" "l \<noteq> ''below''" "row_get m (''capacity'', pool_key h (pl_name p)) = None"
  shows "\<exists>n. check_one_capacity t th h p m = state_set ''capacity'' (pool_key h (pl_name p)) l (Some t) t (send_notification n m)"
proof -
  from pool_level_Some [OF assms(1)] obtain cap where c: "pl_name p \<noteq> []" "pl_cap p \<noteq> []"
    "py_int (rstrip_chars ''%'' (pl_cap p)) = Some cap" "l = capacity_level cap (fst th) (snd th)" by blast
  show ?thesis using c assms(2,3)
    by (cases th) (auto simp: check_one_capacity_def state_get_row should_alert_capacity_def cooldown_ok_def Let_def)
qed

lemma capacity_crit_stays:
  assumes "pool_level th p = Some ''crit''" "row_get m (''capacity'', pool_key h (pl_name p)) = Some (''crit'', a)"
  shows "mo_sent (check_one_capacity t th h p m) = mo_sent m \<and>
    (\<exists>a'. row_get (check_one_capacity t th h p m) (''capacity'', pool_key h (pl_name p)) = Some (''crit'', a'))"
  using capacity_quiet [OF assms, of t] by (simp add: should_alert_capacity_def LEVEL_ORDER_def dget_def)

text \<open>A pool that is first seen at the warning level and reaches the critical level within the
  cooldown of twelve hours is never announced as critical, however many rounds follow: the new
  level is recorded although its message was suppressed, and afterwards it is no rise any more.\<close>

theorem capacity_escalation_lost:
  assumes "pool_level th p = Some ''warn''" and "pool_level th q = Some ''crit''" and "pl_name q = pl_name p"
    and "row_get m (''capacity'', pool_key h (pl_name p)) = None" and "0 < t" and "u < t + 12 * 3600"
  shows "let m1 = check_one_capacity t th h p m in
    length (mo_sent m1) = length (mo_sent m) + 1 \<and>
    mo_sent (fold (\<lambda>t. check_one_capacity t th h q) (u # us) m1) = mo_sent m1"
proof -
  from capacity_first [OF assms(1) _ assms(4), of t] obtain n where
    m1: "check_one_capacity t th h p m = state_set ''capacity'' (pool_key h (pl_name p)) ''warn'' (Some t) t (send_notification n m)"
    by auto
  let ?m1 = "check_one_capacity t th h p m" and ?k = "(''capacity'', pool_key h (pl_name q))"
  have r1: "row_get ?m1 ?k = Some (''warn'', Some t)" unfolding m1 assms(3) by simp
  have "\<not> cooldown_ok (Some t) CAPACITY_ALERT_COOLDOWN u"
    using assms(5,6) by (simp add: cooldown_ok_def CAPACITY_ALERT_COOLDOWN_def)
  with capacity_quiet [OF assms(2) r1, of u]
  have m2: "check_one_capacity u th h q ?m1 = state_set ''capacity'' (pool_key h (pl_name q)) ''crit'' None u ?m1" by simp
  let ?m2 = "check_one_capacity u th h q ?m1"
  have stay: "mo_sent (fold (\<lambda>t. check_one_capacity t th h q) us x) = mo_sent x"
    if "row_get x ?k = Some (''crit'', a)" for x a using that
  proof (induction us arbitrary: x a)
    case (Cons v us)
    from capacity_crit_stays [OF assms(2) Cons.prems, of v] Cons.IH show ?case by fastforce
  qed simp
  have "row_get ?m2 ?k = Some (''crit'', Some t)" using r1 unfolding m2 by (simp add: state_get_row)
  from stay [OF this] have "mo_sent (fold (\<lambda>t. check_one_capacity t th h q) us ?m2) = mo_sent ?m1"
    unfolding m2 by simp
  then show ?thesis unfolding m1 Let_def by simp
qed

theorem capacity_escalation_lost_witness:
  "let p = \<lparr>pl_name = ''tank'', pl_health = ''ONLINE'', pl_cap = ''75%''\<rparr>; q = p\<lparr>pl_cap := ''99%''\<rparr>;
       m1 = check_one_capacity 100 (70, 80) ex_host p ex_mon
   in length (mo_sent m1) = length (mo_sent ex_mon) + 1 \<and>
      mo_sent (fold (\<lambda>t. check_one_capacity t (70, 80) ex_host q) (200 # [90000, 180000]) m1) = mo_sent m1"
  unfolding Let_def
  by (rule capacity_escalation_lost [unfolded Let_def]) (code_simp | simp)+

section \<open>Pool health\<close>

lemma health_quiet:
  "row_get m (''pool_health'', pool_key h (pl_name p)) = Some (upper_str (pl_health p), a) \<Longrightarrow>
   check_one_health t h p m = m"
  by (auto simp: check_one_health_def state_get_row Let_def)

lemma health_recorded:
  "pl_name p \<noteq> [] \<Longrightarrow> upper_str (pl_health p) \<noteq> [] \<Longrightarrow>
   \<exists>a. row_get (check_one_health t h p m) (''pool_health'', pool_key h (pl_name p)) = Some (upper_str (pl_health p), a)"
  by (auto simp: check_one_health_def state_get_row Let_def split: option.splits)

lemma health_other:
  "pl_name p \<noteq> n \<Longrightarrow> row_get (check_one_health t h p m) (''pool_health'', pool_key h n) = row_get m (''pool_health'', pool_key h n)"
  by (auto simp: check_one_health_def state_get_row Let_def pool_key_def split: option.splits)

lemma health_round:
  "distinct (map pl_name pools) \<Longrightarrow> p \<in> set pools \<Longrightarrow> pl_name p \<noteq> [] \<Longrightarrow> upper_str (pl_health p) \<noteq> [] \<Longrightarrow>
   \<exists>a. row_get (check_pool_health t h pools m) (''pool_health'', pool_key h (pl_name p)) = Some (upper_str (pl_health p), a)"
  unfolding check_pool_health_def
proof (induction pools arbitrary: m)
  case (Cons q pools)
  show ?case
  proof (cases "p = q")
    case True
    obtain a where a: "row_get (check_one_health t h p m) (''pool_health'', pool_key h (pl_name p)) = Some (upper_str (pl_health p), a)"
      using health_recorded Cons.prems(3,4) by blast
    have "row_get (fold (check_one_health t h) pools x) (''pool_health'', pool_key h (pl_name p)) =
        row_get x (''pool_health'', pool_key h (pl_name p))" if "pl_name p \<notin> pl_name ` set pools" for x
      using that by (induction pools arbitrary: x) (auto simp: health_other)
    with a True Cons.prems(1) show ?thesis by auto
  next
    case False
    with Cons show ?thesis by auto
  qed
qed simp

text \<open>A pool listing that has not changed sends nothing: the round after a round with the same
  listing neither changes the table nor sends a message, whatever the table held before.\<close>

theorem pool_health_settles:
  assumes "distinct (map pl_name pools)"
  shows "check_pool_health t2 h pools (check_pool_health t1 h pools m) = check_pool_health t1 h pools m"
proof -
  let ?m = "check_pool_health t1 h pools m"
  have quiet: "check_one_health t2 h p ?m = ?m" if "p \<in> set pools" for p
  proof (cases "pl_name p = [] \<or> upper_str (pl_health p) = []")
    case False
    with health_round [OF assms that, of t1 h m] show ?thesis by (auto intro: health_quiet)
  qed (auto simp: check_one_health_def Let_def)
  have "fold (check_one_health t2 h) ps ?m = ?m" if "set ps \<subseteq> set pools" for ps
    using that by (induction ps) (auto simp: quiet)
  then show ?thesis unfolding check_pool_health_def [of t2] by blast
qed

theorem pool_health_settles_witness:
  "let pools = [\<lparr>pl_name = ''tank'', pl_health = ''degraded'', pl_cap = ''5%''\<rparr>, \<lparr>pl_name = ''rpool'', pl_health = ''ONLINE'', pl_cap = ''5%''\<rparr>]
   in check_pool_health 20 ex_host pools (check_pool_health 10 ex_host pools ex_mon) = check_pool_health 10 ex_host pools ex_mon"
  unfolding Let_def by (rule pool_health_settles) code_simp

section \<open>Removing the state of a host\<close>

lemma like_percent: "sql_like esc ''%'' s \<longleftrightarrow> True" if "esc \<noteq> Some CHR ''%''"
  using that by (induction s) auto

definition ci_prefix :: "string \<Rightarrow> string \<Rightarrow> bool" where
  "ci_prefix p s = (\<exists>a b. s = a @ b \<and> map ascii_fold a = map ascii_fold p)"

lemma ci_prefix_simps [simp]:
  "ci_prefix [] s" "ci_prefix (c # p) [] = False"
  "ci_prefix (c # p) (d # s) \<longleftrightarrow> ascii_fold c = ascii_fold d \<and> ci_prefix p s"
proof -
  show "ci_prefix [] s" by (simp add: ci_prefix_def)
  show "ci_prefix (c # p) [] = False" by (simp add: ci_prefix_def)
  show "ci_prefix (c # p) (d # s) \<longleftrightarrow> ascii_fold c = ascii_fold d \<and> ci_prefix p s"
  proof
    assume "ci_prefix (c # p) (d # s)"
    then obtain a b where ab: "d # s = a @ b" "map ascii_fold a = map ascii_fold (c # p)"
      unfolding ci_prefix_def by blast
    then obtain a' where "a = d # a'" by (cases a) auto
    with ab show "ascii_fold c = ascii_fold d \<and> ci_prefix p s" by (auto simp: ci_prefix_def)
  next
    assume "ascii_fold c = ascii_fold d \<and> ci_prefix p s"
    then obtain a b where "s = a @ b" "map ascii_fold a = map ascii_fold p" "ascii_fold c = ascii_fold d"
      by (auto simp: ci_prefix_def)
    then show "ci_prefix (c # p) (d # s)" unfolding ci_prefix_def
      by (intro exI [of _ "d # a"] exI [of _ b]) simp
  qed
qed

lemma like_escaped: "sql_like (Some (CHR 0x5C)) (like_escape p @ '':%'') s \<longleftrightarrow> ci_prefix (p @ '':'') s"
proof (induction p arbitrary: s)
  case Nil
  show ?case by (cases s)
    (simp_all add: like_escape_def sql_like.simps(2) [of _ "CHR '':''"] like_percent del: sql_like.simps)
next
  case (Cons c p)
  show ?case
  proof (cases "c = CHR 0x5C \<or> c = CHR ''%'' \<or> c = CHR ''_''")
    case True
    then have "like_escape (c # p) = CHR 0x5C # c # like_escape p" by (auto simp: like_escape_def)
    then show ?thesis using Cons.IH by (cases s) auto
  next
    case False
    then have "like_escape (c # p) = c # like_escape p" by (auto simp: like_escape_def)
    with False Cons.IH show ?thesis by (cases s) auto
  qed
qed

lemma dget_filter_not: "dget (filter (\<lambda>x. \<not> P (fst x)) d) k = (if P k then None else dget d k)"
  by (induction d) (auto simp: dget_def)

text \<open>Removing a host deletes exactly its reachability row and the rows whose key begins with the
  address and a colon (without regard to the case of ASCII letters); no character of the address
  acts as a wildcard.\<close>

theorem clear_host_state_exact:
  "dget (mo_db (fst (clear_host_state a m))) (sc, k) =
     (if (sc = ''host'' \<and> k = a) \<or> ci_prefix (a @ '':'') k then None else dget (mo_db m) (sc, k))"
proof -
  let ?P = "\<lambda>sk. (fst sk = ''host'' \<and> snd sk = a) \<or> ci_prefix (a @ '':'') (snd sk)"
  have "mo_db (fst (clear_host_state a m)) = filter (\<lambda>x. \<not> ?P (fst x)) (mo_db m)"
    unfolding clear_host_state_def Let_def like_escaped by (auto simp: case_prod_beta intro: filter_cong)
  then show ?thesis using dget_filter_not [of ?P "mo_db m" "(sc, k)"] by simp
qed

text \<open>The cleanup of vanished pools looks its keys up without escaping the address, so an
  underscore in one address matches another host's key: cleaning up after host pve_1, which has no
  pools, announces a pool of host pve-1 as removed and deletes its row.\<close>

theorem vanished_pool_of_other_host:
  "let m = check_pool_health 10 (plain_host ''other'' ''pve-1'') [\<lparr>pl_name = ''tank'', pl_health = ''FAULTED'', pl_cap = []\<rparr>] ex_mon;
       m' = clear_vanished_pool_state 20 (plain_host ''this'' ''pve_1'') [] m
   in row_get m (''pool_health'', ''pve-1:tank'') = Some (''FAULTED'', None) \<and>
      row_get m' (''pool_health'', ''pve-1:tank'') = None \<and>
      map nt_title (mo_sent m') = [''Pool tank: removed while FAULTED'']"
  by code_simp

end
