(* ===== verification/GuestIntent.thy ===== *)
theory GuestIntent
  imports Backups
begin

text \<open>
  \<open>app/guest_intent.py\<close>: guests left without a backup or a replica on purpose, declared by a tag in
  PVE and explained by a note in \<open>guest_exceptions.json\<close>. The file is a dictionary of notes keyed
  by host and vmid; \<open>run\<close> is \<open>run_command\<close>. \<open>set_exception\<close> returns its answer, the new file and whether
  it dropped the host's cache entries.
\<close>

definition TAG_NO_BACKUP :: string where "TAG_NO_BACKUP = ''no-backup''"
definition TAG_NO_REPLICATION :: string where "TAG_NO_REPLICATION = ''no-replication''"
definition KIND_BACKUP :: string where "KIND_BACKUP = ''backup''"
definition KIND_REPLICATION :: string where "KIND_REPLICATION = ''replication''"
definition KINDS :: "string list" where "KINDS = [KIND_BACKUP, KIND_REPLICATION]"

definition PVE_TAG_RE :: re where
  "PVE_TAG_RE = whitelist (\<lambda>c. is_alnum c \<or> c = CHR ''_'') (\<lambda>c. is_alnum c \<or> one_of ''_-+.'' c)"

definition valid_pve_tag :: "string option \<Rightarrow> string option" where
  "valid_pve_tag tag = (let t = strip (case tag of None \<Rightarrow> [] | Some t \<Rightarrow> t)
     in if t \<noteq> [] \<and> re_test PVE_TAG_RE t then Some t else None)"

text \<open>\<open>cfg\<close> is the section \<open>exception_tags\<close> of the configuration.\<close>

definition tag_names :: "(string, string) dict \<Rightarrow> (string, string) dict" where
  "tag_names cfg =
     [(KIND_BACKUP, case valid_pve_tag (dget cfg KIND_BACKUP) of Some t \<Rightarrow> t | None \<Rightarrow> TAG_NO_BACKUP),
      (KIND_REPLICATION, case valid_pve_tag (dget cfg KIND_REPLICATION) of Some t \<Rightarrow> t | None \<Rightarrow> TAG_NO_REPLICATION)]"

section \<open>Parsing\<close>

definition split_tags :: "string \<Rightarrow> string list" where
  "split_tags s = filter (\<lambda>t. t \<noteq> []) (map strip (split_on (\<lambda>c. c = CHR '';'' \<or> c = CHR '','') s))"

definition CONF_RE :: re where
  "CONF_RE = seqs [chr CHR ''/'', Grp 1 (plus (Ch is_digit)), lit ''.conf'', Eol]"

definition parse_tag_line :: "string \<Rightarrow> (string \<times> string list) option" where
  "parse_tag_line line =
     (case split_once tab line of
        None \<Rightarrow> None
      | Some (path, rest0) \<Rightarrow>
          (let rest = strip rest0
           in if \<not> starts_with ''tags:'' rest then None
              else case re_search CONF_RE (strip path) of
                     None \<Rightarrow> None
                   | Some m \<Rightarrow> Some (group_str 1 m, split_tags (drop 5 rest))))"

definition parse_tag_lines :: "string \<Rightarrow> (string, string list) dict" where
  "parse_tag_lines stdout = fold (\<lambda>(vmid, tags). dset vmid tags) (List.map_filter parse_tag_line (splitlines stdout)) []"

definition flags_of :: "(string, string) dict \<Rightarrow> string list \<Rightarrow> bool \<times> bool" where
  "flags_of names tags =
     (let lowered = set (map lower_str tags)
      in (lower_str (dget_or [] names KIND_BACKUP) \<in> lowered,
          lower_str (dget_or [] names KIND_REPLICATION) \<in> lowered))"

definition exceptions_from_tags ::
  "(string, string list) dict \<Rightarrow> (string, string) dict \<Rightarrow> (string, bool \<times> bool) dict" where
  "exceptions_from_tags tags_by_vmid names =
     fold (\<lambda>(vmid, tags) out. let (b, r) = flags_of names tags
             in if b \<or> r then dset vmid (b, r) out else out) tags_by_vmid []"

definition apply_tag :: "string list \<Rightarrow> string \<Rightarrow> bool \<Rightarrow> string list" where
  "apply_tag current tag enable =
     (let tag_l = lower_str (strip tag);
          kept = filter (\<lambda>t. strip t \<noteq> [] \<and> lower_str (strip t) \<noteq> tag_l) current
      in if enable then kept @ [tag] else kept)"

fun current_tags_loop :: "string list \<Rightarrow> string list" where
  "current_tags_loop [] = []"
| "current_tags_loop (line # ls) =
     (if starts_with ''['' line then []
      else if starts_with ''tags:'' line then split_tags (drop 5 line)
      else current_tags_loop ls)"

definition parse_current_tags :: "string \<Rightarrow> string list" where
  "parse_current_tags stdout = current_tags_loop (splitlines stdout)"

section \<open>Reasons\<close>

record reason_note =
  rn_kinds :: "string list"
  rn_reason :: string
  rn_by :: string
  rn_at :: int

type_synonym reasons_file = "(string, reason_note) dict"

definition reason_key :: "string \<Rightarrow> string \<Rightarrow> string" where
  "reason_key host vmid = host @ ''/'' @ vmid"

definition load_reasons :: "reasons_file \<Rightarrow> string \<Rightarrow> (string, reason_note) dict" where
  "load_reasons f host =
     (let prefix = host @ ''/''
      in List.map_filter (\<lambda>(k, v). if starts_with prefix k then Some (drop (length prefix) k, v) else None) f)"

definition save_reason ::
  "reasons_file \<Rightarrow> int \<Rightarrow> string \<Rightarrow> string \<Rightarrow> string list \<Rightarrow> string \<Rightarrow> string \<Rightarrow> reasons_file \<times> reason_note" where
  "save_reason f now host vmid kinds reason by_whom =
     (let note_rec = \<lparr>rn_kinds = sorted_set (filter (\<lambda>k. k \<in> set KINDS) kinds),
            rn_reason = take 500 (strip reason), rn_by = take 100 (strip by_whom), rn_at = now\<rparr>
      in (if rn_kinds note_rec \<noteq> [] then dset (reason_key host vmid) note_rec f
          else dpop (reason_key host vmid) f, note_rec))"

definition drop_reason :: "reasons_file \<Rightarrow> string \<Rightarrow> string \<Rightarrow> reasons_file \<times> bool" where
  "drop_reason f host vmid =
     (let existed = dhas f (reason_key host vmid)
      in (if existed then dpop (reason_key host vmid) f else f, existed))"

section \<open>Collection and writing\<close>

definition READ_TAGS_CMD :: string where
  "READ_TAGS_CMD = join [newline] [[],
     ''for f in /etc/pve/qemu-server/*.conf /etc/pve/lxc/*.conf; do'',
     ''  [ -e '' @ [CHR 0x22] @ ''$f'' @ [CHR 0x22] @ '' ] || continue'',
     ''  awk '' @ sq @ ''/^'' @ [CHR 0x5C] @ ''[/{exit} /^tags:/{print FILENAME'' @ [CHR 0x22, CHR 0x5C] @ ''t''
       @ [CHR 0x22] @ ''$0}'' @ sq @ '' '' @ [CHR 0x22] @ ''$f'' @ [CHR 0x22],
     ''done 2>/dev/null'', []]"

record collected =
  ce_exceptions :: "(string, guest_exception) dict"
  ce_readable :: bool
  ce_error :: string

definition exception_record :: "bool \<times> bool \<Rightarrow> reason_note option \<Rightarrow> guest_exception" where
  "exception_record flags note_rec =
     \<lparr>ge_no_backup = fst flags, ge_no_replication = snd flags,
      ge_reason = (case note_rec of Some n \<Rightarrow> rn_reason n | None \<Rightarrow> []),
      ge_by = (case note_rec of Some n \<Rightarrow> rn_by n | None \<Rightarrow> []),
      ge_at = map_option rn_at note_rec,
      ge_documented = (case note_rec of Some n \<Rightarrow> rn_reason n \<noteq> [] | None \<Rightarrow> False)\<rparr>"

definition collect_exceptions :: "(host \<Rightarrow> string \<Rightarrow> cmd_result) \<Rightarrow> reasons_file \<Rightarrow> host \<Rightarrow> collected" where
  "collect_exceptions run f host =
     (let r = run host READ_TAGS_CMD
      in if \<not> cr_success r
         then \<lparr>ce_exceptions = [], ce_readable = False,
               ce_error = first_line ''could not read guest configs'' (cr_stderr r)\<rparr>
         else
           let declared = exceptions_from_tags (parse_tag_lines (cr_stdout r)) (tag_names []);
               reasons = load_reasons f (ho_address host)
           in \<lparr>ce_exceptions = map (\<lambda>(vmid, flags). (vmid, exception_record flags (dget reasons vmid))) declared,
               ce_readable = True, ce_error = []\<rparr>)"

definition guest_type :: "(host \<Rightarrow> string \<Rightarrow> cmd_result) \<Rightarrow> host \<Rightarrow> string \<Rightarrow> string" where
  "guest_type run host vmid =
     (let r = run host (''[ -e /etc/pve/qemu-server/'' @ shell_quote vmid @ ''.conf ] && echo qemu || { [ -e /etc/pve/lxc/''
            @ shell_quote vmid @ ''.conf ] && echo lxc; }'')
      in if cr_success r then strip (cr_stdout r) else [])"

definition read_guest_tags :: "(host \<Rightarrow> string \<Rightarrow> cmd_result) \<Rightarrow> host \<Rightarrow> string \<Rightarrow> string \<Rightarrow> string list option" where
  "read_guest_tags run host vmid gtype =
     (let sub = (if gtype = ''qemu'' then ''qemu-server'' else ''lxc'');
          r = run host (''cat /etc/pve/'' @ sub @ ''/'' @ shell_quote vmid @ ''.conf 2>/dev/null'')
      in if \<not> cr_success r then None else Some (parse_current_tags (cr_stdout r)))"

definition new_tags :: "string list \<Rightarrow> string list \<Rightarrow> string list" where
  "new_tags kinds cur = fold (\<lambda>(kind, tag) new. apply_tag new tag (kind \<in> set kinds)) (tag_names []) cur"

definition set_tags_cmd :: "string \<Rightarrow> string \<Rightarrow> string list \<Rightarrow> string" where
  "set_tags_cmd gtype vmid new = (if gtype = ''qemu'' then ''qm'' else ''pct'') @ '' set '' @ shell_quote vmid
     @ '' --tags '' @ shell_quote (join '';'' new)"

definition set_exception ::
  "(host \<Rightarrow> string \<Rightarrow> cmd_result) \<Rightarrow> int \<Rightarrow> reasons_file \<Rightarrow> host \<Rightarrow> string \<Rightarrow> string list \<Rightarrow> string \<Rightarrow> string \<Rightarrow>
   (string + string list \<times> string list) \<times> reasons_file \<times> bool" where
  "set_exception run now f host vmid kinds0 reason by_whom =
     (let vmid_s = strip vmid
      in if \<not> is_digit_str vmid_s then (Inl ''invalid vmid'', f, False)
         else
           let kinds = filter (\<lambda>k. k \<in> set KINDS) kinds0; gtype = guest_type run host vmid_s
           in if gtype = [] then (Inl (''guest '' @ vmid_s @ '' not found on this host''), f, False)
              else case read_guest_tags run host vmid_s gtype of
                None \<Rightarrow> (Inl (''could not read the guest'' @ sq @ ''s current tags''), f, False)
              | Some cur \<Rightarrow>
                  let new = new_tags kinds cur;
                      changed = (sort (map lower_str new) \<noteq> sort (map lower_str cur));
                      r = run host (set_tags_cmd gtype vmid_s new)
                  in if changed \<and> \<not> cr_success r
                     then (Inl (take 300 (strip (if cr_stderr r \<noteq> [] then cr_stderr r else ''tag update failed''))), f, False)
                     else (Inr (new, kinds),
                           (if kinds \<noteq> [] then fst (save_reason f now (ho_address host) vmid_s kinds reason by_whom)
                            else fst (drop_reason f (ho_address host) vmid_s)),
                           changed))"

section \<open>Tags\<close>

definition same_tag :: "string \<Rightarrow> string \<Rightarrow> bool" where
  "same_tag s t = (lower_str (strip s) = lower_str (strip t))"

lemma apply_tag_mem:
  "t \<in> set (apply_tag cur tag en) \<longleftrightarrow> (t \<in> set cur \<and> strip t \<noteq> [] \<and> \<not> same_tag t tag) \<or> (en \<and> t = tag)"
  by (auto simp: apply_tag_def same_tag_def Let_def)

text \<open>Setting or withdrawing a tag leaves every other tag in place and in order, removes every
  spelling of the tag itself, adds it at most once and at the end, and is idempotent.\<close>

theorem apply_tag_correct:
  assumes "strip tag \<noteq> []"
  shows "filter (\<lambda>t. \<not> same_tag t tag) (apply_tag cur tag en) = filter (\<lambda>t. strip t \<noteq> [] \<and> \<not> same_tag t tag) cur \<and>
    filter (\<lambda>t. same_tag t tag) (apply_tag cur tag en) = (if en then [tag] else []) \<and>
    apply_tag (apply_tag cur tag en) tag en = apply_tag cur tag en"
  using assms by (simp add: apply_tag_def same_tag_def Let_def conj_commute cong: conj_cong)

theorem apply_tag_correct_witness:
  "apply_tag (apply_tag [''prod'', ''No-Backup'', ''web''] ''no-backup'' True) ''no-backup'' True
     = apply_tag [''prod'', ''No-Backup'', ''web''] ''no-backup'' True \<and>
   apply_tag [''prod'', ''No-Backup'', ''web''] ''no-backup'' True = [''prod'', ''web'', ''no-backup'']"
proof
  have "strip ''no-backup'' \<noteq> []" by code_simp
  from apply_tag_correct [OF this]
  show "apply_tag (apply_tag [''prod'', ''No-Backup'', ''web''] ''no-backup'' True) ''no-backup'' True
     = apply_tag [''prod'', ''No-Backup'', ''web''] ''no-backup'' True" by blast
qed code_simp

lemma default_names: "tag_names [] = [(KIND_BACKUP, TAG_NO_BACKUP), (KIND_REPLICATION, TAG_NO_REPLICATION)]"
  by (simp add: tag_names_def valid_pve_tag_def strip_def rstrip_def lstrip_def)

lemma tags_stripped:
  "strip TAG_NO_BACKUP = TAG_NO_BACKUP" "strip TAG_NO_REPLICATION = TAG_NO_REPLICATION"
  "lower_str TAG_NO_BACKUP = TAG_NO_BACKUP" "lower_str TAG_NO_REPLICATION = TAG_NO_REPLICATION"
  "TAG_NO_BACKUP \<noteq> TAG_NO_REPLICATION" "TAG_NO_BACKUP \<noteq> []" "TAG_NO_REPLICATION \<noteq> []"
  "KIND_BACKUP \<noteq> KIND_REPLICATION"
  by code_simp+

lemma new_tags_eq:
  "new_tags kinds cur = apply_tag (apply_tag cur TAG_NO_BACKUP (KIND_BACKUP \<in> set kinds))
     TAG_NO_REPLICATION (KIND_REPLICATION \<in> set kinds)"
  by (simp add: new_tags_def default_names)

text \<open>The tags written for a guest declare exactly the exceptions that were asked for: reading
  them back gives \<open>no_backup\<close> if and only if the backup kind was chosen, and likewise for
  replication, whatever tags the guest had before, in any spelling.\<close>

theorem new_tags_declare:
  assumes "list_all (\<lambda>t. strip t = t) cur"
  shows "flags_of (tag_names []) (new_tags kinds cur) = (KIND_BACKUP \<in> set kinds, KIND_REPLICATION \<in> set kinds)"
proof -
  have cur: "strip t = t" if "t \<in> set cur" for t using assms that by (simp add: list_all_iff)
  have b: "TAG_NO_BACKUP \<in> lower_str ` set (new_tags kinds cur) \<longleftrightarrow> KIND_BACKUP \<in> set kinds"
    unfolding new_tags_eq image_iff Bex_def apply_tag_mem same_tag_def
    using cur tags_stripped by metis
  have r: "TAG_NO_REPLICATION \<in> lower_str ` set (new_tags kinds cur) \<longleftrightarrow> KIND_REPLICATION \<in> set kinds"
    unfolding new_tags_eq image_iff Bex_def apply_tag_mem same_tag_def
    using cur tags_stripped by metis
  show ?thesis using b r
    by (simp add: flags_of_def Let_def default_names dget_or_def dget_def tags_stripped)
qed

theorem new_tags_declare_witness:
  "flags_of (tag_names []) (new_tags [KIND_REPLICATION] [''web'', ''NO-BACKUP'']) = (False, True)"
proof -
  have "list_all (\<lambda>t. strip t = t) [''web'', ''NO-BACKUP'']" by code_simp
  from new_tags_declare [OF this, of "[KIND_REPLICATION]"] tags_stripped(8) show ?thesis by simp
qed

section \<open>Notes\<close>

lemma load_reasons_get: "dget (load_reasons f host) vmid = dget f (reason_key host vmid)"
  unfolding load_reasons_def reason_key_def Let_def
  by (induction f) (auto simp: dget_def List.map_filter_simps starts_with_iff)

lemma save_reason_load:
  "rn_kinds (snd (save_reason f now host vmid kinds reason w)) \<noteq> [] \<Longrightarrow>
   dget (load_reasons (fst (save_reason f now host vmid kinds reason w)) host) v =
   (if v = vmid then Some (snd (save_reason f now host vmid kinds reason w)) else dget (load_reasons f host) v)"
  unfolding load_reasons_get by (auto simp: save_reason_def Let_def reason_key_def)

text \<open>The tag decides: a guest is an exception only if its tags say so, whatever notes are on
  file, and every exception that no note explains is marked as undocumented.\<close>

theorem exceptions_need_a_tag:
  assumes "dget (ce_exceptions (collect_exceptions run f host)) vmid = Some e"
  shows "\<exists>tags. (vmid, tags) \<in> set (parse_tag_lines (cr_stdout (run host READ_TAGS_CMD))) \<and>
      flags_of (tag_names []) tags = (ge_no_backup e, ge_no_replication e) \<and>
      (ge_no_backup e \<or> ge_no_replication e) \<and>
      (ge_documented e \<longrightarrow> (\<exists>n. dget f (reason_key (ho_address host) vmid) = Some n \<and> rn_reason n \<noteq> []))"
proof -
  let ?t = "parse_tag_lines (cr_stdout (run host READ_TAGS_CMD))"
  let ?s = "\<lambda>(vmid, tags) out. let (b, r) = flags_of (tag_names []) tags in if b \<or> r then dset vmid (b, r) out else out"
  have inv: "\<forall>v fl. dget (fold ?s ts []) v = Some fl \<longrightarrow>
      (\<exists>tags. (v, tags) \<in> set ?t \<and> flags_of (tag_names []) tags = fl \<and> (fst fl \<or> snd fl))"
    if "set ts \<subseteq> set ?t" for ts
    by (rule fold_inv) (use that in \<open>auto split: if_splits prod.splits\<close>)
  have "cr_success (run host READ_TAGS_CMD)"
    using assms by (auto simp: collect_exceptions_def Let_def split: if_splits)
  with assms obtain fl where fl: "dget (exceptions_from_tags ?t (tag_names [])) vmid = Some fl"
    "e = exception_record fl (dget (load_reasons f (ho_address host)) vmid)"
    by (auto simp: collect_exceptions_def Let_def dget_map_val)
  from inv [OF subset_refl] fl(1) obtain tags where "(vmid, tags) \<in> set ?t"
    "flags_of (tag_names []) tags = fl" "fst fl \<or> snd fl" unfolding exceptions_from_tags_def by blast
  then show ?thesis unfolding fl(2) load_reasons_get
    by (intro exI [of _ tags]) (auto simp: exception_record_def split: option.splits)
qed

theorem exceptions_need_a_tag_witness:
  "let run = (\<lambda>h c. cmd_ok (''/etc/pve/lxc/101.conf'' @ [tab] @ ''tags: web;no-backup''));
       h = plain_host ''a'' ''10.0.0.1''
   in \<exists>e tags. dget (ce_exceptions (collect_exceptions run [] h)) ''101'' = Some e \<and>
        flags_of (tag_names []) tags = (ge_no_backup e, ge_no_replication e) \<and> \<not> ge_documented e"
proof -
  let ?run = "\<lambda>h c. cmd_ok (''/etc/pve/lxc/101.conf'' @ [tab] @ ''tags: web;no-backup'')"
  let ?e = "dget (ce_exceptions (collect_exceptions ?run [] (plain_host ''a'' ''10.0.0.1''))) ''101''"
  have "?e \<noteq> None" by code_simp
  then have e: "?e = Some (the ?e)" by simp
  from exceptions_need_a_tag [OF e] obtain tags where
    "flags_of (tag_names []) tags = (ge_no_backup (the ?e), ge_no_replication (the ?e))"
    "ge_documented (the ?e) \<longrightarrow> (\<exists>n. dget ([] :: reasons_file) (reason_key (ho_address (plain_host ''a'' ''10.0.0.1'')) ''101'') = Some n \<and> rn_reason n \<noteq> [])"
    by blast
  then show ?thesis unfolding Let_def by (intro exI [of _ "the ?e"] exI [of _ tags] conjI e) simp_all
qed

end
