(* ===== verification/Base64.thy ===== *)
theory Base64
  imports PyVal
begin

text \<open>
  \<open>s.encode("utf-8")\<close> and \<open>base64.b64encode\<close>, with which the program carries file contents through a
  shell command line. Characters are Latin-1, so a character has one or two bytes.
\<close>

definition utf8 :: "string \<Rightarrow> int list" where
  "utf8 s = concat (map (\<lambda>c. let n = cc c in if n < 128 then [n] else [192 + n div 64, 128 + n mod 64]) s)"

definition b64_char :: "int \<Rightarrow> char" where
  "b64_char n = char_of (if n < 26 then 65 + n else if n < 52 then 71 + n else if n < 62 then n - 4
     else if n = 62 then 43 else 47)"

fun b64_bytes :: "int list \<Rightarrow> string" where
  "b64_bytes (a # b # c # bs) = [b64_char (a div 4), b64_char (a mod 4 * 16 + b div 16),
     b64_char (b mod 16 * 4 + c div 64), b64_char (c mod 64)] @ b64_bytes bs"
| "b64_bytes [a, b] = [b64_char (a div 4), b64_char (a mod 4 * 16 + b div 16), b64_char (b mod 16 * 4), CHR ''='']"
| "b64_bytes [a] = [b64_char (a div 4), b64_char (a mod 4 * 16), CHR ''='', CHR ''='']"
| "b64_bytes [] = []"

definition b64encode :: "string \<Rightarrow> string" where
  "b64encode s = b64_bytes (utf8 s)"

text \<open>The alphabet is safe for the shell.\<close>

lemma b64_char_cc: "0 \<le> n \<Longrightarrow> n < 64 \<Longrightarrow>
    cc (b64_char n) = (if n < 26 then 65 + n else if n < 52 then 71 + n else if n < 62 then n - 4
      else if n = 62 then 43 else 47)"
  by (simp add: b64_char_def)

lemma b64_char_safe:
  assumes "0 \<le> n" "n < 64"
  shows "quote_safe (b64_char n)"
proof -
  consider "n < 62" | "n = 62" | "n = 63" using assms by linarith
  then show ?thesis
  proof cases
    case 1
    then have "is_alnum (b64_char n)" using assms b64_char_cc [OF assms]
      by (auto simp: is_alnum_def is_upper_def is_lower_def is_digit_def)
    then show ?thesis by (simp add: quote_safe_def)
  next
    case 2
    have "quote_safe (b64_char 62)" by code_simp
    with 2 show ?thesis by simp
  next
    case 3
    have "quote_safe (b64_char 63)" by code_simp
    with 3 show ?thesis by simp
  qed
qed

lemma div_bounds:
  "0 \<le> (a :: int) \<Longrightarrow> a < 256 \<Longrightarrow> 0 \<le> a div 4 \<and> a div 4 \<le> 63"
  "0 \<le> (a :: int) \<Longrightarrow> a < 256 \<Longrightarrow> 0 \<le> a div 16 \<and> a div 16 \<le> 15"
  "0 \<le> (a :: int) \<Longrightarrow> a < 256 \<Longrightarrow> 0 \<le> a div 64 \<and> a div 64 \<le> 3"
  by presburger+

lemma mod_bounds:
  "0 \<le> (a :: int) mod 4 \<and> a mod 4 \<le> 3" "0 \<le> (a :: int) mod 16 \<and> a mod 16 \<le> 15"
  "0 \<le> (a :: int) mod 64 \<and> a mod 64 \<le> 63"
  by presburger+

definition bytes_ok :: "int list \<Rightarrow> bool" where
  "bytes_ok bs = list_all (\<lambda>b. 0 \<le> b \<and> b < 256) bs"

lemma sextets:
  "0 \<le> x \<and> x \<le> 63 \<Longrightarrow> quote_safe (b64_char x)"
  "0 \<le> x \<and> x \<le> 3 \<Longrightarrow> 0 \<le> y \<and> y \<le> 15 \<Longrightarrow> quote_safe (b64_char (x * 16 + y))"
  "0 \<le> x \<and> x \<le> 15 \<Longrightarrow> 0 \<le> y \<and> y \<le> 3 \<Longrightarrow> quote_safe (b64_char (x * 4 + y))"
  "0 \<le> x \<and> x \<le> 3 \<Longrightarrow> quote_safe (b64_char (x * 16))"
  "0 \<le> x \<and> x \<le> 15 \<Longrightarrow> quote_safe (b64_char (x * 4))"
  by (rule b64_char_safe; linarith)+

lemma b64_bytes_safe: "bytes_ok bs \<Longrightarrow> list_all quote_safe (b64_bytes bs)"
proof (induction bs rule: b64_bytes.induct)
  case (1 a b c bs)
  then have d: "0 \<le> a" "a < 256" "0 \<le> b" "b < 256" "0 \<le> c" "c < 256" by (auto simp: bytes_ok_def)
  have "list_all quote_safe (b64_bytes bs)" using 1 by (simp add: bytes_ok_def)
  then show ?case
    by (simp add: sextets(1) [OF div_bounds(1) [OF d(1,2)]] sextets(2) [OF mod_bounds(1) div_bounds(2) [OF d(3,4)]]
        sextets(3) [OF mod_bounds(2) div_bounds(3) [OF d(5,6)]] sextets(1) [OF mod_bounds(3)])
next
  case (2 a b)
  then have d: "0 \<le> a" "a < 256" "0 \<le> b" "b < 256" by (auto simp: bytes_ok_def)
  have "quote_safe CHR ''=''" by (simp add: quote_safe_def)
  then show ?case
    by (simp add: sextets(1) [OF div_bounds(1) [OF d(1,2)]] sextets(2) [OF mod_bounds(1) div_bounds(2) [OF d(3,4)]]
        sextets(5) [OF mod_bounds(2)])
next
  case (3 a)
  then have d: "0 \<le> a" "a < 256" by (auto simp: bytes_ok_def)
  have "quote_safe CHR ''=''" by (simp add: quote_safe_def)
  then show ?case
    by (simp add: sextets(1) [OF div_bounds(1) [OF d]] sextets(4) [OF mod_bounds(1)])
qed simp

lemma utf8_ok: "bytes_ok (utf8 s)"
proof (induction s)
  case (Cons c s)
  have "0 \<le> cc c div 64 \<and> cc c div 64 \<le> 3" by (rule div_bounds(3)) simp_all
  with Cons mod_bounds(3) [of "cc c"] cc_bounds [of c] show ?case
    by (auto simp: utf8_def bytes_ok_def Let_def)
qed (simp add: utf8_def bytes_ok_def)

lemma shell_quote_b64: "s \<noteq> [] \<Longrightarrow> shell_quote (b64encode s) = b64encode s"
proof (rule shell_quote_safe)
  assume "s \<noteq> []"
  then have "utf8 s \<noteq> []" by (cases s) (auto simp: utf8_def Let_def)
  then show "b64encode s \<noteq> []" unfolding b64encode_def
    by (cases "utf8 s" rule: b64_bytes.cases) auto
qed (simp add: b64encode_def b64_bytes_safe utf8_ok)


section \<open>Decoding\<close>

text \<open>What \<open>base64 -d\<close> undoes: different contents never make the same command.\<close>

definition b64_val :: "char \<Rightarrow> int" where
  "b64_val c = (let n = cc c in if is_upper c then n - 65 else if is_lower c then n - 71
     else if is_digit c then n + 4 else if n = 43 then 62 else 63)"

fun b64_decode :: "string \<Rightarrow> int list" where
  "b64_decode (w # x # y # z # r) =
     (let a = b64_val w * 4 + b64_val x div 16;
          b = b64_val x mod 16 * 16 + b64_val y div 4;
          c = b64_val y mod 4 * 64 + b64_val z
      in if y = CHR ''='' then [a] else if z = CHR ''='' then [a, b] else a # b # c # b64_decode r)"
| "b64_decode _ = []"

fun utf8_decode :: "int list \<Rightarrow> string" where
  "utf8_decode (n # ns) =
     (if n < 128 then char_of n # utf8_decode ns
      else case ns of [] \<Rightarrow> [] | m # ms \<Rightarrow> char_of ((n - 192) * 64 + (m - 128)) # utf8_decode ms)"
| "utf8_decode [] = []"

lemma b64_val_char: "0 \<le> n \<Longrightarrow> n < 64 \<Longrightarrow> b64_val (b64_char n) = n"
  by (auto simp: b64_val_def b64_char_cc is_upper_def is_lower_def is_digit_def Let_def)

lemma b64_char_pad: "0 \<le> n \<Longrightarrow> n < 64 \<Longrightarrow> b64_char n \<noteq> CHR ''=''"
proof
  assume n: "0 \<le> n" "n < 64" "b64_char n = CHR ''=''"
  then have "cc (b64_char n) = 61" by (simp add: cc_def)
  then show False using b64_char_cc [OF n(1,2)] n by (auto split: if_splits)
qed

lemma sextet_bounds:
  "0 \<le> x \<and> x \<le> 3 \<Longrightarrow> 0 \<le> y \<and> y \<le> 15 \<Longrightarrow> 0 \<le> x * 16 + (y :: int) \<and> x * 16 + y < 64"
  "0 \<le> x \<and> x \<le> 15 \<Longrightarrow> 0 \<le> y \<and> y \<le> 3 \<Longrightarrow> 0 \<le> x * 4 + (y :: int) \<and> x * 4 + y < 64"
  "0 \<le> x \<and> x \<le> 63 \<Longrightarrow> 0 \<le> (x :: int) \<and> x < 64"
  by linarith+

lemma sextet_parts:
  "0 \<le> y \<and> y \<le> 15 \<Longrightarrow> (x * 16 + y) div 16 = x \<and> (x * 16 + (y :: int)) mod 16 = y"
  "0 \<le> y \<and> y \<le> 3 \<Longrightarrow> (x * 4 + y) div 4 = x \<and> (x * 4 + (y :: int)) mod 4 = y"
  by (simp_all add: div_add1_eq mod_add_eq)

lemma byte_parts:
  "(a :: int) div 4 * 4 + a mod 4 = a" "(b :: int) div 16 * 16 + b mod 16 = b" "(c :: int) div 64 * 64 + c mod 64 = c"
  by simp_all

lemma b64_triple:
  assumes "0 \<le> a" "a < 256" "0 \<le> b" "b < 256" "0 \<le> c" "c < 256"
  defines "w \<equiv> b64_char (a div 4)" and "x \<equiv> b64_char (a mod 4 * 16 + b div 16)"
    and "y \<equiv> b64_char (b mod 16 * 4 + c div 64)" and "z \<equiv> b64_char (c mod 64)"
  shows "b64_val w * 4 + b64_val x div 16 = a" "b64_val x mod 16 * 16 + b64_val y div 4 = b"
    "b64_val y mod 4 * 64 + b64_val z = c" "y \<noteq> CHR ''=''" "z \<noteq> CHR ''=''"
proof -
  note A = div_bounds(1) [OF assms(1,2)] and B = div_bounds(2) [OF assms(3,4)] and C = div_bounds(3) [OF assms(5,6)]
  note W = sextet_bounds(3) [OF A] and X = sextet_bounds(1) [OF mod_bounds(1) B] and Y = sextet_bounds(2) [OF mod_bounds(2) C]
    and Z = sextet_bounds(3) [OF mod_bounds(3)]
  have v: "b64_val w = a div 4" "b64_val x = a mod 4 * 16 + b div 16" "b64_val y = b mod 16 * 4 + c div 64" "b64_val z = c mod 64"
    unfolding w_def x_def y_def z_def using W X Y Z by (simp_all add: b64_val_char)
  show "b64_val w * 4 + b64_val x div 16 = a" unfolding v by (simp only: sextet_parts(1) [OF B] byte_parts)
  show "b64_val x mod 16 * 16 + b64_val y div 4 = b"
    unfolding v using sextet_parts(1) [OF B, of "a mod 4"] sextet_parts(2) [OF C, of "b mod 16"] byte_parts(2) [of b] by simp
  show "b64_val y mod 4 * 64 + b64_val z = c" unfolding v by (simp only: sextet_parts(2) [OF C] byte_parts)
  show "y \<noteq> CHR ''=''" "z \<noteq> CHR ''=''" unfolding y_def z_def using Y Z b64_char_pad by blast+
qed

lemma b64_decode_bytes: "bytes_ok bs \<Longrightarrow> b64_decode (b64_bytes bs) = bs"
proof (induction bs rule: b64_bytes.induct)
  case (1 a b c bs)
  then have d: "0 \<le> a" "a < 256" "0 \<le> b" "b < 256" "0 \<le> c" "c < 256" by (auto simp: bytes_ok_def)
  have "b64_decode (b64_bytes bs) = bs" using 1 by (simp add: bytes_ok_def)
  then show ?case
    by (simp only: b64_bytes.simps append_Cons append_Nil b64_decode.simps Let_def b64_triple [OF d] if_False)
next
  case (2 a b)
  then have d: "0 \<le> a" "a < 256" "0 \<le> b" "b < 256" by (auto simp: bytes_ok_def)
  have z: "b mod 16 * 4 + 0 div 64 = b mod 16 * 4" by simp
  note t = b64_triple [OF d order_refl zero_less_numeral, unfolded z]
  show ?case
    by (simp only: b64_bytes.simps b64_decode.simps Let_def t(1,2,4) if_False if_True simp_thms)
next
  case (3 a)
  then have d: "0 \<le> a" "a < 256" by (auto simp: bytes_ok_def)
  have z: "a mod 4 * 16 + 0 div 16 = a mod 4 * 16" by simp
  show ?case using b64_triple(1) [OF d, of 0 0, unfolded z]
    by (simp only: b64_bytes.simps b64_decode.simps Let_def) simp
qed simp

lemma utf8_decode_utf8: "utf8_decode (utf8 s) = s"
proof (induction s)
  case (Cons c s)
  have "char_of (cc c) = c" by (simp add: cc_def)
  moreover have "\<not> 192 + cc c div 64 < 128" using pos_imp_zdiv_nonneg_iff [of 64 "cc c"] by simp
  moreover have "cc c div 64 * 64 + cc c mod 64 = cc c" by simp
  ultimately show ?case using Cons by (simp add: utf8_def Let_def)
qed (simp add: utf8_def)

lemma b64_roundtrip: "utf8_decode (b64_decode (b64encode s)) = s"
  unfolding b64encode_def by (simp add: b64_decode_bytes [OF utf8_ok] utf8_decode_utf8)

lemma quoted_b64_inj:
  assumes "shell_quote (b64encode s) = shell_quote (b64encode t)" "t \<noteq> []"
  shows "s = t"
proof (cases "s = []")
  case True
  have "list_all quote_safe (shell_quote (b64encode t))"
    using shell_quote_b64 [OF assms(2)] b64_bytes_safe [OF utf8_ok] by (simp add: b64encode_def)
  moreover have "\<not> list_all quote_safe (shell_quote (b64encode []))"
    by (simp add: shell_quote_def b64encode_def utf8_def quote_safe_def is_alnum_def is_lower_def is_upper_def is_digit_def cc_def)
  ultimately show ?thesis using assms(1) True by simp
next
  case False
  then show ?thesis using assms shell_quote_b64 b64_roundtrip by metis
qed

end
