(* ===== verification/ReplConfig.thy ===== *)
theory ReplConfig
  imports Base64 PyRegex Prelude
begin

text \<open>
  The configuration side of \<open>app/replication.py\<close>: source specifications and versions, the files
  \<open>/etc/bashclub/*.conf\<close> (parsing, writing, listing), the tag list of datasets, the per-guest
  replication state and the cron lines of zsync. \<open>run\<close> is \<open>run_command\<close>; dictionaries the code
  returns are records.
\<close>

section \<open>Sources and versions\<close>

definition CONFIG_DIR :: string where "CONFIG_DIR = ''/etc/bashclub''"
definition CONFIG_PATH :: string where "CONFIG_PATH = ''/etc/bashclub/zsync.conf''"
definition LOG_DIR :: string where "LOG_DIR = ''/var/log/bashclub-zsync''"
definition BINARY_NAME :: string where "BINARY_NAME = ''bashclub-zsync''"

definition extract_ip :: "string \<Rightarrow> string" where
  "extract_ip source = (let s = strip source
     in case split_once CHR ''@'' s of Some (_, t) \<Rightarrow> t | None \<Rightarrow> s)"

text \<open>\<open>\b\<close> in front of the pattern: the version does not follow a word character.\<close>

definition word_char :: "char \<Rightarrow> bool" where
  "word_char c = (is_alnum c \<or> c = CHR ''_'')"

definition VERSION_RE :: re where
  "VERSION_RE = seqs [NotBehind word_char, opt (chr CHR ''v''),
     Grp 1 (seqs [plus (Ch is_digit), chr CHR ''.'', plus (Ch is_digit),
       opt (Seq (chr CHR ''.'') (plus (Ch is_digit)))])]"

definition parse_zsync_version :: "string \<Rightarrow> string option" where
  "parse_zsync_version t = map_option (group_str 1) (re_search VERSION_RE t)"

definition LOCAL_MODE_LAST_VERSION :: "int list" where
  "LOCAL_MODE_LAST_VERSION = [1, 0, 19]"

definition version_tuple :: "string option \<Rightarrow> int list option" where
  "version_tuple version =
     (case parse_zsync_version (case version of None \<Rightarrow> [] | Some v \<Rightarrow> v) of
        None \<Rightarrow> None
      | Some v \<Rightarrow> Some (map (\<lambda>p. case py_int p of Some i \<Rightarrow> i | None \<Rightarrow> 0) (split_on (\<lambda>c. c = CHR ''.'') v)))"

definition local_mode_removed :: "string option \<Rightarrow> bool option" where
  "local_mode_removed version = map_option (\<lambda>vt. vt > LOCAL_MODE_LAST_VERSION) (version_tuple version)"

definition VERSION_PROBE :: string where
  "VERSION_PROBE = ''command -v '' @ BINARY_NAME @ '' 2>/dev/null && { dpkg-query -W -f='' @ sq @ ''${Version}''
     @ [CHR 0x5C] @ ''n'' @ sq @ '' '' @ BINARY_NAME @ '' 2>/dev/null || grep -m1 -o '' @ sq @ ''__version__=v[0-9][0-9.]*''
     @ sq @ '' '' @ [CHR 0x22] @ ''$(command -v '' @ BINARY_NAME @ '')'' @ [CHR 0x22] @ '' | cut -d= -f2; }''"

definition installed_version :: "(host \<Rightarrow> string \<Rightarrow> cmd_result) \<Rightarrow> host \<Rightarrow> string option" where
  "installed_version run host =
     (let r = run host VERSION_PROBE
      in if \<not> cr_success r then None
         else case filter (\<lambda>l. l \<noteq> []) (map strip (splitlines (cr_stdout r))) of
                _ # l # _ \<Rightarrow> parse_zsync_version l
              | _ \<Rightarrow> None)"

definition file_char :: "char \<Rightarrow> bool" where
  "file_char c = (is_alnum c \<or> one_of ''._-'' c)"

definition safe_filename :: "string \<Rightarrow> string" where
  "safe_filename name = map (\<lambda>c. if file_char c then c else CHR ''_'') name"

definition config_path_for :: "string \<Rightarrow> string" where
  "config_path_for source =
     (if source = [] then CONFIG_PATH
      else let ip = extract_ip source
        in if ip = [] then CONFIG_PATH else CONFIG_DIR @ ''/'' @ safe_filename ip @ ''.conf'')"

section \<open>Configuration files\<close>

definition KV_RE :: re where
  "KV_RE = seqs [Bol, Star (Ch is_space),
     Grp 1 (Seq (Ch (\<lambda>c. is_lower c \<or> is_upper c \<or> c = CHR ''_'')) (Star (Ch word_char))),
     Star (Ch is_space), chr CHR ''='', Star (Ch is_space), Grp 2 (Lazy any_char), Star (Ch is_space), Eol]"

datatype cfg_line = RawLine string | KvLine string string

definition unquote :: "string \<Rightarrow> string" where
  "unquote val = (if 2 \<le> length val \<and> hd val = last val \<and> (hd val = CHR 0x27 \<or> hd val = CHR 0x22)
     then butlast (tl val) else val)"

definition parse_cfg_line :: "string \<Rightarrow> cfg_line" where
  "parse_cfg_line raw =
     (if strip raw = [] \<or> starts_with ''#'' (strip raw) then RawLine raw
      else case re_match KV_RE raw of
             None \<Rightarrow> RawLine raw
           | Some m \<Rightarrow> KvLine (group_str 1 m) (unquote (group_str 2 m)))"

definition parse_cfg_lines :: "string \<Rightarrow> cfg_line list" where
  "parse_cfg_lines t = map parse_cfg_line (splitlines t)"

definition cfg_values :: "cfg_line list \<Rightarrow> (string, string) dict" where
  "cfg_values ls = fold (\<lambda>l d. case l of RawLine _ \<Rightarrow> d | KvLine k v \<Rightarrow> dset k v d) ls []"

definition parse_config :: "string \<Rightarrow> (string, string) dict \<times> cfg_line list" where
  "parse_config t = (cfg_values (parse_cfg_lines t), parse_cfg_lines t)"

definition escape_value :: "string \<Rightarrow> string" where
  "escape_value s = concat (map (\<lambda>c. if c \<in> {CHR 0x5C, CHR 0x22, CHR ''$'', CHR 0x60} then [CHR 0x5C, c] else [c]) s)"

definition kv_text :: "string \<Rightarrow> string \<Rightarrow> string" where
  "kv_text k v = k @ ''='' @ [CHR 0x22] @ escape_value v @ [CHR 0x22]"

definition old_line :: "(string, string) dict \<Rightarrow> cfg_line \<Rightarrow> string option" where
  "old_line vals ln = (case ln of RawLine t \<Rightarrow> Some t
     | KvLine k _ \<Rightarrow> map_option (kv_text k) (dget vals k))"

definition serialize_config :: "(string, string) dict \<Rightarrow> cfg_line list \<Rightarrow> string" where
  "serialize_config vals existing =
     (let written = List.map_filter (\<lambda>ln. case ln of RawLine _ \<Rightarrow> None
            | KvLine k _ \<Rightarrow> if dhas vals k then Some k else None) existing;
          out = List.map_filter (old_line vals) existing
            @ map (\<lambda>(k, v). kv_text k v) (filter (\<lambda>(k, v). k \<notin> set written) vals)
      in join [newline] out @ [newline])"

definition is_pve_host :: "(host \<Rightarrow> string \<Rightarrow> cmd_result) \<Rightarrow> host \<Rightarrow> bool \<times> string option" where
  "is_pve_host run host =
     (let out = strip (cr_stdout (run host (''if command -v pveversion >/dev/null 2>&1; then   pveversion 2>/dev/null | head -n 1; ''
            @ ''elif [ -d /etc/pve ]; then   echo __PVE_DIR__; fi'')))
      in if out = [] then (False, None) else if out = ''__PVE_DIR__'' then (True, None) else (True, Some out))"

definition is_same_host :: "host \<Rightarrow> string \<Rightarrow> bool" where
  "is_same_host host src_ip = (src_ip \<noteq> [] \<and> src_ip \<in> {ho_address host, ''127.0.0.1'', ''localhost''})"

definition CONF_PATH_RE :: re where
  "CONF_PATH_RE = seqs [Bol, lit CONFIG_DIR, chr CHR ''/'', plus (Ch file_char), lit ''.conf'', Eol]"

definition validate_conf_path :: "string \<Rightarrow> py_exc + string" where
  "validate_conf_path path =
     (let p = strip path
      in if \<not> re_test CONF_PATH_RE p \<or> contains_str ''..'' p
         then Inl (ValueError (''config path must be '' @ CONFIG_DIR @ ''/<name>.conf'')) else Inr p)"

record config_file =
  fc_exists :: bool
  fc_values :: "(string, string) dict"
  fc_raw :: string
  fc_lines :: "cfg_line list"
  fc_path :: string

definition read_config_file :: "(host \<Rightarrow> string \<Rightarrow> cmd_result) \<Rightarrow> host \<Rightarrow> string \<Rightarrow> config_file" where
  "read_config_file run host cfg_path =
     (let r = run host (''cat '' @ shell_quote cfg_path @ '' 2>/dev/null'')
      in if \<not> cr_success r \<or> cr_stdout r = []
         then \<lparr>fc_exists = False, fc_values = [], fc_raw = [], fc_lines = [], fc_path = cfg_path\<rparr>
         else \<lparr>fc_exists = True, fc_values = fst (parse_config (cr_stdout r)), fc_raw = cr_stdout r,
               fc_lines = snd (parse_config (cr_stdout r)), fc_path = cfg_path\<rparr>)"

definition read_config :: "(host \<Rightarrow> string \<Rightarrow> cmd_result) \<Rightarrow> host \<Rightarrow> string \<Rightarrow> config_file" where
  "read_config run host source = read_config_file run host (config_path_for source)"

definition read_config_path :: "(host \<Rightarrow> string \<Rightarrow> cmd_result) \<Rightarrow> host \<Rightarrow> string \<Rightarrow> py_exc + config_file" where
  "read_config_path run host path =
     (case validate_conf_path path of Inl e \<Rightarrow> Inl e | Inr p \<Rightarrow> Inr (read_config_file run host p))"

section \<open>Tagged datasets\<close>

record tagged_ds =
  td_name :: string
  td_type :: string
  td_tagged :: bool
  td_value :: string

definition TAG_FORMAT_RE :: re where
  "TAG_FORMAT_RE = seqs [Bol, plus (Ch (\<lambda>c. is_alnum c \<or> one_of ''_.:-'' c)), Eol]"

definition tagged_of_line :: "string \<Rightarrow> tagged_ds option" where
  "tagged_of_line line =
     (case split_on (\<lambda>c. c = tab) line of
        name # dtype # value # _ \<Rightarrow> Some \<lparr>td_name = name, td_type = dtype, td_tagged = (value = ''all''),
             td_value = (if value = ''-'' then [] else value)\<rparr>
      | _ \<Rightarrow> None)"

definition list_tagged_datasets :: "(host \<Rightarrow> string \<Rightarrow> cmd_result) \<Rightarrow> host \<Rightarrow> string \<Rightarrow> string + tagged_ds list" where
  "list_tagged_datasets run host tag =
     (if \<not> re_test TAG_FORMAT_RE tag then Inl ''invalid tag format''
      else let r = run host (''zfs list -H -o name,type,'' @ shell_quote tag @ '' -t filesystem,volume'')
        in if \<not> cr_success r then Inl (strip (if cr_stderr r \<noteq> [] then cr_stderr r else cr_stdout r))
           else Inr (List.map_filter tagged_of_line (splitlines (cr_stdout r))))"

text \<open>The datasets of the answer, none after an error.\<close>

definition datasets_of :: "string + tagged_ds list \<Rightarrow> tagged_ds list" where
  "datasets_of r = (case r of Inl _ \<Rightarrow> [] | Inr ds \<Rightarrow> ds)"

definition first_component :: "string \<Rightarrow> string" where
  "first_component s = takeWhile (\<lambda>c. c \<noteq> CHR ''/'') s"

record write_result =
  wr_success :: bool
  wr_stderr :: string
  wr_path :: string
  wr_error_code :: string
  wr_target_pool :: string
  wr_source_pools :: "string list"

definition write_script :: "string \<Rightarrow> string \<Rightarrow> string" where
  "write_script cfg_path new_text =
     (let q = shell_quote cfg_path
      in ''mkdir -p '' @ shell_quote CONFIG_DIR @ '' && if [ -f '' @ q @ '' ]; then cp -a '' @ q @ '' '' @ q
         @ ''.bak.$(date +%Y%m%d%H%M%S); fi && echo '' @ shell_quote (b64encode new_text) @ '' | base64 -d > ''
         @ q @ '' && chmod 0640 '' @ q)"

definition write_config ::
  "(host \<Rightarrow> string \<Rightarrow> cmd_result) \<Rightarrow> host \<Rightarrow> (string, string) dict \<Rightarrow> string \<Rightarrow> write_result" where
  "write_config run host vals source =
     (let src_val = dget_or [] vals ''source'';
          cfg_path = config_path_for (if source \<noteq> [] then source else src_val);
          target_ds = strip (dget_or [] vals ''target'');
          src_spec = strip (if source \<noteq> [] then source else src_val);
          target_pool = first_component target_ds;
          tag = (let t = strip (if dget_or [] vals ''tag'' \<noteq> [] then dget_or [] vals ''tag'' else ''bashclub:zsync'')
                 in if t = [] then ''bashclub:zsync'' else t);
          guarded = (target_ds \<noteq> [] \<and> CHR ''/'' \<in> set target_ds \<and> is_same_host host (extract_ip src_spec));
          src_pools = map (\<lambda>d. first_component (td_name d))
            (filter (\<lambda>d. td_tagged d \<and> td_name d \<noteq> []) (datasets_of (list_tagged_datasets run host tag)))
      in if guarded \<and> target_pool \<in> set src_pools
         then \<lparr>wr_success = False, wr_stderr = ''refusing same-host write: target pool '' @ sq @ target_pool @ sq
                 @ '' is also a source pool (replica on the same vdevs is not a backup)'',
               wr_path = cfg_path, wr_error_code = ''same_pool'', wr_target_pool = target_pool,
               wr_source_pools = sorted_set src_pools\<rparr>
         else
           let existing = fc_lines (read_config_file run host cfg_path);
               cleaned = filter (\<lambda>(k, v). v \<noteq> []) vals;
               r = run host (write_script cfg_path (serialize_config cleaned existing))
           in \<lparr>wr_success = cr_success r, wr_stderr = cr_stderr r, wr_path = cfg_path, wr_error_code = [],
               wr_target_pool = [], wr_source_pools = []\<rparr>)"

section \<open>The configurations of a host\<close>

record config_entry =
  ce_path :: string
  ce_source :: string
  ce_target :: string
  ce_canonical_path :: string
  ce_needs_import :: bool
  ce_local_mode :: bool

definition config_entry_of :: "string \<Rightarrow> string list \<Rightarrow> config_entry" where
  "config_entry_of cur buf =
     (let vals = fst (parse_config (join [newline] buf)); src = strip (dget_or [] vals ''source'');
          canonical = (if src \<noteq> [] then config_path_for src else cur)
      in \<lparr>ce_path = cur, ce_source = src, ce_target = dget_or [] vals ''target'',
          ce_canonical_path = canonical, ce_needs_import = (cur \<noteq> canonical), ce_local_mode = (src = [])\<rparr>)"

fun configs_step :: "string \<Rightarrow> config_entry list \<times> string option \<times> string list \<Rightarrow>
    config_entry list \<times> string option \<times> string list" where
  "configs_step line (out, cur, buf) =
     (if starts_with ''__FILE__ '' line then (out, Some (strip (drop 9 line)), [])
      else if line = ''__END__'' then
        (case cur of
           None \<Rightarrow> (out, None, buf)
         | Some c \<Rightarrow> (if c = [] then out else out @ [config_entry_of c buf], None, buf))
      else case cur of None \<Rightarrow> (out, None, buf) | Some c \<Rightarrow> (out, Some c, buf @ [line]))"

definition LIST_CONFIGS_CMD :: string where
  "LIST_CONFIGS_CMD = ''for f in '' @ shell_quote CONFIG_DIR @ ''/*.conf; do   [ -f '' @ [CHR 0x22] @ ''$f'' @ [CHR 0x22]
     @ '' ] || continue;   echo __FILE__ $f; cat $f; echo __END__; done 2>/dev/null''"

definition list_configs :: "(host \<Rightarrow> string \<Rightarrow> cmd_result) \<Rightarrow> host \<Rightarrow> config_entry list" where
  "list_configs run host =
     (let r = run host LIST_CONFIGS_CMD
      in if cr_success r \<and> cr_stdout r \<noteq> [] then fst (fold configs_step (splitlines (cr_stdout r)) ([], None, [])) else [])"

definition replication_targets :: "(host \<Rightarrow> string \<Rightarrow> cmd_result) \<Rightarrow> host \<Rightarrow> string list" where
  "replication_targets run host =
     filter (\<lambda>t. t \<noteq> [] \<and> CHR ''/'' \<in> set t \<and> lower_str t \<noteq> ''pool/dataset'')
       (map (\<lambda>c. rstrip_chars ''/'' (lstrip_chars ''/'' (strip (ce_target c)))) (list_configs run host))"

section \<open>Guests\<close>

definition under :: "string \<Rightarrow> string \<Rightarrow> bool" where
  "under root name = (name = root \<or> starts_with (root @ ''/'') name)"

definition without_replicas :: "tagged_ds list \<Rightarrow> string list \<Rightarrow> tagged_ds list" where
  "without_replicas datasets targets =
     (let roots = map (\<lambda>t. rstrip_chars ''/'' (lstrip_chars ''/'' t)) (filter (\<lambda>t. t \<noteq> []) targets)
      in filter (\<lambda>d. \<not> list_ex (\<lambda>r. under r (td_name d)) roots) datasets)"

definition GUEST_DISK_RE :: re where
  "GUEST_DISK_RE = seqs [Alt Bol (chr CHR ''/''),
     Alt (lit ''vm'') (Alt (lit ''subvol'') (Alt (lit ''base'') (lit ''basevol''))),
     chr CHR ''-'', Grp 1 (plus (Ch is_digit)), lit ''-disk-'', plus (Ch is_digit), Eol]"

definition guest_of_dataset :: "string \<Rightarrow> string option" where
  "guest_of_dataset name = map_option (group_str 1) (re_search GUEST_DISK_RE name)"

definition count_disks :: "tagged_ds list \<Rightarrow> (string, int \<times> int) dict" where
  "count_disks datasets =
     fold (\<lambda>d agg. case guest_of_dataset (td_name d) of
              None \<Rightarrow> agg
            | Some v \<Rightarrow> dmodify v (0, 0) (\<lambda>(total, tagged). (total + 1, tagged + (if td_tagged d then 1 else 0))) agg)
       datasets []"

record guest_tags =
  gt_total :: int
  gt_tagged :: int
  gt_state :: string

definition guest_replication_map :: "tagged_ds list \<Rightarrow> (string, guest_tags) dict" where
  "guest_replication_map datasets =
     map (\<lambda>(vmid, a). (vmid, \<lparr>gt_total = fst a, gt_tagged = snd a,
            gt_state = (if snd a = 0 then ''none'' else if snd a = fst a then ''full'' else ''partial'')\<rparr>))
       (count_disks datasets)"

record guest_repl_state =
  gr_state :: string
  gr_reason :: string
  gr_tagged :: int
  gr_total :: int

definition guest_replication_states :: "tagged_ds list \<Rightarrow> string option \<Rightarrow> (string, guest_repl_state) dict" where
  "guest_replication_states datasets source_status =
     (let lagging = (source_status = Some ''warn'' \<or> source_status = Some ''crit'')
      in map (\<lambda>(vmid, info).
           (vmid, let (color, reason) = (if gt_state info = ''none'' then (''red'', ''none'')
                 else if gt_state info = ''partial'' then (''yellow'', ''partial'')
                 else if lagging then (''yellow'', ''lag'') else (''green'', ''ok''))
             in \<lparr>gr_state = color, gr_reason = reason, gr_tagged = gt_tagged info, gr_total = gt_total info\<rparr>))
         (guest_replication_map datasets))"

section \<open>Cron\<close>

definition CRON_RE :: re where
  "CRON_RE = seqs [Bol, plus (Ch (\<lambda>c. is_space c \<or> is_digit c \<or> one_of ''*/,-'' c)), Eol]"

definition validate_cron :: "string \<Rightarrow> bool" where
  "validate_cron schedule = (let s = strip schedule
     in if \<not> re_test CRON_RE s then False else length (split_ws s) = 5)"

definition cron_marker :: "string \<Rightarrow> string" where
  "cron_marker cfg_path = BINARY_NAME @ '' -c '' @ cfg_path"

text \<open>\<open>s.split(None, n)\<close>: at most n splits at runs of white space, the rest keeps its inner spaces.\<close>

fun split_ws_max :: "nat \<Rightarrow> string \<Rightarrow> string list" where
  "split_ws_max 0 s = (let r = lstrip s in if r = [] then [] else [r])"
| "split_ws_max (Suc n) s =
     (let r = lstrip s
      in if r = [] then []
         else takeWhile (\<lambda>c. \<not> is_space c) r # split_ws_max n (dropWhile (\<lambda>c. \<not> is_space c) r))"

record cron_entry =
  cn_schedule :: string
  cn_command :: string
  cn_raw :: string

definition cron_of_line :: "string \<Rightarrow> cron_entry option" where
  "cron_of_line stripped =
     (let parts = split_ws_max 5 stripped
      in if 6 \<le> length parts then Some \<lparr>cn_schedule = join '' '' (take 5 parts), cn_command = parts ! 5, cn_raw = stripped\<rparr>
         else None)"

text \<open>The first line that carries the marker decides.\<close>

definition get_cron :: "(host \<Rightarrow> string \<Rightarrow> cmd_result) \<Rightarrow> host \<Rightarrow> string \<Rightarrow> cron_entry option" where
  "get_cron run host source =
     (let cfg_path = config_path_for source; r = run host ''crontab -l 2>/dev/null''
      in case find (\<lambda>s. s \<noteq> [] \<and> \<not> starts_with ''#'' s \<and> contains_str (cron_marker cfg_path) s)
                (map strip (splitlines (cr_stdout r))) of
           None \<Rightarrow> None
         | Some s \<Rightarrow> cron_of_line s)"

record cron_line =
  cl_where :: string
  cl_schedule :: string
  cl_user :: string
  cl_command :: string
  cl_raw :: string

definition cron_line_of :: "string \<Rightarrow> string \<Rightarrow> cron_line option" where
  "cron_line_of whr s =
     (if whr = ''crontab''
      then (let parts = split_ws_max 5 s
            in if 6 \<le> length parts then Some \<lparr>cl_where = whr, cl_schedule = join '' '' (take 5 parts), cl_user = [],
                   cl_command = parts ! 5, cl_raw = s\<rparr> else None)
      else (let parts = split_ws_max 6 s
            in if 7 \<le> length parts then Some \<lparr>cl_where = whr, cl_schedule = join '' '' (take 5 parts), cl_user = parts ! 5,
                   cl_command = parts ! 6, cl_raw = s\<rparr> else None))"

fun cron_lines_step :: "string \<Rightarrow> string \<Rightarrow> cron_line list \<times> string \<Rightarrow> cron_line list \<times> string" where
  "cron_lines_step marker line (found, whr) =
     (if line = ''__CRONTAB__'' then (found, ''crontab'')
      else if starts_with ''__CROND__ '' line then (found, strip (drop 10 line))
      else let s = strip line
        in if s = [] \<or> starts_with ''#'' s \<or> \<not> contains_str marker s then (found, whr)
           else (case cron_line_of whr s of None \<Rightarrow> (found, whr) | Some c \<Rightarrow> (found @ [c], whr)))"

definition find_zsync_cron_lines :: "(host \<Rightarrow> string \<Rightarrow> cmd_result) \<Rightarrow> host \<Rightarrow> string \<Rightarrow> cron_line list" where
  "find_zsync_cron_lines run host cfg_path =
     (let r = run host (''echo __CRONTAB__; crontab -l 2>/dev/null; for f in /etc/cron.d/*; do [ -f '' @ [CHR 0x22] @ ''$f''
            @ [CHR 0x22] @ '' ] || continue; echo '' @ [CHR 0x22] @ ''__CROND__ $f'' @ [CHR 0x22] @ ''; cat '' @ [CHR 0x22]
            @ ''$f'' @ [CHR 0x22] @ ''; done 2>/dev/null'')
      in fst (fold (cron_lines_step (cron_marker cfg_path)) (splitlines (cr_stdout r)) ([], ''crontab'')))"

definition FROM_ADDR_RE :: re where
  "FROM_ADDR_RE = seqs [Bol, plus (Ch (\<lambda>c. is_alnum c \<or> one_of ''.:_-'' c)), Eol]"

definition authorized_key_options :: "host \<Rightarrow> string" where
  "authorized_key_options target_host =
     (let addr = strip (ho_address target_host)
      in if \<not> re_test FROM_ADDR_RE addr then [] else ''restrict,from='' @ [CHR 0x22] @ addr @ [CHR 0x22])"


section \<open>Round trip of a configuration\<close>

definition key_ok :: "string \<Rightarrow> bool" where
  "key_ok k = (k \<noteq> [] \<and> (is_lower (hd k) \<or> is_upper (hd k) \<or> hd k = CHR ''_'') \<and> list_all word_char k)"

definition value_ok :: "string \<Rightarrow> bool" where
  "value_ok v = list_all (\<lambda>c. c \<notin> {CHR 0x5C, CHR 0x22, CHR ''$'', CHR 0x60} \<and> \<not> is_linebreak c) v"

lemma escape_ok: "value_ok v \<Longrightarrow> escape_value v = v"
  by (induction v) (auto simp: value_ok_def escape_value_def)

lemma word_char_plain: "word_char c \<Longrightarrow> \<not> is_space c \<and> c \<noteq> CHR ''='' \<and> c \<noteq> CHR ''#'' \<and> \<not> is_linebreak c"
  by (auto simp: word_char_def is_alnum_def is_lower_def is_upper_def is_digit_def is_space_def
      is_linebreak_def Let_def cc_def)

lemma special_chars:
  "\<not> is_space CHR 0x22" "\<not> is_space CHR ''=''" "\<not> word_char CHR ''=''" "CHR 0x22 \<noteq> newline"
  "\<not> is_linebreak CHR 0x22" "\<not> is_linebreak CHR ''=''"
  by code_simp+

lemma newline_only_break: "\<not> is_linebreak c \<Longrightarrow> c \<noteq> newline"
  by auto

lemma kv_value_match:
  assumes "value_ok v"
  shows "\<exists>ts. steps (seqs [Grp 2 (Lazy any_char), Star (Ch is_space), Eol]) (b, CHR 0x22 # v @ [CHR 0x22], g)
    = (rev (CHR 0x22 # v @ [CHR 0x22]) @ b, [], (2, CHR 0x22 # v @ [CHR 0x22]) # g) # ts"
proof -
  let ?s = "CHR 0x22 # v @ [CHR 0x22]"
  let ?r = "seqs [Star (Ch is_space), Eol]"
  let ?t = "\<lambda>k. (rev (take k ?s) @ b, drop k ?s, (2, take k ?s) # g)"
  have all: "list_all (\<lambda>c. c \<noteq> newline) ?s"
    using assms newline_only_break special_chars by (auto simp: value_ok_def list_all_iff)
  then have tw: "takeWhile (\<lambda>c. c \<noteq> newline) ?s = ?s"
    by (metis (mono_tags, lifting) list_all_iff takeWhile_eq_all_conv)
  have "steps (Grp 2 (Lazy any_char)) (b, ?s, g) = map ?t [0..<Suc (length ?s)]"
    unfolding any_char_def steps.simps(7) steps_lazy_ch tw by (auto simp del: upt_Suc)
  also have "[0..<Suc (length ?s)] = [0..<length ?s] @ [length ?s]" by simp
  finally have st: "steps (Grp 2 (Lazy any_char)) (b, ?s, g) = map ?t [0..<length ?s] @ [?t (length ?s)]" by simp
  have "steps ?r y = []" if y: "y \<in> set (map ?t [0..<length ?s])" for y
  proof -
    from y obtain k where k: "k < length ?s" "y = ?t k" by (auto simp del: upt_Suc)
    then have d: "drop k ?s \<noteq> []" by simp
    have "last (drop k ?s) = CHR 0x22" using k(1) by (simp only: last_drop) simp
    then show ?thesis unfolding k(2) by (intro star_eol_fail d) (simp_all only: special_chars not_False_eq_True simp_thms)
  qed
  then have "concat (map (steps ?r) (steps (Grp 2 (Lazy any_char)) (b, ?s, g))) = steps ?r (?t (length ?s))"
    unfolding st by (rule hd_concat_map_last)
  moreover have "steps ?r (?t (length ?s)) = [?t (length ?s)]"
    using steps_star_ch [of is_space "rev (take (length ?s) ?s) @ b" "[]"] by simp
  ultimately show ?thesis by simp
qed

lemma kv_match:
  assumes "key_ok k" and "value_ok v"
  shows "parse_cfg_line (kv_text k v) = KvLine k v"
proof -
  let ?q = "CHR 0x22 # v @ [CHR 0x22]"
  let ?s = "k @ CHR ''='' # ?q"
  obtain c k' where k: "k = c # k'" using assms(1) by (cases k) (auto simp: key_ok_def)
  have cs: "\<not> is_space c" "c \<noteq> CHR ''#''" "is_lower c \<or> is_upper c \<or> c = CHR ''_''" "list_all word_char k'"
    using assms(1) word_char_plain [of c] unfolding k by (auto simp: key_ok_def)
  have ser: "kv_text k v = ?s" using escape_ok [OF assms(2)] by (simp add: kv_text_def)
  obtain ts where kv: "steps (seqs [Grp 2 (Lazy any_char), Star (Ch is_space), Eol]) (rev (k @ ''='') , ?q, [(1, k)])
     = (rev ?q @ rev (k @ ''=''), [], (2, ?q) # [(1, k)]) # ts" using kv_value_match [OF assms(2)] by blast
  have sp: "\<exists>ts. steps (Star (Ch is_space)) (b, x # y, g) = (b, x # y, g) # ts" if "\<not> is_space x" for b x y g
    using star_ch_first [of is_space "[]" "x # y" b g] that by simp
  obtain t1 where t1: "steps (Star (Ch word_char)) ([c], k' @ CHR ''='' # ?q, []) = (rev k' @ [c], CHR ''='' # ?q, []) # t1"
    using star_ch_first [OF cs(4), of "CHR ''='' # ?q" "[c]" "[]"] special_chars(3) by auto
  obtain t0 where t0: "steps (Star (Ch is_space)) ([], ?s, []) = ([], ?s, []) # t0"
    unfolding k using sp [OF cs(1), of "[]" "k' @ CHR ''='' # ?q" "[]"] by auto
  obtain t2 where t2: "steps (Star (Ch is_space)) (rev k, CHR ''='' # ?q, [(1, k)]) = (rev k, CHR ''='' # ?q, [(1, k)]) # t2"
    using sp [OF special_chars(2)] by blast
  obtain t3 where t3: "steps (Star (Ch is_space)) (rev (k @ ''=''), ?q, [(1, k)]) = (rev (k @ ''=''), ?q, [(1, k)]) # t3"
    using sp [OF special_chars(1)] by blast
  obtain rs where m: "steps KV_RE ([], ?s, []) = (rev ?q @ rev (k @ ''=''), [], (2, ?q) # [(1, k)]) # rs"
    using t0 t1 t2 t3 kv cs(3) unfolding KV_RE_def k
    by (auto simp: chr_def)
  have "strip ?s = ?s" using cs(1) special_chars(1) unfolding k by (intro strip_id) simp_all
  moreover have "\<not> starts_with ''#'' ?s" using cs(2) unfolding k by (simp add: starts_with_def)
  moreover have "re_match KV_RE ?s = Some (rev ?q @ rev (k @ ''=''), [], (2, ?q) # [(1, k)])"
    by (simp add: re_match_def m)
  moreover have "unquote ?q = v" by (simp add: unquote_def)
  ultimately show ?thesis unfolding ser parse_cfg_line_def by (simp add: group_str_def group_def)
qed

lemma kv_plain: "key_ok k \<Longrightarrow> value_ok v \<Longrightarrow> plain_line (kv_text k v)"
  using special_chars word_char_plain
  by (auto simp: plain_line_def kv_text_def escape_ok key_ok_def value_ok_def list_all_iff)

lemma cfg_values_kv:
  "distinct (map fst vals) \<Longrightarrow> set (map fst vals) \<inter> set (dkeys d) = {} \<Longrightarrow>
   fold (\<lambda>l d. case l of RawLine _ \<Rightarrow> d | KvLine k v \<Rightarrow> dset k v d) (map (\<lambda>(k, v). KvLine k v) vals) d = d @ vals"
proof (induction vals arbitrary: d)
  case (Cons a vals)
  obtain k v where a: "a = (k, v)" by (cases a)
  have "dget d k = None" using Cons.prems(2) unfolding a by (auto simp: set_dkeys)
  then have "dset k v d = d @ [(k, v)]" by (rule dset_new)
  with Cons a show ?case by (auto simp: dkeys_def)
qed simp



text \<open>A value with a dollar sign does not survive: what is written is escaped, what is read back
  is not unescaped, so every read-and-write adds another backslash.\<close>

theorem escaping_accumulates:
  "let once = fst (parse_config (serialize_config [(''tag'', ''a$b'')] []));
       twice = fst (parse_config (serialize_config once []))
   in dget once ''tag'' = Some (''a'' @ [CHR 0x5C] @ ''$b'') \<and>
      dget twice ''tag'' = Some (''a'' @ [CHR 0x5C, CHR 0x5C, CHR 0x5C] @ ''$b'')"
  by code_simp

section \<open>Guests of a host\<close>

text \<open>Exactly the datasets outside every replica root are kept, in order: a dataset goes only when
  its name is a target or lies below one.\<close>

theorem without_replicas_exact:
  "d \<in> set (without_replicas ds targets) \<longleftrightarrow> d \<in> set ds \<and>
     (\<forall>t \<in> set targets. t \<noteq> [] \<longrightarrow>
        td_name d \<noteq> rstrip_chars ''/'' (lstrip_chars ''/'' t) \<and>
        \<not> (\<exists>rest. td_name d = rstrip_chars ''/'' (lstrip_chars ''/'' t) @ ''/'' @ rest))"
  by (auto simp: without_replicas_def Let_def list_ex_iff under_def starts_with_iff)

theorem without_replicas_exact_witness:
  "let ds = map (\<lambda>n. \<lparr>td_name = n, td_type = ''volume'', td_tagged = True, td_value = ''all''\<rparr>)
              [''rpool/data/vm-111-disk-0'', ''tank/repl/tank/vm-111-disk-0'', ''tank/replica'']
   in hd ds \<in> set (without_replicas ds [''tank/repl/'']) \<and>
      map td_name (without_replicas ds [''tank/repl/'']) = [''rpool/data/vm-111-disk-0'', ''tank/replica'']"
proof -
  let ?ds = "map (\<lambda>n. \<lparr>td_name = n, td_type = ''volume'', td_tagged = True, td_value = ''all''\<rparr>)
              [''rpool/data/vm-111-disk-0'', ''tank/repl/tank/vm-111-disk-0'', ''tank/replica'']"
  have roots: "rstrip_chars ''/'' (lstrip_chars ''/'' ''tank/repl/'') = ''tank/repl''" by code_simp
  have "hd ?ds \<in> set (without_replicas ?ds [''tank/repl/''])"
    by (rule without_replicas_exact [THEN iffD2]) (simp add: roots)
  moreover have "map td_name (without_replicas ?ds [''tank/repl/'']) = [''rpool/data/vm-111-disk-0'', ''tank/replica'']"
    by code_simp
  ultimately show ?thesis unfolding Let_def by blast
qed

definition disks_of :: "tagged_ds list \<Rightarrow> string \<Rightarrow> tagged_ds list" where
  "disks_of ds vmid = filter (\<lambda>d. guest_of_dataset (td_name d) = Some vmid) ds"

definition bump :: "tagged_ds \<Rightarrow> int \<times> int \<Rightarrow> int \<times> int" where
  "bump d a = (fst a + 1, snd a + (if td_tagged d then 1 else 0))"

lemma fold_bump: "fold bump ds a = (fst a + int (length ds), snd a + int (length (filter td_tagged ds)))"
  by (induction ds arbitrary: a) (auto simp: bump_def)

lemma count_disks_get:
  "dget (count_disks ds) vmid = (if disks_of ds vmid = [] then None
     else Some (int (length (disks_of ds vmid)), int (length (filter td_tagged (disks_of ds vmid)))))"
proof -
  let ?key = "\<lambda>d. the (guest_of_dataset (td_name d))"
  let ?gs = "filter (\<lambda>d. guest_of_dataset (td_name d) \<noteq> None) ds"
  have "count_disks ds = fold (\<lambda>d agg. if guest_of_dataset (td_name d) \<noteq> None then dmodify (?key d) (0, 0) (bump d) agg else agg) ds []"
    unfolding count_disks_def
    by (rule fold_cong) (auto split: option.splits intro!: arg_cong [where f = "\<lambda>f. dmodify _ _ f _"] ext simp: bump_def)
  then have c: "count_disks ds = fold (\<lambda>d. dmodify (?key d) (0, 0) (bump d)) ?gs []"
    unfolding fold_if_filter .
  have f: "filter (\<lambda>d. ?key d = vmid) ?gs = disks_of ds vmid"
    unfolding disks_of_def by (auto intro: filter_cong)
  have "vmid \<in> ?key ` set ?gs \<longleftrightarrow> disks_of ds vmid \<noteq> []"
    unfolding f [symmetric] by (auto simp: filter_empty_conv)
  then show ?thesis unfolding c dget_fold_dmodify f fold_bump by auto
qed

text \<open>A guest is green exactly when it has a disk, every one of its disks carries the tag and its
  source does not lag; it is red exactly when it has a disk and none carries the tag; the counts
  are the numbers of its disks and of its tagged disks.\<close>

theorem guest_replication_states_correct:
  "((\<exists>i. dget (guest_replication_states ds status) vmid = Some i \<and> gr_state i = ''green'') \<longleftrightarrow>
     (disks_of ds vmid \<noteq> [] \<and> list_all td_tagged (disks_of ds vmid) \<and> status \<notin> {Some ''warn'', Some ''crit''})) \<and>
   ((\<exists>i. dget (guest_replication_states ds status) vmid = Some i \<and> gr_state i = ''red'') \<longleftrightarrow>
     (disks_of ds vmid \<noteq> [] \<and> \<not> list_ex td_tagged (disks_of ds vmid)))"
proof -
  have full: "length (filter td_tagged xs) = length xs \<longleftrightarrow> list_all td_tagged xs" for xs
    by (metis filter_True length_filter_less less_irrefl list_all_iff)
  have zero: "length (filter td_tagged xs) = 0 \<longleftrightarrow> \<not> list_ex td_tagged xs" for xs
    by (auto simp: filter_empty_conv list_ex_iff)
  have g: "dget (guest_replication_states ds status) vmid = (if disks_of ds vmid = [] then None else
      Some (let t = int (length (filter td_tagged (disks_of ds vmid))); n = int (length (disks_of ds vmid));
                lag = (status = Some ''warn'' \<or> status = Some ''crit'')
            in \<lparr>gr_state = (if t = 0 then ''red'' else if t \<noteq> n then ''yellow'' else if lag then ''yellow'' else ''green''),
                gr_reason = (if t = 0 then ''none'' else if t \<noteq> n then ''partial'' else if lag then ''lag'' else ''ok''),
                gr_tagged = t, gr_total = n\<rparr>))"
    unfolding guest_replication_states_def guest_replication_map_def Let_def dget_map_val count_disks_get
    by simp
  show ?thesis
    unfolding g using full [of "disks_of ds vmid"] zero [of "disks_of ds vmid"]
    by (cases "disks_of ds vmid = []") (auto simp: Let_def)
qed

text \<open>The schedule shown for a configuration can belong to another file: the marker is looked up
  as a substring, so the cron line of \<open>10.0.0.1.conf.alt\<close> is taken for the one of \<open>10.0.0.1.conf\<close>.\<close>

theorem get_cron_takes_foreign_line:
  "let run = (\<lambda>h c. cmd_ok ''5 * * * * bashclub-zsync -c /etc/bashclub/10.0.0.1.conf.alt'')
   in map_option cn_schedule (get_cron run (plain_host ''a'' ''b'') ''root@10.0.0.1'') = Some ''5 * * * *''"
  by code_simp

end
