(* ===== verification/Cache.thy ===== *)
theory Cache
  imports Prelude
begin

text \<open>
  \<open>app/cache.py\<close>: the cache of command results with a time to live. The module's globals are a
  record; every operation takes the time. The hit rate of \<open>stats\<close> is in tenths of a percent,
  rounded half to even as \<open>round\<close> does.
\<close>

type_synonym cache_key = "string \<times> string"

record 'r cache =
  ca_store :: "(cache_key, int \<times> 'r) dict"
  ca_hits :: nat
  ca_misses :: nat
  ca_writes :: nat
  ca_invalidations :: nat

definition cache_empty :: "'r cache" where
  "cache_empty = \<lparr>ca_store = [], ca_hits = 0, ca_misses = 0, ca_writes = 0, ca_invalidations = 0\<rparr>"

definition cache_get :: "int \<Rightarrow> string \<Rightarrow> string \<Rightarrow> 'r cache \<Rightarrow> 'r option \<times> 'r cache" where
  "cache_get now host_addr command c =
     (case dget (ca_store c) (host_addr, command) of
        None \<Rightarrow> (None, c\<lparr>ca_misses := ca_misses c + 1\<rparr>)
      | Some (expires_at, result) \<Rightarrow>
          if expires_at \<le> now
          then (None, c\<lparr>ca_store := dpop (host_addr, command) (ca_store c), ca_misses := ca_misses c + 1\<rparr>)
          else (Some result, c\<lparr>ca_hits := ca_hits c + 1\<rparr>))"

definition cache_set :: "int \<Rightarrow> string \<Rightarrow> string \<Rightarrow> 'r \<Rightarrow> int \<Rightarrow> 'r cache \<Rightarrow> 'r cache" where
  "cache_set now host_addr command result ttl c =
     (if ttl \<le> 0 then c
      else c\<lparr>ca_store := dset (host_addr, command) (now + ttl, result) (ca_store c), ca_writes := ca_writes c + 1\<rparr>)"

definition cache_invalidate_host :: "string \<Rightarrow> 'r cache \<Rightarrow> 'r cache" where
  "cache_invalidate_host host_addr c =
     (let keys = filter (\<lambda>k. fst k = host_addr) (dkeys (ca_store c))
      in c\<lparr>ca_store := fold dpop keys (ca_store c), ca_invalidations := ca_invalidations c + length keys\<rparr>)"

definition cache_invalidate_all :: "'r cache \<Rightarrow> 'r cache" where
  "cache_invalidate_all c = c\<lparr>ca_store := [], ca_invalidations := ca_invalidations c + length (ca_store c)\<rparr>"

record cache_stats =
  cs_entries :: nat
  cs_live :: nat
  cs_hits :: nat
  cs_misses :: nat
  cs_writes :: nat
  cs_invalidations :: nat
  cs_hit_rate_tenths :: nat

definition round_half_even :: "nat \<Rightarrow> nat \<Rightarrow> nat" where
  "round_half_even n d = (let q = n div d; r = n mod d
     in if 2 * r < d then q else if d < 2 * r then q + 1 else if even q then q else q + 1)"

definition cache_stats_of :: "int \<Rightarrow> 'r cache \<Rightarrow> cache_stats" where
  "cache_stats_of now c =
     (let total = ca_hits c + ca_misses c
      in \<lparr>cs_entries = length (ca_store c),
          cs_live = length (filter (\<lambda>(k, e). now < fst e) (ca_store c)),
          cs_hits = ca_hits c, cs_misses = ca_misses c, cs_writes = ca_writes c,
          cs_invalidations = ca_invalidations c,
          cs_hit_rate_tenths = (if total = 0 then 0 else round_half_even (ca_hits c * 1000) total)\<rparr>)"

section \<open>What a reader sees\<close>

definition cache_ok :: "'r cache \<Rightarrow> bool" where
  "cache_ok c = dinv (ca_store c)"

text \<open>The answer of a read at a time, without its bookkeeping.\<close>

definition cached :: "int \<Rightarrow> 'r cache \<Rightarrow> cache_key \<Rightarrow> 'r option" where
  "cached now c k = (case dget (ca_store c) k of None \<Rightarrow> None
     | Some (e, r) \<Rightarrow> if now < e then Some r else None)"

lemma cache_get_cached: "fst (cache_get now h cmd c) = cached now c (h, cmd)"
  by (auto simp: cache_get_def cached_def split: option.splits)

lemma cache_ok_ops [simp]:
  "cache_ok c \<Longrightarrow> cache_ok (snd (cache_get now h cmd c))"
  "cache_ok c \<Longrightarrow> cache_ok (cache_set now h cmd r ttl c)"
  "cache_ok c \<Longrightarrow> cache_ok (cache_invalidate_host h c)"
  "cache_ok (cache_invalidate_all c)"
  using dict_store.ok_fold_drop [of "ca_store c"]
  by (auto simp: cache_ok_def cache_get_def cache_set_def cache_invalidate_host_def Let_def
      cache_invalidate_all_def split: option.splits)

text \<open>Entries of one lifetime make the cache a store.\<close>

definition live_put :: "cache_key \<Rightarrow> int \<times> 'r \<Rightarrow> 'r cache \<Rightarrow> 'r cache" where
  "live_put k v c = c\<lparr>ca_store := dset k v (ca_store c)\<rparr>"

definition live_drop :: "cache_key \<Rightarrow> 'r cache \<Rightarrow> 'r cache" where
  "live_drop k c = c\<lparr>ca_store := dpop k (ca_store c)\<rparr>"

definition entry_of :: "'r cache \<Rightarrow> cache_key \<Rightarrow> (int \<times> 'r) option" where
  "entry_of c k = dget (ca_store c) k"

interpretation cache_store: kv_store entry_of live_put live_drop cache_ok
  by unfold_locales (simp_all add: entry_of_def live_put_def live_drop_def cache_ok_def)

lemma invalidate_host_entry:
  assumes "cache_ok c"
  shows "entry_of (cache_invalidate_host h c) k = (if fst k = h then None else entry_of c k)"
proof -
  have inv: "dinv (ca_store c)" using assms by (simp add: cache_ok_def)
  have "dget (ca_store c) k = None" if "fst k = h" "k \<notin> set (filter (\<lambda>k. fst k = h) (dkeys (ca_store c)))"
    using that by (cases "dget (ca_store c) k") (auto simp: set_dkeys)
  then show ?thesis
    unfolding entry_of_def cache_invalidate_host_def Let_def
    by (auto simp: dict_store.lookup_fold_drop [OF inv])
qed



end
