(* ===== verification/SshPool.thy ===== *)
theory SshPool
  imports Cache PyStr
begin

text \<open>
  The execution core of \<open>app/ssh_manager.py\<close>: one pooled connection per host and thread, reuse while
  it is young and alive, one transparent reconnect when a reused connection turns out dead, and
  the result cache in front. The network is a parameter: \<open>net\<close> says what opening a connection and
  running a command yield. Each such event has a number, so that the same call can fail the first
  time and succeed the second. The clock is read by number as well.
\<close>

definition SSH_CONN_IDLE_TTL :: int where "SSH_CONN_IDLE_TTL = 120"

text \<open>What one command yields on an open connection: a result (also after a command timeout), a dead
  connection, or an unexpected exception.\<close>

datatype exec_outcome = Done cmd_result | Stale string | Raised string

record 'c network =
  nw_connect :: "nat \<Rightarrow> host \<Rightarrow> string + 'c"
  nw_exec :: "nat \<Rightarrow> 'c \<Rightarrow> string \<Rightarrow> exec_outcome"
  nw_active :: "nat \<Rightarrow> 'c \<Rightarrow> bool"
  nw_clock :: "nat \<Rightarrow> int"

type_synonym conn_key = "string \<times> int \<times> string"

datatype net_event = Opened host | Executed string

record 'c ssh_state =
  ss_pool :: "(conn_key, 'c \<times> int) dict"
  ss_step :: nat
  ss_log :: "net_event list"

definition host_key :: "host \<Rightarrow> conn_key" where
  "host_key h = (ho_address h, ho_port h, ho_user h)"

text \<open>Every reading of the clock or the network takes the next number.\<close>

definition tick :: "'c ssh_state \<Rightarrow> 'c ssh_state" where
  "tick s = s\<lparr>ss_step := ss_step s + 1\<rparr>"

definition conn_reusable :: "'c network \<Rightarrow> nat \<Rightarrow> 'c \<Rightarrow> int \<Rightarrow> int \<Rightarrow> bool" where
  "conn_reusable net n client last_used now =
     (if now - last_used > SSH_CONN_IDLE_TTL then False else nw_active net n client)"

definition acquire :: "'c network \<Rightarrow> host \<Rightarrow> 'c ssh_state \<Rightarrow> (string + 'c \<times> bool) \<times> 'c ssh_state" where
  "acquire net h s0 =
     (let key = host_key h; now = nw_clock net (ss_step s0); s = tick s0
      in case dget (ss_pool s) key of
           Some (client, used) \<Rightarrow>
             if conn_reusable net (ss_step s) client used now then (Inr (client, True), s)
             else
               let s = s\<lparr>ss_pool := dpop key (ss_pool s)\<rparr>
               in (case nw_connect net (ss_step s) h of
                     Inl e \<Rightarrow> (Inl e, tick s)
                   | Inr c \<Rightarrow> (Inr (c, False), tick (s\<lparr>ss_pool := dset key (c, now) (ss_pool s),
                                                         ss_log := ss_log s @ [Opened h]\<rparr>)))
         | None \<Rightarrow>
             (case nw_connect net (ss_step s) h of
                Inl e \<Rightarrow> (Inl e, tick s)
              | Inr c \<Rightarrow> (Inr (c, False), tick (s\<lparr>ss_pool := dset key (c, now) (ss_pool s),
                                                    ss_log := ss_log s @ [Opened h]\<rparr>))))"

definition touch :: "'c network \<Rightarrow> host \<Rightarrow> 'c ssh_state \<Rightarrow> 'c ssh_state" where
  "touch net h s =
     (case dget (ss_pool s) (host_key h) of
        None \<Rightarrow> s
      | Some (client, used) \<Rightarrow>
          tick (s\<lparr>ss_pool := dset (host_key h) (client, nw_clock net (ss_step s)) (ss_pool s)\<rparr>))"

definition drop_conn :: "host \<Rightarrow> 'c ssh_state \<Rightarrow> 'c ssh_state" where
  "drop_conn h s = s\<lparr>ss_pool := dpop (host_key h) (ss_pool s)\<rparr>"

definition run_once :: "'c network \<Rightarrow> 'c \<Rightarrow> string \<Rightarrow> 'c ssh_state \<Rightarrow> exec_outcome \<times> 'c ssh_state" where
  "run_once net client command s =
     (nw_exec net (ss_step s) client command, tick (s\<lparr>ss_log := ss_log s @ [Executed command]\<rparr>))"

text \<open>The second attempt, on whatever connection \<open>acquire\<close> gives.\<close>

definition retry_exec :: "'c network \<Rightarrow> host \<Rightarrow> string \<Rightarrow> 'c ssh_state \<Rightarrow> cmd_result \<times> 'c ssh_state" where
  "retry_exec net h command s =
     (case acquire net h s of
        (Inl e, s1) \<Rightarrow> (cmd_fail e, s1)
      | (Inr (client, _), s1) \<Rightarrow>
          (case run_once net client command s1 of
             (Done r, s2) \<Rightarrow> (r, touch net h s2)
           | (Stale e, s2) \<Rightarrow> (cmd_fail e, drop_conn h s2)
           | (Raised e, s2) \<Rightarrow> (cmd_fail e, s2)))"

definition exec_pooled :: "'c network \<Rightarrow> host \<Rightarrow> string \<Rightarrow> 'c ssh_state \<Rightarrow> cmd_result \<times> 'c ssh_state" where
  "exec_pooled net h command s =
     (case acquire net h s of
        (Inl e, s1) \<Rightarrow> (cmd_fail e, s1)
      | (Inr (client, reused), s1) \<Rightarrow>
          (case run_once net client command s1 of
             (Done r, s2) \<Rightarrow> (r, touch net h s2)
           | (Stale e, s2) \<Rightarrow>
               if \<not> reused then (cmd_fail e, drop_conn h s2)
               else retry_exec net h command (drop_conn h s2)
           | (Raised e, s2) \<Rightarrow> (cmd_fail e, drop_conn h s2)))"

text \<open>One connection per command, nothing pooled: hosts with a password, and all hosts when the pool
  is switched off.\<close>

definition exec_direct :: "'c network \<Rightarrow> host \<Rightarrow> string \<Rightarrow> 'c ssh_state \<Rightarrow> cmd_result \<times> 'c ssh_state" where
  "exec_direct net h command s =
     (case nw_connect net (ss_step s) h of
        Inl e \<Rightarrow> (cmd_fail e, tick s)
      | Inr c \<Rightarrow>
          (case run_once net c command (tick (s\<lparr>ss_log := ss_log s @ [Opened h]\<rparr>)) of
             (Done r, s2) \<Rightarrow> (r, s2)
           | (Stale e, s2) \<Rightarrow> (cmd_fail e, s2)
           | (Raised e, s2) \<Rightarrow> (cmd_fail e, s2)))"

text \<open>\<open>run_command\<close>: the cache is read and written only with a time to live, and never for a host with
  a password; only successful results are stored.\<close>

definition run_command ::
  "'c network \<Rightarrow> host \<Rightarrow> string \<Rightarrow> int \<Rightarrow> 'c ssh_state \<times> cmd_result cache \<Rightarrow>
   cmd_result \<times> 'c ssh_state \<times> cmd_result cache" where
  "run_command net h command cache_ttl st =
     (case st of (s, ca) \<Rightarrow>
        if ho_password h \<noteq> [] then (case exec_direct net h command s of (r, s1) \<Rightarrow> (r, s1, ca))
        else
          let (hit, ca1, s1) =
                (if cache_ttl > 0
                 then (case cache_get (nw_clock net (ss_step s)) (ho_address h) command ca of (v, c) \<Rightarrow> (v, c, tick s))
                 else (None, ca, s))
          in case hit of
               Some r \<Rightarrow> (r, s1, ca1)
             | None \<Rightarrow>
                 (case exec_pooled net h command s1 of
                    (r, s2) \<Rightarrow>
                      if cache_ttl > 0 \<and> cr_success r
                      then (r, tick s2, cache_set (nw_clock net (ss_step s2)) (ho_address h) command r cache_ttl ca1)
                      else (r, s2, ca1)))"

section \<open>How often a command runs\<close>

definition executions :: "'c ssh_state \<Rightarrow> nat" where
  "executions s = length (filter (\<lambda>e. case e of Executed c \<Rightarrow> True | Opened h \<Rightarrow> False) (ss_log s))"

lemma executions_simps [simp]:
  "executions (tick s) = executions s" "executions (drop_conn h s) = executions s"
  "executions (touch net h s) = executions s"
  "executions (s\<lparr>ss_log := ss_log s @ [Executed c]\<rparr>) = executions s + 1"
  "executions (s\<lparr>ss_log := ss_log s @ [Opened h]\<rparr>) = executions s"
  "executions (s\<lparr>ss_pool := p\<rparr>) = executions s"
  by (simp_all add: executions_def tick_def drop_conn_def touch_def split: option.splits prod.splits)

lemma acquire_executions: "acquire net h s = (r, s1) \<Longrightarrow> executions s1 = executions s"
  by (auto simp: acquire_def Let_def executions_def tick_def split: option.splits sum.splits if_splits)

lemma run_once_executions: "run_once net c cmd s = (r, s1) \<Longrightarrow> executions s1 = executions s + 1"
  by (auto simp: run_once_def)

lemma retry_executions: "executions (snd (retry_exec net h cmd s)) \<le> executions s + 1"
proof (cases "acquire net h s")
  case (Pair r s1)
  note a = acquire_executions [OF Pair]
  show ?thesis
  proof (cases r)
    case (Inl e)
    with Pair a show ?thesis by (simp add: retry_exec_def)
  next
    case (Inr cr)
    obtain out s2 where ro: "run_once net (fst cr) cmd s1 = (out, s2)" by (cases "run_once net (fst cr) cmd s1")
    with run_once_executions [OF ro] Pair Inr a show ?thesis
      by (cases out) (auto simp: retry_exec_def split: prod.splits)
  qed
qed

text \<open>C9: A command is sent at most twice, and a second time only if the first attempt used a pooled
  connection that turned out to be dead: a command that timed out, failed or was sent on a fresh
  connection is never repeated.\<close>

theorem at_most_one_retry:
  "executions (snd (exec_pooled net h cmd s)) \<le> executions s + 2 \<and>
   (executions s + 1 < executions (snd (exec_pooled net h cmd s)) \<longrightarrow>
      (\<exists>client s1 s2 e. acquire net h s = (Inr (client, True), s1) \<and> run_once net client cmd s1 = (Stale e, s2)))"
proof (cases "acquire net h s")
  case (Pair r s1)
  note a = acquire_executions [OF Pair]
  show ?thesis
  proof (cases r)
    case (Inl e)
    with Pair a show ?thesis by (simp add: exec_pooled_def)
  next
    case (Inr cr)
    obtain client reused where cr: "cr = (client, reused)" by (cases cr)
    obtain out s2 where ro: "run_once net client cmd s1 = (out, s2)" by (cases "run_once net client cmd s1")
    note b = run_once_executions [OF ro]
    show ?thesis
    proof (cases "\<exists>e. out = Stale e \<and> reused")
      case True
      then obtain e where e: "out = Stale e" "reused" by blast
      have "executions (snd (exec_pooled net h cmd s)) \<le> executions s + 2"
        using retry_executions [of net h cmd "drop_conn h s2"] Pair Inr cr ro e a b
        by (simp add: exec_pooled_def)
      with Pair Inr cr ro e show ?thesis by auto
    next
      case False
      then have "executions (snd (exec_pooled net h cmd s)) = executions s + 1"
        using Pair Inr cr ro a b by (cases out) (auto simp: exec_pooled_def)
      then show ?thesis by simp
    qed
  qed
qed

text \<open>With a time to live, the answer is a live cache entry for the same host and command, without
  anything being sent, or the fresh result of the pool; a failed result leaves no new entry behind;
  a host with a password neither reads nor writes the cache nor the pool.\<close>

theorem run_command_cache:
  assumes "run_command net h cmd ttl (s, ca) = (r, s1, ca1)"
  shows "(ho_password h \<noteq> [] \<longrightarrow> ca1 = ca \<and> ss_pool s1 = ss_pool s) \<and>
    (ho_password h = [] \<and> 0 < ttl \<longrightarrow>
       (case cached (nw_clock net (ss_step s)) ca (ho_address h, cmd) of
          Some v \<Rightarrow> r = v \<and> ss_log s1 = ss_log s
        | None \<Rightarrow> r = fst (exec_pooled net h cmd (tick s)))) \<and>
    (\<not> cr_success r \<longrightarrow> (\<forall>k t. cached t ca1 k = None \<or> cached t ca1 k = cached t ca k))"
proof (cases "ho_password h = []")
  case False
  have p: "ss_pool (snd (exec_direct net h cmd s)) = ss_pool s"
    by (auto simp: exec_direct_def run_once_def tick_def split: sum.splits exec_outcome.splits prod.splits)
  from False assms have "s1 = snd (exec_direct net h cmd s)" "ca1 = ca"
    by (auto simp: run_command_def split: prod.splits)
  with p False show ?thesis by simp
next
  case True
  let ?now = "nw_clock net (ss_step s)"
  obtain hit c1 where cg: "cache_get ?now (ho_address h) cmd ca = (hit, c1)"
    by (cases "cache_get ?now (ho_address h) cmd ca")
  have hit: "cached ?now ca (ho_address h, cmd) = hit" using cache_get_cached [of ?now "ho_address h" cmd ca] cg by simp
  have drop: "cached t c1 k = None \<or> cached t c1 k = cached t ca k" for t k
    using cg by (auto simp: cached_def cache_get_def split: option.splits if_splits)
  show ?thesis
  proof (cases "0 < ttl")
    case ttl: False
    with True assms have "ca1 = ca" by (auto simp: run_command_def split: prod.splits)
    with True ttl show ?thesis by simp
  next
    case ttl: True
    obtain x s2 where e: "exec_pooled net h cmd (tick s) = (x, s2)" by (cases "exec_pooled net h cmd (tick s)")
    show ?thesis
    proof (cases hit)
      case (Some v)
      with True ttl assms cg have "r = v" "s1 = tick s" "ca1 = c1" by (auto simp: run_command_def)
      with True ttl Some hit drop show ?thesis by (simp add: tick_def)
    next
      case None
      with True ttl assms cg e have "r = x" "\<not> cr_success r \<longrightarrow> ca1 = c1"
        by (auto simp: run_command_def split: if_splits)
      with True ttl None hit drop e show ?thesis by simp
    qed
  qed
qed

definition ex_net :: "nat network" where
  "ex_net = \<lparr>nw_connect = (\<lambda>n h. Inr n), nw_exec = (\<lambda>n c cmd. if n = 3 then Stale ''eof'' else Done (cmd_ok ''out'')),
     nw_active = (\<lambda>n c. True), nw_clock = (\<lambda>n. int n)\<rparr>"

definition ex_ssh :: "nat ssh_state" where
  "ex_ssh = \<lparr>ss_pool = [], ss_step = 0, ss_log = []\<rparr>"

theorem run_command_cache_witness:
  "case run_command ex_net (plain_host ''a'' ''10.0.0.1'') ''ls'' 60 (ex_ssh, cache_empty) of (r, s1, ca1) \<Rightarrow>
     r = fst (exec_pooled ex_net (plain_host ''a'' ''10.0.0.1'') ''ls'' (tick ex_ssh)) \<and> executions s1 = 1"
proof -
  let ?h = "plain_host ''a'' ''10.0.0.1''"
  obtain r s1 ca1 where e: "run_command ex_net ?h ''ls'' 60 (ex_ssh, cache_empty) = (r, s1, ca1)"
    by (cases "run_command ex_net ?h ''ls'' 60 (ex_ssh, cache_empty)")
  have "executions (fst (snd (run_command ex_net ?h ''ls'' 60 (ex_ssh, cache_empty)))) = 1" by code_simp
  moreover have "cached (nw_clock ex_net (ss_step ex_ssh)) (cache_empty :: cmd_result cache) (ho_address ?h, ''ls'') = None"
    by (simp add: cached_def cache_empty_def)
  moreover have "ho_password ?h = []" by (simp add: plain_host_def)
  ultimately show ?thesis using run_command_cache [OF e] e by simp
qed

text \<open>A connection that dies under the second command is replaced once and the command repeated.\<close>

definition ex_net2 :: "nat network" where
  "ex_net2 = ex_net\<lparr>nw_exec := (\<lambda>n c cmd. if n = 5 then Stale ''eof'' else Done (cmd_ok ''out''))\<rparr>"

definition ex_ssh2 :: "nat ssh_state" where
  "ex_ssh2 = snd (exec_pooled ex_net (plain_host ''a'' ''10.0.0.1'') ''ls'' ex_ssh)"

lemma retry_example:
  "cr_success (fst (exec_pooled ex_net2 (plain_host ''a'' ''10.0.0.1'') ''ls'' ex_ssh2))"
  "executions ex_ssh2 + 1 < executions (snd (exec_pooled ex_net2 (plain_host ''a'' ''10.0.0.1'') ''ls'' ex_ssh2))"
  by code_simp+

theorem at_most_one_retry_witness:
  "\<exists>client s1 s2 e. acquire ex_net2 (plain_host ''a'' ''10.0.0.1'') ex_ssh2 = (Inr (client, True), s1) \<and>
     run_once ex_net2 client ''ls'' s1 = (Stale e, s2)"
  by (rule mp [OF conjunct2 [OF at_most_one_retry] retry_example(2)])

end
