(* ===== verification/HostIdentity.thy ===== *)
theory HostIdentity
  imports PyRegex Prelude
begin

text \<open>
  \<open>app/host_identity.py\<close>: which Proxmox product a probe found and whether the host may be
  registered. The probe's output is parsed into a dictionary of fields; \<open>None\<close> is an absent field.
\<close>

definition ROLE_PVE :: string where "ROLE_PVE = ''pve''"
definition ROLE_PBS :: string where "ROLE_PBS = ''pbs''"
definition ROLE_BOTH :: string where "ROLE_BOTH = ''pve+pbs''"
definition ROLE_UNKNOWN :: string where "ROLE_UNKNOWN = ''unknown''"

definition PVE_MARKERS :: "string list" where "PVE_MARKERS = [''PVE_BIN'', ''PVE_DIR'', ''PVE_PKG'']"
definition PBS_MARKERS :: "string list" where "PBS_MARKERS = [''PBS_BIN'', ''PBS_DIR'', ''PBS_PKG'']"

section \<open>The probe's lines\<close>

definition key_char :: "char \<Rightarrow> bool" where
  "key_char c = (is_upper c \<or> is_digit c \<or> c = CHR ''_'')"

text \<open>The empty match before a key that does not follow a capital or an underscore.\<close>

definition GLUED_FIELD :: re where
  "GLUED_FIELD = Seq (NotBehind (\<lambda>c. is_upper c \<or> c = CHR ''_''))
     (Ahead (seqs [Ch is_upper, Ch key_char, Ch key_char, Star (Ch key_char), chr CHR ''='']))"

text \<open>\<open>re.split\<close> at empty matches: \<open>b\<close> is the text before the position, \<open>cur\<close> the open piece, both
  reversed.\<close>

fun split_empty :: "re \<Rightarrow> string \<Rightarrow> string \<Rightarrow> string \<Rightarrow> string list" where
  "split_empty r b cur [] = [rev cur]"
| "split_empty r b cur (c # s) =
     (if steps r (b, c # s, []) \<noteq> [] then rev cur # split_empty r (c # b) [c] s
      else split_empty r (c # b) (c # cur) s)"

definition glued_split :: "string \<Rightarrow> string list" where
  "glued_split s = split_empty GLUED_FIELD [] [] s"

definition field_of :: "string \<Rightarrow> (string \<times> string) option" where
  "field_of line0 = (let line = strip line0
     in case split_once CHR ''='' line of
          None \<Rightarrow> None
        | Some (key, val) \<Rightarrow> if strip key = [] then None else Some (strip key, strip val))"

definition parse_lines :: "string \<Rightarrow> (string, string) dict" where
  "parse_lines stdout =
     fold (\<lambda>(k, v). dset k v)
       (List.map_filter field_of (concat (map (\<lambda>raw. glued_split (strip raw)) (splitlines stdout)))) []"

definition PVE_MANAGER_RE :: re where
  "PVE_MANAGER_RE = Seq (lit ''pve-manager/'')
     (Grp 1 (Seq (Ch is_digit) (Star (Ch (\<lambda>c. c \<noteq> CHR ''/'' \<and> \<not> is_space c)))))"

definition short_pve_version :: "string option \<Rightarrow> string option" where
  "short_pve_version raw =
     (case raw of
        None \<Rightarrow> None
      | Some s \<Rightarrow>
          if s = [] then None
          else case re_search PVE_MANAGER_RE s of Some m \<Rightarrow> Some (group_str 1 m) | None \<Rightarrow> Some s)"

definition PKG_VERSION_RE :: re where
  "PKG_VERSION_RE = Seq (opt (Seq (plus (Ch is_digit)) (chr CHR '':'')))
     (Grp 1 (Seq (Ch is_digit) (Star (Ch (\<lambda>c. is_digit c \<or> c = CHR ''.'')))))"

definition short_pkg_version :: "string option \<Rightarrow> string option" where
  "short_pkg_version raw =
     (case raw of
        None \<Rightarrow> None
      | Some s \<Rightarrow>
          if s = [] then None
          else case re_match PKG_VERSION_RE (strip s) of
                 Some m \<Rightarrow> Some (group_str 1 m) | None \<Rightarrow> Some (strip s))"

section \<open>Classification\<close>

text \<open>A field that is there and not empty.\<close>

definition field_set :: "(string, string) dict \<Rightarrow> string \<Rightarrow> bool" where
  "field_set flds k = (case dget flds k of None \<Rightarrow> False | Some v \<Rightarrow> v \<noteq> [])"

definition classify :: "(string, string) dict \<Rightarrow> string \<times> bool \<times> bool" where
  "classify flds =
     (let pve = list_ex (field_set flds) PVE_MARKERS; pbs = list_ex (field_set flds) PBS_MARKERS
      in (if pve \<and> pbs then ROLE_BOTH else if pve then ROLE_PVE else if pbs then ROLE_PBS else ROLE_UNKNOWN,
          pve, pbs))"

record identity =
  id_reachable :: bool
  id_role :: string
  id_pve :: bool
  id_pbs :: bool
  id_pve_version :: "string option"
  id_pbs_version :: "string option"
  id_pve_version_raw :: "string option"
  id_pbs_version_raw :: "string option"
  id_hostname :: "string option"
  id_os :: "string option"
  id_has_datastore_cfg :: bool
  id_backup_client :: bool
  id_markers :: "string list"
  id_checked :: int
  id_error :: "string option"

definition truthy_or :: "string option \<Rightarrow> string option \<Rightarrow> string option" where
  "truthy_or a b = (case a of Some s \<Rightarrow> if s \<noteq> [] then a else b | None \<Rightarrow> b)"

definition identity_of_fields :: "(string, string) dict \<Rightarrow> identity" where
  "identity_of_fields flds =
     (let reachable = field_set flds ''PROBE_OK''; (role, pve, pbs) = classify flds;
          pve_version = truthy_or (short_pve_version (dget flds ''PVE_VERSION''))
                          (short_pkg_version (dget flds ''PVE_PKG''))
      in \<lparr>id_reachable = reachable,
          id_role = (if reachable then role else ROLE_UNKNOWN),
          id_pve = (reachable \<and> pve), id_pbs = (reachable \<and> pbs),
          id_pve_version = (if reachable then pve_version else None),
          id_pbs_version = (if reachable then short_pkg_version (dget flds ''PBS_PKG'') else None),
          id_pve_version_raw = dget flds ''PVE_VERSION'', id_pbs_version_raw = dget flds ''PBS_PKG'',
          id_hostname = dget flds ''HOSTNAME'', id_os = dget flds ''OS'',
          id_has_datastore_cfg = field_set flds ''PBS_DATASTORE_CFG'',
          id_backup_client = field_set flds ''PBS_CLIENT'',
          id_markers = sort (filter (\<lambda>k. k \<noteq> ''PROBE_OK'' \<and> field_set flds k) (dkeys flds)),
          id_checked = 0, id_error = None\<rparr>)"

definition parse_identity :: "string \<Rightarrow> identity" where
  "parse_identity stdout = identity_of_fields (parse_lines stdout)"

text \<open>\<open>r\<close> is the result of the probe command.\<close>

definition detect :: "cmd_result \<Rightarrow> int \<Rightarrow> identity" where
  "detect r now =
     (let identity = (parse_identity (cr_stdout r))\<lparr>id_checked := now\<rparr>
      in if \<not> id_reachable identity
         then let err = (if strip (cr_stderr r) \<noteq> [] then strip (cr_stderr r) else ''no answer from host'')
           in identity\<lparr>id_error := Some (take 300 (hd (splitlines err)))\<rparr>
         else identity\<lparr>id_error := None\<rparr>)"

record persisted =
  ps_role :: string
  ps_pve_version :: "string option"
  ps_pbs_version :: "string option"
  ps_checked :: int

definition persisted_fields :: "identity \<Rightarrow> int \<Rightarrow> persisted" where
  "persisted_fields i now = \<lparr>ps_role = id_role i, ps_pve_version = id_pve_version i,
     ps_pbs_version = id_pbs_version i, ps_checked = (if id_checked i \<noteq> 0 then id_checked i else now)\<rparr>"

definition is_proxmox :: "identity \<Rightarrow> bool" where
  "is_proxmox i = (id_role i \<in> {ROLE_PVE, ROLE_PBS, ROLE_BOTH})"

definition is_supported :: "identity \<Rightarrow> bool" where
  "is_supported i = (id_role i \<in> {ROLE_PVE, ROLE_BOTH})"

definition admission :: "identity \<Rightarrow> bool \<Rightarrow> bool \<times> string option" where
  "admission i force =
     (if id_reachable i \<and> id_role i = ROLE_PBS then (False, Some ''pbs_only'')
      else if is_supported i then (True, None)
      else if id_reachable i then (False, Some ''not_proxmox'')
      else if force then (True, None) else (False, Some ''unverified''))"

section \<open>The policy\<close>

lemmas role_names = ROLE_PVE_def ROLE_PBS_def ROLE_BOTH_def ROLE_UNKNOWN_def

lemma classified:
  "\<exists>role pve pbs. classify f = (role, pve, pbs) \<and> pve = list_ex (field_set f) PVE_MARKERS \<and>
     (role \<in> {ROLE_PVE, ROLE_BOTH} \<longleftrightarrow> pve) \<and> role \<in> {ROLE_PVE, ROLE_PBS, ROLE_BOTH, ROLE_UNKNOWN}"
  by (simp add: classify_def Let_def role_names)

lemma identity_reachable: "id_reachable (identity_of_fields f) = field_set f ''PROBE_OK''"
  by (simp add: identity_of_fields_def Let_def split: prod.splits)

lemma identity_role: "id_role (identity_of_fields f) = (if field_set f ''PROBE_OK'' then fst (classify f) else ROLE_UNKNOWN)"
  by (simp add: identity_of_fields_def Let_def split: prod.splits)

lemma detect_eqs:
  "id_reachable (detect r now) = field_set (parse_lines (cr_stdout r)) ''PROBE_OK''"
  "id_role (detect r now) = (if field_set (parse_lines (cr_stdout r)) ''PROBE_OK''
     then fst (classify (parse_lines (cr_stdout r))) else ROLE_UNKNOWN)"
  by (simp_all add: detect_def Let_def parse_identity_def identity_reachable identity_role)

text \<open>A host whose probe ran to its end is admitted exactly when it shows a PVE marker, whether or
  not the admission is forced: a standalone backup server and a machine without Proxmox never get
  in. A host that could not be asked gets in exactly when forced, and then with the role unknown.\<close>

theorem admission_policy:
  "if field_set (parse_lines (cr_stdout r)) ''PROBE_OK''
   then fst (admission (detect r now) force) = list_ex (field_set (parse_lines (cr_stdout r))) PVE_MARKERS
   else fst (admission (detect r now) force) = force \<and> id_role (detect r now) = ROLE_UNKNOWN"
  using classified [of "parse_lines (cr_stdout r)"]
  by (elim exE conjE) (simp add: admission_def detect_eqs is_supported_def; force simp: role_names)

text \<open>The backup client is no evidence of a backup server, and neither is any other field outside the
  two marker lists.\<close>

lemma field_set_other: "k \<notin> set M \<Longrightarrow> list_ex (field_set (dset k v f)) M = list_ex (field_set f) M"
  by (induction M) (auto simp: field_set_def)

lemma classify_markers_only:
  assumes "k \<notin> set PVE_MARKERS" and "k \<notin> set PBS_MARKERS"
  shows "classify (dset k v f) = classify f"
  unfolding classify_def field_set_other [OF assms(1)] field_set_other [OF assms(2)] by (rule refl)

text \<open>Two fields glued to one line by a command without a final newline are both read.\<close>

lemma glued_fields_read:
  "parse_lines ''PVE_PKG=8.2.4-1PBS_PKG=3.2.7-1'' = [(''PVE_PKG'', ''8.2.4-1''), (''PBS_PKG'', ''3.2.7-1'')]"
  by code_simp

end
