(* ===== verification/Wol.thy ===== *)
theory Wol
  imports PyRegex Prelude
begin

text \<open>
  \<open>app/wol.py\<close>: MAC addresses, the magic packet, and waking a host by a local broadcast and through
  every other host. Bytes are integers; \<open>run\<close> is \<open>run_command\<close>, \<open>local_ok\<close> says whether the local
  socket could send. \<open>hosts.json\<close> is a list of hosts with their stored address (None: no key).
\<close>

definition WOL_PORT :: int where "WOL_PORT = 9"

definition is_hex :: "char \<Rightarrow> bool" where
  "is_hex c = (is_digit c \<or> (97 \<le> cc c \<and> cc c \<le> 102) \<or> (65 \<le> cc c \<and> cc c \<le> 70))"

definition HEX_PAIR_SEP :: re where
  "HEX_PAIR_SEP = Grp 1 (seqs [Ch is_hex, Ch is_hex, Ch (one_of '':-'')])"

definition MAC_RE :: re where
  "MAC_RE = Seq Bol (Seq (times 5 HEX_PAIR_SEP) (seqs [Ch is_hex, Ch is_hex, Eol]))"

definition parse_mac :: "string \<Rightarrow> string option" where
  "parse_mac mac =
     (let m = strip mac
      in if \<not> re_test MAC_RE m then None
         else Some (lower_str (map (\<lambda>c. if c = CHR ''-'' then CHR '':'' else c) m)))"

definition hex_val :: "char \<Rightarrow> int" where
  "hex_val c = (let n = cc c in if is_digit c then n - 48 else if n \<ge> 97 then n - 87 else n - 55)"

fun from_hex :: "string \<Rightarrow> int list" where
  "from_hex (a # b # s) = (hex_val a * 16 + hex_val b) # from_hex s"
| "from_hex _ = []"

definition build_magic_packet :: "string \<Rightarrow> int list option" where
  "build_magic_packet mac =
     (case parse_mac mac of
        None \<Rightarrow> None
      | Some norm \<Rightarrow>
          let mac_bytes = from_hex (filter (\<lambda>c. c \<noteq> CHR '':'') norm)
          in Some (replicate 6 255 @ concat (replicate 16 mac_bytes)))"

definition parse_iface_for_ip :: "string \<Rightarrow> string \<Rightarrow> string option" where
  "parse_iface_for_ip out ip =
     map_option (\<lambda>parts. parts ! 1)
       (find (\<lambda>parts. 4 \<le> length parts \<and> parts ! 2 = ''inet'' \<and> starts_with (ip @ ''/'') (parts ! 3))
          (map split_ws (splitlines out)))"

record wol_host =
  wh_host :: host
  wh_mac :: "string option"

definition IFACE_RE :: re where
  "IFACE_RE = seqs [Bol, plus (Ch (\<lambda>c. is_alnum c \<or> one_of ''@._-'' c)), Eol]"

definition fetch_host_mac :: "(host \<Rightarrow> string \<Rightarrow> cmd_result) \<Rightarrow> host \<Rightarrow> string option" where
  "fetch_host_mac run host =
     (case parse_iface_for_ip (cr_stdout (run host ''ip -o -4 addr show 2>/dev/null'')) (ho_address host) of
        None \<Rightarrow> None
      | Some iface0 \<Rightarrow>
          if iface0 = [] \<or> \<not> re_test IFACE_RE iface0 then None
          else
            let iface = takeWhile (\<lambda>c. c \<noteq> CHR ''@'') iface0;
                r = run host (''cat /sys/class/net/'' @ iface @ ''/address 2>/dev/null'')
            in parse_mac (strip (cr_stdout r)))"

fun store_mac :: "string \<Rightarrow> string \<Rightarrow> wol_host list \<Rightarrow> wol_host list" where
  "store_mac addr mac [] = []"
| "store_mac addr mac (e # es) =
     (if ho_address (wh_host e) = addr then e\<lparr>wh_mac := Some mac\<rparr> # es else e # store_mac addr mac es)"

definition has_mac :: "wol_host \<Rightarrow> bool" where
  "has_mac h = (case wh_mac h of None \<Rightarrow> False | Some m \<Rightarrow> m \<noteq> [])"

text \<open>The new \<open>hosts.json\<close>.\<close>

definition ensure_host_mac :: "(host \<Rightarrow> string \<Rightarrow> cmd_result) \<Rightarrow> wol_host \<Rightarrow> wol_host list \<Rightarrow> wol_host list" where
  "ensure_host_mac run h hosts =
     (if has_mac h then hosts
      else case fetch_host_mac run (wh_host h) of
             None \<Rightarrow> hosts
           | Some mac \<Rightarrow> if mac = [] then hosts else store_mac (ho_address (wh_host h)) mac hosts)"

definition send_wol_local :: "bool \<Rightarrow> string \<Rightarrow> bool" where
  "send_wol_local local_ok mac = (case build_magic_packet mac of None \<Rightarrow> False | Some p \<Rightarrow> local_ok)"

definition wol_script :: "string \<Rightarrow> string" where
  "wol_script hexmac = join [newline]
     [''import socket'',
      ''p = b'' @ [CHR 0x27, CHR 0x5C] @ ''xff'' @ [CHR 0x27] @ ''*6 + bytes.fromhex('' @ [CHR 0x27] @ hexmac @ [CHR 0x27] @ '')*16'',
      ''s = socket.socket(socket.AF_INET, socket.SOCK_DGRAM)'',
      ''s.setsockopt(socket.SOL_SOCKET, socket.SO_BROADCAST, 1)'',
      ''[s.sendto(p, ('' @ [CHR 0x27] @ ''255.255.255.255'' @ [CHR 0x27] @ '', '' @ show_int WOL_PORT @ '')) for _ in range(3)]'',
      ''print('' @ [CHR 0x27] @ ''__WOL_OK__'' @ [CHR 0x27] @ '')'', []]"

definition send_wol_via_host :: "(host \<Rightarrow> string \<Rightarrow> cmd_result) \<Rightarrow> host \<Rightarrow> string \<Rightarrow> bool" where
  "send_wol_via_host run relay mac =
     (case parse_mac mac of
        None \<Rightarrow> False
      | Some norm \<Rightarrow>
          contains_str ''__WOL_OK__'' (cr_stdout (run relay (''python3 - <<'' @ [CHR 0x27] @ ''__EOF__'' @ [CHR 0x27]
            @ [newline] @ wol_script (filter (\<lambda>c. c \<noteq> CHR '':'') norm) @ ''__EOF__''))))"

record wake_result =
  wk_success :: bool
  wk_mac :: string
  wk_sent_local :: bool
  wk_relays :: "(string \<times> bool) list"
  wk_error :: string

definition wake_failed :: "string \<Rightarrow> wake_result" where
  "wake_failed e = \<lparr>wk_success = False, wk_mac = [], wk_sent_local = False, wk_relays = [], wk_error = e\<rparr>"

definition wake :: "(host \<Rightarrow> string \<Rightarrow> cmd_result) \<Rightarrow> bool \<Rightarrow> wol_host list \<Rightarrow> string \<Rightarrow> wake_result" where
  "wake run local_ok hosts address =
     (case find (\<lambda>x. ho_address (wh_host x) = address) hosts of
        None \<Rightarrow> wake_failed ''host not found''
      | Some target \<Rightarrow>
          (case parse_mac (case wh_mac target of None \<Rightarrow> [] | Some m \<Rightarrow> m) of
             None \<Rightarrow> wake_failed ''no MAC known for this host yet (it is captured automatically while the host is online)''
           | Some mac \<Rightarrow>
               let sent_local = send_wol_local local_ok mac;
                   relays = map (\<lambda>x. (ho_address (wh_host x), send_wol_via_host run (wh_host x) mac))
                     (filter (\<lambda>x. ho_address (wh_host x) \<noteq> address) hosts);
                   any_sent = (sent_local \<or> list_ex snd relays)
               in \<lparr>wk_success = any_sent, wk_mac = mac, wk_sent_local = sent_local, wk_relays = relays,
                   wk_error = (if any_sent then [] else ''no send path succeeded'')\<rparr>))"

section \<open>Addresses\<close>

text \<open>What the pattern accepts: six pairs of hexadecimal digits with a colon or a dash between them.\<close>

fun mac_groups :: "nat \<Rightarrow> string \<Rightarrow> bool" where
  "mac_groups 0 (x # y # u) = (is_hex x \<and> is_hex y \<and> u \<in> {[], [newline]})"
| "mac_groups (Suc n) (x # y # z # u) =
     (is_hex x \<and> is_hex y \<and> z \<in> {CHR '':'', CHR ''-''} \<and> mac_groups n u)"
| "mac_groups _ _ = False"

lemma hex_sep: "t \<in> set (steps HEX_PAIR_SEP (b, s, g)) \<longleftrightarrow>
   (\<exists>x y z u. s = x # y # z # u \<and> is_hex x \<and> is_hex y \<and> z \<in> {CHR '':'', CHR ''-''} \<and>
      t = (z # y # x # b, u, (1, [x, y, z]) # g))"
  by (cases s; cases "tl s"; cases "tl (tl s)") (auto simp: one_of_def HEX_PAIR_SEP_def)

lemma mac_groups_steps:
  "(\<exists>t \<in> set (steps (times n HEX_PAIR_SEP) (b, s, g)). steps (seqs [Ch is_hex, Ch is_hex, Eol]) t \<noteq> [])
     \<longleftrightarrow> mac_groups n s"
proof (induction n arbitrary: b s g)
  case 0
  show ?case
    by (cases s; cases "tl s"; cases "tl (tl s)"; cases "tl (tl (tl s))") auto
next
  case (Suc n)
  have "(\<exists>t \<in> set (steps (times (Suc n) HEX_PAIR_SEP) (b, s, g)). steps (seqs [Ch is_hex, Ch is_hex, Eol]) t \<noteq> [])
    \<longleftrightarrow> (\<exists>w \<in> set (steps HEX_PAIR_SEP (b, s, g)). \<exists>t \<in> set (steps (times n HEX_PAIR_SEP) w).
          steps (seqs [Ch is_hex, Ch is_hex, Eol]) t \<noteq> [])"
    unfolding times.simps steps.simps(3) set_concat set_map by blast
  also have "\<dots> \<longleftrightarrow> (\<exists>x y z u. s = x # y # z # u \<and> is_hex x \<and> is_hex y \<and> z \<in> {CHR '':'', CHR ''-''} \<and>
      mac_groups n u)"
    unfolding Bex_def hex_sep using Suc.IH unfolding Bex_def by metis
  also have "\<dots> \<longleftrightarrow> mac_groups (Suc n) s"
    by (cases s; cases "tl s"; cases "tl (tl s)") auto
  finally show ?case .
qed

section \<open>The packet\<close>

lemma mac_test: "re_test MAC_RE s \<longleftrightarrow> mac_groups 5 s"
proof -
  have "steps MAC_RE ([], s, []) \<noteq> [] \<longleftrightarrow>
    (\<exists>t \<in> set (steps (times 5 HEX_PAIR_SEP) ([], s, [])). steps (seqs [Ch is_hex, Ch is_hex, Eol]) t \<noteq> [])"
    unfolding MAC_RE_def steps.simps(3,8) by (auto simp del: seqs.simps)
  then show ?thesis
    unfolding re_test_def mac_groups_steps .
qed

text \<open>A byte written as two lower-case digits, and an address as its bytes joined by colons.\<close>

definition hex_char_of :: "int \<Rightarrow> char" where
  "hex_char_of d = (if d < 10 then char_of (48 + d) else char_of (87 + d))"

definition hex_byte :: "int \<Rightarrow> string" where
  "hex_byte b = [hex_char_of (b div 16), hex_char_of (b mod 16)]"

definition show_mac :: "int list \<Rightarrow> string" where
  "show_mac bytes = join '':'' (map hex_byte bytes)"

definition dash_to_colon :: "char \<Rightarrow> char" where
  "dash_to_colon c = (if c = CHR ''-'' then CHR '':'' else c)"

lemma is_hex_set: "is_hex x \<longleftrightarrow> x \<in> set ''0123456789abcdefABCDEF''"
proof
  assume "is_hex x"
  moreover have "n = 48 \<or> n = 49 \<or> n = 50 \<or> n = 51 \<or> n = 52 \<or> n = 53 \<or> n = 54 \<or> n = 55 \<or> n = 56 \<or> n = 57"
    if "48 \<le> n" "n \<le> 57" for n :: int
    using that by presburger
  moreover have "n = 97 \<or> n = 98 \<or> n = 99 \<or> n = 100 \<or> n = 101 \<or> n = 102" if "97 \<le> n" "n \<le> 102" for n :: int
    using that by presburger
  moreover have "n = 65 \<or> n = 66 \<or> n = 67 \<or> n = 68 \<or> n = 69 \<or> n = 70" if "65 \<le> n" "n \<le> 70" for n :: int
    using that by presburger
  ultimately have "cc x \<in> {48, 49, 50, 51, 52, 53, 54, 55, 56, 57, 97, 98, 99, 100, 101, 102, 65, 66, 67, 68, 69, 70}"
    unfolding is_hex_def is_digit_def insert_iff empty_iff by blast
  moreover have "x = char_of (cc x)" by (simp add: cc_def)
  ultimately show "x \<in> set ''0123456789abcdefABCDEF''" by (auto simp: char_of_def)
qed (auto simp: is_hex_def is_digit_def cc_def)

lemma hex_char_ok:
  "\<forall>x \<in> set ''0123456789abcdefABCDEF''.
     (let y = lower_char (dash_to_colon x) in
       0 \<le> hex_val y \<and> hex_val y \<le> 15 \<and> hex_char_of (hex_val y) = y \<and> y \<noteq> CHR '':'' \<and>
       is_hex y \<and> \<not> is_space y)"
  by code_simp

lemma hex_char:
  assumes "is_hex x"
  shows "0 \<le> hex_val (lower_char (dash_to_colon x)) \<and> hex_val (lower_char (dash_to_colon x)) \<le> 15 \<and>
    hex_char_of (hex_val (lower_char (dash_to_colon x))) = lower_char (dash_to_colon x) \<and>
    lower_char (dash_to_colon x) \<noteq> CHR '':'' \<and>
    is_hex (lower_char (dash_to_colon x)) \<and> \<not> is_space (lower_char (dash_to_colon x))"
  using hex_char_ok assms unfolding is_hex_set Let_def by blast

lemma hex_pair:
  assumes "is_hex x" and "is_hex y"
  defines "a \<equiv> lower_char (dash_to_colon x)" and "b \<equiv> lower_char (dash_to_colon y)"
  shows "hex_val a * 16 + hex_val b \<in> {0..255}" and "hex_byte (hex_val a * 16 + hex_val b) = [a, b]"
    and "a \<noteq> CHR '':''" and "b \<noteq> CHR '':''"
proof -
  have v: "0 \<le> hex_val a" "hex_val a \<le> 15" "hex_char_of (hex_val a) = a" "a \<noteq> CHR '':''"
    "0 \<le> hex_val b" "hex_val b \<le> 15" "hex_char_of (hex_val b) = b" "b \<noteq> CHR '':''"
    using hex_char [OF assms(1)] hex_char [OF assms(2)] unfolding a_def b_def by blast+
  show "hex_val a * 16 + hex_val b \<in> {0..255}"
    unfolding atLeastAtMost_iff using v(1,2,5,6) by linarith
  show "a \<noteq> CHR '':''" "b \<noteq> CHR '':''" by (rule v(4), rule v(8))
  have "(hex_val a * 16 + hex_val b) div 16 = hex_val a" "(hex_val a * 16 + hex_val b) mod 16 = hex_val b"
    using v by presburger+
  then show "hex_byte (hex_val a * 16 + hex_val b) = [a, b]" using v by (simp add: hex_byte_def)
qed

lemma sep_char: "z \<in> {CHR '':'', CHR ''-''} \<Longrightarrow> lower_char (dash_to_colon z) = CHR '':''"
  by (auto simp: dash_to_colon_def lower_char_def is_upper_def cc_def Let_def)

lemma mac_groups_bytes:
  "mac_groups n s \<Longrightarrow> last s \<noteq> newline \<Longrightarrow>
   let m = map (\<lambda>c. lower_char (dash_to_colon c)) s; bytes = from_hex (filter (\<lambda>c. c \<noteq> CHR '':'') m)
   in length bytes = Suc n \<and> set bytes \<subseteq> {0..255} \<and> m = show_mac bytes"
proof (induction n s rule: mac_groups.induct)
  case (1 x y u)
  then have h: "is_hex x" "is_hex y" "u = []" by (auto split: if_splits)
  then show ?case using hex_pair [OF h(1,2)] by (simp add: Let_def show_mac_def)
next
  case (2 n x y z u)
  then have h: "is_hex x" "is_hex y" "z \<in> {CHR '':'', CHR ''-''}" "mac_groups n u" by auto
  have "u \<noteq> []" using h(4) by (cases n) auto
  then have l: "last u \<noteq> newline" using 2(3) by simp
  define m where "m = map (\<lambda>c. lower_char (dash_to_colon c)) u"
  define bs where "bs = from_hex (filter (\<lambda>c. c \<noteq> CHR '':'') m)"
  define a where "a = lower_char (dash_to_colon x)"
  define b where "b = lower_char (dash_to_colon y)"
  define v where "v = hex_val a * 16 + hex_val b"
  have ih: "length bs = Suc n" "set bs \<subseteq> {0..255}" "m = show_mac bs"
    using 2(1) [OF h(4) l] h by (simp_all add: Let_def m_def bs_def)
  have v: "v \<in> {0..255}" "hex_byte v = [a, b]" "a \<noteq> CHR '':''" "b \<noteq> CHR '':''"
    using hex_pair [OF h(1,2)] unfolding a_def b_def v_def by blast+
  have e: "map (\<lambda>c. lower_char (dash_to_colon c)) (x # y # z # u) = a # b # CHR '':'' # m"
    using sep_char [OF h(3)] by (simp add: a_def b_def m_def)
  have f: "from_hex (filter (\<lambda>c. c \<noteq> CHR '':'') (a # b # CHR '':'' # m)) = v # bs"
    using v(3,4) by (simp add: v_def bs_def)
  obtain w ws where "bs = w # ws" using ih(1) by (cases bs) auto
  then have "show_mac (v # bs) = a # b # CHR '':'' # show_mac bs" by (simp add: show_mac_def v(2))
  then show ?case unfolding Let_def e f using ih(1,2) v(1) unfolding ih(3) by simp
qed simp_all

lemma parse_mac_bytes:
  assumes "parse_mac mac = Some m"
  shows "let bytes = from_hex (filter (\<lambda>c. c \<noteq> CHR '':'') m)
         in length bytes = 6 \<and> set bytes \<subseteq> {0..255} \<and> m = show_mac bytes"
proof -
  have g: "mac_groups 5 (strip mac)" and m: "m = map (\<lambda>c. lower_char (dash_to_colon c)) (strip mac)"
    using assms by (auto simp: parse_mac_def Let_def mac_test lower_str_def dash_to_colon_def split: if_splits)
  have "strip mac \<noteq> []" using g by auto
  then have "\<not> is_space (last (strip mac))" by (rule strip_last)
  then have "last (strip mac) \<noteq> newline" by (auto simp: is_space_def newline_def cc_def)
  then show ?thesis using mac_groups_bytes [OF g] unfolding m Let_def by simp
qed

lemma mac_groups_norm:
  "mac_groups n s \<Longrightarrow> last s \<noteq> newline \<Longrightarrow>
   let m = map (\<lambda>c. lower_char (dash_to_colon c)) s
   in mac_groups n m \<and> m \<noteq> [] \<and> \<not> is_space (hd m) \<and> \<not> is_space (last m)"
proof (induction n s rule: mac_groups.induct)
  case (1 x y u)
  then have h: "is_hex x" "is_hex y" "u = []" by (auto split: if_splits)
  then show ?case using hex_char [OF h(1)] hex_char [OF h(2)] by (simp add: Let_def)
next
  case (2 n x y z u)
  then have h: "is_hex x" "is_hex y" "z \<in> {CHR '':'', CHR ''-''}" "mac_groups n u" by auto
  have "u \<noteq> []" using h(4) by (cases n) auto
  then have l: "last u \<noteq> newline" using 2(3) by simp
  show ?case using 2(1) [OF h(4) l] h hex_char [OF h(1)] hex_char [OF h(2)] sep_char [OF h(3)]
    by (simp add: Let_def)
qed simp_all

lemma parse_mac_again:
  assumes "parse_mac mac = Some m"
  shows "parse_mac m \<noteq> None"
proof -
  have g: "mac_groups 5 (strip mac)" and m: "m = map (\<lambda>c. lower_char (dash_to_colon c)) (strip mac)"
    using assms by (auto simp: parse_mac_def Let_def mac_test lower_str_def dash_to_colon_def split: if_splits)
  have "strip mac \<noteq> []" using g by auto
  then have "\<not> is_space (last (strip mac))" by (rule strip_last)
  then have "last (strip mac) \<noteq> newline" by (auto simp: is_space_def newline_def cc_def)
  from mac_groups_norm [OF g this] have n: "mac_groups 5 m" "m \<noteq> []" "\<not> is_space (hd m)" "\<not> is_space (last m)"
    unfolding m Let_def by blast+
  then show ?thesis by (simp add: parse_mac_def Let_def mac_test strip_id)
qed

text \<open>The magic packet of an address is six bytes 255 and then the six bytes of that address
  sixteen times: 102 bytes in all, and the address in the packet is the one the caller gave, in the
  normal form of \<open>parse_mac\<close>.\<close>

theorem magic_packet_layout:
  assumes "build_magic_packet mac = Some p"
  shows "\<exists>addr. parse_mac mac = Some (show_mac addr) \<and> length addr = 6 \<and> set addr \<subseteq> {0..255} \<and>
     p = replicate 6 255 @ concat (replicate 16 addr) \<and> length p = 102"
proof -
  obtain m where m: "parse_mac mac = Some m"
    and p: "p = replicate 6 255 @ concat (replicate 16 (from_hex (filter (\<lambda>c. c \<noteq> CHR '':'') m)))"
    using assms by (auto simp: build_magic_packet_def Let_def split: option.splits)
  define addr where "addr = from_hex (filter (\<lambda>c. c \<noteq> CHR '':'') m)"
  have a: "length addr = 6" "set addr \<subseteq> {0..255}" "m = show_mac addr"
    using parse_mac_bytes [OF m] by (simp_all add: addr_def Let_def)
  have p': "p = replicate 6 255 @ concat (replicate 16 addr)"
    using p by (simp only: addr_def)
  have "length p = 102" unfolding p' by (simp add: length_concat sum_list_replicate a(1))
  then show ?thesis using m a(1,2) p' unfolding a(3) by blast
qed

lemma magic_packet_layout_witness:
  "\<exists>addr. parse_mac ''52-54-00-AB-cd-EF'' = Some (show_mac addr) \<and> length addr = 6 \<and> set addr \<subseteq> {0..255} \<and>
     the (build_magic_packet ''52-54-00-AB-cd-EF'') = replicate 6 255 @ concat (replicate 16 addr) \<and>
     length (the (build_magic_packet ''52-54-00-AB-cd-EF'')) = 102"
proof (rule magic_packet_layout)
  have "build_magic_packet ''52-54-00-AB-cd-EF'' \<noteq> None" by code_simp
  then show "build_magic_packet ''52-54-00-AB-cd-EF'' = Some (the (build_magic_packet ''52-54-00-AB-cd-EF''))"
    by auto
qed

section \<open>Waking\<close>

text \<open>Waking succeeds exactly when the host is registered, its stored address is valid and at
  least one path sent the packet: the local socket, or a relay by a host at another address, whose
  answer shows the marker its script prints last. A host never relays its own packet.\<close>

theorem wake_success_exact:
  "wk_success (wake run local_ok hosts address) =
     (case find (\<lambda>x. ho_address (wh_host x) = address) hosts of
        None \<Rightarrow> False
      | Some t \<Rightarrow>
          (case parse_mac (case wh_mac t of None \<Rightarrow> [] | Some m \<Rightarrow> m) of
             None \<Rightarrow> False
           | Some mac \<Rightarrow> local_ok \<or> (\<exists>x \<in> set hosts. ho_address (wh_host x) \<noteq> address \<and>
                send_wol_via_host run (wh_host x) mac)))"
proof -
  have "parse_mac m = Some mac \<Longrightarrow> send_wol_local local_ok mac = local_ok" for m mac
    using parse_mac_again [of m mac] by (auto simp: send_wol_local_def build_magic_packet_def Let_def split: option.splits)
  then show ?thesis
    by (auto simp: wake_def wake_failed_def Let_def list_ex_iff split: option.splits)
qed

end
