(* ===== verification/HostRegistry.thy ===== *)
theory HostRegistry
  imports SshPool
begin

text \<open>
  The host registry and the trust rules of \<open>app/ssh_manager.py\<close>: \<open>hosts.json\<close> as a list of hosts and
  \<open>known_hosts\<close> as paramiko's \<open>HostKeys\<close>. Paramiko is not part of the program: the key list is of an
  arbitrary type and its operations are the fields of \<open>key_api\<close>; \<open>key_laws\<close> states what the program
  relies on. \<open>None\<close> stands for a \<open>known_hosts\<close> file that is not there or cannot be read.
\<close>

record ('s, 'k) key_api =
  ka_empty :: 's
  ka_names :: "'s \<Rightarrow> string list"
  ka_lookup :: "'s \<Rightarrow> string \<Rightarrow> bool"
  ka_add :: "string \<Rightarrow> 'k \<Rightarrow> 's \<Rightarrow> 's"
  ka_del :: "string \<Rightarrow> 's \<Rightarrow> 's"

record 's registry =
  rg_hosts :: "host list"
  rg_known :: "'s option"

definition registered :: "string \<Rightarrow> 's registry \<Rightarrow> bool" where
  "registered address st = list_ex (\<lambda>h. ho_address h = address) (rg_hosts st)"

definition known_hosts_name :: "string \<Rightarrow> int \<Rightarrow> string" where
  "known_hosts_name address port0 =
     (let port = (if port0 = 0 then 22 else port0)
      in if port = 22 then address else ''['' @ address @ '']:'' @ show_int port)"

section \<open>Adding, changing and removing hosts\<close>

definition new_host :: "string \<Rightarrow> string \<Rightarrow> int \<Rightarrow> string \<Rightarrow> (string, string) dict \<Rightarrow> host" where
  "new_host name address port user ident =
     \<lparr>ho_name = name, ho_address = address, ho_port = port, ho_user = user, ho_password = [],
      ho_muted = False, ho_muted_until = None, ho_standby = False, ho_identity = ident\<rparr>"

text \<open>\<open>fp\<close> is the key the host presented, if it could be asked; \<open>others\<close> is what other threads do to the
  registry between the fetch of the key and the locked section.\<close>

definition store_host_key :: "('s, 'k) key_api \<Rightarrow> string \<Rightarrow> int \<Rightarrow> 'k option \<Rightarrow> 's registry \<Rightarrow> 's registry" where
  "store_host_key api address port fp st =
     (case fp of
        None \<Rightarrow> st
      | Some raw_key \<Rightarrow>
          let host_keys = (case rg_known st of Some s \<Rightarrow> s | None \<Rightarrow> ka_empty api)
          in st\<lparr>rg_known := Some (ka_add api (known_hosts_name address port) raw_key host_keys)\<rparr>)"

definition add_host ::
  "('s, 'k) key_api \<Rightarrow> ('s registry \<Rightarrow> 's registry) \<Rightarrow> string \<Rightarrow> string \<Rightarrow> int \<Rightarrow> string \<Rightarrow> (string, string) dict \<Rightarrow>
   'k option \<Rightarrow> 's registry \<Rightarrow> (bool \<times> string) \<times> 's registry" where
  "add_host api others name address port user ident fp st =
     (if registered address st then ((False, ''Host already exists''), st)
      else
        let st1 = others (store_host_key api address port fp st)
        in if registered address st1 then ((False, ''Host already exists''), st1)
           else ((True, ''Host added''),
                 st1\<lparr>rg_hosts := rg_hosts st1 @ [new_host name address port user ident]\<rparr>))"

text \<open>The loops that change the first host with an address and save; \<open>None\<close> if there is none.\<close>

fun change_host :: "string \<Rightarrow> (host \<Rightarrow> host) \<Rightarrow> host list \<Rightarrow> host list option" where
  "change_host address f [] = None"
| "change_host address f (h # hs) =
     (if ho_address h = address then Some (f h # hs) else map_option ((#) h) (change_host address f hs))"

definition changed_host :: "string \<Rightarrow> (host \<Rightarrow> host) \<Rightarrow> 's registry \<Rightarrow> (bool \<times> string) \<times> 's registry" where
  "changed_host address f st =
     (case change_host address f (rg_hosts st) of
        None \<Rightarrow> ((False, ''Host not found''), st)
      | Some hs \<Rightarrow> ((True, ''Host updated''), st\<lparr>rg_hosts := hs\<rparr>))"

definition update_host_identity :: "string \<Rightarrow> (string, string) dict \<Rightarrow> 's registry \<Rightarrow> (bool \<times> string) \<times> 's registry" where
  "update_host_identity address ident =
     changed_host address (\<lambda>h. h\<lparr>ho_identity := fold (\<lambda>(k, v). dset k v) ident (ho_identity h)\<rparr>)"

definition remove_host :: "string \<Rightarrow> 's registry \<Rightarrow> (bool \<times> string) \<times> 's registry" where
  "remove_host address st =
     ((True, ''Host removed''), st\<lparr>rg_hosts := filter (\<lambda>h. ho_address h \<noteq> address) (rg_hosts st)\<rparr>)"

definition host_is_muted :: "host \<Rightarrow> int \<Rightarrow> bool" where
  "host_is_muted h now =
     (if \<not> ho_muted h then False
      else case ho_muted_until h of None \<Rightarrow> True | Some until \<Rightarrow> now < until)"

text \<open>\<open>hours\<close> is \<open>None\<close> or a number; like \<open>None\<close>, zero is false.\<close>

definition set_host_mute :: "string \<Rightarrow> bool \<Rightarrow> int option \<Rightarrow> int \<Rightarrow> 's registry \<Rightarrow> (bool \<times> string) \<times> 's registry" where
  "set_host_mute address enable hours now =
     changed_host address (\<lambda>h. h\<lparr>ho_muted := enable,
       ho_muted_until := (case hours of None \<Rightarrow> None
                          | Some n \<Rightarrow> if enable \<and> n \<noteq> 0 then Some (now + n * 3600) else None)\<rparr>)"

definition set_host_standby :: "string \<Rightarrow> bool \<Rightarrow> 's registry \<Rightarrow> (bool \<times> string) \<times> 's registry" where
  "set_host_standby address standby = changed_host address (\<lambda>h. h\<lparr>ho_standby := standby\<rparr>)"

section \<open>Trust\<close>

definition host_key_policy :: "bool \<Rightarrow> bool \<Rightarrow> bool \<Rightarrow> string" where
  "host_key_policy reg pinned password =
     (if password \<and> \<not> reg then ''adhoc'' else if pinned then ''reject'' else ''tofu'')"

definition has_pinned_key :: "('s, 'k) key_api \<Rightarrow> 's \<Rightarrow> string \<Rightarrow> int \<Rightarrow> bool" where
  "has_pinned_key api host_keys address port = ka_lookup api host_keys (known_hosts_name address port)"

definition bracket :: "char \<Rightarrow> bool" where
  "bracket c = (c = CHR ''['' \<or> c = CHR '']'')"

fun before_sub :: "string \<Rightarrow> string \<Rightarrow> string" where
  "before_sub sub [] = []"
| "before_sub sub (c # s) = (if starts_with sub (c # s) then [] else c # before_sub sub s)"

definition bare_name :: "string \<Rightarrow> string" where
  "bare_name name =
     takeWhile (\<lambda>c. c \<noteq> CHR '':'')
       (before_sub '']:'' (rev (dropWhile bracket (rev (dropWhile bracket name)))))"

definition forget_names :: "('s, 'k) key_api \<Rightarrow> string \<Rightarrow> 's \<Rightarrow> 's" where
  "forget_names api address hk =
     fold (\<lambda>name s. if bare_name name = address then ka_del api name s else s) (ka_names api hk) hk"

definition forget_host_key :: "('s, 'k) key_api \<Rightarrow> string \<Rightarrow> 's registry \<Rightarrow> 's registry" where
  "forget_host_key api address st =
     (case rg_known st of
        None \<Rightarrow> st
      | Some hk \<Rightarrow>
          if list_ex (\<lambda>name. bare_name name = address) (ka_names api hk)
          then st\<lparr>rg_known := Some (forget_names api address hk)\<rparr> else st)"

text \<open>The pool of the calling thread and the cache are part of what is discarded.\<close>

definition discard_unregistered ::
  "('s, 'k) key_api \<Rightarrow> string \<Rightarrow> 's registry \<times> 'c ssh_state \<times> cmd_result cache \<Rightarrow>
   bool \<times> 's registry \<times> 'c ssh_state \<times> cmd_result cache" where
  "discard_unregistered api address w =
     (case w of (st, ssh, ca) \<Rightarrow>
        if registered address st then (False, st, ssh, ca)
        else (True, forget_host_key api address st,
              ssh\<lparr>ss_pool := filter (\<lambda>(k, _). fst k \<noteq> address) (ss_pool ssh)\<rparr>,
              cache_invalidate_host address ca))"

text \<open>What \<open>connect\<close> does with the keys and the missing-key rule it is given: a client and its keys
  afterwards, a key that contradicts the pinned one, or another failure.\<close>

datatype ('c, 's) connected = Client 'c 's | BadHostKey string | SshError string | OtherError string

definition contains_any :: "string list \<Rightarrow> string \<Rightarrow> bool" where
  "contains_any subs s = list_ex (\<lambda>x. contains_str x s) subs"

text \<open>The end of \<open>get_ssh_client\<close>: the error messages, and the keys saved on first use.\<close>

definition finish_connect :: "string \<Rightarrow> string \<Rightarrow> 's registry \<Rightarrow> ('c, 's) connected \<Rightarrow> (string + 'c) \<times> 's registry" where
  "finish_connect policy address st1 outcome =
     (case outcome of
        Client c keys' \<Rightarrow> (Inr c, if policy = ''tofu'' then st1\<lparr>rg_known := Some keys'\<rparr> else st1)
      | BadHostKey e \<Rightarrow>
             (Inl (''SSH host key of '' @ address @ '' does not match the pinned key -- possible man-in-the-middle. ''
               @ ''If the host was reinstalled, remove it and add it again to pin the new key. ('' @ e @ '')''), st1)
      | SshError e \<Rightarrow>
             (Inl (if contains_any [''not found in known_hosts'', ''does not match''] (lower_str e)
                   then ''SSH host key verification failed for '' @ address @ '': '' @ e else e), st1)
      | OtherError e \<Rightarrow> (Inl e, st1))"

text \<open>The arguments of \<open>connect\<close>: the keys loaded, whether an unknown key is rejected, the host.\<close>

definition get_ssh_client ::
  "('s, 'k) key_api \<Rightarrow> ('s \<Rightarrow> bool \<Rightarrow> host \<Rightarrow> ('c, 's) connected) \<Rightarrow> host \<Rightarrow> 's registry \<Rightarrow>
   (string + 'c) \<times> 's registry" where
  "get_ssh_client api connect h st =
     (let address = ho_address h; port = (if ho_port h = 0 then 22 else ho_port h);
          reg = registered address st; password = (ho_password h \<noteq> []);
          st1 = (if password \<and> \<not> reg then forget_host_key api address st else st);
          keys = (case rg_known st1 of Some s \<Rightarrow> s | None \<Rightarrow> ka_empty api);
          policy = host_key_policy reg (has_pinned_key api keys address port) password
      in finish_connect policy address st1 (connect keys (policy = ''reject'') h))"

section \<open>One entry per address\<close>

definition addresses :: "'s registry \<Rightarrow> string list" where
  "addresses st = map ho_address (rg_hosts st)"

lemma registered_iff: "registered a st \<longleftrightarrow> a \<in> set (addresses st)"
  by (auto simp: registered_def addresses_def list_ex_iff)

lemma change_host_addresses:
  "(\<And>h. ho_address (f h) = ho_address h) \<Longrightarrow> change_host a f hs = Some hs' \<Longrightarrow>
   map ho_address hs' = map ho_address hs"
  by (induction hs arbitrary: hs') (auto split: if_splits)

lemma changed_host_addresses:
  "(\<And>h. ho_address (f h) = ho_address h) \<Longrightarrow> addresses (snd (changed_host a f st)) = addresses st"
  using change_host_addresses [of f a "rg_hosts st"]
  by (auto simp: changed_host_def addresses_def split: option.splits)

lemma store_host_key_hosts [simp]: "rg_hosts (store_host_key api a p fp st) = rg_hosts st"
  by (simp add: store_host_key_def Let_def split: option.splits)

text \<open>The registry as several threads change it: an \<open>add_host\<close> may be interrupted by any of the other
operations while it fetches the key. The client a connection yields plays no part here.\<close>

inductive reg_reach :: "('s, 'k) key_api \<Rightarrow> 's registry \<Rightarrow> 's registry \<Rightarrow> bool" for api where
  start: "reg_reach api st st"
| add: "reg_reach api st st1 \<Longrightarrow> \<forall>s. reg_reach api s (others s) \<Longrightarrow>
    reg_reach api st (snd (add_host api others name address port user ident fp st1))"
| ident: "reg_reach api st st1 \<Longrightarrow> reg_reach api st (snd (update_host_identity address i st1))"
| remove: "reg_reach api st st1 \<Longrightarrow> reg_reach api st (snd (remove_host address st1))"
| mute: "reg_reach api st st1 \<Longrightarrow> reg_reach api st (snd (set_host_mute address enable hours now st1))"
| standby: "reg_reach api st st1 \<Longrightarrow> reg_reach api st (snd (set_host_standby address flag st1))"
| connect: "reg_reach api st st1 \<Longrightarrow> reg_reach api st (snd (get_ssh_client api (conn :: _ \<Rightarrow> _ \<Rightarrow> _ \<Rightarrow> (unit, _) connected) h st1))"
| discard: "reg_reach api st st1 \<Longrightarrow> reg_reach api st (fst (snd (discard_unregistered api address (st1, ssh :: unit ssh_state, ca))))"

lemma forget_host_key_hosts [simp]: "rg_hosts (forget_host_key api a st) = rg_hosts st"
  by (simp add: forget_host_key_def split: option.splits)

lemma finish_connect_hosts [simp]: "rg_hosts (snd (finish_connect policy a st outcome)) = rg_hosts st"
  by (cases outcome) (simp_all add: finish_connect_def)

lemma finish_connect_strict: "rg_known (snd (finish_connect ''reject'' a st outcome)) = rg_known st"
  by (cases outcome) (simp_all add: finish_connect_def)

lemma get_ssh_client_hosts [simp]: "rg_hosts (snd (get_ssh_client api conn h st)) = rg_hosts st"
  by (simp add: get_ssh_client_def Let_def del: list.simps)

lemma add_host_distinct:
  assumes "distinct (addresses st)" and "\<And>s. distinct (addresses s) \<Longrightarrow> distinct (addresses (others s))"
  shows "distinct (addresses (snd (add_host api others name address port user ident fp st)))"
proof -
  define st1 where "st1 = others (store_host_key api address port fp st)"
  have "distinct (addresses (store_host_key api address port fp st))" using assms(1) by (simp add: addresses_def)
  then have "distinct (addresses st1)" unfolding st1_def by (rule assms(2))
  then show ?thesis
    using assms(1)
    by (simp add: add_host_def Let_def st1_def [symmetric] registered_iff)
       (auto simp: addresses_def new_host_def)
qed

text \<open>C7: No sequence of registry operations, whatever the interleaving of two threads that add the
  same host, gives two entries with one address. The address is the key of every other table.\<close>

theorem one_entry_per_address:
  assumes "reg_reach api st st'" and "distinct (addresses st)"
  shows "distinct (addresses st')"
  using assms
proof (induction rule: reg_reach.induct)
  case (add st st1 others name address port user ident fp)
  then show ?case by (intro add_host_distinct) blast+
next
  case (ident st st1 address i)
  then show ?case by (simp add: update_host_identity_def changed_host_addresses)
next
  case (remove st st1 address)
  then show ?case by (simp add: remove_host_def addresses_def distinct_map_filter)
next
  case (mute st st1 address enable hours now)
  then show ?case by (simp add: set_host_mute_def changed_host_addresses)
next
  case (standby st st1 address flag)
  then show ?case by (simp add: set_host_standby_def changed_host_addresses)
next
  case (connect st st1 conn h)
  then show ?case by (simp add: addresses_def)
next
  case (discard st st1 address ssh ca)
  then show ?case by (simp add: discard_unregistered_def addresses_def)
qed simp

text \<open>An instance of the key list: a set of names as a list.\<close>

definition name_list_api :: "(string list, string) key_api" where
  "name_list_api = \<lparr>ka_empty = [], ka_names = id, ka_lookup = (\<lambda>s n. n \<in> set s),
     ka_add = (\<lambda>n k s. n # s), ka_del = (\<lambda>n s. filter (\<lambda>m. m \<noteq> n) s)\<rparr>"

definition two_adds :: "string list registry" where
  "two_adds = snd (add_host name_list_api
     (\<lambda>st. snd (add_host name_list_api id ''b'' ''10.0.0.1'' 22 ''root'' [] (Some ''k'') st))
     ''a'' ''10.0.0.1'' 22 ''root'' [] (Some ''k'') \<lparr>rg_hosts = [], rg_known = None\<rparr>)"

lemma one_entry_per_address_witness: "distinct (addresses two_adds) \<and> addresses two_adds = [''10.0.0.1'']"
proof
  have id: "reg_reach name_list_api s (id s)" for s
    using reg_reach.start by simp
  have "reg_reach name_list_api \<lparr>rg_hosts = [], rg_known = None\<rparr> two_adds"
    unfolding two_adds_def by (intro reg_reach.add allI reg_reach.start id)
  then show "distinct (addresses two_adds)"
    by (rule one_entry_per_address) (simp add: addresses_def)
  show "addresses two_adds = [''10.0.0.1'']" by code_simp
qed

section \<open>Pinned keys\<close>

text \<open>What the program relies on of paramiko's \<open>HostKeys\<close>: it is a mapping by name.\<close>

definition key_laws :: "('s, 'k) key_api \<Rightarrow> bool" where
  "key_laws api = ((\<forall>m. \<not> ka_lookup api (ka_empty api) m) \<and>
     (\<forall>s n k m. ka_lookup api (ka_add api n k s) m = (m = n \<or> ka_lookup api s m)) \<and>
     (\<forall>s n m. ka_lookup api (ka_del api n s) m = (m \<noteq> n \<and> ka_lookup api s m)) \<and>
     (\<forall>s m. m \<in> set (ka_names api s) \<longleftrightarrow> ka_lookup api s m))"

lemma name_list_laws: "key_laws name_list_api"
  by (auto simp: key_laws_def name_list_api_def)

definition pinned :: "('s, 'k) key_api \<Rightarrow> 's registry \<Rightarrow> string \<Rightarrow> bool" where
  "pinned api st n = (case rg_known st of None \<Rightarrow> False | Some s \<Rightarrow> ka_lookup api s n)"

text \<open>C8: Once a key is pinned for a registered host, connecting never changes the list of keys and
  always rejects a key that is not in it, with or without a password: the result is the one for the
  strict rule and the keys on file, whatever else the server might have been told.\<close>

theorem pinned_key_is_final:
  assumes "registered (ho_address h) st" and "rg_known st = Some keys"
    and "has_pinned_key api keys (ho_address h) (ho_port h)"
  shows "rg_known (snd (get_ssh_client api connect h st)) = Some keys \<and>
    fst (get_ssh_client api connect h st) = fst (get_ssh_client api (\<lambda>_ _ _. connect keys True h) h st)"
proof -
  have "has_pinned_key api keys (ho_address h) (if ho_port h = 0 then 22 else ho_port h)"
    using assms(3) by (auto simp: has_pinned_key_def known_hosts_name_def)
  then show ?thesis using assms(1,2)
    by (simp add: get_ssh_client_def Let_def host_key_policy_def finish_connect_strict)
qed

lemma fold_forget:
  assumes "key_laws api"
  shows "ka_lookup api (fold (\<lambda>name s. if bare_name name = a then ka_del api name s else s) ns hk) n \<longleftrightarrow>
    ka_lookup api hk n \<and> \<not> (n \<in> set ns \<and> bare_name n = a)"
  using assms by (induction ns arbitrary: hk) (auto simp: key_laws_def)

lemma pinned_forget:
  assumes "key_laws api"
  shows "pinned api (forget_host_key api a st) n \<longleftrightarrow> pinned api st n \<and> bare_name n \<noteq> a"
proof (cases "rg_known st")
  case (Some hk)
  have names: "m \<in> set (ka_names api hk) \<longleftrightarrow> ka_lookup api hk m" for m
    using assms unfolding key_laws_def by blast
  have f: "ka_lookup api (forget_names api a hk) n \<longleftrightarrow> ka_lookup api hk n \<and> bare_name n \<noteq> a"
    unfolding forget_names_def fold_forget [OF assms] names by blast
  show ?thesis
  proof (cases "list_ex (\<lambda>name. bare_name name = a) (ka_names api hk)")
    case True
    then show ?thesis using Some f by (simp add: forget_host_key_def pinned_def)
  next
    case False
    then have "ka_lookup api hk n \<Longrightarrow> bare_name n \<noteq> a" using names by (auto simp: list_ex_iff)
    then show ?thesis using Some False by (auto simp: forget_host_key_def pinned_def)
  qed
qed (simp add: forget_host_key_def pinned_def)

text \<open>Names and addresses without colons and brackets.\<close>

definition plain_address :: "string \<Rightarrow> bool" where
  "plain_address a = (a \<noteq> [] \<and> list_all (\<lambda>c. c \<noteq> CHR '':'' \<and> \<not> bracket c) a)"

lemma dropWhile_none: "list_all (\<lambda>c. \<not> P c) s \<Longrightarrow> dropWhile P s = s"
  by (cases s) auto

lemma before_sub_plain: "list_all (\<lambda>c. c \<noteq> x) a \<Longrightarrow> before_sub [x, y] (a @ t) = a @ before_sub [x, y] t"
  by (induction a) (auto simp: starts_with_def)

lemma bare_known_hosts_name:
  assumes "plain_address a"
  shows "bare_name (known_hosts_name a port) = a"
proof -
  have p: "a \<noteq> []" "list_all (\<lambda>c. \<not> bracket c) a" "list_all (\<lambda>c. c \<noteq> CHR '':'') a" "list_all (\<lambda>c. c \<noteq> CHR '']'') a"
    using assms by (auto simp: plain_address_def list_all_iff bracket_def)
  have t: "takeWhile (\<lambda>c. c \<noteq> CHR '':'') a = a" using p(3) by (simp add: list_all_iff)
  have d: "dropWhile bracket (rev (show_int n) @ CHR '':'' # u) = rev (show_int n) @ CHR '':'' # u" for n u
  proof -
    have "\<forall>c \<in> set (show_int n). \<not> bracket c"
      using show_int_chars [of _ n] by (fastforce simp: bracket_def is_digit_def cc_def)
    then show ?thesis by (cases "rev (show_int n)") (auto simp: bracket_def)
  qed
  have "list_all (\<lambda>c. \<not> bracket c) (rev a)" using p(2) by (simp add: list_all_iff)
  note b = dropWhile_none [OF p(2)] dropWhile_none [OF this]
  have plain: "bare_name a = a"
    using before_sub_plain [OF p(4), of "CHR '':''" "[]"] by (simp add: bare_name_def b t)
  show ?thesis
  proof (cases "known_hosts_name a port = a")
    case True
    then show ?thesis using plain by simp
  next
    case False
    then have n: "known_hosts_name a port = ''['' @ a @ '']:'' @ show_int port"
      by (auto simp: known_hosts_name_def Let_def split: if_splits)
    have l: "dropWhile bracket (''['' @ a @ u) = a @ u" for u
      using p(1,2) by (cases a) (auto simp: bracket_def)
    have "rev (a @ '']:'' @ show_int port) = rev (show_int port) @ CHR '':'' # CHR '']'' # rev a" by simp
    then have "rev (dropWhile bracket (rev (a @ '']:'' @ show_int port))) = a @ '']:'' @ show_int port"
      by (simp only: d) simp
    moreover have "before_sub '']:'' (a @ '']:'' @ show_int port) = a"
      using before_sub_plain [OF p(4), of "CHR '':''" "'']:'' @ show_int port"] by (simp add: starts_with_def)
    ultimately show ?thesis unfolding n bare_name_def l by (simp add: t)
  qed
qed

text \<open>A host that was probed and refused leaves no trust behind: after \<open>discard_unregistered\<close> no
  port of that address has a pinned key, every key of another name is still there, and no cached
  result and no pooled connection of the address is left.\<close>

theorem discard_leaves_no_trust:
  assumes "key_laws api" and "plain_address a" and "\<not> registered a st"
    and "discard_unregistered api a (st, ssh, ca) = (done, st', ssh', ca')" and "cache_ok ca"
  shows "(\<forall>port. \<not> pinned api st' (known_hosts_name a port)) \<and>
    (\<forall>n. bare_name n \<noteq> a \<longrightarrow> pinned api st' n = pinned api st n) \<and>
    (\<forall>p u. dget (ss_pool ssh') (a, p, u) = None) \<and> (\<forall>cmd. entry_of ca' (a, cmd) = None)"
proof -
  have st': "st' = forget_host_key api a st" "ss_pool ssh' = filter (\<lambda>(k, _). fst k \<noteq> a) (ss_pool ssh)"
    using assms(3,4) by (auto simp: discard_unregistered_def)
  have "dget (ss_pool ssh') (a, p, u) = None" for p u
    unfolding st'(2) by (simp add: dget_filter_key)
  moreover have "ca' = cache_invalidate_host a ca" using assms(3,4) by (auto simp: discard_unregistered_def)
  then have "entry_of ca' (a, cmd) = None" for cmd
    by (simp add: invalidate_host_entry [OF assms(5)])
  ultimately show ?thesis
    unfolding st'(1) pinned_forget [OF assms(1)] using bare_known_hosts_name [OF assms(2)] by blast
qed

definition refused :: "string list registry" where
  "refused = \<lparr>rg_hosts = [plain_host ''pve1'' ''10.0.0.1''],
     rg_known = Some [''10.0.0.1'', ''10.0.0.9'', ''[10.0.0.9]:2222'']\<rparr>"

definition one_conn :: "nat ssh_state" where
  "one_conn = \<lparr>ss_pool = [((''10.0.0.9'', 22, ''root''), (7, 100))], ss_step = 0, ss_log = []\<rparr>"

lemma discard_leaves_no_trust_witness:
  "let w = discard_unregistered name_list_api ''10.0.0.9'' (refused, one_conn, cache_empty); st' = fst (snd w)
   in (\<forall>port. \<not> pinned name_list_api st' (known_hosts_name ''10.0.0.9'' port)) \<and>
      rg_known st' = Some [''10.0.0.1''] \<and> ss_pool (fst (snd (snd w))) = []"
proof -
  have p: "plain_address ''10.0.0.9''" "\<not> registered ''10.0.0.9'' refused" by code_simp+
  obtain a st' ssh' ca' where w: "discard_unregistered name_list_api ''10.0.0.9'' (refused, one_conn, cache_empty)
      = (a, st', ssh', ca')"
    by (cases "discard_unregistered name_list_api ''10.0.0.9'' (refused, one_conn, cache_empty)")
  have "rg_known (fst (snd (discard_unregistered name_list_api ''10.0.0.9'' (refused, one_conn, cache_empty))))
      = Some [''10.0.0.1'']"
    "ss_pool (fst (snd (snd (discard_unregistered name_list_api ''10.0.0.9'' (refused, one_conn, cache_empty))))) = []"
    by code_simp+
  moreover have "cache_ok (cache_empty :: cmd_result cache)" by (simp add: cache_ok_def cache_empty_def)
  ultimately show ?thesis using discard_leaves_no_trust [OF name_list_laws p w] by (simp add: w)
qed

definition impostor :: "string list \<Rightarrow> bool \<Rightarrow> host \<Rightarrow> (nat, string list) connected" where
  "impostor keys strict h = (if strict then BadHostKey ''changed'' else Client 1 [])"

lemma pinned_key_is_final_witness:
  "rg_known (snd (get_ssh_client name_list_api impostor (plain_host ''pve1'' ''10.0.0.1'') refused))
     = Some [''10.0.0.1'', ''10.0.0.9'', ''[10.0.0.9]:2222'']"
proof -
  have "registered (ho_address (plain_host ''pve1'' ''10.0.0.1'')) refused"
    "rg_known refused = Some [''10.0.0.1'', ''10.0.0.9'', ''[10.0.0.9]:2222'']"
    "has_pinned_key name_list_api [''10.0.0.1'', ''10.0.0.9'', ''[10.0.0.9]:2222'']
       (ho_address (plain_host ''pve1'' ''10.0.0.1'')) (ho_port (plain_host ''pve1'' ''10.0.0.1''))"
    by code_simp+
  from pinned_key_is_final [OF this, of impostor] show ?thesis by (rule conjunct1)
qed

text \<open>An address with a colon, which is every IPv6 address, is never recognised in the list: nothing
  of it is ever forgotten.\<close>

lemma forget_keeps_ipv6:
  assumes "CHR '':'' \<in> set a"
  shows "forget_host_key api a st = st"
proof -
  have "bare_name n \<noteq> a" for n
  proof
    assume "bare_name n = a"
    then have "CHR '':'' \<notin> set a" unfolding bare_name_def by (auto dest: set_takeWhileD)
    with assms show False by contradiction
  qed
  then show ?thesis by (simp add: forget_host_key_def list_ex_iff split: option.splits)
qed

end
