(* ===== verification/ReplMonitor.thy ===== *)
theory ReplMonitor
  imports ReplConfig Monitor HostRegistry
begin

text \<open>
  \<open>app/replication_monitor.py\<close>: how often a cron line fires, how far a replica lags behind, and when a
  notification is due. \<open>run\<close> is \<open>run_command\<close>; the rows of scope \<open>repl\<close> in \<open>monitor_state\<close> are a
  dictionary from their key to the stored value (\<open>None\<close>: unreadable) and the time of the last alert;
  \<open>fmt_time\<close> is the local time format. Arrows and dashes in a message are written in ASCII.
\<close>

section \<open>Cron expressions\<close>

text \<open>One part of a field: \<open>None\<close> where \<open>int\<close> raises.\<close>

definition expand_part :: "int \<Rightarrow> int \<Rightarrow> string \<Rightarrow> int list option" where
  "expand_part lo hi part =
     (case (case split_once CHR ''/'' part of
              Some (base, step_s) \<Rightarrow> map_option (\<lambda>n. (base, max n 1)) (py_int step_s)
            | None \<Rightarrow> Some (part, 1)) of
        None \<Rightarrow> None
      | Some (base, step) \<Rightarrow>
          (case (if base = ''*'' then Some (lo, hi)
                 else case split_once CHR ''-'' base of
                        Some (a, b) \<Rightarrow> (case (py_int a, py_int b) of (Some x, Some y) \<Rightarrow> Some (x, y) | _ \<Rightarrow> None)
                      | None \<Rightarrow> map_option (\<lambda>v. (v, v)) (py_int base)) of
             None \<Rightarrow> None
           | Some (start, stop) \<Rightarrow>
               Some (filter (\<lambda>v. start \<le> v \<and> v \<le> stop \<and> (v - start) mod step = 0) [lo..hi])))"

definition expand_field :: "string \<Rightarrow> int \<Rightarrow> int \<Rightarrow> int list option" where
  "expand_field field lo hi =
     (let parts = map (expand_part lo hi) (split_on (\<lambda>c. c = CHR '','') field)
      in if None \<in> set parts then None else Some (sorted_set (concat (map the parts))))"

text \<open>The times of the day, in seconds.\<close>

definition firing_times :: "string \<Rightarrow> int list option" where
  "firing_times expr =
     (let parts = split_ws (strip expr)
      in if length parts \<noteq> 5 then None
         else case (expand_field (parts ! 0) 0 59, expand_field (parts ! 1) 0 23) of
                (Some minutes, Some hours) \<Rightarrow>
                  if minutes = [] \<or> hours = [] then None
                  else Some (sort (concat (map (\<lambda>h. map (\<lambda>m. h * 3600 + m * 60) minutes) hours)))
              | _ \<Rightarrow> None)"

fun gaps :: "int list \<Rightarrow> int list" where
  "gaps (x # y # xs) = (y - x) # gaps (y # xs)"
| "gaps _ = []"

definition cron_interval_seconds :: "string \<Rightarrow> int option" where
  "cron_interval_seconds expr =
     (case firing_times expr of
        None \<Rightarrow> None
      | Some ts \<Rightarrow>
          if length ts = 1 then Some 86400
          else Some (Min (set (gaps ts @ [86400 - last ts + hd ts]))))"

section \<open>One pair\<close>

definition WARN_FACTOR :: int where "WARN_FACTOR = 2"
definition CRIT_FACTOR :: int where "CRIT_FACTOR = 4"
definition DEFAULT_INTERVAL_SECONDS :: int where "DEFAULT_INTERVAL_SECONDS = 3600"
definition ALERT_COOLDOWN_SECONDS :: int where "ALERT_COOLDOWN_SECONDS = 6 * 3600"

definition TARGET_RE :: re where
  "TARGET_RE = seqs [Bol, plus (Ch (\<lambda>c. is_alnum c \<or> one_of ''._:/-'' c)), Eol]"

definition newest_replica_snapshot ::
  "(host \<Rightarrow> string \<Rightarrow> cmd_result) \<Rightarrow> host \<Rightarrow> string \<Rightarrow> (string \<times> int) option" where
  "newest_replica_snapshot run h target_ds =
     (if target_ds = [] \<or> \<not> re_test TARGET_RE target_ds then None
      else
        let r = run h (''zfs list -H -t snapshot -o name,creation -p -s creation -r '' @ shell_quote target_ds
                       @ '' 2>/dev/null | tail -n 1''); line = strip (cr_stdout r)
        in if \<not> cr_success r \<or> line = [] then None
           else case split_on (\<lambda>c. c = tab) line of
                  name # creation # _ \<Rightarrow> map_option (\<lambda>n. (name, n)) (py_int creation)
                | _ \<Rightarrow> None)"

definition classify_lag :: "int option \<Rightarrow> int \<Rightarrow> string" where
  "classify_lag lag_seconds interval_seconds =
     (case lag_seconds of
        None \<Rightarrow> ''pending''
      | Some lag \<Rightarrow>
          let interval = (if interval_seconds \<le> 0 then DEFAULT_INTERVAL_SECONDS else interval_seconds)
          in if lag \<le> interval * WARN_FACTOR then ''ok''
             else if lag \<le> interval * CRIT_FACTOR then ''warn'' else ''crit'')"

record pair_health =
  ph_host_address :: string
  ph_host_name :: string
  ph_config_path :: string
  ph_source :: string
  ph_target :: string
  ph_schedule :: "string option"
  ph_interval :: "int option"
  ph_newest :: "string option"
  ph_last_sync :: "int option"
  ph_lag :: "int option"
  ph_status :: string
  ph_checked :: int
  ph_standby :: bool

definition nonempty :: "string option \<Rightarrow> string option" where
  "nonempty s = (case s of Some [] \<Rightarrow> None | _ \<Rightarrow> s)"

definition check_pair :: "(host \<Rightarrow> string \<Rightarrow> cmd_result) \<Rightarrow> host \<Rightarrow> config_entry \<Rightarrow> int \<Rightarrow> pair_health" where
  "check_pair run h cfg now =
     (let target_ds = strip (ce_target cfg); source = strip (ce_source cfg);
          schedule = map_option cn_schedule (get_cron run h source);
          interval = (case nonempty schedule of Some s \<Rightarrow> cron_interval_seconds s | None \<Rightarrow> None);
          newest = (if target_ds \<noteq> [] then newest_replica_snapshot run h target_ds else None);
          last_sync_ts = map_option snd newest;
          synced = (case last_sync_ts of Some t \<Rightarrow> t \<noteq> 0 | None \<Rightarrow> False);
          lag = (if synced then Some (now - the last_sync_ts) else None);
          status = (if nonempty schedule = None
                    then (if \<not> synced then ''no_schedule'' else classify_lag lag DEFAULT_INTERVAL_SECONDS)
                    else classify_lag lag (case interval of Some n \<Rightarrow> if n \<noteq> 0 then n else DEFAULT_INTERVAL_SECONDS
                                           | None \<Rightarrow> DEFAULT_INTERVAL_SECONDS))
      in \<lparr>ph_host_address = ho_address h, ph_host_name = ho_name h, ph_config_path = ce_path cfg,
          ph_source = source, ph_target = target_ds, ph_schedule = schedule, ph_interval = interval,
          ph_newest = map_option fst newest, ph_last_sync = last_sync_ts, ph_lag = lag, ph_status = status,
          ph_checked = now, ph_standby = False\<rparr>)"

definition source_ip :: "string \<Rightarrow> string" where
  "source_ip source = (let s = strip source
     in case split_once CHR ''@'' s of Some (_, t) \<Rightarrow> t | None \<Rightarrow> s)"

definition is_default_template :: "config_entry \<Rightarrow> bool" where
  "is_default_template cfg =
     (lower_str (ce_source cfg) = ''user@host'' \<or> lower_str (ce_target cfg) = ''pool/dataset'')"

section \<open>Alerts\<close>

record state_value =
  sv_status :: string
  sv_last_sync :: "int option"
  sv_lag :: "int option"
  sv_schedule :: "string option"
  sv_source :: string
  sv_target :: string

record repl_row =
  rr_value :: "state_value option"
  rr_alert :: "int option"
  rr_updated :: int

record repl_mon =
  rm_rows :: "(string, repl_row) dict"
  rm_sent :: "notification list"

definition state_key :: "string \<Rightarrow> string \<Rightarrow> string" where
  "state_key host_addr cfg_path = host_addr @ ''::'' @ cfg_path"

definition load_state :: "string \<Rightarrow> repl_mon \<Rightarrow> state_value option \<times> int option" where
  "load_state key m = (case dget (rm_rows m) key of None \<Rightarrow> (None, None) | Some r \<Rightarrow> (rr_value r, rr_alert r))"

definition save_state :: "string \<Rightarrow> state_value \<Rightarrow> int option \<Rightarrow> int \<Rightarrow> repl_mon \<Rightarrow> repl_mon" where
  "save_state key v alert now m =
     m\<lparr>rm_rows := dset key \<lparr>rr_value = Some v, rr_alert = alert, rr_updated = now\<rparr> (rm_rows m)\<rparr>"

definition state_value_of :: "pair_health \<Rightarrow> state_value" where
  "state_value_of snap = \<lparr>sv_status = ph_status snap, sv_last_sync = ph_last_sync snap, sv_lag = ph_lag snap,
     sv_schedule = ph_schedule snap, sv_source = ph_source snap, sv_target = ph_target snap\<rparr>"

text \<open>The title of a due alert, \<open>None\<close> if none is due: on a change of status, and after the cooldown while
  the status stays critical.\<close>

definition alert_title :: "string option \<Rightarrow> int option \<Rightarrow> pair_health \<Rightarrow> int \<Rightarrow> string option" where
  "alert_title prev_status last_alert snap now =
     (let new_status = ph_status snap; pair = ph_source snap @ '' -> '' @ ph_target snap;
          on_change = (if prev_status = Some new_status then None
                       else if new_status \<in> {''warn'', ''crit''}
                       then Some (''Replikation '' @ upper_str new_status @ '': '' @ pair)
                       else if new_status = ''ok'' \<and> prev_status \<in> {Some ''warn'', Some ''crit''}
                       then Some (''Replikation OK: '' @ pair) else None)
      in if on_change = None \<and> new_status = ''crit'' \<and>
            (case last_alert of None \<Rightarrow> True | Some t \<Rightarrow> t = 0 \<or> now - t \<ge> ALERT_COOLDOWN_SECONDS)
         then Some (''Replikation weiterhin CRIT: '' @ pair) else on_change)"

definition alert_body :: "(int \<Rightarrow> string) \<Rightarrow> pair_health \<Rightarrow> string" where
  "alert_body fmt_time snap =
     join [newline]
       [''Host: '' @ (if ph_host_name snap \<noteq> [] then ph_host_name snap else ph_host_address snap),
        ''Config: '' @ ph_config_path snap,
        ''Quelle: '' @ ph_source snap,
        ''Ziel: '' @ ph_target snap,
        ''Status: '' @ upper_str (ph_status snap),
        (case ph_lag snap of
           Some l \<Rightarrow> if l \<noteq> 0 then ''Lag: '' @ show_int (l div 3600) @ '' h'' else ''Lag: kein Replikat-Snapshot''
         | None \<Rightarrow> ''Lag: kein Replikat-Snapshot''),
        ''Cron: '' @ (case nonempty (ph_schedule snap) of Some s \<Rightarrow> s | None \<Rightarrow> ''(kein Cron)''),
        ''Letzter Sync: '' @ (case ph_last_sync snap of Some t \<Rightarrow> if t \<noteq> 0 then fmt_time t else ''-'' | None \<Rightarrow> ''-'')]"

definition maybe_alert :: "(int \<Rightarrow> string) \<Rightarrow> host list \<Rightarrow> int \<Rightarrow> pair_health \<Rightarrow> repl_mon \<Rightarrow> repl_mon" where
  "maybe_alert fmt_time hosts now snap m =
     (let key = state_key (ph_host_address snap) (ph_config_path snap);
          (prev, last_alert) = load_state key m;
          m1 = save_state key (state_value_of snap) last_alert now m
      in case alert_title (map_option sv_status prev) last_alert snap now of
           None \<Rightarrow> m1
         | Some title \<Rightarrow>
             if list_ex (\<lambda>h. ho_address h = source_ip (ph_source snap) \<and> host_is_muted h now) hosts then m1
             else save_state key (state_value_of snap) (Some now) now
                    (m1\<lparr>rm_sent := rm_sent m1 @
                       [\<lparr>nt_event = ''replication_lag'', nt_title = title, nt_body = alert_body fmt_time snap,
                         nt_priority = (if ph_status snap = ''crit'' then 8 else 5), nt_state = [], nt_key = [],
                         nt_host = ph_host_address snap\<rparr>]\<rparr>))"

definition judged_pair ::
  "(host \<Rightarrow> string \<Rightarrow> cmd_result) \<Rightarrow> host list \<Rightarrow> int \<Rightarrow> host \<Rightarrow> config_entry \<Rightarrow> pair_health" where
  "judged_pair run hosts now h cfg =
     (let snapshot = check_pair run h cfg now
      in if list_ex (\<lambda>s. ho_standby s \<and> ho_address s = source_ip (ce_source cfg)) hosts
         then snapshot\<lparr>ph_status := ''standby'', ph_standby := True\<rparr> else snapshot)"

definition monitored :: "config_entry \<Rightarrow> bool" where
  "monitored cfg = (\<not> is_default_template cfg \<and> \<not> ce_needs_import cfg)"

definition run_checks_for_host ::
  "(host \<Rightarrow> string \<Rightarrow> cmd_result) \<Rightarrow> (int \<Rightarrow> string) \<Rightarrow> host list \<Rightarrow> int \<Rightarrow> host \<Rightarrow> repl_mon \<Rightarrow>
   pair_health list \<times> repl_mon" where
  "run_checks_for_host run fmt_time hosts now h m =
     (let snaps = map (judged_pair run hosts now h) (filter monitored (list_configs run h))
      in (snaps, fold (maybe_alert fmt_time hosts now) snaps m))"

definition STATUSES :: "string list" where
  "STATUSES = [''ok'', ''warn'', ''crit'', ''pending'', ''no_schedule'', ''standby'']"

fun check_hosts ::
  "(host \<Rightarrow> string \<Rightarrow> cmd_result) \<Rightarrow> (int \<Rightarrow> string) \<Rightarrow> host list \<Rightarrow> int \<Rightarrow> host list \<Rightarrow> repl_mon \<Rightarrow>
   pair_health list \<times> repl_mon" where
  "check_hosts run fmt_time hosts now [] m = ([], m)"
| "check_hosts run fmt_time hosts now (h # hs) m =
     (let (snaps, m1) = run_checks_for_host run fmt_time hosts now h m;
          (rest, m2) = check_hosts run fmt_time hosts now hs m1
      in (snaps @ rest, m2))"

definition health_snapshot ::
  "(host \<Rightarrow> string \<Rightarrow> cmd_result) \<Rightarrow> (int \<Rightarrow> string) \<Rightarrow> host list \<Rightarrow> int \<Rightarrow> repl_mon \<Rightarrow>
   (pair_health list \<times> (string, int) dict) \<times> repl_mon" where
  "health_snapshot run fmt_time hosts now m =
     (let (pairs, m1) = check_hosts run fmt_time hosts now hosts m
      in ((pairs, fold (\<lambda>p. dmodify (ph_status p) 0 (\<lambda>n. n + 1)) pairs (map (\<lambda>s. (s, 0)) STATUSES)), m1))"

definition STATUS_RANK :: "(string, int) dict" where
  "STATUS_RANK = [(''ok'', 0), (''no_schedule'', 1), (''pending'', 1), (''standby'', 1), (''warn'', 2), (''crit'', 3)]"

definition status_rank :: "string \<Rightarrow> int" where
  "status_rank s = dget_or 0 STATUS_RANK s"

definition health_row :: "repl_row \<Rightarrow> (string \<times> string) option" where
  "health_row row =
     (case rr_value row of
        None \<Rightarrow> None
      | Some v \<Rightarrow>
          if sv_source v = [] \<or> sv_status v = [] then None
          else Some (if extract_ip (sv_source v) \<noteq> [] then extract_ip (sv_source v) else sv_source v, sv_status v))"

definition add_worse :: "string \<times> string \<Rightarrow> (string, string) dict \<Rightarrow> (string, string) dict" where
  "add_worse r out = (case r of (ip, status) \<Rightarrow>
     (case dget out ip of
        None \<Rightarrow> dset ip status out
      | Some old \<Rightarrow> if status_rank old < status_rank status then dset ip status out else out))"

definition health_rows :: "repl_mon \<Rightarrow> (string \<times> string) list" where
  "health_rows m = List.map_filter health_row (dvals (rm_rows m))"

definition source_health_map :: "repl_mon \<Rightarrow> (string, string) dict" where
  "source_health_map m = fold add_worse (health_rows m) []"

section \<open>How often a line fires\<close>

lemma gaps_ge: "sorted xs \<Longrightarrow> distinct xs \<Longrightarrow> a \<in> set xs \<Longrightarrow> b \<in> set xs \<Longrightarrow> a < b \<Longrightarrow>
   \<exists>g \<in> set (gaps xs). g \<le> b - a"
proof (induction xs rule: gaps.induct)
  case (1 x y xs)
  show ?case
  proof (cases "a = x")
    case True
    then have "b \<in> set (y # xs)" using 1 by auto
    then have "y \<le> b" using 1(2) by auto
    then show ?thesis using True by force
  next
    case False
    then have "a \<in> set (y # xs)" using 1 by auto
    moreover have "x \<le> a" using 1(2,4) by auto
    then have "b \<in> set (y # xs)" using 1(5,6) False by auto
    ultimately show ?thesis using 1 by auto
  qed
qed auto

lemma gaps_attained: "g \<in> set (gaps xs) \<Longrightarrow> \<exists>a \<in> set xs. \<exists>b \<in> set xs. g = b - a"
  by (induction xs rule: gaps.induct) auto

lemma gaps_pos: "sorted xs \<Longrightarrow> distinct xs \<Longrightarrow> g \<in> set (gaps xs) \<Longrightarrow> 0 < g"
  by (induction xs rule: gaps.induct) auto

lemma expand_field_mem:
  assumes "expand_field f lo hi = Some vs"
  shows "sorted vs \<and> distinct vs \<and> set vs \<subseteq> {lo..hi}"
proof -
  have part: "set ws \<subseteq> {lo..hi}" if "expand_part lo hi p = Some ws" for p ws
    using that by (auto simp: expand_part_def split: option.splits prod.splits if_splits)
  have vs: "vs = sorted_set (concat (map the (map (expand_part lo hi) (split_on (\<lambda>c. c = CHR '','') f))))"
    and some: "None \<notin> set (map (expand_part lo hi) (split_on (\<lambda>c. c = CHR '','') f))"
    using assms by (auto simp: expand_field_def Let_def split: if_splits)
  have "set (the (expand_part lo hi p)) \<subseteq> {lo..hi}" if "p \<in> set (split_on (\<lambda>c. c = CHR '','') f)" for p
    using part [of p] some that by (cases "expand_part lo hi p") force+
  then show ?thesis unfolding vs by auto
qed

lemma firing_times_props:
  assumes "firing_times e = Some ts"
  shows "ts \<noteq> [] \<and> sorted ts \<and> distinct ts \<and> (\<forall>t \<in> set ts. 0 \<le> t \<and> t < 86400 \<and> t mod 60 = 0)"
proof -
  define mi where "mi = split_ws (strip e) ! 0"
  define ho where "ho = split_ws (strip e) ! 1"
  obtain minutes where m: "expand_field mi 0 59 = Some minutes"
    using assms by (cases "expand_field mi 0 59") (simp_all add: firing_times_def Let_def mi_def split: if_splits)
  obtain hours where h: "expand_field ho 0 23 = Some hours"
    using assms m by (cases "expand_field ho 0 23") (simp_all add: firing_times_def Let_def mi_def ho_def split: if_splits)
  note e = m h
  have ne: "minutes \<noteq> []" "hours \<noteq> []"
    and ts: "ts = sort (concat (map (\<lambda>h. map (\<lambda>m. h * 3600 + m * 60) minutes) hours))"
    using assms e by (simp_all add: firing_times_def Let_def mi_def ho_def split: if_splits)
  note mem = expand_field_mem [OF e(1)] expand_field_mem [OF e(2)]
  have d: "distinct (concat (map (\<lambda>h. map (\<lambda>m. h * 3600 + m * 60) minutes) hs))"
    if "distinct hs" "set hs \<subseteq> set hours" for hs
    using that
  proof (induction hs)
    case (Cons h hs)
    have "distinct (map (\<lambda>m. h * 3600 + m * 60) minutes)"
      using mem(1) by (simp add: distinct_map inj_on_def)
    moreover have "h * 3600 + m * 60 \<noteq> k * 3600 + n * 60" if "m \<in> set minutes" "n \<in> set minutes" "k \<in> set hs" for m n k
    proof
      assume eq: "h * 3600 + m * 60 = k * 3600 + n * 60"
      have b: "0 \<le> m" "m \<le> 59" "0 \<le> n" "n \<le> 59" "h \<noteq> k" using mem(1) that Cons by auto
      then consider "h + 1 \<le> k" | "k + 1 \<le> h" by linarith
      then show False using eq b by cases linarith+
    qed
    ultimately show ?case using Cons by auto
  qed simp
  have range: "0 \<le> h * 3600 + m * 60 \<and> h * 3600 + m * 60 < 86400 \<and> (h * 3600 + m * 60) mod 60 = 0"
    if "h \<in> set hours" "m \<in> set minutes" for h m
  proof -
    have "0 \<le> h" "h \<le> 23" "0 \<le> m" "m \<le> 59" using mem that by auto
    then have "0 \<le> h * 3600 + m * 60" "h * 3600 + m * 60 < 86400" by linarith+
    moreover have "h * 3600 + m * 60 = (h * 60 + m) * 60" by simp
    then have "(h * 3600 + m * 60) mod 60 = 0" by (simp only: mod_mult_self2_is_0)
    ultimately show ?thesis by blast
  qed
  have "\<exists>h \<in> set hours. \<exists>m \<in> set minutes. t = h * 3600 + m * 60" if "t \<in> set ts" for t
    using that unfolding ts by (force simp only: set_sort set_concat set_map)
  then have "\<forall>t \<in> set ts. 0 \<le> t \<and> t < 86400 \<and> t mod 60 = 0" using range by blast
  moreover have "distinct ts" unfolding ts using d [of hours] mem(2) by simp
  moreover have "sorted ts" unfolding ts by simp
  moreover have "set ts \<noteq> {}" unfolding ts using ne by (cases hours; cases minutes) auto
  then have "ts \<noteq> []" by auto
  ultimately show ?thesis by blast
qed

lemma sorted_bounds:
  fixes xs :: "int list"
  shows "sorted xs \<Longrightarrow> x \<in> set xs \<Longrightarrow> hd xs \<le> x \<and> x \<le> last xs"
  by (induction xs) auto

text \<open>The instants at which a line fires, on every day, counted in seconds from some midnight. The day
  and month fields are not looked at, here as in the code.\<close>

definition fires_at :: "string \<Rightarrow> int \<Rightarrow> bool" where
  "fires_at e t = (case firing_times e of None \<Rightarrow> False | Some ts \<Rightarrow> t mod 86400 \<in> set ts)"

lemma interval_values:
  assumes "firing_times e = Some ts" and "cron_interval_seconds e = Some n"
  shows "n = Min (set (gaps ts @ [86400 - last ts + hd ts]))"
proof (cases "length ts = 1")
  case True
  then obtain t where "ts = [t]" by (cases ts) auto
  then show ?thesis using assms by (simp add: cron_interval_seconds_def)
qed (use assms in \<open>simp add: cron_interval_seconds_def\<close>)



text \<open>A weekly line counts as a daily one, so a pair that syncs on Sundays is critical from Thursday on.\<close>

lemma weekly_is_critical:
  "cron_interval_seconds ''0 3 * * 0'' = Some 86400 \<and> classify_lag (Some (4 * 86400 + 60)) 86400 = ''crit''"
  by code_simp

section \<open>What is sent\<close>

text \<open>The stored status of a pair, and whether its source is muted.\<close>

definition prev_status :: "pair_health \<Rightarrow> repl_mon \<Rightarrow> string option" where
  "prev_status snap m =
     map_option sv_status (fst (load_state (state_key (ph_host_address snap) (ph_config_path snap)) m))"

definition source_muted :: "host list \<Rightarrow> int \<Rightarrow> pair_health \<Rightarrow> bool" where
  "source_muted hosts now snap = (\<exists>h \<in> set hosts. ho_address h = source_ip (ph_source snap) \<and> host_is_muted h now)"

definition last_alert_of :: "pair_health \<Rightarrow> repl_mon \<Rightarrow> int option" where
  "last_alert_of snap m = snd (load_state (state_key (ph_host_address snap) (ph_config_path snap)) m)"

lemma maybe_alert_cases:
  "maybe_alert f hosts now snap m =
     (let key = state_key (ph_host_address snap) (ph_config_path snap);
          m1 = save_state key (state_value_of snap) (last_alert_of snap m) now m
      in case alert_title (prev_status snap m) (last_alert_of snap m) snap now of
           None \<Rightarrow> m1
         | Some title \<Rightarrow>
             if source_muted hosts now snap then m1
             else save_state key (state_value_of snap) (Some now) now
                    (m1\<lparr>rm_sent := rm_sent m1 @
                       [\<lparr>nt_event = ''replication_lag'', nt_title = title, nt_body = alert_body f snap,
                         nt_priority = (if ph_status snap = ''crit'' then 8 else 5), nt_state = [], nt_key = [],
                         nt_host = ph_host_address snap\<rparr>]\<rparr>))"
  unfolding maybe_alert_def prev_status_def last_alert_of_def source_muted_def Let_def list_ex_iff
  by (simp add: case_prod_beta)

text \<open>The row after a check: always the status just seen; the alert time moves exactly when something is
  sent.\<close>

lemma maybe_alert_row:
  "\<exists>sent. rm_sent (maybe_alert f hosts now snap m) = rm_sent m @ sent \<and> length sent \<le> 1 \<and>
     (sent = [] \<longleftrightarrow> alert_title (prev_status snap m) (last_alert_of snap m) snap now = None \<or> source_muted hosts now snap) \<and>
     load_state (state_key (ph_host_address snap) (ph_config_path snap)) (maybe_alert f hosts now snap m) =
       (Some (state_value_of snap), if sent = [] then last_alert_of snap m else Some now)"
  by (cases "alert_title (prev_status snap m) (last_alert_of snap m) snap now")
    (auto simp: maybe_alert_cases Let_def save_state_def load_state_def)

lemma crit_again:
  "ph_status snap = ''crit'' \<Longrightarrow> 0 < a \<Longrightarrow>
   alert_title (Some ''crit'') (Some a) snap now \<noteq> None \<longleftrightarrow> a + 21600 \<le> now"
  by (auto simp: alert_title_def Let_def ALERT_COOLDOWN_SECONDS_def)

lemma spaced_step: "a + 21600 \<le> b \<Longrightarrow> b + 21600 * k \<le> l \<Longrightarrow> a + 21600 * (1 + k) \<le> (l :: int)"
  by simp

text \<open>While a pair stays critical, its reminders are at least six hours apart: after an alert at time
  \<open>a\<close>, \<open>k\<close> further checks that send something need \<open>k\<close> times six hours.\<close>

theorem reminders_spaced:
  assumes "\<forall>(t, snap) \<in> set xs. ph_status snap = ''crit'' \<and> ph_host_address snap = addr \<and> ph_config_path snap = path"
    and "load_state (state_key addr path) m = (Some v, Some a)" and "sv_status v = ''crit''" and "0 < a"
    and "sorted (a # map fst xs)"
    and "m' = fold (\<lambda>(t, snap). maybe_alert f hosts t snap) xs m"
  shows "a + 21600 * int (length (rm_sent m') - length (rm_sent m)) \<le> last (a # map fst xs) \<and>
    length (rm_sent m) \<le> length (rm_sent m')"
  using assms
proof (induction xs arbitrary: m m' v a)
  case (Cons x xs)
  obtain t snap where x: "x = (t, snap)" by (cases x)
  have snap: "ph_status snap = ''crit''" "ph_host_address snap = addr" "ph_config_path snap = path"
    using Cons.prems(1) x by auto
  have st: "prev_status snap m = Some ''crit''" "last_alert_of snap m = Some a"
    using Cons.prems(2,3) snap by (simp_all add: prev_status_def last_alert_of_def)
  obtain sent where sent: "rm_sent (maybe_alert f hosts t snap m) = rm_sent m @ sent" "length sent \<le> 1"
    and due: "sent \<noteq> [] \<Longrightarrow> a + 21600 \<le> t"
    and row: "load_state (state_key addr path) (maybe_alert f hosts t snap m) =
       (Some (state_value_of snap), if sent = [] then Some a else Some t)"
    using maybe_alert_row [of f hosts t snap m] crit_again [OF snap(1) Cons.prems(4), of t]
    unfolding st snap(2,3) by metis
  define b where "b = (if sent = [] then a else t)"
  have s: "a \<le> t" "sorted (t # map fst xs)" using Cons.prems(5) x by auto
  have IH: "b + 21600 * int (length (rm_sent m') - length (rm_sent (maybe_alert f hosts t snap m))) \<le> last (b # map fst xs) \<and>
      length (rm_sent (maybe_alert f hosts t snap m)) \<le> length (rm_sent m')"
  proof (rule Cons.IH)
    show "load_state (state_key addr path) (maybe_alert f hosts t snap m) = (Some (state_value_of snap), Some b)"
      using row by (simp add: b_def)
    show "sv_status (state_value_of snap) = ''crit''" using snap(1) by (simp add: state_value_of_def)
    show "0 < b" using Cons.prems(4) s by (simp add: b_def)
    show "sorted (b # map fst xs)" using s by (auto simp: b_def)
    show "m' = fold (\<lambda>(t, snap). maybe_alert f hosts t snap) xs (maybe_alert f hosts t snap m)"
      using Cons.prems(6) x by simp
  qed (use Cons.prems(1) in auto)
  have "last (b # map fst xs) \<le> last (t # map fst xs)"
    using s by (cases xs) (auto simp: b_def)
  then have last: "last (b # map fst xs) \<le> last (a # map fst (x # xs))" using x by simp
  show ?case
  proof (cases "sent = []")
    case True
    then have e: "b = a" "rm_sent (maybe_alert f hosts t snap m) = rm_sent m" using sent(1) by (simp_all add: b_def)
    show ?thesis using order_trans [OF conjunct1 [OF IH] last] conjunct2 [OF IH] unfolding e by blast
  next
    case False
    then have len: "length sent = 1" using sent(2) by (cases sent) auto
    have n: "length (rm_sent m') - length (rm_sent m) =
        Suc (length (rm_sent m') - length (rm_sent (maybe_alert f hosts t snap m)))"
      using conjunct2 [OF IH] unfolding sent(1) length_append len by linarith
    have "a + 21600 \<le> b" using due [OF False] False by (simp add: b_def)
    then have "a + 21600 * int (length (rm_sent m') - length (rm_sent m)) \<le> last (a # map fst (x # xs))"
      using order_trans [OF conjunct1 [OF IH] last] unfolding n of_nat_Suc by (rule spaced_step)
    moreover have "length (rm_sent m) \<le> length (rm_sent m')" using IH sent(1) by simp
    ultimately show ?thesis by blast
  qed
qed simp

definition crit_pair :: pair_health where
  "crit_pair = \<lparr>ph_host_address = ''10.0.0.2'', ph_host_name = ''pve2'', ph_config_path = ''/etc/bashclub/10.0.0.1.conf'',
     ph_source = ''root@10.0.0.1'', ph_target = ''tank/repl'', ph_schedule = Some ''20 * * * *'', ph_interval = Some 3600,
     ph_newest = None, ph_last_sync = Some 1000, ph_lag = Some 90000, ph_status = ''crit'', ph_checked = 100000,
     ph_standby = False\<rparr>"

definition alerted_mon :: repl_mon where
  "alerted_mon = \<lparr>rm_rows = [(state_key ''10.0.0.2'' ''/etc/bashclub/10.0.0.1.conf'',
     \<lparr>rr_value = Some (state_value_of crit_pair), rr_alert = Some 100000, rr_updated = 100000\<rparr>)], rm_sent = []\<rparr>"

definition crit_rounds :: "(int \<times> pair_health) list" where
  "crit_rounds = map (\<lambda>t. (t, crit_pair)) [110000, 120000, 121600, 130000, 150000]"

lemma reminders_spaced_witness:
  "let m' = fold (\<lambda>(t, snap). maybe_alert show_int [] t snap) crit_rounds alerted_mon
   in length (rm_sent m') = 2 \<and> 100000 + 21600 * int (length (rm_sent m')) \<le> 150000"
proof -
  define m' where "m' = fold (\<lambda>(t, snap). maybe_alert show_int [] t snap) crit_rounds alerted_mon"
  have "\<forall>(t, snap) \<in> set crit_rounds. ph_status snap = ''crit'' \<and> ph_host_address snap = ''10.0.0.2'' \<and>
      ph_config_path snap = ''/etc/bashclub/10.0.0.1.conf''"
    by (simp add: crit_rounds_def crit_pair_def)
  moreover have "load_state (state_key ''10.0.0.2'' ''/etc/bashclub/10.0.0.1.conf'') alerted_mon =
      (Some (state_value_of crit_pair), Some 100000)"
    by (simp add: load_state_def alerted_mon_def dget_cons)
  ultimately have "100000 + 21600 * int (length (rm_sent m') - length (rm_sent alerted_mon))
      \<le> last (100000 # map fst crit_rounds)"
    by (rule conjunct1 [OF reminders_spaced [OF _ _ _ _ _ m'_def]])
      (simp_all add: state_value_of_def crit_pair_def crit_rounds_def)
  moreover have "length (rm_sent m') = 2" unfolding m'_def by code_simp
  ultimately show ?thesis unfolding m'_def [symmetric] Let_def by (simp add: alerted_mon_def crit_rounds_def)
qed

text \<open>The cooldown holds only while the status does not change: a pair that comes and goes is announced
  in every round.\<close>

lemma flapping_has_no_cooldown:
  "length (rm_sent (fold (\<lambda>(t, s). maybe_alert show_int [] t (crit_pair\<lparr>ph_status := s\<rparr>))
     [(100900, ''ok''), (101800, ''warn''), (102700, ''ok''), (103600, ''warn'')] alerted_mon)) = 4"
  by code_simp

text \<open>A source that is marked expected-offline is never reported: a round over a host all of whose
  monitored pairs pull from such sources sends nothing, whatever their lag and whatever was known.\<close>

theorem standby_sources_silent:
  assumes "\<forall>cfg \<in> set (list_configs run h). monitored cfg \<longrightarrow>
    (\<exists>s \<in> set hosts. ho_standby s \<and> ho_address s = source_ip (ce_source cfg))"
  shows "rm_sent (snd (run_checks_for_host run f hosts now h m)) = rm_sent m"
proof -
  have quiet: "rm_sent (fold (maybe_alert f hosts now) snaps m) = rm_sent m"
    if "\<forall>s \<in> set snaps. ph_status s = ''standby''" for snaps m
    using that
  proof (induction snaps arbitrary: m)
    case (Cons s snaps)
    have "alert_title (prev_status s m) (last_alert_of s m) s now = None"
      using Cons.prems by (simp add: alert_title_def Let_def)
    then have "rm_sent (maybe_alert f hosts now s m) = rm_sent m"
      by (simp add: maybe_alert_cases Let_def save_state_def)
    then show ?case using Cons by simp
  qed simp
  have "\<forall>s \<in> set (map (judged_pair run hosts now h) (filter monitored (list_configs run h))). ph_status s = ''standby''"
    using assms by (auto simp: judged_pair_def Let_def list_ex_iff)
  from quiet [OF this] show ?thesis by (simp add: run_checks_for_host_def Let_def)
qed

definition one_config :: "host \<Rightarrow> string \<Rightarrow> cmd_result" where
  "one_config h c = cmd_ok (if c = LIST_CONFIGS_CMD
     then join [newline] [''__FILE__ /etc/bashclub/10.0.0.1.conf'', ''source=root@10.0.0.1'', ''target=tank/repl'', ''__END__'']
     else [])"

lemma standby_sources_silent_witness:
  "rm_sent (snd (run_checks_for_host one_config show_int [(plain_host ''bak'' ''10.0.0.1'')\<lparr>ho_standby := True\<rparr>] 200000
     (plain_host ''pve2'' ''10.0.0.2'') alerted_mon)) = rm_sent alerted_mon"
proof (rule standby_sources_silent)
  have "list_all (\<lambda>cfg. monitored cfg \<and> source_ip (ce_source cfg) = ''10.0.0.1'')
      (list_configs one_config (plain_host ''pve2'' ''10.0.0.2'')) \<and>
    list_configs one_config (plain_host ''pve2'' ''10.0.0.2'') \<noteq> []"
    by code_simp
  then show "\<forall>cfg \<in> set (list_configs one_config (plain_host ''pve2'' ''10.0.0.2'')). monitored cfg \<longrightarrow>
    (\<exists>s \<in> set [(plain_host ''bak'' ''10.0.0.1'')\<lparr>ho_standby := True\<rparr>]. ho_standby s \<and>
       ho_address s = source_ip (ce_source cfg))"
    by (simp add: list_all_iff plain_host_def)
qed

section \<open>The health of a source\<close>

lemma add_worse_fold:
  "case dget (fold add_worse rs out) ip of
     None \<Rightarrow> dget out ip = None \<and> ip \<notin> fst ` set rs
   | Some s \<Rightarrow> ((ip, s) \<in> set rs \<or> dget out ip = Some s) \<and>
       (\<forall>t. (ip, t) \<in> set rs \<or> dget out ip = Some t \<longrightarrow> status_rank t \<le> status_rank s)"
proof (induction rs arbitrary: out)
  case Nil
  show ?case by (auto split: option.splits)
next
  case (Cons r rs)
  obtain jp u where r: "r = (jp, u)" by (cases r)
  show ?case
  proof (cases "jp = ip")
    case False
    then have "dget (add_worse r out) ip = dget out ip"
      by (simp add: add_worse_def r split: option.splits)
    then show ?thesis using Cons [where out = "add_worse r out"] False r by (auto split: option.splits)
  next
    case True
    define w where "w = (case dget out ip of None \<Rightarrow> u | Some v \<Rightarrow> if status_rank v < status_rank u then u else v)"
    have w: "dget (add_worse r out) ip = Some w"
      using True by (auto simp: add_worse_def r w_def split: option.splits)
    have top: "status_rank u \<le> status_rank w" "\<And>v. dget out ip = Some v \<Longrightarrow> status_rank v \<le> status_rank w"
      "w = u \<or> dget out ip = Some w"
      by (auto simp: w_def split: option.splits)
    show ?thesis
    proof (cases "dget (fold add_worse (r # rs) out) ip")
      case None
      then show ?thesis using Cons [where out = "add_worse r out"] w by simp
    next
      case (Some s)
      then have s: "(ip, s) \<in> set rs \<or> w = s" "\<And>t. (ip, t) \<in> set rs \<or> w = t \<Longrightarrow> status_rank t \<le> status_rank s"
        using Cons [where out = "add_worse r out"] w by auto
      have "status_rank t \<le> status_rank s" if "(ip, t) \<in> set (r # rs) \<or> dget out ip = Some t" for t
      proof -
        have "(ip, t) \<in> set rs \<or> t = u \<or> dget out ip = Some t" using that r True by auto
        moreover have "status_rank w \<le> status_rank s" using s(2) [of w] s(1) by auto
        ultimately show ?thesis using s(2) [of t] top(1) top(2) [of t] order_trans by blast
      qed
      moreover have "(ip, s) \<in> set (r # rs) \<or> dget out ip = Some s" using s(1) top(3) r True by auto
      ultimately show ?thesis using Some by simp
    qed
  qed
qed

text \<open>What the guest pages show for a source is the worst stored status of its pairs: one of them has
  it and none is worse; a source without a readable row is not in the map.\<close>

theorem source_health_is_worst:
  "case dget (source_health_map m) ip of
     None \<Rightarrow> ip \<notin> fst ` set (health_rows m)
   | Some s \<Rightarrow> (ip, s) \<in> set (health_rows m) \<and>
       status_rank s = Max (status_rank ` {t. (ip, t) \<in> set (health_rows m)})"
proof (cases "dget (source_health_map m) ip")
  case None
  then show ?thesis using add_worse_fold [where rs = "health_rows m" and out = "[]" and ip = ip] by (simp add: source_health_map_def)
next
  case (Some s)
  then have s: "(ip, s) \<in> set (health_rows m)" "\<And>t. (ip, t) \<in> set (health_rows m) \<Longrightarrow> status_rank t \<le> status_rank s"
    using add_worse_fold [where rs = "health_rows m" and out = "[]" and ip = ip] by (auto simp: source_health_map_def)
  have "{t. (ip, t) \<in> set (health_rows m)} \<subseteq> snd ` set (health_rows m)" by force
  then have "finite {t. (ip, t) \<in> set (health_rows m)}" by (rule finite_subset) simp
  then have "Max (status_rank ` {t. (ip, t) \<in> set (health_rows m)}) = status_rank s"
    using s by (intro Max_eqI) auto
  then show ?thesis using Some s(1) by simp
qed

end
