(* ===== verification/Tasks.thy ===== *)
theory Tasks
  imports PyStr PyVal
begin

text \<open>
  \<open>app/tasks.py\<close>: the registry of background tasks. The table is a dictionary by task id; every
  operation under the lock is one function. A world is the table, the ids of the threads that are
  still running and the clock; its steps are what the threads and the callers do, in any order.
\<close>

definition TASK_TTL_SECONDS :: int where "TASK_TTL_SECONDS = 6 * 3600"

record log_line =
  ll_time :: int
  ll_msg :: string
  ll_fields :: "(string, pyval) dict"

record 'r task =
  tk_id :: string
  tk_name :: string
  tk_status :: string
  tk_progress :: string
  tk_started :: int
  tk_finished :: "int option"
  tk_result :: "'r option"
  tk_error :: string
  tk_log :: "log_line list"

type_synonym 'r tasks = "(string, 'r task) dict"

section \<open>The operations\<close>

text \<open>A time of zero is false in Python.\<close>

definition expired :: "int \<Rightarrow> 'r task \<Rightarrow> bool" where
  "expired now v = (case tk_finished v of None \<Rightarrow> False | Some t \<Rightarrow> t \<noteq> 0 \<and> t < now - TASK_TTL_SECONDS)"

definition gc_tasks :: "int \<Rightarrow> 'r tasks \<Rightarrow> 'r tasks" where
  "gc_tasks now ts = fold (\<lambda>tid. dpop tid) (map fst (filter (\<lambda>(k, v). expired now v) ts)) ts"

definition new_task :: "int \<Rightarrow> string \<Rightarrow> string \<Rightarrow> 'r task" where
  "new_task now tid name = \<lparr>tk_id = tid, tk_name = name, tk_status = ''running'', tk_progress = [],
     tk_started = now, tk_finished = None, tk_result = None, tk_error = [], tk_log = []\<rparr>"

text \<open>\<open>tid\<close> is the fresh id that \<open>uuid4\<close> gives.\<close>

definition start_task :: "int \<Rightarrow> string \<Rightarrow> string \<Rightarrow> 'r tasks \<Rightarrow> 'r tasks" where
  "start_task now tid name ts = dset tid (new_task now tid name) (gc_tasks now ts)"

definition change_task :: "string \<Rightarrow> ('r task \<Rightarrow> 'r task) \<Rightarrow> 'r tasks \<Rightarrow> 'r tasks" where
  "change_task tid f ts = (case dget ts tid of None \<Rightarrow> ts | Some r \<Rightarrow> dset tid (f r) ts)"

text \<open>\<open>xs[-500:]\<close> of a longer list.\<close>

definition last_n :: "nat \<Rightarrow> 'a list \<Rightarrow> 'a list" where
  "last_n n xs = drop (length xs - n) xs"

definition progress :: "int \<Rightarrow> string \<Rightarrow> string \<Rightarrow> (string, pyval) dict \<Rightarrow> 'r tasks \<Rightarrow> 'r tasks" where
  "progress now tid msg flds = change_task tid (\<lambda>r.
     let log = tk_log r @ [\<lparr>ll_time = now, ll_msg = msg, ll_fields = flds\<rparr>]
     in r\<lparr>tk_progress := msg, tk_log := (if length log > 500 then last_n 500 log else log)\<rparr>)"

text \<open>The end of a thread: the result, or the text of the exception.\<close>

definition runner_done :: "int \<Rightarrow> string \<Rightarrow> 'r \<Rightarrow> 'r tasks \<Rightarrow> 'r tasks" where
  "runner_done now tid result = change_task tid (\<lambda>r. r\<lparr>tk_status := ''done'', tk_result := Some result, tk_finished := Some now\<rparr>)"

definition runner_error :: "int \<Rightarrow> string \<Rightarrow> string \<Rightarrow> 'r tasks \<Rightarrow> 'r tasks" where
  "runner_error now tid e = change_task tid (\<lambda>r. r\<lparr>tk_status := ''error'', tk_error := e, tk_finished := Some now\<rparr>)"

definition running_tasks :: "string \<Rightarrow> 'r tasks \<Rightarrow> 'r task list" where
  "running_tasks name_prefix ts =
     filter (\<lambda>r. tk_status r = ''running'' \<and> starts_with name_prefix (tk_name r)) (dvals ts)"

definition get_task :: "string \<Rightarrow> 'r tasks \<Rightarrow> 'r task option" where
  "get_task task_id ts = dget ts task_id"

section \<open>Threads\<close>

record 'r world =
  wd_tasks :: "'r tasks"
  wd_alive :: "string set"
  wd_clock :: int

inductive task_step :: "'r world \<Rightarrow> 'r world \<Rightarrow> bool" where
  start: "wd_clock w \<le> now \<Longrightarrow> dget (wd_tasks w) tid = None \<Longrightarrow>
    task_step w \<lparr>wd_tasks = start_task now tid name (wd_tasks w), wd_alive = insert tid (wd_alive w), wd_clock = now\<rparr>"
| report: "wd_clock w \<le> now \<Longrightarrow> tid \<in> wd_alive w \<Longrightarrow>
    task_step w \<lparr>wd_tasks = progress now tid msg flds (wd_tasks w), wd_alive = wd_alive w, wd_clock = now\<rparr>"
| finish: "wd_clock w \<le> now \<Longrightarrow> tid \<in> wd_alive w \<Longrightarrow>
    task_step w \<lparr>wd_tasks = runner_done now tid result (wd_tasks w), wd_alive = wd_alive w - {tid}, wd_clock = now\<rparr>"
| crash: "wd_clock w \<le> now \<Longrightarrow> tid \<in> wd_alive w \<Longrightarrow>
    task_step w \<lparr>wd_tasks = runner_error now tid e (wd_tasks w), wd_alive = wd_alive w - {tid}, wd_clock = now\<rparr>"

inductive_cases task_stepE: "task_step w w'"

text \<open>A world after the start of the process, at a positive time.\<close>

definition fresh_world :: "int \<Rightarrow> 'r world" where
  "fresh_world now = \<lparr>wd_tasks = [], wd_alive = {}, wd_clock = now\<rparr>"

inductive task_reach :: "'r world \<Rightarrow> 'r world \<Rightarrow> bool" where
  refl: "task_reach w w"
| step: "task_reach w w1 \<Longrightarrow> task_step w1 w2 \<Longrightarrow> task_reach w w2"

section \<open>What the steps do to one record\<close>

lemma dget_change_task [simp]: "dget (change_task tid f ts) k = (if k = tid then map_option f (dget ts k) else dget ts k)"
  by (simp add: change_task_def split: option.splits)

lemma dinv_change_task [dict_inv, simp]: "dinv ts \<Longrightarrow> dinv (change_task tid f ts)"
  by (simp add: change_task_def split: option.splits)

lemma fold_dpop: "dget (fold (\<lambda>tid. dpop tid) ks ts) k = (if k \<in> set ks then None else dget ts k)"
  by (induction ks arbitrary: ts) auto

lemma dinv_fold_dpop: "dinv ts \<Longrightarrow> dinv (fold (\<lambda>tid. dpop tid) ks ts)"
  by (induction ks arbitrary: ts) auto

lemma dget_gc:
  assumes "dinv ts"
  shows "dget (gc_tasks now ts) k = (case dget ts k of None \<Rightarrow> None | Some r \<Rightarrow> if expired now r then None else Some r)"
proof -
  have "k \<in> set (map fst (filter (\<lambda>(k, v). expired now v) ts)) \<longleftrightarrow> (\<exists>r. dget ts k = Some r \<and> expired now r)"
    using dget_Some_iff [OF assms] by force
  then show ?thesis by (auto simp: gc_tasks_def fold_dpop split: option.splits)
qed

lemma dinv_gc [dict_inv]: "dinv ts \<Longrightarrow> dinv (gc_tasks now ts)"
  by (simp add: gc_tasks_def dinv_fold_dpop)

text \<open>A record that no thread works on is well-formed in one of two ways; the log is never longer than
  five hundred lines.\<close>

definition task_ok :: "'r world \<Rightarrow> string \<Rightarrow> 'r task \<Rightarrow> bool" where
  "task_ok w tid r = (tk_id r = tid \<and> length (tk_log r) \<le> 500 \<and>
     (if tid \<in> wd_alive w then tk_status r = ''running'' \<and> tk_finished r = None
      else tk_status r \<in> {''done'', ''error''} \<and> (\<exists>t. tk_finished r = Some t \<and> 0 < t \<and> t \<le> wd_clock w)))"

definition world_ok :: "'r world \<Rightarrow> bool" where
  "world_ok w = (0 < wd_clock w \<and> dinv (wd_tasks w) \<and>
     (\<forall>tid r. dget (wd_tasks w) tid = Some r \<longrightarrow> task_ok w tid r) \<and>
     (\<forall>tid \<in> wd_alive w. dget (wd_tasks w) tid \<noteq> None))"

lemma world_okD:
  assumes "world_ok w"
  shows "0 < wd_clock w" "dinv (wd_tasks w)" "dget (wd_tasks w) tid = Some r \<Longrightarrow> task_ok w tid r"
    "tid \<in> wd_alive w \<Longrightarrow> dget (wd_tasks w) tid \<noteq> None"
  using assms by (auto simp: world_ok_def)

lemma alive_not_expired: "task_ok w tid r \<Longrightarrow> tid \<in> wd_alive w \<Longrightarrow> \<not> expired now r"
  by (simp add: task_ok_def expired_def)

lemma last_n_length: "length (last_n n xs) \<le> n"
  by (simp add: last_n_def)

lemma world_ok_start:
  assumes ok: "world_ok w" and "wd_clock w \<le> now" and "dget (wd_tasks w) tid = None"
  shows "world_ok \<lparr>wd_tasks = start_task now tid name (wd_tasks w), wd_alive = insert tid (wd_alive w), wd_clock = now\<rparr>"
    (is "world_ok ?w")
proof -
  note d = world_okD [OF ok]
  have "task_ok ?w k r" if "dget (wd_tasks ?w) k = Some r" for k r
  proof (cases "k = tid")
    case True
    then show ?thesis using that by (auto simp: start_task_def new_task_def task_ok_def)
  next
    case False
    then have "dget (wd_tasks w) k = Some r"
      using that d(2) by (auto simp: start_task_def dget_gc split: option.splits if_splits)
    then show ?thesis using d(3) [of k r] assms(2) False by (auto simp: task_ok_def)
  qed
  moreover have "dget (wd_tasks ?w) k \<noteq> None" if k: "k \<in> wd_alive ?w" for k
  proof (cases "k = tid")
    case False
    then obtain r where r: "dget (wd_tasks w) k = Some r" using d(4) [of k] k by auto
    then have "\<not> expired now r" using d(3) [OF r] False k by (simp add: alive_not_expired)
    then show ?thesis using r False d(2) by (simp add: start_task_def dget_gc)
  qed (simp add: start_task_def)
  moreover have "dinv (start_task now tid name (wd_tasks w))"
    using d(2) by (simp add: start_task_def dinv_gc)
  moreover have "0 < now" using d(1) assms(2) by simp
  ultimately show ?thesis unfolding world_ok_def by auto
qed

text \<open>The other three steps change one record of a running thread.\<close>

lemma world_ok_change:
  assumes ok: "world_ok w" and now: "wd_clock w \<le> now" and alive: "tid \<in> wd_alive w" and A: "A \<in> {wd_alive w, wd_alive w - {tid}}"
    and f: "\<And>r. task_ok w tid r \<Longrightarrow> task_ok \<lparr>wd_tasks = ts, wd_alive = A, wd_clock = now\<rparr> tid (f r)"
    and ts: "ts = change_task tid f (wd_tasks w)"
  shows "world_ok \<lparr>wd_tasks = ts, wd_alive = A, wd_clock = now\<rparr>"
proof -
  note d = world_okD [OF ok]
  have "task_ok \<lparr>wd_tasks = ts, wd_alive = A, wd_clock = now\<rparr> k r" if "dget ts k = Some r" for k r
  proof (cases "k = tid")
    case True
    then show ?thesis using that f d(3) unfolding ts by auto
  next
    case False
    then have "task_ok w k r" using that d(3) unfolding ts by simp
    then show ?thesis using False A now unfolding task_ok_def by auto
  qed
  moreover have "dget ts k \<noteq> None" if "k \<in> A" for k
    using d(4) [of k] that A unfolding ts by auto
  ultimately show ?thesis using d(1,2) now unfolding world_ok_def ts by auto
qed

lemma world_ok_step: "task_step w w' \<Longrightarrow> world_ok w \<Longrightarrow> world_ok w'"
proof (induction rule: task_step.induct)
  case (start w now tid name)
  then show ?case by (simp add: world_ok_start)
next
  case (report w now tid msg flds)
  then show ?case
    by (intro world_ok_change [OF report(3,1,2)])
      (auto simp: task_ok_def progress_def Let_def last_n_length fun_eq_iff)
next
  case (finish w now tid result)
  then show ?case
    using world_okD(1) [OF finish(3)]
    by (intro world_ok_change [OF finish(3,1,2)]) (auto simp: task_ok_def runner_done_def)
next
  case (crash w now tid e)
  then show ?case
    using world_okD(1) [OF crash(3)]
    by (intro world_ok_change [OF crash(3,1,2)]) (auto simp: task_ok_def runner_error_def)
qed

lemma world_ok_reach: "task_reach w w' \<Longrightarrow> world_ok w \<Longrightarrow> world_ok w'"
  by (induction rule: task_reach.induct) (auto intro: world_ok_step)

lemma world_ok_fresh: "0 < now \<Longrightarrow> world_ok (fresh_world now)"
  by (simp add: world_ok_def fresh_world_def)

section \<open>What callers may rely on\<close>

lemma dvals_mem: "dinv d \<Longrightarrow> r \<in> set (dvals d) \<longleftrightarrow> (\<exists>k. dget d k = Some r)"
  by (force simp: dvals_def dget_Some_iff)

text \<open>C32: The list of running tasks is exact: a caller that refuses to act while a job of some name is
  running sees the jobs whose threads have not ended, all of them and no others, in every state the
  threads can bring about. In particular the collection of old tasks never drops a running one.\<close>

theorem running_tasks_exact:
  assumes "task_reach (fresh_world t0) w" and "0 < t0"
  shows "tk_id ` set (running_tasks p (wd_tasks w)) =
    {tid \<in> wd_alive w. \<exists>r. get_task tid (wd_tasks w) = Some r \<and> starts_with p (tk_name r)}"
proof -
  have ok: "world_ok w" by (rule world_ok_reach [OF assms(1) world_ok_fresh [OF assms(2)]])
  note d = world_okD [OF ok]
  have "tid \<in> wd_alive w \<longleftrightarrow> tk_status r = ''running''" if "dget (wd_tasks w) tid = Some r" for tid r
    using d(3) [OF that] by (auto simp: task_ok_def split: if_splits)
  moreover have "tk_id r = tid" if "dget (wd_tasks w) tid = Some r" for tid r
    using d(3) [OF that] by (simp add: task_ok_def)
  ultimately show ?thesis
    unfolding running_tasks_def get_task_def set_filter dvals_mem [OF d(2)] by force
qed

lemma step_clock: "task_step w w' \<Longrightarrow> wd_clock w \<le> wd_clock w'"
  by (erule task_stepE) auto

lemma step_keeps_finished:
  assumes st: "task_step w w'" and ok: "world_ok w" and r: "dget (wd_tasks w) tid = Some r" and fin: "tid \<notin> wd_alive w"
  shows "(dget (wd_tasks w') tid = Some r \<and> tid \<notin> wd_alive w') \<or> (\<exists>t. tk_finished r = Some t \<and> t + TASK_TTL_SECONDS < wd_clock w')"
  using st
proof cases
  case (start now tid' name)
  then have "tid' \<noteq> tid" using r by auto
  then show ?thesis
    using start fin r dget_gc [OF world_okD(2) [OF ok], of now tid]
    by (auto simp: start_task_def expired_def split: option.splits if_splits)
next
  case (report now tid' msg flds)
  then have "tid' \<noteq> tid" using fin by auto
  then show ?thesis using report r fin by (simp add: progress_def)
next
  case (finish now tid' result)
  then have "tid' \<noteq> tid" using fin by auto
  then show ?thesis using finish r fin by (simp add: runner_done_def)
next
  case (crash now tid' e)
  then have "tid' \<noteq> tid" using fin by auto
  then show ?thesis using crash r fin by (simp add: runner_error_def)
qed

lemma reach_trans: "task_reach w1 w2 \<Longrightarrow> task_reach w0 w1 \<Longrightarrow> task_reach w0 w2"
  by (induction rule: task_reach.induct) (auto intro: task_reach.step)

text \<open>A finished task does not change any more: whoever asks for its result gets the same record, until
  six hours after its end have passed.\<close>

theorem finished_task_kept:
  assumes "task_reach w w'" and "task_reach (fresh_world t0) w" and "0 < t0"
    and "get_task tid (wd_tasks w) = Some r" and "tid \<notin> wd_alive w"
  shows "get_task tid (wd_tasks w') = Some r \<or> (\<exists>t. tk_finished r = Some t \<and> t + TASK_TTL_SECONDS < wd_clock w')"
proof -
  have "(dget (wd_tasks w') tid = Some r \<and> tid \<notin> wd_alive w') \<or> (\<exists>t. tk_finished r = Some t \<and> t + TASK_TTL_SECONDS < wd_clock w')"
    using assms
  proof (induction rule: task_reach.induct)
    case (step w w1 w2)
    have ok: "world_ok w1"
      by (rule world_ok_reach [OF reach_trans [OF step.hyps(1) step.prems(1)] world_ok_fresh [OF step.prems(2)]])
    from step.IH [OF step.prems] show ?case
    proof
      assume "dget (wd_tasks w1) tid = Some r \<and> tid \<notin> wd_alive w1"
      then show ?thesis using step_keeps_finished [OF step.hyps(2) ok] by blast
    next
      assume "\<exists>t. tk_finished r = Some t \<and> t + TASK_TTL_SECONDS < wd_clock w1"
      then show ?thesis using step_clock [OF step.hyps(2)] by (auto intro: less_le_trans)
    qed
  qed (simp add: get_task_def)
  then show ?thesis unfolding get_task_def by blast
qed

text \<open>Two jobs, of which one ends; the other reports.\<close>

definition two_jobs :: "nat world" where
  "two_jobs = \<lparr>wd_tasks = runner_done 130 ''t1'' 7 (progress 120 ''t2'' ''half'' []
     (start_task 110 ''t2'' ''ai-report'' (start_task 100 ''t1'' ''migrate-101'' []))), wd_alive = {''t2''}, wd_clock = 130\<rparr>"

lemma two_jobs_reach: "task_reach (fresh_world 50) two_jobs"
proof -
  define a :: "nat tasks" where "a = start_task 100 ''t1'' ''migrate-101'' []"
  define b where "b = start_task 110 ''t2'' ''ai-report'' a"
  define c where "c = progress 120 ''t2'' ''half'' [] b"
  have 1: "task_step (fresh_world 50) \<lparr>wd_tasks = a, wd_alive = {''t1''}, wd_clock = 100\<rparr>"
    using task_step.start [of "fresh_world 50 :: nat world" 100 "''t1''" "''migrate-101''"] by (simp add: fresh_world_def a_def)
  have 2: "task_step \<lparr>wd_tasks = a, wd_alive = {''t1''}, wd_clock = 100\<rparr> \<lparr>wd_tasks = b, wd_alive = {''t2'', ''t1''}, wd_clock = 110\<rparr>"
    using task_step.start [of "\<lparr>wd_tasks = a, wd_alive = {''t1''}, wd_clock = 100\<rparr>" 110 "''t2''" "''ai-report''"]
    by (simp add: b_def a_def start_task_def gc_tasks_def)
  have 3: "task_step \<lparr>wd_tasks = b, wd_alive = {''t2'', ''t1''}, wd_clock = 110\<rparr> \<lparr>wd_tasks = c, wd_alive = {''t2'', ''t1''}, wd_clock = 120\<rparr>"
    using task_step.report [of "\<lparr>wd_tasks = b, wd_alive = {''t2'', ''t1''}, wd_clock = 110\<rparr>" 120 "''t2''"] by (simp add: c_def)
  have "{''t2'', ''t1''} - {''t1''} = {''t2''}" by auto
  then have 4: "task_step \<lparr>wd_tasks = c, wd_alive = {''t2'', ''t1''}, wd_clock = 120\<rparr> two_jobs"
    using task_step.finish [of "\<lparr>wd_tasks = c, wd_alive = {''t2'', ''t1''}, wd_clock = 120\<rparr>" 130 "''t1''" 7]
    by (simp add: two_jobs_def c_def b_def a_def)
  show ?thesis by (rule task_reach.step [OF task_reach.step [OF task_reach.step [OF task_reach.step [OF task_reach.refl 1] 2] 3] 4])
qed

lemma running_tasks_exact_witness:
  "tk_id ` set (running_tasks ''ai'' (wd_tasks two_jobs)) = {''t2''} \<and> running_tasks ''migrate'' (wd_tasks two_jobs) = []"
proof -
  have g: "map_option tk_name (get_task ''t2'' (wd_tasks two_jobs)) = Some ''ai-report''" "wd_alive two_jobs = {''t2''}"
    by (code_simp, simp add: two_jobs_def)
  have r: "starts_with ''ai'' ''ai-report''" "\<not> starts_with ''migrate'' ''ai-report''" by code_simp+
  obtain x where x: "get_task ''t2'' (wd_tasks two_jobs) = Some x" "tk_name x = ''ai-report''" using g(1) by auto
  have all: "tk_id ` set (running_tasks p (wd_tasks two_jobs)) = (if starts_with p ''ai-report'' then {''t2''} else {})" for p
  proof -
    have "(0 :: int) < 50" by simp
    note e = running_tasks_exact [OF two_jobs_reach this, of p]
    have "{tid \<in> {k}. P tid} = (if P k then {k} else {})" for P and k :: string by auto
    then show ?thesis unfolding e g(2) by (simp only: x option.inject ex_simps simp_thms)
  qed
  show ?thesis using all [of "''ai''"] all [of "''migrate''"] r by simp
qed

lemma finished_task_kept_witness:
  "\<exists>r. get_task ''t1'' (wd_tasks two_jobs) = Some r \<and> tk_result r = Some 7 \<and>
     (get_task ''t1'' (start_task 200 ''t3'' ''x'' (wd_tasks two_jobs)) = Some r \<or>
      (\<exists>t. tk_finished r = Some t \<and> t + TASK_TTL_SECONDS < 200))"
proof -
  define w' where "w' = \<lparr>wd_tasks = start_task 200 ''t3'' ''x'' (wd_tasks two_jobs), wd_alive = insert ''t3'' (wd_alive two_jobs), wd_clock = 200\<rparr>"
  have n: "dget (wd_tasks two_jobs) ''t3'' = None" "wd_clock two_jobs \<le> 200" by (code_simp, simp add: two_jobs_def)
  have "task_reach two_jobs w'"
    unfolding w'_def by (rule task_reach.step [OF task_reach.refl task_step.start [OF n(2,1)]])
  note kept = finished_task_kept [OF this two_jobs_reach]
  have "map_option tk_result (get_task ''t1'' (wd_tasks two_jobs)) = Some (Some 7)" by code_simp
  then obtain r where r: "get_task ''t1'' (wd_tasks two_jobs) = Some r" "tk_result r = Some 7" by auto
  have "''t1'' \<notin> wd_alive two_jobs" by (simp add: two_jobs_def)
  from kept [OF _ r(1) this] show ?thesis using r by (simp add: w'_def)
qed

end
