(* ===== verification/SnapAnalysis.thy ===== *)
theory SnapAnalysis
  imports SnapTags Cache
begin

text \<open>
  \<open>app/snapshot_analysis.py\<close> with the commands of \<open>app/zfs_commands.py\<close> that feed it: which snapshots of
  which label a dataset has, whether the newest is too old, whether there are holes, whether the
  number is the configured one. \<open>round1 n d\<close> stands for Python's \<open>round(n / d, 1)\<close> on floats, which only
  serves display. A threshold of one and a half times an integer is compared after doubling.
\<close>

section \<open>Reading\<close>

record label_info =
  li_count :: nat
  li_oldest :: int
  li_newest :: int
  li_timestamps :: "int list"

record manual_snap =
  ms_name :: string
  ms_creation :: int

record snap_ages =
  sa_datasets :: "(string, (string, label_info) dict) dict"
  sa_manual :: "(string, manual_snap list) dict"

text \<open>\<open>s.rsplit(c, 1)\<close>.\<close>

definition rsplit_once :: "char \<Rightarrow> string \<Rightarrow> (string \<times> string) option" where
  "rsplit_once c s = map_option (\<lambda>(a, b). (rev b, rev a)) (split_once c (rev s))"

definition age_line :: "string \<Rightarrow> (string \<times> string \<times> int) option" where
  "age_line line =
     (case split_on (\<lambda>c. c = tab) line of
        full # creation # _ \<Rightarrow>
          (case rsplit_once CHR ''@'' full of
             None \<Rightarrow> None
           | Some (ds, snap) \<Rightarrow> map_option (\<lambda>n. (ds, snap, n)) (py_int creation))
      | _ \<Rightarrow> None)"

text \<open>The text of the first match.\<close>

definition search_text :: "re \<Rightarrow> string \<Rightarrow> string option" where
  "search_text r s = map_option (group_str 0) (re_search (Grp 0 r) s)"

definition new_info :: "int \<Rightarrow> label_info" where
  "new_info creation = \<lparr>li_count = 0, li_oldest = creation, li_newest = creation, li_timestamps = []\<rparr>"

definition add_time :: "int \<Rightarrow> label_info \<Rightarrow> label_info" where
  "add_time creation i = i\<lparr>li_count := li_count i + 1, li_timestamps := li_timestamps i @ [creation],
     li_oldest := (if creation < li_oldest i then creation else li_oldest i),
     li_newest := (if creation > li_newest i then creation else li_newest i)\<rparr>"

definition add_age :: "re \<Rightarrow> string \<times> string \<times> int \<Rightarrow> snap_ages \<Rightarrow> snap_ages" where
  "add_age label_re row a =
     (case row of (ds, snap, creation) \<Rightarrow>
        (case search_text label_re snap of
           None \<Rightarrow> a\<lparr>sa_manual := dmodify ds [] (\<lambda>l. l @ [\<lparr>ms_name = snap, ms_creation = creation\<rparr>]) (sa_manual a)\<rparr>
         | Some label \<Rightarrow>
             a\<lparr>sa_datasets := dmodify ds [] (dmodify label (new_info creation) (add_time creation)) (sa_datasets a)\<rparr>))"

definition sort_times :: "snap_ages \<Rightarrow> snap_ages" where
  "sort_times a = a\<lparr>sa_datasets := map (\<lambda>(ds, labels).
     (ds, map (\<lambda>(l, i). (l, i\<lparr>li_timestamps := sort (li_timestamps i)\<rparr>)) labels)) (sa_datasets a)\<rparr>"

definition snapshot_ages_of :: "re \<Rightarrow> string \<Rightarrow> snap_ages" where
  "snapshot_ages_of label_re stdout =
     sort_times (fold (add_age label_re) (List.map_filter age_line (splitlines (strip stdout)))
       \<lparr>sa_datasets = [], sa_manual = []\<rparr>)"

text \<open>\<open>tags\<close> is the file of the saved selections; reading it can raise.\<close>

definition get_snapshot_ages ::
  "(host \<Rightarrow> string \<Rightarrow> cmd_result) \<Rightarrow> json_file \<Rightarrow> host \<Rightarrow> py_exc + snap_ages" where
  "get_snapshot_ages run tags h =
     (let r = run h ''zfs list -t snapshot -Hpo name,creation''
      in if \<not> cr_success r then Inr \<lparr>sa_datasets = [], sa_manual = []\<rparr>
         else map_sum id (\<lambda>ts. snapshot_ages_of (build_label_regex (Some ts)) (cr_stdout r))
                (effective_tags tags (ho_address h)))"

definition get_autosnap_disabled_datasets :: "(host \<Rightarrow> string \<Rightarrow> cmd_result) \<Rightarrow> host \<Rightarrow> string list" where
  "get_autosnap_disabled_datasets run h =
     (let r = run h ''zfs get -Hpo name,value com.sun:auto-snapshot''
      in if \<not> cr_success r then []
         else sorted_set (List.map_filter (\<lambda>line. case split_on (\<lambda>c. c = tab) line of
                n # v # _ \<Rightarrow> if strip v = ''false'' then Some (strip n) else None | _ \<Rightarrow> None) (splitlines (cr_stdout r))))"

definition get_dataset_creations :: "(host \<Rightarrow> string \<Rightarrow> cmd_result) \<Rightarrow> host \<Rightarrow> (string, int) dict" where
  "get_dataset_creations run h =
     (let r = run h ''zfs list -Hpo name,creation -t filesystem,volume''
      in if \<not> cr_success r then []
         else fold (\<lambda>line d. case split_on (\<lambda>c. c = tab) line of
                n # v # _ \<Rightarrow> (case py_int v of Some t \<Rightarrow> dset (strip n) t d | None \<Rightarrow> d) | _ \<Rightarrow> d)
                (splitlines (cr_stdout r)) [])"

text \<open>The short option is a group of letters with one \<open>e\<close> among them.\<close>

definition flag_char :: "char \<Rightarrow> bool" where
  "flag_char c = ((is_lower c \<or> is_upper c) \<and> c \<noteq> CHR ''e'' \<and> c \<noteq> CHR ''E'')"

definition DEFAULT_EXCLUDE_RE :: re where
  "DEFAULT_EXCLUDE_RE = seqs [Alt Bol (Ch is_space),
     Alt (lit ''--default-exclude'')
       (seqs [chr CHR ''-'', Star (Ch flag_char), chr CHR ''e'', Star (Ch flag_char)]),
     Alt (Ahead (Ch (\<lambda>c. is_space c \<or> c = CHR ''=''))) Eol]"

definition parse_default_exclude :: "string \<Rightarrow> bool" where
  "parse_default_exclude cron_raw =
     list_ex (\<lambda>s. contains_str ''zfs-auto-snapshot'' s \<and> \<not> starts_with ''#'' s \<and> re_search DEFAULT_EXCLUDE_RE s \<noteq> None)
       (map strip (splitlines cron_raw))"

definition LABEL_OPT_RE :: re where
  "LABEL_OPT_RE = seqs [lit ''--label'', plus (Ch (\<lambda>c. c = CHR ''='' \<or> is_space c)), Grp 1 (plus (Ch (\<lambda>c. \<not> is_space c)))]"

definition KEEP_OPT_RE :: re where
  "KEEP_OPT_RE = seqs [lit ''--keep'', plus (Ch (\<lambda>c. c = CHR ''='' \<or> is_space c)), Grp 1 (plus (Ch is_digit))]"

definition policy_line :: "string \<Rightarrow> (string \<times> int) option" where
  "policy_line line =
     (if \<not> contains_str ''zfs-auto-snapshot'' line \<or> starts_with ''#'' (strip line) then None
      else case (re_search LABEL_OPT_RE line, re_search KEEP_OPT_RE line) of
             (Some l, Some k) \<Rightarrow> Some (group_str 1 l, digits_val (group_str 1 k))
           | _ \<Rightarrow> None)"

record autosnap_status =
  au_installed :: bool
  au_cron_config :: string
  au_retention :: "(string, int) dict"
  au_default_exclude :: bool

definition AUTOSNAP_PROBE :: string where
  "AUTOSNAP_PROBE = ''which zfs-auto-snapshot 2>/dev/null && echo INSTALLED || echo NOT_INSTALLED''"

definition AUTOSNAP_CRON_CMD :: string where
  "AUTOSNAP_CRON_CMD = ''cat /etc/cron.d/zfs-auto-snapshot 2>/dev/null; for d in frequent hourly daily weekly monthly; do ''
     @ ''  f=/etc/cron.$d/zfs-auto-snapshot;   if [ -f '' @ [CHR 0x22] @ ''$f'' @ [CHR 0x22] @ '' ]; then echo '' @ [CHR 0x22]
     @ ''=== $d ==='' @ [CHR 0x22] @ ''; cat '' @ [CHR 0x22] @ ''$f'' @ [CHR 0x22] @ ''; fi; done; ''
     @ ''crontab -l 2>/dev/null | grep zfs-auto-snapshot''"

definition get_auto_snapshot_status :: "(host \<Rightarrow> string \<Rightarrow> cmd_result) \<Rightarrow> host \<Rightarrow> autosnap_status" where
  "get_auto_snapshot_status run h =
     (let cron_raw = cr_stdout (run h AUTOSNAP_CRON_CMD)
      in \<lparr>au_installed = contains_str ''INSTALLED'' (cr_stdout (run h AUTOSNAP_PROBE)),
          au_cron_config = cron_raw,
          au_retention = fold (\<lambda>(l, k). dset l k) (List.map_filter policy_line (splitlines cron_raw)) [],
          au_default_exclude = parse_default_exclude cron_raw\<rparr>)"

section \<open>Analysis\<close>

definition MAX_AGE :: "(string, int) dict" where
  "MAX_AGE = [(''frequent'', 3600), (''hourly'', 7200), (''daily'', 90000), (''weekly'', 691200), (''monthly'', 2764800)]"

definition GAP_MIN_DELTAS :: nat where "GAP_MIN_DELTAS = 3"
definition REPLICA_STALE_FACTOR :: int where "REPLICA_STALE_FACTOR = 2"
definition LEADING_GAP_TOLERANCE :: int where "LEADING_GAP_TOLERANCE = 3600"

definition format_age :: "int \<Rightarrow> string" where
  "format_age seconds =
     (if seconds < 0 then ''0s''
      else if seconds < 60 then show_int seconds @ ''s''
      else if seconds < 3600 then show_int (seconds div 60) @ ''m''
      else if seconds < 86400 then show_int (seconds div 3600) @ ''h '' @ show_int ((seconds mod 3600) div 60) @ ''m''
      else show_int (seconds div 86400) @ ''d '' @ show_int ((seconds mod 86400) div 3600) @ ''h'')"

record mismatch =
  mm_dataset :: string
  mm_actual :: nat
  mm_configured :: int

record stale =
  sl_dataset :: string
  sl_age :: string
  sl_age_sec :: int
  sl_threshold :: string
  sl_threshold_sec :: int

record gap =
  gp_dataset :: string
  gp_gap_hours :: string
  gp_from_epoch :: int
  gp_to_epoch :: int
  gp_from_age :: string
  gp_to_age :: string
  gp_threshold_hours :: string

record label_stats =
  ls_total :: nat
  ls_datasets :: nat
  ls_configured_keep :: "int option"
  ls_oldest_age :: int
  ls_newest_age :: int
  ls_mismatches :: "mismatch list"
  ls_excluded :: nat
  ls_stale :: "stale list"
  ls_gaps :: "gap list"

record analysis_env =
  ae_now :: int
  ae_retention :: "(string, int) dict"
  ae_disabled :: "string list"
  ae_creation :: "(string, int) dict"
  ae_round1 :: "int \<Rightarrow> int \<Rightarrow> string"

definition stale_threshold :: "analysis_env \<Rightarrow> string \<Rightarrow> string \<Rightarrow> int" where
  "stale_threshold env ds label =
     (let t = dget_or 2764800 MAX_AGE label in if ds \<in> set (ae_disabled env) then t * REPLICA_STALE_FACTOR else t)"

definition stale_of :: "analysis_env \<Rightarrow> string \<Rightarrow> string \<Rightarrow> label_info \<Rightarrow> stale list" where
  "stale_of env ds label i =
     (let age_sec = ae_now env - li_newest i; threshold = stale_threshold env ds label
      in if age_sec > threshold
         then [\<lparr>sl_dataset = ds, sl_age = format_age age_sec, sl_age_sec = age_sec,
                sl_threshold = format_age threshold, sl_threshold_sec = threshold\<rparr>] else [])"

definition mismatch_of :: "analysis_env \<Rightarrow> string \<Rightarrow> string \<Rightarrow> label_info \<Rightarrow> mismatch list" where
  "mismatch_of env ds label i =
     (case dget (ae_retention env) label of
        None \<Rightarrow> []
      | Some configured \<Rightarrow>
          if configured \<noteq> 0 \<and> int (li_count i) \<noteq> configured
          then [\<lparr>mm_dataset = ds, mm_actual = li_count i, mm_configured = configured\<rparr>] else [])"

text \<open>The neighbours of a list, and the holes among them. The cadence is the upper median.\<close>

definition neighbours :: "int list \<Rightarrow> (int \<times> int) list" where
  "neighbours ts = zip ts (tl ts)"

definition cadence_of :: "int list \<Rightarrow> int" where
  "cadence_of ts = (let deltas = map (\<lambda>(a, b). b - a) (neighbours ts) in sort deltas ! (length deltas div 2))"

definition cold_start :: "analysis_env \<Rightarrow> string \<Rightarrow> int \<Rightarrow> bool" where
  "cold_start env ds t = (case dget (ae_creation env) ds of None \<Rightarrow> False | Some c \<Rightarrow> t \<le> c + LEADING_GAP_TOLERANCE)"

definition holes :: "analysis_env \<Rightarrow> string \<Rightarrow> int list \<Rightarrow> (int \<times> int) list" where
  "holes env ds ts =
     (if length (neighbours ts) < GAP_MIN_DELTAS \<or> 3 * cadence_of ts \<le> 0 then []
      else filter (\<lambda>(a, b). \<not> 2 * (b - a) \<le> 3 * cadence_of ts \<and> \<not> cold_start env ds a) (neighbours ts))"

definition gap_of :: "analysis_env \<Rightarrow> string \<Rightarrow> int \<Rightarrow> int \<times> int \<Rightarrow> gap" where
  "gap_of env ds cadence ab = (case ab of (a, b) \<Rightarrow>
     \<lparr>gp_dataset = ds, gp_gap_hours = ae_round1 env (b - a) 3600, gp_from_epoch = a, gp_to_epoch = b,
      gp_from_age = format_age (ae_now env - a), gp_to_age = format_age (ae_now env - b),
      gp_threshold_hours = ae_round1 env (3 * cadence) 7200\<rparr>)"

definition gaps_of :: "analysis_env \<Rightarrow> string \<Rightarrow> label_info \<Rightarrow> gap list" where
  "gaps_of env ds i = map (gap_of env ds (cadence_of (li_timestamps i))) (holes env ds (li_timestamps i))"

definition new_stats :: "analysis_env \<Rightarrow> string \<Rightarrow> label_info \<Rightarrow> label_stats" where
  "new_stats env label i =
     \<lparr>ls_total = 0, ls_datasets = 0, ls_configured_keep = dget (ae_retention env) label, ls_oldest_age = 0,
      ls_newest_age = ae_now env - li_newest i, ls_mismatches = [], ls_excluded = 0, ls_stale = [], ls_gaps = []\<rparr>"

definition add_label :: "analysis_env \<Rightarrow> string \<Rightarrow> string \<Rightarrow> label_info \<Rightarrow> label_stats \<Rightarrow> label_stats" where
  "add_label env ds label i lg =
     (let age_sec = ae_now env - li_newest i; replica = (ds \<in> set (ae_disabled env))
      in lg\<lparr>ls_total := ls_total lg + li_count i, ls_datasets := ls_datasets lg + 1,
            ls_newest_age := (if age_sec < ls_newest_age lg then age_sec else ls_newest_age lg),
            ls_oldest_age := (if age_sec > ls_oldest_age lg then age_sec else ls_oldest_age lg),
            ls_excluded := (if replica then ls_excluded lg + 1 else ls_excluded lg),
            ls_mismatches := (if replica then ls_mismatches lg else ls_mismatches lg @ mismatch_of env ds label i),
            ls_stale := ls_stale lg @ stale_of env ds label i, ls_gaps := ls_gaps lg @ gaps_of env ds i\<rparr>)"

text \<open>The two nested loops visit these entries in this order.\<close>

type_synonym entry_at = "string \<times> string \<times> label_info"

definition entries_of :: "(string, (string, label_info) dict) dict \<Rightarrow> entry_at list" where
  "entries_of d = concat (map (\<lambda>(ds, labels). map (\<lambda>(l, i). (ds, l, i)) labels) d)"

definition label_global :: "analysis_env \<Rightarrow> entry_at list \<Rightarrow> (string, label_stats) dict" where
  "label_global env es =
     fold (\<lambda>(ds, label, i). dmodify label (new_stats env label i) (add_label env ds label i)) es []"

record label_report =
  lr_stats :: label_stats
  lr_per_dataset_avg :: nat
  lr_newest_age_human :: string

definition report_of :: "label_stats \<Rightarrow> label_report" where
  "report_of lg = \<lparr>lr_stats = lg, lr_per_dataset_avg = round_half_even (ls_total lg) (max (ls_datasets lg) 1),
     lr_newest_age_human = format_age (ls_newest_age lg)\<rparr>"

record missing_label =
  ml_count :: nat
  ml_examples :: "string list"

text \<open>The datasets that lack an expected label, by label.\<close>

definition missing_labels :: "analysis_env \<Rightarrow> (string, (string, label_info) dict) dict \<Rightarrow> (string, missing_label) dict" where
  "missing_labels env d =
     map (\<lambda>(l, dss). (l, \<lparr>ml_count = length dss, ml_examples = take 10 dss\<rparr>))
       (fold (\<lambda>(ds, labels). fold (\<lambda>l. dmodify l [] (\<lambda>dss. dss @ [ds]))
                (sorted_set (filter (\<lambda>l. \<not> dhas labels l) (dkeys (ae_retention env))))) d [])"

record manual_example =
  me_dataset :: string
  me_name :: string
  me_age :: string
  me_age_sec :: int
  me_creation :: int

record manual_summary =
  mu_total :: nat
  mu_datasets :: nat
  mu_examples :: "manual_example list"

definition manual_summary_of :: "int \<Rightarrow> (string, manual_snap list) dict \<Rightarrow> manual_summary option" where
  "manual_summary_of now d =
     (if d = [] then None
      else Some \<lparr>mu_total = sum_list (map (length \<circ> snd) d), mu_datasets = length d,
        mu_examples = take 20 (concat (map (\<lambda>(ds, snaps). map (\<lambda>s.
          \<lparr>me_dataset = ds, me_name = ms_name s, me_age = format_age (now - ms_creation s),
           me_age_sec = now - ms_creation s, me_creation = ms_creation s\<rparr>) (take 5 snaps)) (take 15 d)))\<rparr>)"

record analysis =
  an_per_label :: "(string, label_report) dict"
  an_missing :: "(string, missing_label) dict"
  an_manual :: "manual_summary option"
  an_datasets :: nat
  an_timestamp :: int

definition analyze_snapshots :: "analysis_env \<Rightarrow> snap_ages \<Rightarrow> analysis" where
  "analyze_snapshots env a =
     \<lparr>an_per_label = map (\<lambda>(l, lg). (l, report_of lg)) (label_global env (entries_of (sa_datasets a))),
      an_missing = missing_labels env (sa_datasets a), an_manual = manual_summary_of (ae_now env) (sa_manual a),
      an_datasets = length (sa_datasets a), an_timestamp = ae_now env\<rparr>"

text \<open>The first five, and how many are left out.\<close>

definition limited :: "'a list \<Rightarrow> 'a list \<times> nat option" where
  "limited items = (if 5 < length items then (take 5 items, Some (length items - 5)) else (items, None))"

record label_digest =
  ld_report :: label_report
  ld_stale :: "stale list \<times> nat option"
  ld_mismatches :: "mismatch list \<times> nat option"
  ld_gaps :: "gap list \<times> nat option"

definition truncate_for_ai :: "analysis \<Rightarrow> (string, label_digest) dict \<times> manual_summary option" where
  "truncate_for_ai a =
     (map (\<lambda>(l, r). (l, \<lparr>ld_report = r, ld_stale = limited (ls_stale (lr_stats r)),
        ld_mismatches = limited (ls_mismatches (lr_stats r)), ld_gaps = limited (ls_gaps (lr_stats r))\<rparr>)) (an_per_label a),
      map_option (\<lambda>m. if 10 < length (mu_examples m) then m\<lparr>mu_examples := take 10 (mu_examples m)\<rparr> else m) (an_manual a))"

section \<open>The loops as sums\<close>

lemma dget_fold_dmodify_first:
  "dget (fold (\<lambda>x. dmodify (key x) (ini x) (f x)) xs d) k =
    (case dget d k of
       Some v \<Rightarrow> Some (fold f (filter (\<lambda>x. key x = k) xs) v)
     | None \<Rightarrow> (case filter (\<lambda>x. key x = k) xs of [] \<Rightarrow> None | x # ys \<Rightarrow> Some (fold f (x # ys) (ini x))))"
  by (induction xs arbitrary: d) (auto simp: dget_or_def split: option.splits)

definition add_entry :: "analysis_env \<Rightarrow> entry_at \<Rightarrow> label_stats \<Rightarrow> label_stats" where
  "add_entry env e = (case e of (ds, l, i) \<Rightarrow> add_label env ds l i)"

definition entry_age :: "analysis_env \<Rightarrow> entry_at \<Rightarrow> int" where
  "entry_age env e = ae_now env - li_newest (snd (snd e))"

definition is_replica :: "analysis_env \<Rightarrow> entry_at \<Rightarrow> bool" where
  "is_replica env e = (fst e \<in> set (ae_disabled env))"

lemma fold_add_entry:
  "ls_total (fold (add_entry env) es lg) = ls_total lg + sum_list (map (li_count \<circ> snd \<circ> snd) es)"
  "ls_datasets (fold (add_entry env) es lg) = ls_datasets lg + length es"
  "ls_excluded (fold (add_entry env) es lg) = ls_excluded lg + length (filter (is_replica env) es)"
  "ls_mismatches (fold (add_entry env) es lg) = ls_mismatches lg @
     concat (map (\<lambda>(ds, l, i). mismatch_of env ds l i) (filter (\<lambda>e. \<not> is_replica env e) es))"
  "ls_stale (fold (add_entry env) es lg) = ls_stale lg @ concat (map (\<lambda>(ds, l, i). stale_of env ds l i) es)"
  "ls_gaps (fold (add_entry env) es lg) = ls_gaps lg @ concat (map (\<lambda>(ds, l, i). gaps_of env ds i) es)"
  "ls_newest_age (fold (add_entry env) es lg) = fold (\<lambda>e m. min m (entry_age env e)) es (ls_newest_age lg)"
  by (induction es arbitrary: lg) (auto simp: add_entry_def add_label_def Let_def is_replica_def entry_age_def min_def)

lemma fold_min_age: "fold (\<lambda>e m. min m (entry_age env e)) es a = Min (insert a (entry_age env ` set es))"
proof (induction es arbitrary: a)
  case (Cons e es)
  have "Min (insert a (insert (entry_age env e) (entry_age env ` set es))) =
      Min (insert (min a (entry_age env e)) (entry_age env ` set es))"
    by (cases "es = []") (simp_all add: min.assoc)
  then show ?case using Cons by simp
qed simp

text \<open>The entries of one label, in order.\<close>

definition entries_with :: "snap_ages \<Rightarrow> string \<Rightarrow> entry_at list" where
  "entries_with a label = filter (\<lambda>e. fst (snd e) = label) (entries_of (sa_datasets a))"

lemma dget_label_global:
  "dget (label_global env es) label =
    (case filter (\<lambda>e. fst (snd e) = label) es of [] \<Rightarrow> None
     | e # fs \<Rightarrow> Some (fold (add_entry env) (e # fs) (new_stats env label (snd (snd e)))))"
proof -
  have "label_global env es = fold (\<lambda>e. dmodify (fst (snd e)) (new_stats env (fst (snd e)) (snd (snd e))) (add_entry env e)) es []"
    by (simp add: label_global_def add_entry_def split_def)
  note eq = this
  show ?thesis
  proof (cases "filter (\<lambda>e. fst (snd e) = label) es")
    case (Cons e fs)
    then have "e \<in> set (filter (\<lambda>e. fst (snd e) = label) es)" by simp
    then have "fst (snd e) = label" by simp
    then show ?thesis unfolding eq dget_fold_dmodify_first Cons by simp
  qed (simp add: eq dget_fold_dmodify_first)
qed

text \<open>The report on a label is what its entries say, one by one: the number of snapshots and of datasets,
  the datasets left out of the count check, the mismatches of the others, every stale dataset and
  every hole, in order; the newest age is the smallest. A label without an entry has no report.\<close>

theorem label_report_exact:
  "case dget (an_per_label (analyze_snapshots env a)) label of
     None \<Rightarrow> entries_with a label = []
   | Some r \<Rightarrow> entries_with a label \<noteq> [] \<and>
       ls_total (lr_stats r) = sum_list (map (li_count \<circ> snd \<circ> snd) (entries_with a label)) \<and>
       ls_datasets (lr_stats r) = length (entries_with a label) \<and>
       ls_excluded (lr_stats r) = length (filter (is_replica env) (entries_with a label)) \<and>
       ls_mismatches (lr_stats r) = concat (map (\<lambda>(ds, l, i). mismatch_of env ds l i)
         (filter (\<lambda>e. \<not> is_replica env e) (entries_with a label))) \<and>
       ls_stale (lr_stats r) = concat (map (\<lambda>(ds, l, i). stale_of env ds l i) (entries_with a label)) \<and>
       ls_gaps (lr_stats r) = concat (map (\<lambda>(ds, l, i). gaps_of env ds i) (entries_with a label)) \<and>
       ls_newest_age (lr_stats r) = Min (entry_age env ` set (entries_with a label))"
proof (cases "entries_with a label")
  case Nil
  then show ?thesis
    by (simp add: analyze_snapshots_def dget_map_val dget_label_global entries_with_def)
next
  case (Cons e fs)
  define lg where "lg = fold (add_entry env) (e # fs) (new_stats env label (snd (snd e)))"
  have "dget (an_per_label (analyze_snapshots env a)) label = Some (report_of lg)"
    using Cons by (simp add: analyze_snapshots_def dget_map_val dget_label_global entries_with_def lg_def)
  moreover have "ls_newest_age lg = Min (entry_age env ` set (e # fs))"
  proof -
    have "ls_newest_age (new_stats env label (snd (snd e))) = entry_age env e"
      by (simp add: new_stats_def entry_age_def)
    then show ?thesis unfolding lg_def fold_add_entry(7) fold_min_age by simp
  qed
  ultimately show ?thesis
    using fold_add_entry(1-6) [where es = "e # fs" and env = env and lg = "new_stats env label (snd (snd e))", folded lg_def]
    unfolding Cons by (simp only: option.case report_of_def label_report.simps) (simp add: new_stats_def)
qed

section \<open>Holes\<close>

lemma sorted_below_median:
  fixes xs :: "int list"
  assumes "sorted xs" and "k < length xs"
  shows "length (filter (\<lambda>d. xs ! k < d) xs) \<le> length xs - Suc k"
proof -
  have "filter (\<lambda>d. xs ! k < d) (take (Suc k) xs) = []"
    using assms by (auto simp: filter_empty_conv in_set_conv_nth sorted_iff_nth_mono not_less)
  then have "filter (\<lambda>d. xs ! k < d) xs = filter (\<lambda>d. xs ! k < d) (drop (Suc k) xs)"
    using filter_append [of "\<lambda>d. xs ! k < d" "take (Suc k) xs" "drop (Suc k) xs"] by simp
  then show ?thesis using length_filter_le [of "\<lambda>d. xs ! k < d" "drop (Suc k) xs"] by simp
qed

text \<open>Holes are the exception: fewer than half of the distances between the snapshots of a dataset can be
  reported, since the threshold lies above their median. So a dataset with a regular rhythm, whatever
  it is, is never reported as a whole, and evenly spaced snapshots never have a hole.\<close>

theorem holes_are_minority:
  "2 * length (gaps_of env ds i) \<le> length (li_timestamps i) - 2"
proof (cases "length (neighbours (li_timestamps i)) < GAP_MIN_DELTAS \<or> 3 * cadence_of (li_timestamps i) \<le> 0")
  case True
  then show ?thesis by (simp add: gaps_of_def holes_def)
next
  case False
  define ts where "ts = li_timestamps i"
  define ds' where "ds' = map (\<lambda>(a, b). b - a) (neighbours ts)"
  define c where "c = cadence_of ts"
  have n: "length ds' = length ts - 1" by (simp add: ds'_def neighbours_def)
  have pos: "3 \<le> length ds'" "0 < c" using False by (simp_all add: ds'_def ts_def c_def GAP_MIN_DELTAS_def)
  have c: "c = sort ds' ! (length ds' div 2)" by (simp add: c_def cadence_of_def ds'_def Let_def)
  have "length (holes env ds ts) \<le> length (filter (\<lambda>(a, b). c < b - a) (neighbours ts))"
  proof -
    have "c < b - a" if "\<not> 2 * (b - a) \<le> 3 * c" for a b using pos(2) that by presburger
    then have sub: "(\<lambda>(a, b). \<not> 2 * (b - a) \<le> 3 * c \<and> \<not> cold_start env ds a) p \<Longrightarrow> (\<lambda>(a, b). c < b - a) p" for p
      by auto
    have "length (filter P xs) \<le> length (filter Q xs)" if "\<And>p. P p \<Longrightarrow> Q p" for P Q and xs :: "(int \<times> int) list"
      using that by (induction xs) (auto intro: le_SucI)
    from this [OF sub] show ?thesis using False by (simp add: holes_def ts_def [symmetric] c_def [symmetric])
  qed
  also have "\<dots> = length (filter (\<lambda>d. c < d) ds')"
    unfolding ds'_def filter_map length_map by (simp add: comp_def split_def)
  also have "\<dots> = length (filter (\<lambda>d. c < d) (sort ds'))"
    by (metis mset_filter mset_sort size_mset)
  also have "\<dots> \<le> length ds' - Suc (length ds' div 2)"
    using sorted_below_median [of "sort ds'" "length ds' div 2"] pos(1) unfolding c by simp
  finally have "2 * length (holes env ds ts) \<le> length ds' - 1" using pos(1) by linarith
  then show ?thesis unfolding n by (simp add: gaps_of_def ts_def [symmetric])
qed

section \<open>The listing\<close>

text \<open>What is read for a dataset and a label: the count is the number of times, the times are in order, and the
  oldest and newest are the extremes.\<close>

definition info_ok :: "label_info \<Rightarrow> bool" where
  "info_ok i = (li_timestamps i \<noteq> [] \<and> li_count i = length (li_timestamps i) \<and>
     li_oldest i = Min (set (li_timestamps i)) \<and> li_newest i = Max (set (li_timestamps i)))"

lemma info_ok_add: "info_ok i \<or> i = new_info t \<Longrightarrow> info_ok (add_time t i)"
proof (elim disjE)
  assume ok: "info_ok i"
  then have "set (li_timestamps i) \<noteq> {}" by (auto simp: info_ok_def)
  note ext = Min_insert [OF finite_set this] Max_insert [OF finite_set this]
  define m where "m = Min (set (li_timestamps i))"
  define M where "M = Max (set (li_timestamps i))"
  have i: "li_timestamps i \<noteq> []" "li_count i = length (li_timestamps i)" "li_oldest i = m" "li_newest i = M"
    using ok by (simp_all add: info_ok_def m_def M_def)
  show "info_ok (add_time t i)"
    using i unfolding info_ok_def add_time_def
    by (simp add: ext m_def [symmetric] M_def [symmetric] min_def max_def)
qed (simp add: info_ok_def add_time_def new_info_def)

lemma info_ok_sort: "info_ok i \<Longrightarrow> info_ok (i\<lparr>li_timestamps := sort (li_timestamps i)\<rparr>)"
  by (auto simp: info_ok_def) (metis set_empty set_sort)

definition ages_ok :: "snap_ages \<Rightarrow> bool" where
  "ages_ok a = list_all (\<lambda>(ds, l, i). info_ok i) (entries_of (sa_datasets a))"

definition snapshots_in :: "snap_ages \<Rightarrow> nat" where
  "snapshots_in a = sum_list (map (li_count \<circ> snd \<circ> snd) (entries_of (sa_datasets a))) +
     sum_list (map (length \<circ> snd) (sa_manual a))"

lemma entries_map_val:
  "entries_of (map (\<lambda>(ds, ls). (ds, map (\<lambda>(l, i). (l, f i)) ls)) d) = map (\<lambda>(ds, l, i). (ds, l, f i)) (entries_of d)"
  by (induction d) (auto simp: entries_of_def)

definition labels_ok :: "(string, label_info) dict \<Rightarrow> bool" where
  "labels_ok ls = list_all (\<lambda>(l, i). info_ok i) ls"

lemma entries_mem: "(ds, l, i) \<in> set (entries_of d) \<longleftrightarrow> (\<exists>ls. (ds, ls) \<in> set d \<and> (l, i) \<in> set ls)"
  by (auto simp: entries_of_def)

lemma ages_ok_alt: "ages_ok a = list_all (\<lambda>(ds, ls). labels_ok ls) (sa_datasets a)"
proof -
  have "ages_ok a \<longleftrightarrow> (\<forall>ds l i. (ds, l, i) \<in> set (entries_of (sa_datasets a)) \<longrightarrow> info_ok i)"
    by (auto simp: ages_ok_def list_all_iff)
  also have "\<dots> \<longleftrightarrow> (\<forall>ds ls. (ds, ls) \<in> set (sa_datasets a) \<longrightarrow> (\<forall>l i. (l, i) \<in> set ls \<longrightarrow> info_ok i))"
    unfolding entries_mem by blast
  also have "\<dots> \<longleftrightarrow> list_all (\<lambda>(ds, ls). labels_ok ls) (sa_datasets a)"
    by (auto simp: labels_ok_def list_all_iff)
  finally show ?thesis .
qed

lemma list_all_dmodify:
  assumes "list_all (\<lambda>(k, v). P v) d" and "\<And>v. P v \<Longrightarrow> P (f v)" and "P (f ini)"
  shows "list_all (\<lambda>(k, v). P v) (dmodify k ini f d)"
proof -
  have set: "set (dset k w d) \<subseteq> insert (k, w) (set d)" for w
    unfolding dset_def by (induction d) auto
  have "P (f (dget_or ini d k))"
    using assms dget_SomeD [of d k] by (fastforce simp: dget_or_def list_all_iff split: option.splits)
  then show ?thesis
    using assms(1) set [of "f (dget_or ini d k)"] unfolding dmodify_def list_all_iff by auto
qed

lemma ages_ok_add: "ages_ok a \<Longrightarrow> ages_ok (add_age r row a)"
proof -
  assume ok: "ages_ok a"
  obtain ds snap t where row: "row = (ds, snap, t)" by (cases row)
  have "labels_ok ls \<Longrightarrow> labels_ok (dmodify l (new_info t) (add_time t) ls)" for l ls
    unfolding labels_ok_def by (rule list_all_dmodify) (auto intro: info_ok_add)
  moreover have "labels_ok (dmodify l (new_info t) (add_time t) [])" for l
    unfolding labels_ok_def by (rule list_all_dmodify) (auto intro: info_ok_add)
  ultimately have "list_all (\<lambda>(ds, ls). labels_ok ls) (dmodify ds [] (dmodify l (new_info t) (add_time t)) (sa_datasets a))" for l
    using ok unfolding ages_ok_alt by (intro list_all_dmodify) auto
  then show ?thesis using ok by (simp add: add_age_def row ages_ok_alt split: option.splits)
qed

lemma ages_ok_sort: "ages_ok a \<Longrightarrow> ages_ok (sort_times a)"
  unfolding ages_ok_def sort_times_def
  by (simp add: entries_map_val list_all_iff) (auto intro: info_ok_sort)

text \<open>What is read from the listing is consistent: for every dataset and label the count is the number of
  times, the times are sorted, there is at least one, and oldest and newest are the first and the last.\<close>

theorem snapshot_ages_consistent:
  "list_all (\<lambda>(ds, l, i). li_timestamps i \<noteq> [] \<and> li_count i = length (li_timestamps i) \<and> sorted (li_timestamps i) \<and>
     li_oldest i = hd (li_timestamps i) \<and> li_newest i = last (li_timestamps i))
   (entries_of (sa_datasets (snapshot_ages_of label_re stdout)))"
proof -
  define a where "a = fold (add_age label_re) (List.map_filter age_line (splitlines (strip stdout))) \<lparr>sa_datasets = [], sa_manual = []\<rparr>"
  have "ages_ok (fold (add_age label_re) rows b)" if "ages_ok b" for rows b
    using that by (induction rows arbitrary: b) (auto intro: ages_ok_add)
  moreover have "ages_ok \<lparr>sa_datasets = [], sa_manual = []\<rparr>" by (simp add: ages_ok_def entries_of_def)
  ultimately have "ages_ok (sort_times a)" unfolding a_def by (blast intro: ages_ok_sort)
  moreover have "list_all (\<lambda>(ds, l, i). sorted (li_timestamps i)) (entries_of (sa_datasets (sort_times a)))"
    by (simp add: sort_times_def entries_map_val list_all_iff) auto
  moreover have "li_timestamps i \<noteq> [] \<and> li_count i = length (li_timestamps i) \<and> sorted (li_timestamps i) \<and>
      li_oldest i = hd (li_timestamps i) \<and> li_newest i = last (li_timestamps i)"
    if i: "info_ok i" "sorted (li_timestamps i)" for i
  proof -
    have "hd xs \<le> x \<and> x \<le> last xs" if "sorted xs" "x \<in> set xs" for x and xs :: "int list"
      using that by (induction xs) auto
    then have "Min (set (li_timestamps i)) = hd (li_timestamps i)" "Max (set (li_timestamps i)) = last (li_timestamps i)"
      using i by (auto simp: info_ok_def intro!: Min_eqI Max_eqI)
    then show ?thesis using i by (simp add: info_ok_def)
  qed
  ultimately show ?thesis
    unfolding snapshot_ages_of_def a_def [symmetric] ages_ok_def list_all_iff by fast
qed

section \<open>A flaw\<close>

text \<open>The probe answers NOT_INSTALLED where the tool is missing, and that contains INSTALLED.\<close>

lemma not_installed_counts_as_installed:
  "cr_stdout (run h AUTOSNAP_PROBE) = ''NOT_INSTALLED'' @ [newline] \<Longrightarrow> au_installed (get_auto_snapshot_status run h)"
proof -
  assume "cr_stdout (run h AUTOSNAP_PROBE) = ''NOT_INSTALLED'' @ [newline]"
  moreover have "contains_str ''INSTALLED'' (''NOT_INSTALLED'' @ [newline])" by code_simp
  ultimately show ?thesis by (simp add: get_auto_snapshot_status_def Let_def)
qed

end
