(* ===== verification/Autosnap.thy ===== *)
theory Autosnap
  imports PyRegex PyVal Base64
begin

text \<open>
  \<open>app/autosnap.py\<close>: the schedules of zfs-auto-snapshot are command lines in cron files. A level is
  parsed (the number to keep, commented out or not), and both can be changed in place. The remote
  host is a state \<open>'w\<close> that a command transforms, since the code reads a file, writes it and may be asked to
  change the same file again. \<open>\<w>\<close> is compared with the level names only, so ASCII letters suffice.
\<close>

section \<open>Levels\<close>

definition LEVELS :: "string list" where
  "LEVELS = [''frequent'', ''hourly'', ''daily'', ''weekly'', ''monthly'']"

definition LEVEL_FILES :: "(string, string) dict" where
  "LEVEL_FILES =
     [(''frequent'', ''/etc/cron.d/zfs-auto-snapshot''),
      (''hourly'', ''/etc/cron.hourly/zfs-auto-snapshot''),
      (''daily'', ''/etc/cron.daily/zfs-auto-snapshot''),
      (''weekly'', ''/etc/cron.weekly/zfs-auto-snapshot''),
      (''monthly'', ''/etc/cron.monthly/zfs-auto-snapshot'')]"

definition LEVEL_INTERVAL :: "(string, string) dict" where
  "LEVEL_INTERVAL = [(''frequent'', ''every 15 min''), (''hourly'', ''hourly''), (''daily'', ''daily''),
     (''weekly'', ''weekly''), (''monthly'', ''monthly'')]"

definition KEEP_MIN :: int where "KEEP_MIN = 0"
definition KEEP_MAX :: int where "KEEP_MAX = 100000"

definition keep_sep :: "char \<Rightarrow> bool" where
  "keep_sep c = (c = CHR ''='' \<or> is_space c)"

definition KEEP_RE :: re where
  "KEEP_RE = seqs [lit ''--keep'', plus (Ch keep_sep), Grp 1 (plus (Ch is_digit))]"

section \<open>Parsing\<close>

definition is_command_line :: "string \<Rightarrow> string \<Rightarrow> bool" where
  "is_command_line line label =
     (let body = strip (lstrip_chars ''#'' (lstrip line))
      in contains_str ''zfs-auto-snapshot'' body \<and> contains_str (''--label='' @ label) body)"

definition line_is_commented :: "string \<Rightarrow> bool" where
  "line_is_commented line = starts_with ''#'' (lstrip line)"

record level =
  lv_keep :: "int option"
  lv_enabled :: bool

definition keep_of :: "string \<Rightarrow> int option" where
  "keep_of line = map_option (\<lambda>m. digits_val (group_str 1 m)) (re_search KEEP_RE line)"

fun level_loop :: "string \<Rightarrow> level option \<Rightarrow> string list \<Rightarrow> level option" where
  "level_loop label candidate [] = candidate"
| "level_loop label candidate (line # ls) =
     (if \<not> is_command_line line label then level_loop label candidate ls
      else let entry = \<lparr>lv_keep = keep_of line, lv_enabled = \<not> line_is_commented line\<rparr>
           in if \<not> line_is_commented line then Some entry
              else level_loop label (case candidate of None \<Rightarrow> Some entry | Some e \<Rightarrow> Some e) ls)"

definition parse_level :: "string \<Rightarrow> string \<Rightarrow> level option" where
  "parse_level content label = level_loop label None (splitlines content)"

record level_view =
  lw_label :: string
  lw_interval :: string
  lw_file :: string
  lw_installed :: bool
  lw_keep :: "int option"
  lw_enabled :: bool

definition parse_retention :: "(string, string) dict \<Rightarrow> level_view list" where
  "parse_retention files =
     map (\<lambda>label.
       let parsed = Option.bind (dget files label) (\<lambda>content. parse_level content label)
       in \<lparr>lw_label = label, lw_interval = dget_or [] LEVEL_INTERVAL label, lw_file = dget_or [] LEVEL_FILES label,
           lw_installed = (parsed \<noteq> None), lw_keep = Option.bind parsed lv_keep,
           lw_enabled = (case parsed of None \<Rightarrow> False | Some e \<Rightarrow> lv_enabled e)\<rparr>) LEVELS"

section \<open>Rewriting\<close>

definition set_line_enabled :: "string \<Rightarrow> bool \<Rightarrow> string" where
  "set_line_enabled line enabled =
     (let stripped = lstrip line;
          indent = take (length line - length stripped) line;
          commented = starts_with ''#'' stripped
      in if enabled \<and> commented
         then let body = drop 1 stripped
              in indent @ (if starts_with '' '' body then drop 1 body else body)
         else if \<not> enabled \<and> \<not> commented then indent @ ''# '' @ stripped
         else line)"

definition update_line :: "string \<Rightarrow> int option \<Rightarrow> bool option \<Rightarrow> string \<Rightarrow> string" where
  "update_line label keep enabled line =
     (if \<not> is_command_line line label then line
      else let new1 = (case keep of None \<Rightarrow> line | Some k \<Rightarrow>
                 if re_search KEEP_RE line \<noteq> None then re_sub KEEP_RE (''--keep='' @ show_int k) line else line)
           in case enabled of None \<Rightarrow> new1 | Some b \<Rightarrow> set_line_enabled new1 b)"

definition update_level_content :: "string \<Rightarrow> string \<Rightarrow> int option \<Rightarrow> bool option \<Rightarrow> string" where
  "update_level_content content label keep enabled =
     join [newline] (map (update_line label keep enabled) (split_on (\<lambda>c. c = newline) content))"

section \<open>Reading and writing the files of a host\<close>

definition INSTALLED_CMD :: string where
  "INSTALLED_CMD = ''command -v zfs-auto-snapshot >/dev/null 2>&1 && echo INSTALLED || echo NO''"

definition section_cmd :: "string \<times> string \<Rightarrow> string" where
  "section_cmd lp = ''echo '' @ sq @ ''<<<'' @ fst lp @ ''>>>'' @ sq @ ''; cat '' @ shell_quote (snd lp)
     @ '' 2>/dev/null; echo '' @ sq @ ''<<<END>>>'' @ sq"

definition word_ch :: "char \<Rightarrow> bool" where
  "word_ch c = (is_alnum c \<or> c = CHR ''_'')"

definition SECTION_RE :: re where
  "SECTION_RE = seqs [Bol, lit ''<<<'', Grp 1 (plus (Ch word_ch)), lit ''>>>'', Eol]"

text \<open>The files read so far, the section open, its lines.\<close>

type_synonym sections = "(string, string) dict \<times> string option \<times> string list"

definition section_of :: "string \<Rightarrow> string option" where
  "section_of line =
     (case re_match SECTION_RE (strip line) of
        None \<Rightarrow> None
      | Some m \<Rightarrow> if dhas LEVEL_FILES (group_str 1 m) then Some (group_str 1 m) else None)"

definition section_step :: "string \<Rightarrow> sections \<Rightarrow> sections" where
  "section_step line st = (case st of (files, cur, buf) \<Rightarrow>
     (case section_of line of
        Some l \<Rightarrow> (files, Some l, [])
      | None \<Rightarrow>
          if strip line = ''<<<END>>>'' then
            (case cur of
               None \<Rightarrow> (files, None, buf)
             | Some l \<Rightarrow> (let text = join [newline] buf
                         in (if strip text \<noteq> [] then dset l text files else files, None, buf)))
          else (files, cur, if cur \<noteq> None then buf @ [line] else buf)))"

definition read_sections :: "string \<Rightarrow> (string, string) dict" where
  "read_sections raw = fst (fold section_step (split_on (\<lambda>c. c = newline) raw) ([], None, []))"

type_synonym 'w remote = "'w \<Rightarrow> string \<Rightarrow> cmd_result \<times> 'w"

definition get_retention :: "'w remote \<Rightarrow> 'w \<Rightarrow> (bool \<times> level_view list) \<times> 'w" where
  "get_retention run w =
     (let (i, w1) = run w INSTALLED_CMD;
          (r, w2) = run w1 (join ''; '' (map section_cmd LEVEL_FILES))
      in ((contains_str ''INSTALLED'' (cr_stdout i), parse_retention (read_sections (cr_stdout r))), w2))"

text \<open>A requested change; its members come from a decoded request.\<close>

record level_change =
  lc_label :: pyval
  lc_keep :: pyval
  lc_enabled :: pyval

datatype change_result =
    Refused pyval string
  | Unchanged string
  | Written string bool "int option" "bool option" string

fun result_ok :: "change_result \<Rightarrow> bool" where
  "result_ok (Refused l e) = False"
| "result_ok (Unchanged l) = True"
| "result_ok (Written l ok k e s) = ok"

text \<open>\<open>int(v)\<close>, with the two exceptions the code catches.\<close>

definition int_of :: "pyval \<Rightarrow> int option" where
  "int_of v = (case v of VInt i \<Rightarrow> Some i | VBool b \<Rightarrow> Some (if b then 1 else 0) | VStr s \<Rightarrow> py_int s | _ \<Rightarrow> None)"

definition level_file :: "pyval \<Rightarrow> (string \<times> string) option" where
  "level_file v = (case v of VStr l \<Rightarrow> map_option (\<lambda>p. (l, p)) (dget LEVEL_FILES l) | _ \<Rightarrow> None)"

definition keep_wanted :: "pyval \<Rightarrow> string + int option" where
  "keep_wanted v =
     (if v = VNone then Inr None
      else case int_of v of
        None \<Rightarrow> Inl ''keep not an integer''
      | Some k \<Rightarrow> if KEEP_MIN \<le> k \<and> k \<le> KEEP_MAX then Inr (Some k)
                  else Inl (''keep out of range ('' @ show_int KEEP_MIN @ ''-'' @ show_int KEEP_MAX @ '')''))"

definition read_file_cmd :: "string \<Rightarrow> string" where
  "read_file_cmd path = ''cat '' @ shell_quote path @ '' 2>/dev/null''"

definition write_file_cmd :: "string \<Rightarrow> string \<Rightarrow> string" where
  "write_file_cmd path content =
     ''cp -a '' @ shell_quote path @ '' '' @ shell_quote path @ ''.bak.$(date +%Y%m%d%H%M%S) && ''
     @ ''echo '' @ shell_quote (b64encode content) @ '' | base64 -d > '' @ shell_quote path @ '' && echo __OK__''"

definition NO_KEEP :: string where
  "NO_KEEP = ''no --keep= option in this level'' @ sq @ ''s cron command; cannot set retention count''"

definition write_level :: "'w remote \<Rightarrow> string \<Rightarrow> string \<Rightarrow> string \<Rightarrow> int option \<Rightarrow> bool option \<Rightarrow> 'w \<Rightarrow> change_result \<times> 'w" where
  "write_level run label path content keep enabled w =
     (if keep \<noteq> None \<and> \<not> list_ex (\<lambda>ln. is_command_line ln label \<and> re_search KEEP_RE ln \<noteq> None)
           (split_on (\<lambda>c. c = newline) content)
      then (Refused (VStr label) NO_KEEP, w)
      else let new_content = update_level_content content label keep enabled
           in if new_content = content then (Unchanged label, w)
              else let (rw, w2) = run w (write_file_cmd path new_content)
                   in (Written label (contains_str ''__OK__'' (cr_stdout rw)) keep enabled
                         (take 200 (strip (cr_stderr rw))), w2))"

definition apply_change :: "'w remote \<Rightarrow> level_change \<Rightarrow> 'w \<Rightarrow> change_result \<times> 'w" where
  "apply_change run ch w =
     (case level_file (lc_label ch) of
        None \<Rightarrow> (Refused (lc_label ch) ''unknown level'', w)
      | Some (label, path) \<Rightarrow>
          (case keep_wanted (lc_keep ch) of
             Inl err \<Rightarrow> (Refused (VStr label) err, w)
           | Inr keep \<Rightarrow>
               let enabled = (if lc_enabled ch = VNone then None else Some (truthy (lc_enabled ch)));
                   (r, w1) = run w (read_file_cmd path);
                   content = (if cr_success r then cr_stdout r else [])
               in if strip content = []
                  then (Refused (VStr label) ''cron file not found (level not installed)'', w1)
                  else write_level run label path content keep enabled w1))"

fun set_retention_loop :: "'w remote \<Rightarrow> level_change list \<Rightarrow> 'w \<Rightarrow> change_result list \<times> 'w" where
  "set_retention_loop run [] w = ([], w)"
| "set_retention_loop run (ch # chs) w =
     (let (res, w1) = apply_change run ch w; (rest, w2) = set_retention_loop run chs w1 in (res # rest, w2))"

text \<open>\<open>label not in LEVEL_FILES\<close> raises when the label is a list or a dictionary.\<close>

fun hashable :: "pyval \<Rightarrow> bool" where
  "hashable (VList xs) = False"
| "hashable (VDict d) = False"
| "hashable v = True"

definition set_retention ::
  "'w remote \<Rightarrow> level_change list \<Rightarrow> 'w \<Rightarrow> (py_exc + bool \<times> change_result list) \<times> 'w" where
  "set_retention run changes w =
     (let (results, w1) = set_retention_loop run (takeWhile (\<lambda>ch. hashable (lc_label ch)) changes) w
      in (if list_all (\<lambda>ch. hashable (lc_label ch)) changes then Inr (list_all result_ok results, results)
          else Inl (TypeError ''unhashable type''), w1))"

section \<open>Installing the package\<close>

definition INSTALL_SCRIPT :: string where
  "INSTALL_SCRIPT = join [newline]
     [''set -e'',
      ''if command -v zfs-auto-snapshot >/dev/null 2>&1; then'',
      ''  echo __ALREADY__'',
      ''  command -v zfs-auto-snapshot'',
      ''  exit 0'',
      ''fi'',
      ''DEBIAN_FRONTEND=noninteractive apt-get update -qq || true'',
      ''DEBIAN_FRONTEND=noninteractive apt-get install -y zfs-auto-snapshot'',
      ''command -v zfs-auto-snapshot'']"

record install_result =
  in_success :: bool
  in_already :: bool
  in_stdout :: string
  in_stderr :: string

definition install :: "'w remote \<Rightarrow> 'w \<Rightarrow> install_result \<times> 'w" where
  "install run w =
     (let (r, w1) = run w (''bash -s <<'' @ sq @ ''EOF'' @ sq @ [newline] @ INSTALL_SCRIPT @ [newline] @ ''EOF'')
      in (\<lparr>in_success = (cr_success r \<and> contains_str ''zfs-auto-snapshot'' (cr_stdout r)),
           in_already = contains_str ''__ALREADY__'' (cr_stdout r), in_stdout = cr_stdout r, in_stderr = cr_stderr r\<rparr>, w1))"

section \<open>Finding text\<close>

lemma contains_dropWhile:
  assumes "p \<noteq> []" "\<not> P (hd p)"
  shows "contains_str p (dropWhile P s) = contains_str p s"
proof (induction s)
  case (Cons c s)
  have "\<not> starts_with p (c # s)" if "P c"
    using assms that by (cases p) (auto simp: starts_with_def)
  with Cons show ?case by simp
qed simp

lemma contains_rev: "contains_str (rev p) (rev s) = contains_str p s"
proof -
  have "contains_str (rev p) (rev s)" if "contains_str p s" for p s :: string
    using that unfolding contains_str_iff by (metis append.assoc rev_append)
  from this [of p s] this [of "rev p" "rev s"] show ?thesis by auto
qed

lemma contains_strip:
  assumes "p \<noteq> []" "\<not> is_space (hd p)" "\<not> is_space (last p)"
  shows "contains_str p (strip s) = contains_str p s"
proof -
  have "contains_str p (rstrip t) = contains_str p t" for t
    using contains_dropWhile [of "rev p" is_space "rev t"] assms
    by (metis contains_rev hd_rev rev_is_Nil_conv rev_rev_ident rstrip_def)
  then show ?thesis using assms contains_dropWhile [of p is_space s] by (simp add: strip_def lstrip_def)
qed

text \<open>A piece \<open>m\<close> that shares no last character with \<open>p\<close> and ends in a character foreign to \<open>p\<close> separates
  the occurrences of \<open>p\<close>.\<close>

lemma contains_around:
  assumes p: "p \<noteq> []" "last p \<notin> set m" and m: "m \<noteq> []" "last m \<notin> set p"
  shows "contains_str p (x @ m @ r) \<longleftrightarrow> contains_str p x \<or> contains_str p r"
proof
  assume "contains_str p (x @ m @ r)"
  then obtain a b where ab: "x @ (m @ r) = (a @ p) @ b" unfolding contains_str_iff by auto
  from iffD1 [OF append_eq_append_conv2 this]
  consider us where "x = (a @ p) @ us" | us where "x @ us = a @ p" "m @ r = us @ b" by blast
  then show "contains_str p x \<or> contains_str p r"
  proof cases
    case 1
    then have "contains_str p x" unfolding contains_str_iff by (metis append.assoc)
    then show ?thesis ..
  next
    case (2 us)
    show ?thesis
    proof (cases "us = []")
      case True
      with 2(1) have "x = a @ p @ []" by simp
      then show ?thesis unfolding contains_str_iff by blast
    next
      case False
      then have l: "last p = last us" using 2(1) p(1) by (metis last_appendR)
      from iffD1 [OF append_eq_append_conv2 2(2)]
      consider v where "m = us @ v" | v where "us = m @ v" "r = v @ b" by metis
      then show ?thesis
      proof cases
        case 1
        then have "last us \<in> set m" using False by simp
        with l p(2) show ?thesis by simp
      next
        case (2 v)
        with \<open>x @ us = a @ p\<close> have "a @ p = (x @ m) @ v" by simp
        from iffD1 [OF append_eq_append_conv2 this]
        consider w where "a = (x @ m) @ w" "v = w @ p" | w where "x @ m = a @ w" "p = w @ v" by metis
        then show ?thesis
        proof cases
          case 1
          with \<open>r = v @ b\<close> have "r = w @ p @ b" by simp
          then show ?thesis unfolding contains_str_iff by blast
        next
          case w: (2 w)
          show ?thesis
          proof (cases "w = []")
            case True
            with w have "r = [] @ p @ b" using \<open>r = v @ b\<close> by simp
            then show ?thesis unfolding contains_str_iff by blast
          next
            case False
            then have "last m \<in> set w" using w(1) m(1) by (metis last_appendR last_in_set)
            with w(2) m(2) show ?thesis by simp
          qed
        qed
      qed
    qed
  qed
next
  assume "contains_str p x \<or> contains_str p r"
  then show "contains_str p (x @ m @ r)"
    using contains_str_append [of p x "[]" "m @ r"] contains_str_append [of p r "x @ m" "[]"] by auto
qed

section \<open>The option as a scanner\<close>

text \<open>What the pattern finds at the start of a text: the digits, and what follows them.\<close>

definition keep_at :: "string \<Rightarrow> (string \<times> string) option" where
  "keep_at s =
     (let t = drop 6 s; u = dropWhile keep_sep t; d = takeWhile is_digit u
      in if starts_with ''--keep'' s \<and> takeWhile keep_sep t \<noteq> [] \<and> d \<noteq> [] then Some (d, dropWhile is_digit u) else None)"

lemma sep_digit: "keep_sep c \<Longrightarrow> \<not> is_digit c"
  by (auto simp: keep_sep_def is_digit_def is_space_def cc_def)

lemma steps_plus:
  "steps (plus (Ch P)) (b, s, g) = (case s of [] \<Rightarrow> [] | c # t \<Rightarrow> if P c then steps (Star (Ch P)) (c # b, t, g) else [])"
  by (cases s) (simp_all add: plus_def)

lemma steps_digits:
  "steps (Grp 1 (plus (Ch is_digit))) (b, s, g) \<noteq> [] \<longleftrightarrow> takeWhile is_digit s \<noteq> []"
  "takeWhile is_digit s \<noteq> [] \<Longrightarrow> \<exists>b' ts. steps (Grp 1 (plus (Ch is_digit))) (b, s, g) =
     (b', dropWhile is_digit s, (1, takeWhile is_digit s) # g) # ts"
proof -
  show 1: "\<exists>b' ts. steps (Grp 1 (plus (Ch is_digit))) (b, s, g) =
      (b', dropWhile is_digit s, (1, takeWhile is_digit s) # g) # ts" if d: "takeWhile is_digit s \<noteq> []"
  proof -
    from d obtain c t where s: "s = c # t" "is_digit c" by (cases s) (auto split: if_splits)
    obtain ts where "steps (Star (Ch is_digit)) (c # b, t, g) =
        (rev (takeWhile is_digit t) @ c # b, dropWhile is_digit t, g) # ts"
      using steps_star_ch_first by blast
    moreover have "take (Suc (length t) - length (dropWhile is_digit t)) (c # t) = c # takeWhile is_digit t"
    proof -
      have "length t - length (dropWhile is_digit t) = length (takeWhile is_digit t)"
        using takeWhile_dropWhile_id [of is_digit t] by (metis add_diff_cancel_right' length_append)
      moreover have "length (dropWhile is_digit t) \<le> length t" by (rule length_dropWhile_le)
      ultimately show ?thesis by (simp add: Suc_diff_le takeWhile_eq_take [symmetric])
    qed
    ultimately show ?thesis using s by (simp add: steps_plus)
  qed
  show "steps (Grp 1 (plus (Ch is_digit))) (b, s, g) \<noteq> [] \<longleftrightarrow> takeWhile is_digit s \<noteq> []"
    using 1 by (cases s) (auto simp: steps_plus)
qed

lemma concat_map_hd: "f x = [] \<Longrightarrow> (\<And>y. y \<in> set xs \<Longrightarrow> f y = []) \<Longrightarrow> concat (map f (x # xs)) = []"
  by auto

lemma steps_keep_tail:
  assumes "takeWhile keep_sep t \<noteq> []"
  shows "\<exists>b'. steps (Seq (plus (Ch keep_sep)) (Grp 1 (plus (Ch is_digit)))) (b, t, g) =
     steps (Grp 1 (plus (Ch is_digit))) (b', dropWhile keep_sep t, g)"
proof -
  let ?G = "Grp 1 (plus (Ch is_digit))"
  from assms obtain c s where t: "t = c # s" "keep_sep c" by (cases t) (auto split: if_splits)
  obtain xs where xs: "steps (Star (Ch keep_sep)) (c # b, s, g) =
      (rev (takeWhile keep_sep s) @ c # b, dropWhile keep_sep s, g) # xs"
    using steps_star_ch_first by blast
  have "steps ?G x = []" if x: "x \<in> set xs" for x
  proof -
    have "map (\<lambda>k. (rev (take k s) @ c # b, drop k s, g)) (rev [0..<length (takeWhile keep_sep s)]) = xs"
      using xs unfolding steps_star_ch by simp
    with x obtain k where k: "k < length (takeWhile keep_sep s)" "x = (rev (take k s) @ c # b, drop k s, g)" by auto
    then have "keep_sep (s ! k)" by (metis nth_mem set_takeWhileD takeWhile_nth)
    moreover have "drop k s = s ! k # drop (Suc k) s"
      using k(1) length_takeWhile_le [of keep_sep s] by (simp add: Cons_nth_drop_Suc)
    ultimately have "takeWhile is_digit (drop k s) = []" using sep_digit by simp
    then show ?thesis using steps_digits(1) k(2) by blast
  qed
  then have "concat (map (steps ?G) xs) = []" by auto
  then have "steps (Seq (plus (Ch keep_sep)) ?G) (b, t, g) =
      steps ?G (rev (takeWhile keep_sep s) @ c # b, dropWhile keep_sep s, g)"
    using t xs by (simp add: steps_plus del: steps.simps(7))
  then show ?thesis using t by auto
qed

lemma steps_keep:
  "steps KEEP_RE (b, s, g) = [] \<longleftrightarrow> keep_at s = None"
  "keep_at s = Some (d, r) \<Longrightarrow> \<exists>b' ts. steps KEEP_RE (b, s, g) = (b', r, (1, d) # g) # ts"
proof -
  let ?T = "Seq (plus (Ch keep_sep)) (Grp 1 (plus (Ch is_digit)))"
  have e: "steps KEEP_RE (b, s, g) =
      (if starts_with ''--keep'' s then steps ?T (rev ''--keep'' @ b, drop 6 s, g) else [])"
    unfolding KEEP_RE_def seqs.simps steps.simps(3) [of "lit ''--keep''"] steps_lit
    by (simp add: numeral_eq_Suc del: steps.simps(3))
  have n: "steps ?T (b', t, g) = []" if "takeWhile keep_sep t = []" for b' t
    using that by (cases t) (auto simp: steps_plus split: if_splits)
  show "steps KEEP_RE (b, s, g) = [] \<longleftrightarrow> keep_at s = None"
  proof (cases "takeWhile keep_sep (drop 6 s) = []")
    case True
    then show ?thesis unfolding e n [OF True] by (simp add: keep_at_def Let_def)
  next
    case False
    from steps_keep_tail [OF False] show ?thesis unfolding e keep_at_def Let_def using False steps_digits(1)
      by (metis option.distinct(1))
  qed
  assume k: "keep_at s = Some (d, r)"
  then have f: "takeWhile keep_sep (drop 6 s) \<noteq> []" "starts_with ''--keep'' s"
    "d = takeWhile is_digit (dropWhile keep_sep (drop 6 s))" "d \<noteq> []"
    "r = dropWhile is_digit (dropWhile keep_sep (drop 6 s))"
    by (auto simp: keep_at_def Let_def split: if_splits)
  from steps_keep_tail [OF f(1)] show "\<exists>b' ts. steps KEEP_RE (b, s, g) = (b', r, (1, d) # g) # ts"
    unfolding e using f steps_digits(2) by metis
qed

lemma keep_at_shorter: "keep_at s = Some (d, r) \<Longrightarrow> length r < length s"
proof -
  assume k: "keep_at s = Some (d, r)"
  then have "starts_with ''--keep'' s" "r = dropWhile is_digit (dropWhile keep_sep (drop 6 s))"
    by (auto simp: keep_at_def Let_def split: if_splits)
  then have "length r \<le> length (drop 6 s)" "s \<noteq> []"
    using le_trans [OF length_dropWhile_le length_dropWhile_le] by (fastforce simp: starts_with_def)+
  then show ?thesis by (cases s) auto
qed

fun keep_find :: "string \<Rightarrow> string option" where
  "keep_find s = (case keep_at s of Some (d, r) \<Rightarrow> Some d | None \<Rightarrow> (case s of [] \<Rightarrow> None | c # t \<Rightarrow> keep_find t))"

function keep_sub :: "string \<Rightarrow> string \<Rightarrow> string" where
  "keep_sub repl s =
     (case keep_at s of Some (d, r) \<Rightarrow> repl @ keep_sub repl r
      | None \<Rightarrow> (case s of [] \<Rightarrow> [] | c # t \<Rightarrow> c # keep_sub repl t))"
  by pat_completeness auto
termination
  by (relation "measure (\<lambda>(repl, s). length s)") (auto simp: keep_at_shorter)

declare keep_find.simps [simp del] keep_sub.simps [simp del]

lemma not_keep_at_Nil [simp]: "keep_at [] = None"
  by (simp add: keep_at_def starts_with_def)

lemma keep_scan [simp]:
  "keep_find [] = None" "keep_sub repl [] = []"
  "keep_at (c # s) = None \<Longrightarrow> keep_find (c # s) = keep_find s"
  "keep_at (c # s) = None \<Longrightarrow> keep_sub repl (c # s) = c # keep_sub repl s"
  "keep_at t = Some (d, r) \<Longrightarrow> keep_find t = Some d"
  "keep_at t = Some (d, r) \<Longrightarrow> keep_sub repl t = repl @ keep_sub repl r"
  by (simp_all add: keep_find.simps [of "[]"] keep_sub.simps [of repl "[]"] keep_find.simps [of "c # s"]
      keep_sub.simps [of repl "c # s"] keep_find.simps [of t] keep_sub.simps [of repl t])

lemma keep_search: "map_option (group_str 1) (search_from KEEP_RE b s) = keep_find s"
proof (induction s arbitrary: b)
  case Nil
  have "keep_at [] = None" by (simp add: keep_at_def starts_with_def)
  then show ?case using steps_keep(1) [of b "[]" "[]"] by (simp add: keep_find.simps)
next
  case (Cons c s)
  show ?case
  proof (cases "keep_at (c # s)")
    case None
    then have "steps KEEP_RE (b, c # s, []) = []" using steps_keep(1) by blast
    then show ?thesis using None Cons by (simp add: keep_find.simps [of "c # s"])
  next
    case (Some x)
    then obtain d r where k: "keep_at (c # s) = Some (d, r)" by (cases x) auto
    from steps_keep(2) [OF k] obtain b' ts where "steps KEEP_RE (b, c # s, []) = (b', r, [(1, d)]) # ts" by blast
    then show ?thesis using k by (simp add: keep_find.simps [of "c # s"] group_str_def group_def)
  qed
qed

lemma keep_of_find: "keep_of line = map_option digits_val (keep_find line)"
  unfolding keep_of_def re_search_def keep_search [of "[]" line, symmetric] by (simp add: option.map_comp comp_def)

lemma keep_search_ne: "re_search KEEP_RE line \<noteq> None \<longleftrightarrow> keep_find line \<noteq> None"
  unfolding re_search_def keep_search [of "[]" line, symmetric] by simp

lemma keep_sub_eq: "sub_from KEEP_RE repl b s = keep_sub repl s"
proof (induction repl s arbitrary: b rule: keep_sub.induct)
  case (1 repl s)
  show ?case
  proof (cases "keep_at s")
    case None
    then have "steps KEEP_RE (b, s, []) = []" using steps_keep(1) by blast
    then show ?thesis using None 1(1) [OF None]
      by (subst sub_from.simps, subst keep_sub.simps) (simp split: list.split)
  next
    case (Some x)
    then obtain d r where k: "keep_at s = Some (d, r)" by (cases x) auto
    from steps_keep(2) [OF k] obtain b' ts where "steps KEEP_RE (b, s, []) = (b', r, [(1, d)]) # ts" by blast
    then show ?thesis using k 1(2) [OF k refl] keep_at_shorter [OF k]
      by (subst sub_from.simps, subst keep_sub.simps) simp
  qed
qed


section \<open>Replacing the number\<close>

text \<open>The text of a match: the option, separators, digits.\<close>

lemma keep_at_split:
  assumes "keep_at s = Some (d, r)"
  obtains m where "s = m @ r" "starts_with ''--keep'' m" "m \<noteq> []" "is_digit (last m)"
    "list_all (\<lambda>c. c \<in> set ''-kep'' \<or> keep_sep c \<or> is_digit c) m" "r = [] \<or> \<not> is_digit (hd r)"
proof -
  define t where "t = drop 6 s"
  define u where "u = dropWhile keep_sep t"
  from assms have k: "starts_with ''--keep'' s" "d = takeWhile is_digit u" "d \<noteq> []" "r = dropWhile is_digit u"
    by (auto simp: keep_at_def Let_def t_def u_def split: if_splits)
  from starts_withD [OF k(1)] have "s = ''--keep'' @ t" by (simp add: t_def numeral_eq_Suc)
  moreover have "t = takeWhile keep_sep t @ d @ r" using k by (simp add: u_def)
  ultimately have s: "s = (''--keep'' @ takeWhile keep_sep t @ d) @ r" by simp
  have "is_digit (last (''--keep'' @ takeWhile keep_sep t @ d))" using k(2,3) by simp (metis last_in_set set_takeWhileD)
  moreover have "list_all (\<lambda>c. c \<in> set ''-kep'' \<or> keep_sep c \<or> is_digit c) (''--keep'' @ takeWhile keep_sep t @ d)"
    using k(2) by (auto simp: list_all_iff dest: set_takeWhileD)
  moreover have "r = [] \<or> \<not> is_digit (hd r)" using k(4) hd_dropWhile [of is_digit u] by auto
  ultimately show thesis using that [OF s] starts_with_append [of "''--keep''" "takeWhile keep_sep t @ d"] by simp
qed

text \<open>Where a text is cut before two dashes, what stands before decides alone.\<close>

lemma keep_at_cut:
  assumes "q \<noteq> []"
  shows "keep_at (q @ ''--'' @ y) = None \<longleftrightarrow> keep_at (q @ ''--'' @ z) = None"
proof -
  have dash: "\<not> keep_sep CHR ''-''" "\<not> is_digit CHR ''-''"
    by (simp_all add: keep_sep_def is_digit_def is_space_def cc_def)
  consider "length q < 6" | "6 \<le> length q" by linarith
  then show ?thesis
  proof cases
    case 1
    have "\<not> starts_with ''--keep'' (q @ ''--'' @ y)" for y
    proof
      assume "starts_with ''--keep'' (q @ ''--'' @ y)"
      then obtain t where t: "q @ ''--'' @ y = ''--keep'' @ t" unfolding starts_with_iff by blast
      have "(q @ ''--'' @ y) ! length q = CHR ''-''" "(q @ ''--'' @ y) ! Suc (length q) = CHR ''-''"
        by (simp_all add: nth_append)
      then have n: "(''--keep'' @ t) ! length q = CHR ''-''" "(''--keep'' @ t) ! Suc (length q) = CHR ''-''"
        unfolding t .
      have "length q = 1 \<or> length q = 2 \<or> length q = 3 \<or> length q = 4 \<or> length q = 5" using 1 assms
        by (cases q) (auto simp: less_Suc_eq numeral_eq_Suc)
      then show False using n by (elim disjE) (simp_all add: nth_append)
    qed
    then show ?thesis by (simp add: keep_at_def Let_def)
  next
    case 2
    have s: "starts_with ''--keep'' (q @ w) = starts_with ''--keep'' q" "drop 6 (q @ w) = drop 6 q @ w" for w
      using 2 by (simp_all add: starts_with_def)
    define u where "u = drop 6 q"
    have tw: "takeWhile keep_sep (u @ ''--'' @ w) = takeWhile keep_sep u" for w
      by (induction u) (simp_all add: dash)
    have td: "takeWhile is_digit (v @ CHR ''-'' # w) = takeWhile is_digit v" for v w
      by (induction v) (simp_all add: dash)
    have dw: "takeWhile is_digit (dropWhile keep_sep (u @ ''--'' @ w)) = takeWhile is_digit (dropWhile keep_sep u)" for w
      by (induction u) (simp_all add: dash td)
    show ?thesis unfolding keep_at_def Let_def s u_def [symmetric] tw dw by simp
  qed
qed

text \<open>Up to the first match the text and its replacement agree.\<close>

lemma keep_sub_None: "keep_find s = None \<Longrightarrow> keep_sub repl s = s"
proof (induction s)
  case (Cons c s)
  from Cons.prems have "keep_at (c # s) = None" "keep_find s = None"
    by (auto simp: keep_find.simps [of "c # s"] split: option.splits)
  with Cons.IH show ?case by simp
qed simp

lemma keep_find_split:
  "keep_find s \<noteq> None \<Longrightarrow> \<exists>x y d r. s = x @ y \<and> keep_at y = Some (d, r) \<and> keep_sub repl s = x @ repl @ keep_sub repl r"
proof (induction s)
  case (Cons c s)
  show ?case
  proof (cases "keep_at (c # s)")
    case None
    with Cons.prems have "keep_find s \<noteq> None" by simp
    with Cons.IH obtain x y d r where "s = x @ y" "keep_at y = Some (d, r)" "keep_sub repl s = x @ repl @ keep_sub repl r" by blast
    then have "c # s = (c # x) @ y \<and> keep_at y = Some (d, r) \<and> keep_sub repl (c # s) = (c # x) @ repl @ keep_sub repl r"
      using keep_scan(4) [OF None, of repl] by simp
    then show ?thesis by blast
  next
    case (Some p)
    then obtain d r where "keep_at (c # s) = Some (d, r)" by (cases p) auto
    then have "c # s = [] @ c # s \<and> keep_at (c # s) = Some (d, r) \<and> keep_sub repl (c # s) = [] @ repl @ keep_sub repl r"
      by simp
    then show ?thesis by blast
  qed
qed simp

definition keep_text :: "int \<Rightarrow> string" where
  "keep_text k = ''--keep='' @ show_int k"

lemma keep_at_text:
  assumes "0 \<le> k" "X = [] \<or> \<not> is_digit (hd X)"
  shows "keep_at (keep_text k @ X) = Some (show_int k, X)"
proof -
  have d: "show_int k \<noteq> []" "list_all is_digit (show_int k)"
    using assms(1) show_digits_digits [of k] by (auto simp: show_int_def)
  then obtain c t where ct: "show_int k = c # t" "is_digit c" by (cases "show_int k") auto
  then have "\<not> keep_sep c" using sep_digit by blast
  then have a: "dropWhile keep_sep (CHR ''='' # show_int k @ X) = show_int k @ X"
    "takeWhile keep_sep (CHR ''='' # show_int k @ X) \<noteq> []"
    using ct by (simp_all add: keep_sep_def)
  have b: "takeWhile is_digit (show_int k @ X) = show_int k" "dropWhile is_digit (show_int k @ X) = X"
    using d assms(2) by (cases X; simp add: list_all_iff takeWhile_append2 dropWhile_append2)+
  have c: "starts_with ''--keep'' (keep_text k @ X)"
    using starts_with_append [of "''--keep''" "CHR ''='' # show_int k @ X"] by (simp add: keep_text_def)
  have "drop 6 (keep_text k @ X) = CHR ''='' # show_int k @ X" by (simp add: keep_text_def)
  then show ?thesis unfolding keep_at_def Let_def using a b c d by simp
qed

lemma hd_keep_sub: "keep_sub (keep_text k) s = [] \<or> \<not> is_digit (hd (keep_sub (keep_text k) s)) \<longleftrightarrow> s = [] \<or> \<not> is_digit (hd s)"
proof (cases "keep_at s")
  case None
  then show ?thesis by (cases s) simp_all
next
  case (Some p)
  then obtain d r where k: "keep_at s = Some (d, r)" by (cases p) auto
  then have "hd s = CHR ''-''" by (auto simp: keep_at_def starts_with_iff Let_def split: if_splits)
  then show ?thesis using k by (simp add: keep_text_def is_digit_def cc_def)
qed

lemma keep_find_sub:
  assumes "0 \<le> k"
  shows "keep_find (keep_sub (keep_text k) s) = map_option (\<lambda>d. show_int k) (keep_find s)"
proof (induction s)
  case (Cons c s)
  show ?case
  proof (cases "keep_at (c # s)")
    case None
    have "keep_at (c # keep_sub (keep_text k) s) = None"
    proof (cases "keep_find s")
      case None
      then show ?thesis using \<open>keep_at (c # s) = None\<close> keep_sub_None by simp
    next
      case (Some x)
      then obtain x y d r where x: "s = x @ y" "keep_at y = Some (d, r)"
        "keep_sub (keep_text k) s = x @ keep_text k @ keep_sub (keep_text k) r"
        using keep_find_split [of s "keep_text k"] by auto
      from x(2) have "starts_with ''--keep'' y" by (auto simp: keep_at_def Let_def split: if_splits)
      then obtain t where "y = ''--'' @ ''keep'' @ t" unfolding starts_with_iff by auto
      moreover have "keep_text k = ''--'' @ ''keep='' @ show_int k" by (simp add: keep_text_def)
      ultimately show ?thesis
        using None x keep_at_cut [of "c # x" "''keep'' @ t" "''keep='' @ show_int k @ keep_sub (keep_text k) r"] by simp
    qed
    then show ?thesis using None Cons.IH by simp
  next
    case (Some p)
    then obtain d r where k: "keep_at (c # s) = Some (d, r)" by (cases p) auto
    then have "r = [] \<or> \<not> is_digit (hd r)" by (rule keep_at_split)
    then have "keep_at (keep_text k @ keep_sub (keep_text k) r) = Some (show_int k, keep_sub (keep_text k) r)"
      using keep_at_text [OF assms] hd_keep_sub by blast
    then show ?thesis using k by simp
  qed
qed simp


section \<open>What a new number leaves as it is\<close>

text \<open>A text without digits whose last character does not occur in the option is found exactly where it was.\<close>

definition apart :: "string \<Rightarrow> bool" where
  "apart p = (p \<noteq> [] \<and> list_all (\<lambda>c. \<not> is_digit c) p \<and> last p \<notin> set ''-kep'' \<and> \<not> keep_sep (last p) \<and>
     \<not> is_space (hd p) \<and> hd p \<noteq> CHR ''#'')"

lemma apart_around:
  assumes "apart p" "m \<noteq> []" "is_digit (last m)" "list_all (\<lambda>c. c \<in> set ''-kep'' \<or> keep_sep c \<or> is_digit c) m"
  shows "contains_str p (x @ m @ r) \<longleftrightarrow> contains_str p x \<or> contains_str p r"
proof (rule contains_around)
  have "\<not> is_digit (last p)" using assms(1) by (auto simp: apart_def list_all_iff)
  show "last p \<notin> set m"
  proof
    assume "last p \<in> set m"
    then have "last p \<in> set ''-kep'' \<or> keep_sep (last p) \<or> is_digit (last p)"
      using assms(4) unfolding list_all_iff by blast
    with assms(1) \<open>\<not> is_digit (last p)\<close> show False unfolding apart_def by blast
  qed
  show "last m \<notin> set p" using assms(1,3) by (auto simp: apart_def list_all_iff)
  show "p \<noteq> []" using assms(1) by (simp add: apart_def)
  show "m \<noteq> []" by (rule assms(2))
qed

lemma keep_text_shape:
  assumes "0 \<le> k"
  shows "keep_text k \<noteq> []" "is_digit (last (keep_text k))"
    "list_all (\<lambda>c. c \<in> set ''-kep'' \<or> keep_sep c \<or> is_digit c) (keep_text k)"
proof -
  have d: "show_int k \<noteq> []" "list_all is_digit (show_int k)"
    using assms show_digits_digits [of k] by (auto simp: show_int_def)
  then show "keep_text k \<noteq> []" "is_digit (last (keep_text k))" by (auto simp: keep_text_def list_all_iff)
  show "list_all (\<lambda>c. c \<in> set ''-kep'' \<or> keep_sep c \<or> is_digit c) (keep_text k)"
    using d by (auto simp: keep_text_def list_all_iff keep_sep_def)
qed

lemma contains_keep_sub:
  assumes "apart p" "0 \<le> k"
  shows "contains_str p (keep_sub (keep_text k) s) = contains_str p s"
proof (induction s rule: length_induct)
  case (1 s)
  show ?case
  proof (cases "keep_find s")
    case None
    then show ?thesis by (simp add: keep_sub_None)
  next
    case (Some d0)
    then obtain x y d r where x: "s = x @ y" "keep_at y = Some (d, r)" "keep_sub (keep_text k) s = x @ keep_text k @ keep_sub (keep_text k) r"
      using keep_find_split [of s "keep_text k"] by auto
    from x(2) obtain m where m: "y = m @ r" "m \<noteq> []" "is_digit (last m)"
      "list_all (\<lambda>c. c \<in> set ''-kep'' \<or> keep_sep c \<or> is_digit c) m" by (rule keep_at_split)
    from keep_at_shorter [OF x(2)] x(1) have "length r < length s" by simp
    with 1 have "contains_str p (keep_sub (keep_text k) r) = contains_str p r" by blast
    moreover have "contains_str p s = (contains_str p x \<or> contains_str p r)"
      unfolding x(1) m(1) by (rule apart_around [OF assms(1) m(2-4)])
    moreover have "contains_str p (x @ keep_text k @ keep_sub (keep_text k) r) =
        (contains_str p x \<or> contains_str p (keep_sub (keep_text k) r))"
      by (rule apart_around [OF assms(1) keep_text_shape [OF assms(2)]])
    ultimately show ?thesis unfolding x(3) by blast
  qed
qed

lemma contains_body:
  assumes "apart p"
  shows "contains_str p (strip (lstrip_chars ''#'' (lstrip line))) = contains_str p line"
proof -
  have "\<not> is_space (last p)" using assms by (auto simp: apart_def keep_sep_def)
  then show ?thesis using assms contains_dropWhile [of p is_space line] contains_dropWhile [of p "\<lambda>c. c \<in> set ''#''"]
    by (simp add: contains_strip lstrip_def lstrip_chars_def apart_def)
qed

lemma apart_command: "apart ''zfs-auto-snapshot''"
  by (simp add: apart_def is_digit_def keep_sep_def is_space_def cc_def)

lemma apart_label: "label \<in> set LEVELS \<Longrightarrow> apart (''--label='' @ label)"
  by (auto simp: LEVELS_def apart_def is_digit_def keep_sep_def is_space_def cc_def)

lemma command_line_iff:
  "label \<in> set LEVELS \<Longrightarrow> is_command_line line label \<longleftrightarrow>
     contains_str ''zfs-auto-snapshot'' line \<and> contains_str (''--label='' @ label) line"
  unfolding is_command_line_def Let_def using contains_body [OF apart_command] contains_body [OF apart_label] by simp

lemma command_keep_sub:
  "label \<in> set LEVELS \<Longrightarrow> 0 \<le> k \<Longrightarrow> is_command_line (keep_sub (keep_text k) line) label = is_command_line line label"
  using contains_keep_sub [OF apart_command, of k line] contains_keep_sub [OF apart_label, of label k line]
  unfolding command_line_iff by blast

lemma commented_keep_sub: "line_is_commented (keep_sub (keep_text k) s) = line_is_commented s"
proof (induction s)
  case (Cons c s)
  show ?case
  proof (cases "keep_at (c # s)")
    case None
    then show ?thesis using Cons by (simp add: line_is_commented_def lstrip_def starts_with_def)
  next
    case (Some p)
    then obtain d r where k: "keep_at (c # s) = Some (d, r)" by (cases p) auto
    then have "c = CHR ''-''" by (auto simp: keep_at_def starts_with_iff Let_def split: if_splits)
    then show ?thesis using k
      by (simp add: line_is_commented_def lstrip_def starts_with_def keep_text_def is_space_def cc_def)
  qed
qed simp

lemma update_line_keep:
  assumes "label \<in> set LEVELS" "0 \<le> k" "is_command_line line label"
  shows "is_command_line (update_line label (Some k) None line) label"
    "line_is_commented (update_line label (Some k) None line) = line_is_commented line"
    "keep_of (update_line label (Some k) None line) = map_option (\<lambda>x. k) (keep_of line)"
proof -
  have eq: "update_line label (Some k) None line = keep_sub (keep_text k) line"
    using assms(3) keep_search_ne [of line] keep_sub_None [of line]
    by (simp add: update_line_def re_sub_def keep_sub_eq keep_text_def)
  have "digits_val (show_int k) = k" using assms(2) digits_val_show by (simp add: show_int_def)
  then show "keep_of (update_line label (Some k) None line) = map_option (\<lambda>x. k) (keep_of line)"
    unfolding eq by (simp add: keep_of_find keep_find_sub assms(2) option.map_comp comp_def)
  show "is_command_line (update_line label (Some k) None line) label"
    "line_is_commented (update_line label (Some k) None line) = line_is_commented line"
    unfolding eq using assms by (simp_all add: command_keep_sub commented_keep_sub)
qed


section \<open>Reading back what was written\<close>

definition only_newlines :: "string \<Rightarrow> bool" where
  "only_newlines s = list_all (\<lambda>c. is_linebreak c \<longrightarrow> c = newline) s"

lemma level_loop_append: "\<not> is_command_line l label \<Longrightarrow> level_loop label c (ls @ [l]) = level_loop label c ls"
  by (induction ls arbitrary: c) (auto simp: Let_def)

lemma split_plain: "only_newlines s \<Longrightarrow> l \<in> set (split_on (\<lambda>c. c = newline) s) \<Longrightarrow> plain_line l"
proof (induction s arbitrary: l)
  case (Cons c s)
  obtain p ps where ps: "split_on (\<lambda>c. c = newline) s = p # ps"
    by (cases "split_on (\<lambda>c. c = newline) s") auto
  from Cons.prems(1) have "only_newlines s" "is_linebreak c \<Longrightarrow> c = newline" by (auto simp: only_newlines_def)
  with Cons show ?case using ps by (auto simp: plain_line_def split: if_splits)
qed (simp add: plain_line_def)

lemma command_line_ne [simp]: "\<not> is_command_line [] label"
  by (simp add: is_command_line_def lstrip_def lstrip_chars_def strip_def rstrip_def)

lemma parse_level_split:
  assumes "only_newlines s"
  shows "parse_level s label = level_loop label None (split_on (\<lambda>c. c = newline) s)"
proof -
  define ls where "ls = split_on (\<lambda>c. c = newline) s"
  have s: "s = join [newline] ls" unfolding ls_def by (simp add: join_split_on)
  have pl: "\<forall>l \<in> set ls. plain_line l" using split_plain [OF assms] ls_def by blast
  have ne: "ls \<noteq> []" by (simp add: ls_def)
  have "level_loop label None (splitlines s) = level_loop label None ls"
  proof (cases "last ls = []")
    case False
    then show ?thesis using splitlines_join [OF ne False pl] s by simp
  next
    case True
    then have bl: "ls = butlast ls @ [[]]" using ne by (metis append_butlast_last_id)
    show ?thesis
    proof (cases "butlast ls = []")
      case True
      then have "ls = [[]]" using bl by simp
      then show ?thesis using s by (simp add: splitlines_def)
    next
      case False
      have "join sep (xs @ [[]]) = join sep xs @ sep" if "xs \<noteq> []" for sep and xs :: "string list"
        using that by (induction sep xs rule: join.induct) auto
      from this [OF False] have "s = join [newline] (butlast ls) @ [newline]" using s bl by metis
      moreover have "\<forall>l \<in> set (butlast ls). plain_line l" using pl by (meson in_set_butlastD)
      ultimately have "splitlines s = butlast ls" using splitlines_join_nl False by blast
      then show ?thesis using level_loop_append [of "[]" label None "butlast ls"] bl by simp
    qed
  qed
  then show ?thesis by (simp add: parse_level_def ls_def)
qed

lemma level_loop_map:
  assumes "\<And>l. is_command_line l label \<Longrightarrow> is_command_line (f l) label \<and> line_is_commented (f l) = line_is_commented l \<and>
      keep_of (f l) = g (keep_of l)"
    and "\<And>l. \<not> is_command_line l label \<Longrightarrow> f l = l"
  shows "level_loop label (map_option (\<lambda>e. e\<lparr>lv_keep := g (lv_keep e)\<rparr>) c) (map f ls) =
    map_option (\<lambda>e. e\<lparr>lv_keep := g (lv_keep e)\<rparr>) (level_loop label c ls)"
proof (induction ls arbitrary: c)
  case (Cons l ls)
  show ?case
  proof (cases "is_command_line l label")
    case True
    then show ?thesis
      using assms(1) [OF True] Cons [of c] Cons [of "Some \<lparr>lv_keep = keep_of l, lv_enabled = False\<rparr>"]
      by (cases c) (auto simp: Let_def)
  qed (use Cons assms(2) in simp)
qed simp

lemma set_keep_sub: "set (keep_sub repl s) \<subseteq> set s \<union> set repl"
proof (induction repl s rule: keep_sub.induct)
  case (1 repl s)
  show ?case
  proof (cases "keep_at s")
    case None
    then show ?thesis using 1(1) [OF None] by (cases s) auto
  next
    case (Some p)
    then obtain d r where k: "keep_at s = Some (d, r)" by (cases p) auto
    then obtain m where "s = m @ r" by (rule keep_at_split)
    then show ?thesis using 1(2) [OF k refl] k by auto
  qed
qed

lemma set_split_on: "l \<in> set (split_on P s) \<Longrightarrow> set l \<subseteq> set s"
proof (induction s arbitrary: l)
  case (Cons c s)
  obtain p ps where ps: "split_on P s = p # ps" by (cases "split_on P s") auto
  with Cons show ?case by (fastforce split: if_splits)
qed simp

lemma update_only_newlines:
  assumes "\<And>l c. c \<in> set (update_line label keep enabled l) \<Longrightarrow> c \<in> set l \<or> \<not> is_linebreak c" "only_newlines s"
  shows "only_newlines (update_level_content s label keep enabled)"
proof -
  have "c = newline" if c: "c \<in> set (update_level_content s label keep enabled)" "is_linebreak c" for c
  proof -
    from c(1) have "c \<in> set [newline] \<union> (\<Union>l \<in> set (map (update_line label keep enabled) (split_on (\<lambda>c. c = newline) s)). set l)"
      unfolding update_level_content_def using set_join by blast
    then consider "c = newline" | l where "l \<in> set (split_on (\<lambda>c. c = newline) s)" "c \<in> set (update_line label keep enabled l)"
      by auto
    then show ?thesis
    proof cases
      case 2
      then have "c \<in> set l" using assms(1) c(2) by blast
      then have "c \<in> set s" using set_split_on 2(1) by blast
      then show ?thesis using assms(2) c(2) by (auto simp: only_newlines_def list_all_iff)
    qed simp
  qed
  then show ?thesis by (auto simp: only_newlines_def list_all_iff)
qed

lemma split_update:
  assumes "\<And>l. newline \<notin> set l \<Longrightarrow> newline \<notin> set (update_line label keep enabled l)"
  shows "split_on (\<lambda>c. c = newline) (update_level_content s label keep enabled) =
    map (update_line label keep enabled) (split_on (\<lambda>c. c = newline) s)"
  unfolding update_level_content_def
proof (rule split_on_join)
  show "\<forall>p \<in> set (map (update_line label keep enabled) (split_on (\<lambda>c. c = newline) s)). list_all (\<lambda>c. c \<noteq> newline) p"
    using assms split_on_parts [of _ "\<lambda>c. c = newline" s] by (fastforce simp: list_all_iff)
qed simp


lemma update_line_chars:
  assumes "c \<in> set (update_line label (Some k) None l)" "0 \<le> k"
  shows "c \<in> set l \<or> \<not> is_linebreak c"
proof -
  have "\<not> is_linebreak c" if "c \<in> set (keep_text k)" for c
  proof -
    have "list_all is_digit (show_int k)" using assms(2) show_digits_digits [of k] by (simp add: show_int_def)
    with that have "c \<in> set ''--keep='' \<or> is_digit c" by (auto simp: keep_text_def list_all_iff)
    then show ?thesis by (auto simp: is_linebreak_def is_digit_def cc_def Let_def)
  qed
  moreover have "c \<in> set l \<or> c \<in> set (keep_text k)"
    using assms(1) set_keep_sub [of "keep_text k" l]
    by (auto simp: update_line_def re_sub_def keep_sub_eq keep_text_def split: if_splits)
  ultimately show ?thesis by blast
qed

lemma parse_update_keep:
  assumes "label \<in> set LEVELS" "0 \<le> k" "only_newlines s"
  shows "parse_level (update_level_content s label (Some k) None) label =
    map_option (\<lambda>e. e\<lparr>lv_keep := map_option (\<lambda>x. k) (lv_keep e)\<rparr>) (parse_level s label)"
proof -
  have nl: "only_newlines (update_level_content s label (Some k) None)"
    by (rule update_only_newlines [OF _ assms(3)]) (rule update_line_chars [OF _ assms(2)])
  have sp: "split_on (\<lambda>c. c = newline) (update_level_content s label (Some k) None) =
      map (update_line label (Some k) None) (split_on (\<lambda>c. c = newline) s)"
    by (rule split_update) (use update_line_chars [of newline label k] assms(2) in auto)
  have "level_loop label (map_option (\<lambda>e. e\<lparr>lv_keep := map_option (\<lambda>x. k) (lv_keep e)\<rparr>) None)
      (map (update_line label (Some k) None) (split_on (\<lambda>c. c = newline) s)) =
    map_option (\<lambda>e. e\<lparr>lv_keep := map_option (\<lambda>x. k) (lv_keep e)\<rparr>) (level_loop label None (split_on (\<lambda>c. c = newline) s))"
  proof (rule level_loop_map)
    fix l assume "is_command_line l label"
    then show "is_command_line (update_line label (Some k) None l) label \<and>
        line_is_commented (update_line label (Some k) None l) = line_is_commented l \<and>
        keep_of (update_line label (Some k) None l) = map_option (\<lambda>x. k) (keep_of l)"
      using update_line_keep [OF assms(1,2)] by blast
  qed (simp add: update_line_def)
  then show ?thesis unfolding parse_level_split [OF nl] parse_level_split [OF assms(3)] sp by simp
qed

text \<open>What the code relies on: \<open>cat\<close> prints the file, and the script prints its mark only after the
  decoded text is in the file.\<close>

definition cron_host :: "'w remote \<Rightarrow> ('w \<Rightarrow> string) \<Rightarrow> string \<Rightarrow> bool" where
  "cron_host run file path =
     ((\<forall>w. run w (read_file_cmd path) = (cmd_ok (file w), w)) \<and>
      (\<forall>w c. contains_str ''__OK__'' (cr_stdout (fst (run w (write_file_cmd path c)))) \<longrightarrow>
         file (snd (run w (write_file_cmd path c))) = c))"

lemma apply_change_file:
  assumes "cron_host run file path" "level_file (lc_label ch) = Some (label, path)"
    "keep_wanted (lc_keep ch) = Inr keep" "apply_change run ch w = (res, w')" "result_ok res"
  shows "file w' = update_level_content (file w) label keep
    (if lc_enabled ch = VNone then None else Some (truthy (lc_enabled ch)))"
proof -
  define en where "en = (if lc_enabled ch = VNone then None else Some (truthy (lc_enabled ch)))"
  have r: "run w (read_file_cmd path) = (cmd_ok (file w), w)" using assms(1) by (simp add: cron_host_def)
  have a: "apply_change run ch w =
      (if strip (file w) = [] then (Refused (VStr label) ''cron file not found (level not installed)'', w)
       else write_level run label path (file w) keep en w)"
    unfolding apply_change_def assms(2,3) by (simp add: r cmd_ok_def en_def [symmetric] Let_def)
  with assms(4,5) have wl: "write_level run label path (file w) keep en w = (res, w')" by (auto split: if_splits)
  show ?thesis
  proof (cases "update_level_content (file w) label keep en = file w")
    case True
    then have "w' = w" using wl assms(5) by (auto simp: write_level_def Let_def split: if_splits)
    then show ?thesis using True by (simp add: en_def)
  next
    case False
    then have "contains_str ''__OK__'' (cr_stdout (fst (run w (write_file_cmd path (update_level_content (file w) label keep en)))))"
      "w' = snd (run w (write_file_cmd path (update_level_content (file w) label keep en)))"
      using wl assms(5) by (auto simp: write_level_def Let_def split_def split: if_splits)
    then have "file w' = update_level_content (file w) label keep en" using assms(1) by (simp add: cron_host_def)
    then show ?thesis by (simp add: en_def)
  qed
qed

lemma level_file_label: "level_file v = Some (label, path) \<Longrightarrow> label \<in> set LEVELS"
  by (auto simp: level_file_def LEVEL_FILES_def LEVELS_def dget_cons split: pyval.splits if_splits)



text \<open>A host that executes one write: of the text with 48 in the place of 24.\<close>

definition hourly_path :: string where "hourly_path = ''/etc/cron.hourly/zfs-auto-snapshot''"

definition hourly_file :: "int \<Rightarrow> string" where
  "hourly_file k = ''#!/bin/sh'' @ [newline] @ ''exec zfs-auto-snapshot -q --label=hourly --keep='' @ show_int k @ '' //'' @ [newline]"

definition hourly_host :: "string remote" where
  "hourly_host w cmd =
     (if cmd = read_file_cmd hourly_path then (cmd_ok w, w)
      else if cmd = write_file_cmd hourly_path (hourly_file 48) then (cmd_ok ''__OK__'', hourly_file 48)
      else (cmd_fail [], w))"

lemma write_file_inj: "write_file_cmd path c = write_file_cmd path d \<Longrightarrow> d \<noteq> [] \<Longrightarrow> c = d"
  unfolding write_file_cmd_def using quoted_b64_inj by simp

lemma hourly_host_laws: "cron_host hourly_host (\<lambda>w. w) hourly_path"
proof -
  have "write_file_cmd hourly_path c \<noteq> read_file_cmd hourly_path" for c
    by (simp add: write_file_cmd_def read_file_cmd_def)
  moreover have "hourly_file 48 \<noteq> []" by (simp add: hourly_file_def)
  ultimately show ?thesis using write_file_inj
    by (auto simp: cron_host_def hourly_host_def cmd_ok_def cmd_fail_def)
qed


section \<open>Switching a level off and on\<close>

lemma lstrip_split: "line = take (length line - length (lstrip line)) line @ lstrip line"
  "list_all is_space (take (length line - length (lstrip line)) line)"
proof -
  have e: "line = takeWhile is_space line @ lstrip line" by (simp add: lstrip_def)
  then have l: "length line = length (takeWhile is_space line) + length (lstrip line)" by (metis length_append)
  then have t: "take (length line - length (lstrip line)) line = takeWhile is_space line"
    by (simp add: takeWhile_eq_take [symmetric])
  show "line = take (length line - length (lstrip line)) line @ lstrip line" unfolding t by (rule e)
  show "list_all is_space (take (length line - length (lstrip line)) line)"
    unfolding t by (auto simp: list_all_iff dest: set_takeWhileD)
qed

lemma lstrip_indent: "list_all is_space a \<Longrightarrow> lstrip (a @ s) = lstrip s"
  by (induction a) (simp_all add: lstrip_def)

lemma disabled_line:
  assumes "\<not> line_is_commented line"
  defines "i \<equiv> take (length line - length (lstrip line)) line"
  shows "set_line_enabled line False = i @ ''# '' @ lstrip line" "lstrip (i @ ''# '' @ lstrip line) = ''# '' @ lstrip line"
    "list_all is_space i" "line = i @ lstrip line"
proof -
  show i: "list_all is_space i" "line = i @ lstrip line" unfolding i_def using lstrip_split [of line] by simp_all
  show "lstrip (i @ ''# '' @ lstrip line) = ''# '' @ lstrip line"
    using lstrip_indent [OF i(1), of "''# '' @ lstrip line"] by (simp add: lstrip_def is_space_def cc_def)
  show "set_line_enabled line False = i @ ''# '' @ lstrip line"
    using assms(1) by (simp add: set_line_enabled_def line_is_commented_def i_def Let_def)
qed


lemma keep_find_skip: "c \<noteq> CHR ''-'' \<Longrightarrow> keep_find (c # s) = keep_find s"
  by (simp add: keep_at_def starts_with_def Let_def)

lemma keep_find_indent: "list_all is_space i \<Longrightarrow> keep_find (i @ s) = keep_find s"
proof (induction i)
  case (Cons c i)
  then have "c \<noteq> CHR ''-''" by (auto simp: is_space_def cc_def)
  with Cons show ?case by (simp add: keep_find_skip)
qed simp

lemma disable_line:
  assumes "is_command_line l label"
  shows "is_command_line (update_line label None (Some False) l) label"
    "line_is_commented (update_line label None (Some False) l)"
    "keep_of (update_line label None (Some False) l) = keep_of l"
proof -
  have eq: "update_line label None (Some False) l = set_line_enabled l False"
    using assms by (simp add: update_line_def)
  have "is_command_line (set_line_enabled l False) label \<and> line_is_commented (set_line_enabled l False) \<and>
      keep_of (set_line_enabled l False) = keep_of l"
  proof (cases "line_is_commented l")
    case True
    then have "set_line_enabled l False = l" by (simp add: set_line_enabled_def line_is_commented_def Let_def)
    with True assms show ?thesis by simp
  next
    case False
    define i where "i = take (length l - length (lstrip l)) l"
    note d = disabled_line [OF False, folded i_def]
    have sp: "is_space CHR '' ''" by (simp add: is_space_def cc_def)
    have "strip (CHR '' '' # lstrip l) = strip (lstrip l)" using sp by (simp add: strip_def lstrip_def)
    moreover have "lstrip_chars ''#'' (lstrip l) = lstrip l"
      using False by (cases "lstrip l") (auto simp: lstrip_chars_def line_is_commented_def starts_with_def)
    ultimately have "is_command_line (set_line_enabled l False) label"
      using assms unfolding is_command_line_def d(1,2) by (simp add: lstrip_chars_def)
    moreover have "line_is_commented (set_line_enabled l False)"
      unfolding line_is_commented_def d(1,2) by (simp add: starts_with_def)
    moreover have "keep_find (set_line_enabled l False) = keep_find l"
    proof -
      have "keep_find l = keep_find (lstrip l)" using keep_find_indent [OF d(3), of "lstrip l"] d(4) by metis
      then show ?thesis unfolding d(1) using keep_find_indent [OF d(3)] keep_find_skip by simp
    qed
    ultimately show ?thesis by (simp add: keep_of_find)
  qed
  then show "is_command_line (update_line label None (Some False) l) label"
    "line_is_commented (update_line label None (Some False) l)"
    "keep_of (update_line label None (Some False) l) = keep_of l" unfolding eq by simp_all
qed

lemma level_loop_disabled:
  "level_loop label c (map (update_line label None (Some False)) ls) =
    (case c of Some e \<Rightarrow> Some e | None \<Rightarrow>
       map_option (\<lambda>l. \<lparr>lv_keep = keep_of l, lv_enabled = False\<rparr>) (find (\<lambda>l. is_command_line l label) ls))"
proof (induction ls arbitrary: c)
  case (Cons l ls)
  show ?case
  proof (cases "is_command_line l label")
    case True
    then show ?thesis using disable_line [OF True] Cons by (auto simp: Let_def split: option.splits)
  next
    case False
    then have "update_line label None (Some False) l = l" by (simp add: update_line_def)
    then show ?thesis using Cons [of c] False by (cases c) simp_all
  qed
qed (simp split: option.split)

lemma set_line_enabled_chars: "c \<in> set (set_line_enabled l b) \<Longrightarrow> c \<in> set l \<or> c = CHR ''#'' \<or> c = CHR '' ''"
  by (auto simp: set_line_enabled_def lstrip_def Let_def split: if_splits
      dest: in_set_takeD in_set_dropD set_dropWhileD)

lemma update_enabled_chars:
  "c \<in> set (update_line label None (Some b) l) \<Longrightarrow> c \<in> set l \<or> \<not> is_linebreak c"
  using set_line_enabled_chars [of c l b]
  by (auto simp: update_line_def is_linebreak_def cc_def Let_def split: if_splits)

lemma split_update_enabled:
  "split_on (\<lambda>c. c = newline) (update_level_content s label None (Some b)) =
    map (update_line label None (Some b)) (split_on (\<lambda>c. c = newline) s)"
  by (rule split_update) (use update_enabled_chars [of newline label b] in auto)

text \<open>After switching a level off it reads as switched off, if its file has a command line at all, and the
  number to keep that is shown is the one of the first command line.\<close>

theorem disabled_level_reads_disabled:
  assumes "only_newlines s"
  shows "parse_level (update_level_content s label None (Some False)) label =
    map_option (\<lambda>l. \<lparr>lv_keep = keep_of l, lv_enabled = False\<rparr>)
      (find (\<lambda>l. is_command_line l label) (split_on (\<lambda>c. c = newline) s))"
proof -
  have "only_newlines (update_level_content s label None (Some False))"
    by (rule update_only_newlines [OF _ assms]) (rule update_enabled_chars)
  then show ?thesis by (simp add: parse_level_split split_update_enabled level_loop_disabled)
qed

theorem disabled_level_reads_disabled_witness:
  "parse_level (update_level_content (hourly_file 24) ''hourly'' None (Some False)) ''hourly'' =
    Some \<lparr>lv_keep = Some 24, lv_enabled = False\<rparr>"
proof -
  have n: "only_newlines (hourly_file 24)" by code_simp
  have "map_option (\<lambda>l. \<lparr>lv_keep = keep_of l, lv_enabled = False\<rparr>)
      (find (\<lambda>l. is_command_line l ''hourly'') (split_on (\<lambda>c. c = newline) (hourly_file 24))) =
    Some \<lparr>lv_keep = Some 24, lv_enabled = False\<rparr>" by code_simp
  then show ?thesis using disabled_level_reads_disabled [OF n] by simp
qed

lemma enable_disabled_line:
  assumes "is_command_line l label" "\<not> line_is_commented l"
  shows "update_line label None (Some True) (update_line label None (Some False) l) = l"
proof -
  define i where "i = take (length l - length (lstrip l)) l"
  note d = disabled_line [OF assms(2), folded i_def]
  have c: "is_command_line (set_line_enabled l False) label" using disable_line(1) [OF assms(1)] assms(1) by (simp add: update_line_def)
  have "set_line_enabled (i @ ''# '' @ lstrip l) True = i @ lstrip l"
    unfolding set_line_enabled_def d(2) Let_def by (simp add: starts_with_def)
  then have "set_line_enabled (set_line_enabled l False) True = l" unfolding d(1) using d(4) by simp
  then show ?thesis using assms(1) c by (simp add: update_line_def)
qed

text \<open>Switching a level off and on again restores its file to the letter, unless one of its command lines was
  commented out before.\<close>

theorem disable_enable_restores:
  assumes "list_all (\<lambda>l. is_command_line l label \<longrightarrow> \<not> line_is_commented l) (split_on (\<lambda>c. c = newline) s)"
  shows "update_level_content (update_level_content s label None (Some False)) label None (Some True) = s"
proof -
  have "map (update_line label None (Some True)) (map (update_line label None (Some False)) (split_on (\<lambda>c. c = newline) s))
      = split_on (\<lambda>c. c = newline) s"
    unfolding map_map
  proof (rule map_idI)
    fix l assume "l \<in> set (split_on (\<lambda>c. c = newline) s)"
    then have "is_command_line l label \<Longrightarrow> \<not> line_is_commented l" using assms by (auto simp: list_all_iff)
    then show "(update_line label None (Some True) \<circ> update_line label None (Some False)) l = l"
      using enable_disabled_line by (cases "is_command_line l label") (auto simp: update_line_def)
  qed
  then show ?thesis
    unfolding update_level_content_def [of "update_level_content s label None (Some False)"] split_update_enabled
    by (simp add: join_split_on)
qed

theorem disable_enable_restores_witness:
  "update_level_content (hourly_file 24) ''hourly'' None (Some False) \<noteq> hourly_file 24 \<and>
   update_level_content (update_level_content (hourly_file 24) ''hourly'' None (Some False)) ''hourly'' None (Some True)
     = hourly_file 24"
proof -
  have "list_all (\<lambda>l. is_command_line l ''hourly'' \<longrightarrow> \<not> line_is_commented l) (split_on (\<lambda>c. c = newline) (hourly_file 24))"
    by code_simp
  moreover have "update_level_content (hourly_file 24) ''hourly'' None (Some False) \<noteq> hourly_file 24" by code_simp
  ultimately show ?thesis using disable_enable_restores by blast
qed

text \<open>With an example line beside the active one, off and on makes the example active as well, and its number
  is the one shown; a line behind two comment signs stays off.\<close>

lemma example_line_activated:
  "parse_level (update_level_content (update_level_content
     (''# zfs-auto-snapshot --label=hourly --keep=10'' @ [newline] @ hourly_file 24) ''hourly'' None (Some False))
       ''hourly'' None (Some True)) ''hourly'' = Some \<lparr>lv_keep = Some 10, lv_enabled = True\<rparr>"
  by code_simp

lemma double_comment_stays_off:
  "parse_level (update_level_content ''## zfs-auto-snapshot --label=hourly --keep=10'' ''hourly'' None (Some True)) ''hourly''
    = Some \<lparr>lv_keep = Some 10, lv_enabled = False\<rparr>"
  by code_simp

end
