(* ===== verification/StaleCheck.thy ===== *)
theory StaleCheck
  imports Monitor SnapAnalysis
begin

text \<open>
  The rest of \<open>app/monitor.py\<close>: the check for missing automatic snapshots, which rests on the analysis of
  \<open>SnapAnalysis\<close>, and the round of all checks for one host. What a round reads from the host is a record;
  commands are answered by a function. The uptime is read as whole seconds, which is all its comparison
  with whole thresholds needs.
\<close>

definition STALE_THRESHOLDS :: "(string, int) dict" where
  "STALE_THRESHOLDS = [(''frequent'', 2 * 3600), (''hourly'', 4 * 3600), (''daily'', 30 * 3600),
     (''weekly'', 9 * 86400), (''monthly'', 33 * 86400)]"

definition STALE_ALERT_COOLDOWN :: int where "STALE_ALERT_COOLDOWN = 24 * 3600"

definition whole_seconds :: "string \<Rightarrow> int option" where
  "whole_seconds t = (case split_once CHR ''.'' t of
     None \<Rightarrow> py_int t
   | Some (a, b) \<Rightarrow> if list_all is_digit b then py_int a else None)"

definition host_uptime_seconds :: "(host \<Rightarrow> string \<Rightarrow> cmd_result) \<Rightarrow> host \<Rightarrow> int option" where
  "host_uptime_seconds run h =
     (let r = run h ''cat /proc/uptime''
      in if cr_success r then (case split_ws (cr_stdout r) of [] \<Rightarrow> None | t # _ \<Rightarrow> whole_seconds t) else None)"

definition stale_alert :: "host \<Rightarrow> string \<Rightarrow> stale list \<Rightarrow> notification" where
  "stale_alert h label norm =
     (let name = display_name h; n = length norm
      in notif ''auto_snapshot'' (''Stale '' @ label @ '' snapshots on '' @ name)
           (show_nat n @ '' dataset(s) have no recent '' @ sq @ label @ sq @ '' snapshot on '' @ name @ '' ('' @ ho_address h
            @ ''):'' @ [newline] @ join '', '' (map sl_dataset (take 6 norm))
            @ (if 6 < n then '' (+'' @ show_nat (n - 6) @ '' more)'' else []))
           5 [] [] (ho_address h))"

definition stale_value :: "stale list \<Rightarrow> string" where
  "stale_value norm = CHR 0x7B # CHR 0x22 # ''count'' @ [CHR 0x22] @ '': '' @ show_nat (length norm) @ [CHR 0x7D]"

text \<open>The stale datasets of a label; the entries are records with a dataset and no note.\<close>

definition stale_in :: "analysis \<Rightarrow> string \<Rightarrow> stale list" where
  "stale_in a label = (case dget (an_per_label a) label of
     None \<Rightarrow> [] | Some r \<Rightarrow> filter (\<lambda>e. sl_dataset e \<noteq> []) (ls_stale (lr_stats r)))"

definition too_young :: "int option \<Rightarrow> string \<Rightarrow> bool" where
  "too_young uptime label = (case uptime of None \<Rightarrow> False | Some u \<Rightarrow> u < dget_or 0 STALE_THRESHOLDS label)"

definition stale_key :: "host \<Rightarrow> string \<Rightarrow> string" where
  "stale_key h label = ho_address h @ '':'' @ label"

definition check_stale_label :: "int \<Rightarrow> host \<Rightarrow> int option \<Rightarrow> analysis \<Rightarrow> string \<Rightarrow> mon \<Rightarrow> mon" where
  "check_stale_label now h uptime a label m =
     (let scope = ''stale_snap''; key = stale_key h label; norm = stale_in a label
      in if too_young uptime label then m
         else if norm = [] then state_delete scope key m
         else let last_alert = snd (state_get scope key m)
              in if \<not> cooldown_ok last_alert STALE_ALERT_COOLDOWN now
                 then state_set scope key (stale_value norm) last_alert now m
                 else state_set scope key (stale_value norm) (Some now) now
                        (send_notification (stale_alert h label norm) m))"

text \<open>Without snapshots, or when the selection of tags cannot be read, nothing is judged.\<close>

definition stale_analysis ::
  "int \<Rightarrow> (int \<Rightarrow> int \<Rightarrow> string) \<Rightarrow> (host \<Rightarrow> string \<Rightarrow> cmd_result) \<Rightarrow> json_file \<Rightarrow> host \<Rightarrow> analysis option" where
  "stale_analysis now round1 run tags h =
     (case get_snapshot_ages run tags h of
        Inl e \<Rightarrow> None
      | Inr ages \<Rightarrow>
          if sa_datasets ages = [] then None
          else Some (analyze_snapshots
            \<lparr>ae_now = now, ae_retention = au_retention (get_auto_snapshot_status run h),
             ae_disabled = get_autosnap_disabled_datasets run h, ae_creation = [], ae_round1 = round1\<rparr> ages))"

definition check_auto_snapshots ::
  "int \<Rightarrow> (int \<Rightarrow> int \<Rightarrow> string) \<Rightarrow> (host \<Rightarrow> string \<Rightarrow> cmd_result) \<Rightarrow> json_file \<Rightarrow> host \<Rightarrow> mon \<Rightarrow> mon" where
  "check_auto_snapshots now round1 run tags h m =
     (case stale_analysis now round1 run tags h of
        None \<Rightarrow> m
      | Some a \<Rightarrow> fold (check_stale_label now h (host_uptime_seconds run h) a) (dkeys STALE_THRESHOLDS) m)"

section \<open>A round of checks\<close>

text \<open>A pool's status: the error totals and the text of \<open>zpool status\<close>.\<close>

record pool_status =
  ps_name :: string
  ps_read :: int
  ps_write :: int
  ps_cksum :: int
  ps_text :: "string option"

record round_input =
  ri_host :: host
  ri_reachable :: bool
  ri_pools :: "pool list"
  ri_status :: "pool_status list"
  ri_pools_valid :: bool
  ri_limits :: "int \<times> int"
  ri_round1 :: "int \<Rightarrow> int \<Rightarrow> string"
  ri_run :: "host \<Rightarrow> string \<Rightarrow> cmd_result"
  ri_tags :: json_file

definition run_checks :: "int \<Rightarrow> round_input \<Rightarrow> mon \<Rightarrow> mon" where
  "run_checks now i m =
     (let h = ri_host i; m1 = check_host_reachability now h (ri_reachable i) m
      in if \<not> ri_reachable i then m1
         else
           let m2 = (if ri_pools_valid i then clear_vanished_pool_state now h (ri_pools i) m1 else m1);
               m3 = check_pool_health now h (ri_pools i) m2;
               m4 = check_capacity now (ri_limits i) h (ri_pools i) m3;
               m5 = check_pool_errors now h (map (\<lambda>s. (ps_name s, ps_read s, ps_write s, ps_cksum s)) (ri_status i)) m4;
               m6 = check_pool_topology now h (map (\<lambda>s. (ps_name s, ps_text s)) (ri_status i)) m5
           in check_auto_snapshots now (ri_round1 i) (ri_run i) (ri_tags i) h m6)"

section \<open>Checks that each own one row\<close>

text \<open>The contract the checks of pools and labels share: a step reads and writes the row of its item only, what
  it sends depends on that row, and repeated on an unchanged item it sends nothing.\<close>

locale row_check =
  fixes key :: "'x \<Rightarrow> string \<times> string"
    and step :: "int \<Rightarrow> 'x \<Rightarrow> mon \<Rightarrow> mon"
  assumes other: "k \<noteq> key x \<Longrightarrow> row_get (step t x m) k = row_get m k"
    and row_cong: "row_get m (key x) = row_get m' (key x) \<Longrightarrow>
      row_get (step t x m) (key x) = row_get (step t x m') (key x)"
    and sent_cong: "row_get m (key x) = row_get m' (key x) \<Longrightarrow>
      \<exists>ms. mo_sent (step t x m) = mo_sent m @ ms \<and> mo_sent (step t x m') = mo_sent m' @ ms"
begin

lemma key_ne: "distinct (map key (y # xs)) \<Longrightarrow> x \<in> set xs \<Longrightarrow> key x \<noteq> key y"
  by (simp add: image_iff) metis

lemma fold_other: "\<forall>x \<in> set xs. k \<noteq> key x \<Longrightarrow> row_get (fold (step t) xs m) k = row_get m k"
  by (induction xs arbitrary: m) (simp_all add: other)

lemma fold_within:
  "(\<And>k. row_get m k \<noteq> None \<Longrightarrow> P k) \<Longrightarrow> (\<And>x. x \<in> set xs \<Longrightarrow> (\<forall>m. step t x m = m) \<or> P (key x)) \<Longrightarrow>
     row_get (fold (step t) xs m) k \<noteq> None \<Longrightarrow> P k"
proof (induction xs arbitrary: m)
  case (Cons y xs)
  have "P k" if "row_get (step t y m) k \<noteq> None" for k
  proof (cases "k = key y")
    case True
    have "(\<forall>m. step t y m = m) \<or> P (key y)" using Cons.prems(2) by simp
    then show ?thesis using that Cons.prems(1) True by metis
  next
    case False
    then show ?thesis using that Cons.prems(1) other by simp
  qed
  then show ?case using Cons.IH [of "step t y m"] Cons.prems by simp
qed simp

lemma fold_row:
  "distinct (map key xs) \<Longrightarrow> x \<in> set xs \<Longrightarrow> row_get (fold (step t) xs m) (key x) = row_get (step t x m) (key x)"
proof (induction xs arbitrary: m)
  case (Cons y xs)
  show ?case
  proof (cases "x = y")
    case True
    have "\<forall>z \<in> set xs. key x \<noteq> key z" using Cons.prems(1) True by auto
    then show ?thesis using True by (simp add: fold_other)
  next
    case False
    then have "key x \<noteq> key y" using Cons.prems key_ne by simp
    then show ?thesis using Cons False row_cong [OF other] by simp
  qed
qed simp

lemma quiet_cong:
  assumes "row_get m (key x) = row_get m' (key x)" "mo_sent (step t x m) = mo_sent m"
  shows "mo_sent (step t x m') = mo_sent m'"
  using sent_cong [OF assms(1), of t] assms(2) by auto

lemma fold_quiet:
  "distinct (map key xs) \<Longrightarrow> \<forall>x \<in> set xs. mo_sent (step t x m) = mo_sent m \<Longrightarrow>
     mo_sent (fold (step t) xs m) = mo_sent m"
proof (induction xs arbitrary: m)
  case (Cons y xs)
  have "mo_sent (step t x (step t y m)) = mo_sent (step t y m)" if x: "x \<in> set xs" for x
  proof (rule quiet_cong)
    have "key x \<noteq> key y" using key_ne [OF Cons.prems(1) x] .
    then show "row_get m (key x) = row_get (step t y m) (key x)" by (simp add: other)
    show "mo_sent (step t x m) = mo_sent m" using Cons.prems(2) x by simp
  qed
  then show ?case using Cons by simp
qed simp

end

locale settling_check = row_check +
  assumes settles: "mo_sent (step t2 x (step t1 x m)) = mo_sent (step t1 x m)"
begin

lemma round_settles:
  assumes "distinct (map key xs)"
    and "\<And>x. x \<in> set xs \<Longrightarrow> row_get m' (key x) = row_get (fold (step t1) xs m) (key x)"
  shows "mo_sent (fold (step t2) xs m') = mo_sent m'"
proof (rule fold_quiet [OF assms(1)], rule)
  fix x assume "x \<in> set xs"
  then have "row_get (step t1 x m) (key x) = row_get m' (key x)" using assms fold_row by metis
  from quiet_cong [OF this settles] show "mo_sent (step t2 x m') = mo_sent m'" .
qed

end

lemma sent_state_set [simp]: "mo_sent (state_set sc k v a now m) = mo_sent m"
  by (simp add: state_set_def)

lemma sent_send [simp]: "mo_sent (send_notification n m) = mo_sent m @ [n]"
  by (simp add: send_notification_def)

lemma state_get_send [simp]: "state_get sc k (send_notification n m) = state_get sc k m"
  by (simp add: state_get_row)

lemma state_get_set [simp]:
  "state_get sc k (state_set sc' k' v a now m) =
    (if (sc, k) = (sc', k') then (Some v, case a of Some t \<Rightarrow> Some t | None \<Rightarrow> snd (state_get sc k m)) else state_get sc k m)"
  by (auto simp: state_get_row)

definition health_key :: "host \<Rightarrow> pool \<Rightarrow> string \<times> string" where
  "health_key h p = (''pool_health'', pool_key h (pl_name p))"

definition capacity_key :: "host \<Rightarrow> pool \<Rightarrow> string \<times> string" where
  "capacity_key h p = (''capacity'', pool_key h (pl_name p))"

definition errors_key :: "host \<Rightarrow> string \<times> int \<times> int \<times> int \<Rightarrow> string \<times> string" where
  "errors_key h s = (''pool_errors'', pool_key h (fst s))"

definition topology_key :: "host \<Rightarrow> string \<times> string option \<Rightarrow> string \<times> string" where
  "topology_key h s = (''pool_topology'', pool_key h (fst s))"

lemma state_get_cong: "row_get m (sc, k) = row_get m' (sc, k) \<Longrightarrow> state_get sc k m = state_get sc k m'"
  by (simp add: state_get_row)

interpretation health: settling_check "health_key h" "\<lambda>t. check_one_health t h" for h
proof
  fix k x t m assume "k \<noteq> health_key h x"
  then show "row_get (check_one_health t h x m) k = row_get m k"
    by (auto simp: check_one_health_def health_key_def Let_def split: option.splits)
next
  fix m m' x t assume e: "row_get m (health_key h x) = row_get m' (health_key h x)"
  note g = state_get_cong [OF e [unfolded health_key_def]]
  show "row_get (check_one_health t h x m) (health_key h x) = row_get (check_one_health t h x m') (health_key h x)"
    using e by (auto simp: check_one_health_def health_key_def Let_def g split: option.splits)
  show "\<exists>ms. mo_sent (check_one_health t h x m) = mo_sent m @ ms \<and> mo_sent (check_one_health t h x m') = mo_sent m' @ ms"
    by (auto simp: check_one_health_def Let_def g split: option.splits)
next
  fix t2 x t1 m
  show "mo_sent (check_one_health t2 h x (check_one_health t1 h x m)) = mo_sent (check_one_health t1 h x m)"
    by (auto simp: check_one_health_def Let_def split: option.splits)
qed

interpretation capacity: settling_check "capacity_key h" "\<lambda>t. check_one_capacity t th h" for th h
proof
  fix k x t m assume "k \<noteq> capacity_key h x"
  then show "row_get (check_one_capacity t th h x m) k = row_get m k"
    by (auto simp: check_one_capacity_def capacity_key_def Let_def split_def split: option.splits)
next
  fix m m' x t assume e: "row_get m (capacity_key h x) = row_get m' (capacity_key h x)"
  note g = state_get_cong [OF e [unfolded capacity_key_def]]
  show "row_get (check_one_capacity t th h x m) (capacity_key h x) = row_get (check_one_capacity t th h x m') (capacity_key h x)"
    using e by (auto simp: check_one_capacity_def capacity_key_def Let_def split_def g split: option.splits)
  show "\<exists>ms. mo_sent (check_one_capacity t th h x m) = mo_sent m @ ms \<and> mo_sent (check_one_capacity t th h x m') = mo_sent m' @ ms"
    by (auto simp: check_one_capacity_def Let_def split_def g split: option.splits)
next
  fix t2 x t1 m
  have "\<not> should_alert_capacity (Some (capacity_level c w r)) (capacity_level c w r)" for c w r
    by (simp add: should_alert_capacity_def capacity_level_def LEVEL_ORDER_def dhas_def dget_def)
  then show "mo_sent (check_one_capacity t2 th h x (check_one_capacity t1 th h x m)) = mo_sent (check_one_capacity t1 th h x m)"
    by (auto simp: check_one_capacity_def Let_def split_def split: option.splits)
qed

interpretation errors: settling_check "errors_key h" "\<lambda>t. check_one_errors t h" for h
proof
  fix k x t m assume "k \<noteq> errors_key h x"
  then show "row_get (check_one_errors t h x m) k = row_get m k"
    by (auto simp: check_one_errors_def errors_key_def Let_def split_def split: option.splits)
next
  fix m m' x t assume e: "row_get m (errors_key h x) = row_get m' (errors_key h x)"
  note g = state_get_cong [OF e [unfolded errors_key_def]]
  show "row_get (check_one_errors t h x m) (errors_key h x) = row_get (check_one_errors t h x m') (errors_key h x)"
    using e by (auto simp: check_one_errors_def errors_key_def Let_def split_def g split: option.splits)
  show "\<exists>ms. mo_sent (check_one_errors t h x m) = mo_sent m @ ms \<and> mo_sent (check_one_errors t h x m') = mo_sent m' @ ms"
    by (auto simp: check_one_errors_def Let_def split_def g split: option.splits)
next
  fix t2 t1 and x :: "string \<times> int \<times> int \<times> int" and m
  define num :: "string option \<Rightarrow> int" where "num p = (case p of None \<Rightarrow> 0
    | Some s \<Rightarrow> if is_digit_str s then (case py_int s of Some i \<Rightarrow> i | None \<Rightarrow> 0) else 0)" for p
  have n: "num (Some (show_int n)) = n" if "0 < n" for n
    using that show_digits_digits [of n] py_int_show_int [of n] by (auto simp: num_def is_digit_str_def show_int_def list_all_iff)
  obtain pool r w c where x: "x = (pool, r, w, c)" by (metis prod_cases4)
  let ?k = "pool_key h pool"
  have step: "check_one_errors t h x m = (let (prev, last) = state_get ''pool_errors'' ?k m
      in if r + w + c = num prev then m
         else if r + w + c > num prev \<and> r + w + c > 0 \<and> cooldown_ok last ERROR_ALERT_COOLDOWN t
         then state_set ''pool_errors'' ?k (show_int (r + w + c)) (Some t) t
           (send_notification (notif ''health_warning'' (''I/O Errors: '' @ pool)
              (''Pool '' @ sq @ pool @ sq @ '' on '' @ display_name h @ '' reports read='' @ show_int r @ '' write=''
               @ show_int w @ '' cksum='' @ show_int c @ ''.'') 8 [] [] (ho_address h)) m)
         else state_set ''pool_errors'' ?k (show_int (r + w + c)) None t m)" for t m
    unfolding x check_one_errors_def num_def Let_def by simp
  show "mo_sent (check_one_errors t2 h x (check_one_errors t1 h x m)) = mo_sent (check_one_errors t1 h x m)"
  proof (cases "r + w + c = num (fst (state_get ''pool_errors'' ?k m)) \<or> r + w + c \<le> 0")
    case True
    then show ?thesis by (auto simp: step Let_def split_def)
  next
    case False
    then have "fst (state_get ''pool_errors'' ?k (check_one_errors t1 h x m)) = Some (show_int (r + w + c))"
      by (auto simp: step Let_def split_def)
    then show ?thesis using n [of "r + w + c"] False by (simp add: step [of t2] Let_def split_def)
  qed
qed

interpretation topology: settling_check "topology_key h" "\<lambda>t. check_one_topology t h" for h
proof
  fix k x t m assume "k \<noteq> topology_key h x"
  then show "row_get (check_one_topology t h x m) k = row_get m k"
    by (auto simp: check_one_topology_def topology_key_def Let_def split: option.splits)
next
  fix m m' x t assume e: "row_get m (topology_key h x) = row_get m' (topology_key h x)"
  note g = state_get_cong [OF e [unfolded topology_key_def]]
  show "row_get (check_one_topology t h x m) (topology_key h x) = row_get (check_one_topology t h x m') (topology_key h x)"
    using e by (auto simp: check_one_topology_def topology_key_def Let_def g split: option.splits)
  show "\<exists>ms. mo_sent (check_one_topology t h x m) = mo_sent m @ ms \<and> mo_sent (check_one_topology t h x m') = mo_sent m' @ ms"
    by (auto simp: check_one_topology_def Let_def g split: option.splits)
next
  fix t2 x t1 m
  show "mo_sent (check_one_topology t2 h x (check_one_topology t1 h x m)) = mo_sent (check_one_topology t1 h x m)"
    by (auto simp: check_one_topology_def Let_def split: option.splits)
qed

section \<open>The check of one label\<close>

lemma key_inj: "stale_key h l = stale_key h k \<longleftrightarrow> l = k"
  by (simp add: stale_key_def)

lemma check_stale_other:
  "k \<noteq> (''stale_snap'', stale_key h label) \<Longrightarrow> row_get (check_stale_label now h up a label m) k = row_get m k"
  by (auto simp: check_stale_label_def Let_def row_get_def state_delete_def state_set_def send_notification_def)

definition stale_due :: "int \<Rightarrow> host \<Rightarrow> int option \<Rightarrow> analysis \<Rightarrow> mon \<Rightarrow> string \<Rightarrow> bool" where
  "stale_due now h up a m label = (\<not> too_young up label \<and> stale_in a label \<noteq> [] \<and>
     cooldown_ok (snd (state_get ''stale_snap'' (stale_key h label) m)) STALE_ALERT_COOLDOWN now)"

lemma check_stale_sent:
  "mo_sent (check_stale_label now h up a label m) =
     mo_sent m @ (if stale_due now h up a m label then [stale_alert h label (stale_in a label)] else [])"
  by (simp add: check_stale_label_def stale_due_def Let_def state_set_def state_delete_def send_notification_def)

lemma stale_due_cong:
  "row_get m (''stale_snap'', stale_key h l) = row_get m' (''stale_snap'', stale_key h l) \<Longrightarrow>
     stale_due now h up a m l = stale_due now h up a m' l"
  by (simp add: stale_due_def state_get_row)

lemma check_stale_fold_sent:
  "distinct ls \<Longrightarrow> mo_sent (fold (check_stale_label now h up a) ls m) =
     mo_sent m @ map (\<lambda>l. stale_alert h l (stale_in a l)) (filter (stale_due now h up a m) ls)"
proof (induction ls arbitrary: m)
  case (Cons l ls)
  have "stale_due now h up a (check_stale_label now h up a l m) k = stale_due now h up a m k" if "k \<in> set ls" for k
  proof (rule stale_due_cong, rule check_stale_other)
    show "(''stale_snap'', stale_key h k) \<noteq> (''stale_snap'', stale_key h l)"
      using that Cons.prems by (auto simp: key_inj)
  qed
  then have "filter (stale_due now h up a (check_stale_label now h up a l m)) ls = filter (stale_due now h up a m) ls"
    by (rule filter_cong [OF refl])
  then show ?case using Cons by (simp add: check_stale_sent)
qed simp

text \<open>The row of a label after its check.\<close>

definition stale_row :: "int \<Rightarrow> host \<Rightarrow> int option \<Rightarrow> analysis \<Rightarrow> mon \<Rightarrow> string \<Rightarrow> (string \<times> int option) option" where
  "stale_row now h up a m label =
     (if too_young up label then row_get m (''stale_snap'', stale_key h label)
      else if stale_in a label = [] then None
      else Some (stale_value (stale_in a label),
        if stale_due now h up a m label then Some now else snd (state_get ''stale_snap'' (stale_key h label) m)))"

lemma check_stale_row:
  "row_get (check_stale_label now h up a label m) (''stale_snap'', stale_key h label) = stale_row now h up a m label"
proof -
  have "row_get (state_delete ''stale_snap'' (stale_key h label) m) (''stale_snap'', stale_key h label) = None"
    by (simp add: row_get_def state_delete_def)
  moreover have "snd (state_get ''stale_snap'' (stale_key h label) m) \<noteq> None"
    if "\<not> cooldown_ok (snd (state_get ''stale_snap'' (stale_key h label) m)) STALE_ALERT_COOLDOWN now"
    using that by (auto simp: cooldown_ok_def split: option.splits)
  ultimately show ?thesis
    by (auto simp: check_stale_label_def stale_row_def stale_due_def Let_def split: option.splits)
qed

interpretation stale: row_check "\<lambda>l. (''stale_snap'', stale_key h l)" "\<lambda>t. check_stale_label t h up a" for h up a
proof
  fix m m' :: mon and x t assume e: "row_get m (''stale_snap'', stale_key h x) = row_get m' (''stale_snap'', stale_key h x)"
  note g = state_get_cong [OF e]
  show "row_get (check_stale_label t h up a x m) (''stale_snap'', stale_key h x) =
      row_get (check_stale_label t h up a x m') (''stale_snap'', stale_key h x)"
    using e stale_due_cong [OF e] by (simp add: check_stale_row stale_row_def g)
  show "\<exists>ms. mo_sent (check_stale_label t h up a x m) = mo_sent m @ ms \<and> mo_sent (check_stale_label t h up a x m') = mo_sent m' @ ms"
    using stale_due_cong [OF e] by (simp add: check_stale_sent)
qed (rule check_stale_other)

section \<open>A round repeated\<close>

lemma reach_other: "k \<noteq> (''host'', ho_address h) \<Longrightarrow> row_get (check_host_reachability t h r m) k = row_get m k"
  by (auto simp: check_host_reachability_def Let_def split_def split: option.splits)

lemma reach_settles:
  assumes "row_get m' (''host'', ho_address h) = row_get (check_host_reachability t1 h r m) (''host'', ho_address h)"
  shows "mo_sent (check_host_reachability t2 h r m') = mo_sent m'"
proof -
  have "ho_standby h \<or> fst (state_get ''host'' (ho_address h) (check_host_reachability t1 h r m)) = Some (if r then ''up'' else ''down'')"
    by (auto simp: check_host_reachability_def Let_def split_def split: option.splits)
  then show ?thesis using state_get_cong [OF assms] by (auto simp: check_host_reachability_def Let_def split_def)
qed

lemma health_scope: "fst k \<noteq> ''pool_health'' \<Longrightarrow> row_get (check_pool_health t h ps m) k = row_get m k"
  unfolding check_pool_health_def by (rule health.fold_other) (auto simp: health_key_def)

lemma capacity_scope: "fst k \<noteq> ''capacity'' \<Longrightarrow> row_get (check_capacity t th h ps m) k = row_get m k"
  unfolding check_capacity_def by (rule capacity.fold_other) (auto simp: capacity_key_def)

lemma errors_scope: "fst k \<noteq> ''pool_errors'' \<Longrightarrow> row_get (check_pool_errors t h ps m) k = row_get m k"
  unfolding check_pool_errors_def by (rule errors.fold_other) (auto simp: errors_key_def)

lemma topology_scope: "fst k \<noteq> ''pool_topology'' \<Longrightarrow> row_get (check_pool_topology t h ps m) k = row_get m k"
  unfolding check_pool_topology_def by (rule topology.fold_other) (auto simp: topology_key_def)

lemma stale_scope: "fst k \<noteq> ''stale_snap'' \<Longrightarrow> row_get (check_auto_snapshots t r1 run tags h m) k = row_get m k"
  unfolding check_auto_snapshots_def by (auto intro!: stale.fold_other split: option.split)

lemmas scope_simps = health_scope capacity_scope errors_scope topology_scope stale_scope reach_other

text \<open>After the rows of vanished pools are gone, every row of a pool check belongs to a listed pool.\<close>

definition POOL_SCOPES :: "string list" where
  "POOL_SCOPES = [''pool_health'', ''capacity'', ''pool_errors'', ''pool_topology'']"

definition listed :: "host \<Rightarrow> string list \<Rightarrow> string \<times> string \<Rightarrow> bool" where
  "listed h current sk = (fst sk \<in> set POOL_SCOPES \<and> sql_like None (ho_address h @ '':%'') (snd sk) \<longrightarrow>
     drop (length (ho_address h) + 1) (snd sk) \<in> set current)"

definition listed_names :: "pool list \<Rightarrow> string list" where
  "listed_names pools = filter (\<lambda>n. n \<noteq> []) (map pl_name pools)"

lemma row_get_vanish:
  "row_get (vanish_key t h cur scope (k, v) m) sk =
    (if sk = (scope, k) \<and> drop (length (ho_address h) + 1) k \<notin> set cur then None else row_get m sk)"
  by (auto simp: vanish_key_def Let_def row_get_def state_delete_def send_notification_def)

lemma row_get_vanish_fold:
  "row_get (fold (vanish_key t h cur scope) kvs m) sk =
    (if fst sk = scope \<and> snd sk \<in> fst ` set kvs \<and> drop (length (ho_address h) + 1) (snd sk) \<notin> set cur then None else row_get m sk)"
  by (induction kvs arbitrary: m) (auto simp: row_get_vanish)

lemma state_keys_row: "(k \<in> fst ` set (state_keys sc p m)) = (row_get m (sc, k) \<noteq> None \<and> sql_like None (p @ ''%'') k)"
proof -
  have "(k \<in> fst ` set (state_keys sc p m)) = ((\<exists>r. ((sc, k), r) \<in> set (mo_db m)) \<and> sql_like None (p @ ''%'') k)"
    by (force simp: state_keys_def map_filter_mem split: if_splits)
  also have "(\<exists>r. ((sc, k), r) \<in> set (mo_db m)) = ((sc, k) \<in> set (dkeys (mo_db m)))" by (force simp: dkeys_def)
  finally show ?thesis by (simp add: set_dkeys row_get_def)
qed

lemma vanish_scope_rows:
  "row_get (fold (vanish_key t h cur scope) (state_keys scope (ho_address h @ '':'') m) m) sk =
    (if fst sk = scope \<and> sql_like None (ho_address h @ '':%'') (snd sk) \<and> drop (length (ho_address h) + 1) (snd sk) \<notin> set cur
     then None else row_get m sk)"
proof -
  obtain sc k where sk: "sk = (sc, k)" by (cases sk)
  show ?thesis unfolding row_get_vanish_fold state_keys_row sk by (cases "row_get m (scope, k)") auto
qed

lemma vanish_scopes_rows:
  "row_get (fold (\<lambda>scope m. fold (vanish_key t h cur scope) (state_keys scope (ho_address h @ '':'') m) m) scs m) sk =
    (if fst sk \<in> set scs \<and> sql_like None (ho_address h @ '':%'') (snd sk) \<and> drop (length (ho_address h) + 1) (snd sk) \<notin> set cur
     then None else row_get m sk)"
  by (induction scs arbitrary: m) (auto simp: vanish_scope_rows)

lemma vanish_lists:
  "row_get (clear_vanished_pool_state t h pools m) sk \<noteq> None \<Longrightarrow> listed h (listed_names pools) sk"
proof -
  assume "row_get (clear_vanished_pool_state t h pools m) sk \<noteq> None"
  then have "\<not> (fst sk \<in> set POOL_SCOPES \<and> sql_like None (ho_address h @ '':%'') (snd sk) \<and>
      drop (length (ho_address h) + 1) (snd sk) \<notin> set (listed_names pools))"
    unfolding clear_vanished_pool_state_def listed_names_def [symmetric] Let_def vanish_scopes_rows POOL_SCOPES_def
    by metis
  then show ?thesis unfolding listed_def by blast
qed

lemma vanish_idle:
  assumes "\<And>sk. row_get m sk \<noteq> None \<Longrightarrow> listed h (listed_names pools) sk"
  shows "clear_vanished_pool_state t h pools m = m"
proof -
  have "fold (vanish_key t h (listed_names pools) scope) kvs m = m"
    if "scope \<in> set POOL_SCOPES" "set kvs \<subseteq> set (state_keys scope (ho_address h @ '':'') m)" for scope kvs
    using that
  proof (induction kvs)
    case (Cons kv kvs)
    obtain k v where kv: "kv = (k, v)" by (cases kv)
    with Cons.prems have "k \<in> fst ` set (state_keys scope (ho_address h @ '':'') m)" by force
    then have "row_get m (scope, k) \<noteq> None" "sql_like None (ho_address h @ '':%'') k" by (simp_all add: state_keys_row)
    then have "drop (length (ho_address h) + 1) k \<in> set (listed_names pools)"
      using assms [of "(scope, k)"] Cons.prems(1) by (simp add: listed_def)
    then have "vanish_key t h (listed_names pools) scope kv m = m" by (simp add: kv vanish_key_def Let_def)
    then show ?case using Cons by simp
  qed simp
  then show ?thesis
    unfolding clear_vanished_pool_state_def listed_names_def [symmetric] Let_def POOL_SCOPES_def by simp
qed


definition status_errors :: "pool_status list \<Rightarrow> (string \<times> int \<times> int \<times> int) list" where
  "status_errors ss = map (\<lambda>s. (ps_name s, ps_read s, ps_write s, ps_cksum s)) ss"

definition status_texts :: "pool_status list \<Rightarrow> (string \<times> string option) list" where
  "status_texts ss = map (\<lambda>s. (ps_name s, ps_text s)) ss"

lemma run_checks_reachable:
  assumes "ri_reachable i"
  shows "run_checks t i m =
    check_auto_snapshots t (ri_round1 i) (ri_run i) (ri_tags i) (ri_host i)
     (check_pool_topology t (ri_host i) (status_texts (ri_status i))
      (check_pool_errors t (ri_host i) (status_errors (ri_status i))
       (check_capacity t (ri_limits i) (ri_host i) (ri_pools i)
        (check_pool_health t (ri_host i) (ri_pools i)
         (if ri_pools_valid i then clear_vanished_pool_state t (ri_host i) (ri_pools i) (check_host_reachability t (ri_host i) True m)
          else check_host_reachability t (ri_host i) True m)))))"
  using assms by (simp add: run_checks_def status_errors_def status_texts_def Let_def)

lemma pool_key_listed: "name \<in> set cur \<Longrightarrow> listed h cur (sc, pool_key h name)"
  by (simp add: listed_def pool_key_def)

lemma listed_other: "fst sk \<notin> set POOL_SCOPES \<Longrightarrow> listed h cur sk"
  by (simp add: listed_def)

lemma name_listed: "x \<in> set pools \<Longrightarrow> pl_name x \<noteq> [] \<Longrightarrow> pl_name x \<in> set (listed_names pools)"
  by (auto simp: listed_names_def)

text \<open>A round leaves rows of listed pools only.\<close>

lemma round_lists:
  assumes "ri_reachable i" "ri_pools_valid i" "ps_name ` set (ri_status i) \<subseteq> set (listed_names (ri_pools i))"
    and "row_get (run_checks t i m) sk \<noteq> None"
  shows "listed (ri_host i) (listed_names (ri_pools i)) sk"
proof -
  let ?h = "ri_host i" and ?pools = "ri_pools i" and ?P = "listed (ri_host i) (listed_names (ri_pools i))"
  define m2 where "m2 = clear_vanished_pool_state t ?h ?pools (check_host_reachability t ?h True m)"
  define m3 where "m3 = check_pool_health t ?h ?pools m2"
  define m4 where "m4 = check_capacity t (ri_limits i) ?h ?pools m3"
  define m5 where "m5 = check_pool_errors t ?h (status_errors (ri_status i)) m4"
  define m6 where "m6 = check_pool_topology t ?h (status_texts (ri_status i)) m5"
  have r: "run_checks t i m = check_auto_snapshots t (ri_round1 i) (ri_run i) (ri_tags i) ?h m6"
    using run_checks_reachable [OF assms(1)] assms(2) by (simp add: m2_def m3_def m4_def m5_def m6_def)
  have 2: "row_get m2 k \<noteq> None \<Longrightarrow> ?P k" for k unfolding m2_def by (rule vanish_lists)
  have 3: "row_get m3 k \<noteq> None \<Longrightarrow> ?P k" for k
    unfolding m3_def check_pool_health_def
  proof (rule health.fold_within)
    fix x assume "x \<in> set ?pools"
    then show "(\<forall>m. check_one_health t ?h x m = m) \<or> ?P (health_key ?h x)"
      using name_listed pool_key_listed by (cases "pl_name x = []") (auto simp: check_one_health_def health_key_def Let_def)
  qed (rule 2)
  have 4: "row_get m4 k \<noteq> None \<Longrightarrow> ?P k" for k
    unfolding m4_def check_capacity_def
  proof (rule capacity.fold_within)
    fix x assume "x \<in> set ?pools"
    then show "(\<forall>m. check_one_capacity t (ri_limits i) ?h x m = m) \<or> ?P (capacity_key ?h x)"
      using name_listed pool_key_listed
      by (cases "pl_name x = []") (auto simp: check_one_capacity_def capacity_key_def Let_def split_def)
  qed (rule 3)
  have 5: "row_get m5 k \<noteq> None \<Longrightarrow> ?P k" for k
    unfolding m5_def check_pool_errors_def
  proof (rule errors.fold_within)
    fix x assume "x \<in> set (status_errors (ri_status i))"
    then have "fst x \<in> set (listed_names ?pools)" using assms(3) by (auto simp: status_errors_def)
    then show "(\<forall>m. check_one_errors t ?h x m = m) \<or> ?P (errors_key ?h x)"
      using pool_key_listed by (simp add: errors_key_def)
  qed (rule 4)
  have 6: "row_get m6 k \<noteq> None \<Longrightarrow> ?P k" for k
    unfolding m6_def check_pool_topology_def
  proof (rule topology.fold_within)
    fix x assume "x \<in> set (status_texts (ri_status i))"
    then have "fst x \<in> set (listed_names ?pools)" using assms(3) by (auto simp: status_texts_def)
    then show "(\<forall>m. check_one_topology t ?h x m = m) \<or> ?P (topology_key ?h x)"
      using pool_key_listed by (simp add: topology_key_def)
  qed (rule 5)
  show ?thesis
  proof (cases "fst sk = ''stale_snap''")
    case True
    then show ?thesis by (intro listed_other) (simp add: POOL_SCOPES_def)
  next
    case False
    then show ?thesis using 6 assms(4) unfolding r by (simp add: stale_scope)
  qed
qed

lemma stale_sends: "\<exists>ms. mo_sent (check_auto_snapshots t r1 run tags h m) = mo_sent m @ ms \<and>
    list_all (\<lambda>n. nt_event n = ''auto_snapshot'') ms"
proof (cases "stale_analysis t r1 run tags h")
  case (Some a)
  have "distinct (dkeys STALE_THRESHOLDS)" by (simp add: STALE_THRESHOLDS_def dkeys_def)
  from check_stale_fold_sent [OF this] show ?thesis
    by (auto simp: check_auto_snapshots_def Some list_all_iff stale_alert_def notif_def Let_def)
qed (simp add: check_auto_snapshots_def)

lemma vanish_scope: "fst k \<notin> set POOL_SCOPES \<Longrightarrow> row_get (clear_vanished_pool_state t h pools m) k = row_get m k"
  unfolding clear_vanished_pool_state_def Let_def vanish_scopes_rows by (simp add: POOL_SCOPES_def)

text \<open>Each check, repeated over the same items on a table whose rows for it are those it left.\<close>

lemma health_again:
  assumes "distinct (map pl_name pools)"
    and "\<And>k. fst k = ''pool_health'' \<Longrightarrow> row_get n k = row_get (check_pool_health t1 h pools m) k"
  shows "mo_sent (check_pool_health t2 h pools n) = mo_sent n"
  unfolding check_pool_health_def
proof (rule health.round_settles [where m = m and ?t1.0 = t1])
  show "distinct (map (health_key h) pools)"
    using assms(1) by (simp add: distinct_map inj_on_def health_key_def pool_key_def)
qed (rule assms(2) [unfolded check_pool_health_def], simp add: health_key_def)

lemma capacity_again:
  assumes "distinct (map pl_name pools)"
    and "\<And>k. fst k = ''capacity'' \<Longrightarrow> row_get n k = row_get (check_capacity t1 th h pools m) k"
  shows "mo_sent (check_capacity t2 th h pools n) = mo_sent n"
  unfolding check_capacity_def
proof (rule capacity.round_settles [where m = m and ?t1.0 = t1])
  show "distinct (map (capacity_key h) pools)"
    using assms(1) by (simp add: distinct_map inj_on_def capacity_key_def pool_key_def)
qed (rule assms(2) [unfolded check_capacity_def], simp add: capacity_key_def)

lemma errors_again:
  assumes "distinct (map fst ss)"
    and "\<And>k. fst k = ''pool_errors'' \<Longrightarrow> row_get n k = row_get (check_pool_errors t1 h ss m) k"
  shows "mo_sent (check_pool_errors t2 h ss n) = mo_sent n"
  unfolding check_pool_errors_def
proof (rule errors.round_settles [where m = m and ?t1.0 = t1])
  show "distinct (map (errors_key h) ss)"
    using assms(1) by (simp add: distinct_map inj_on_def errors_key_def pool_key_def)
qed (rule assms(2) [unfolded check_pool_errors_def], simp add: errors_key_def)

lemma topology_again:
  assumes "distinct (map fst ss)"
    and "\<And>k. fst k = ''pool_topology'' \<Longrightarrow> row_get n k = row_get (check_pool_topology t1 h ss m) k"
  shows "mo_sent (check_pool_topology t2 h ss n) = mo_sent n"
  unfolding check_pool_topology_def
proof (rule topology.round_settles [where m = m and ?t1.0 = t1])
  show "distinct (map (topology_key h) ss)"
    using assms(1) by (simp add: distinct_map inj_on_def topology_key_def pool_key_def)
qed (rule assms(2) [unfolded check_pool_topology_def], simp add: topology_key_def)

lemma vanish_again:
  assumes "ri_reachable i" "ps_name ` set (ri_status i) \<subseteq> set (listed_names (ri_pools i))" "ri_pools_valid i"
  shows "clear_vanished_pool_state t2 (ri_host i) (ri_pools i) (check_host_reachability t2 (ri_host i) True (run_checks t1 i m))
    = check_host_reachability t2 (ri_host i) True (run_checks t1 i m)"
proof (rule vanish_idle)
  fix sk assume r: "row_get (check_host_reachability t2 (ri_host i) True (run_checks t1 i m)) sk \<noteq> None"
  show "listed (ri_host i) (listed_names (ri_pools i)) sk"
  proof (cases "sk = (''host'', ho_address (ri_host i))")
    case True
    then show ?thesis by (intro listed_other) (simp add: POOL_SCOPES_def)
  next
    case False
    then have "row_get (run_checks t1 i m) sk \<noteq> None" using r by (simp add: reach_other)
    then show ?thesis using round_lists [OF assms(1,3,2)] by blast
  qed
qed

text \<open>C28: A round on a host that has not changed since the previous round announces nothing anew: whatever the
  table held at first, at whatever time the rounds run, the second one sends nothing but reminders of
  stale snapshots.\<close>

theorem unchanged_round_is_quiet:
  assumes "distinct (map pl_name (ri_pools i))" "distinct (map ps_name (ri_status i))"
    "ps_name ` set (ri_status i) \<subseteq> set (listed_names (ri_pools i))"
  shows "\<exists>reminders. mo_sent (run_checks t2 i (run_checks t1 i m)) = mo_sent (run_checks t1 i m) @ reminders \<and>
    list_all (\<lambda>n. nt_event n = ''auto_snapshot'') reminders"
proof (cases "ri_reachable i")
  case False
  then have "mo_sent (run_checks t2 i (run_checks t1 i m)) = mo_sent (run_checks t1 i m)"
    unfolding run_checks_def Let_def by (simp add: reach_settles [OF refl])
  then show ?thesis by simp
next
  case True
  let ?h = "ri_host i" and ?pools = "ri_pools i" and ?es = "status_errors (ri_status i)" and ?ts = "status_texts (ri_status i)"
  define m1 where "m1 = check_host_reachability t1 ?h True m"
  define m2 where "m2 = (if ri_pools_valid i then clear_vanished_pool_state t1 ?h ?pools m1 else m1)"
  define m3 where "m3 = check_pool_health t1 ?h ?pools m2"
  define m4 where "m4 = check_capacity t1 (ri_limits i) ?h ?pools m3"
  define m5 where "m5 = check_pool_errors t1 ?h ?es m4"
  define m6 where "m6 = check_pool_topology t1 ?h ?ts m5"
  define M where "M = run_checks t1 i m"
  have M: "M = check_auto_snapshots t1 (ri_round1 i) (ri_run i) (ri_tags i) ?h m6"
    unfolding M_def m6_def m5_def m4_def m3_def m2_def m1_def by (rule run_checks_reachable [OF True])
  define n1 where "n1 = check_host_reachability t2 ?h True M"
  define n3 where "n3 = check_pool_health t2 ?h ?pools n1"
  define n4 where "n4 = check_capacity t2 (ri_limits i) ?h ?pools n3"
  define n5 where "n5 = check_pool_errors t2 ?h ?es n4"
  define n6 where "n6 = check_pool_topology t2 ?h ?ts n5"
  have "(if ri_pools_valid i then clear_vanished_pool_state t2 ?h ?pools n1 else n1) = n1"
    using vanish_again [OF True assms(3)] by (simp add: n1_def M_def)
  then have N: "run_checks t2 i M = check_auto_snapshots t2 (ri_round1 i) (ri_run i) (ri_tags i) ?h n6"
    unfolding run_checks_reachable [OF True] n6_def n5_def n4_def n3_def n1_def by simp
  have "row_get M (''host'', ho_address ?h) = row_get m1 (''host'', ho_address ?h)"
    unfolding M m6_def m5_def m4_def m3_def m2_def by (simp add: scope_simps vanish_scope POOL_SCOPES_def)
  then have s1: "mo_sent n1 = mo_sent M" unfolding n1_def m1_def by (rule reach_settles)
  have s3: "mo_sent n3 = mo_sent n1" unfolding n3_def
    by (rule health_again [OF assms(1), where m = m2 and ?t1.0 = t1], fold m3_def)
       (auto simp: n1_def M m6_def m5_def m4_def scope_simps)
  have s4: "mo_sent n4 = mo_sent n3" unfolding n4_def
    by (rule capacity_again [OF assms(1), where m = m3 and ?t1.0 = t1], fold m4_def)
       (auto simp: n3_def n1_def M m6_def m5_def scope_simps)
  have d: "distinct (map fst ?es)" "distinct (map fst ?ts)"
    using assms(2) by (simp_all add: status_errors_def status_texts_def comp_def)
  have s5: "mo_sent n5 = mo_sent n4" unfolding n5_def
    by (rule errors_again [OF d(1), where m = m4 and ?t1.0 = t1], fold m5_def)
       (auto simp: n4_def n3_def n1_def M m6_def scope_simps)
  have s6: "mo_sent n6 = mo_sent n5" unfolding n6_def
    by (rule topology_again [OF d(2), where m = m5 and ?t1.0 = t1], fold m6_def)
       (auto simp: n5_def n4_def n3_def n1_def M scope_simps)
  show ?thesis using stale_sends s1 s3 s4 s5 s6 N unfolding M_def by metis
qed

definition quiet_input :: round_input where
  "quiet_input = \<lparr>ri_host = ex_host, ri_reachable = True,
     ri_pools = [\<lparr>pl_name = ''tank'', pl_health = ''DEGRADED'', pl_cap = ''85%''\<rparr>, \<lparr>pl_name = ''rpool'', pl_health = ''ONLINE'', pl_cap = ''5%''\<rparr>],
     ri_status = [\<lparr>ps_name = ''tank'', ps_read = 3, ps_write = 0, ps_cksum = 1, ps_text = None\<rparr>],
     ri_pools_valid = True, ri_limits = (70, 80), ri_round1 = (\<lambda>a b. []), ri_run = (\<lambda>h cmd. cmd_fail []), ri_tags = None\<rparr>"

theorem unchanged_round_is_quiet_witness:
  "length (mo_sent (run_checks 1000 quiet_input ex_mon)) = 2 \<and>
   (\<exists>reminders. mo_sent (run_checks 2000 quiet_input (run_checks 1000 quiet_input ex_mon)) =
      mo_sent (run_checks 1000 quiet_input ex_mon) @ reminders \<and> list_all (\<lambda>n. nt_event n = ''auto_snapshot'') reminders)"
proof
  show "length (mo_sent (run_checks 1000 quiet_input ex_mon)) = 2" by code_simp
  show "\<exists>reminders. mo_sent (run_checks 2000 quiet_input (run_checks 1000 quiet_input ex_mon)) =
      mo_sent (run_checks 1000 quiet_input ex_mon) @ reminders \<and> list_all (\<lambda>n. nt_event n = ''auto_snapshot'') reminders"
  proof (rule unchanged_round_is_quiet)
    show "distinct (map pl_name (ri_pools quiet_input))" by code_simp
    show "distinct (map ps_name (ri_status quiet_input))" by code_simp
    show "ps_name ` set (ri_status quiet_input) \<subseteq> set (listed_names (ri_pools quiet_input))"
      by (simp add: quiet_input_def listed_names_def)
  qed
qed

section \<open>Reminders of one label\<close>

text \<open>A run of the check for one label: the times at which it found the label stale and the host up long
  enough, and what the host was like then.\<close>

fun alert_times :: "host \<Rightarrow> string \<Rightarrow> (int \<times> int option \<times> analysis) list \<Rightarrow> mon \<Rightarrow> int list" where
  "alert_times h l [] m = []"
| "alert_times h l ((now, up, a) # rs) m =
     (if stale_due now h up a m l then [now] else []) @ alert_times h l rs (check_stale_label now h up a l m)"

definition stale_seen :: "string \<Rightarrow> int \<times> int option \<times> analysis \<Rightarrow> bool" where
  "stale_seen l r = (case r of (now, up, a) \<Rightarrow> 0 < now \<and> \<not> too_young up l \<and> stale_in a l \<noteq> [])"

lemma alert_times_after:
  assumes "list_all (stale_seen l) rs" "sorted (map fst rs)" "snd (state_get ''stale_snap'' (stale_key h l) m) = Some prev"
    "0 < prev" "\<forall>r \<in> set rs. prev \<le> fst r"
  shows "sorted_wrt (\<lambda>s t. STALE_ALERT_COOLDOWN \<le> t - s) (prev # alert_times h l rs m)"
  using assms
proof (induction rs arbitrary: m prev)
  case (Cons r rs)
  obtain now up a where r: "r = (now, up, a)" by (cases r)
  let ?m = "check_stale_label now h up a l m"
  have s: "stale_in a l \<noteq> []" "\<not> too_young up l" "0 < now" using Cons.prems(1) by (auto simp: r stale_seen_def)
  have row: "snd (state_get ''stale_snap'' (stale_key h l) ?m) = (if stale_due now h up a m l then Some now else Some prev)"
    using check_stale_row [of now h up a l m] s Cons.prems(3) by (simp add: state_get_row [of _ _ ?m] stale_row_def)
  have rs: "list_all (stale_seen l) rs" "sorted (map fst rs)" using Cons.prems by simp_all
  show ?case
  proof (cases "stale_due now h up a m l")
    case True
    then have d: "STALE_ALERT_COOLDOWN \<le> now - prev" using Cons.prems(3,4) by (auto simp: stale_due_def cooldown_ok_def)
    have later: "\<forall>r \<in> set rs. now \<le> fst r" using Cons.prems(2) by (auto simp: r)
    have "sorted_wrt (\<lambda>s t. STALE_ALERT_COOLDOWN \<le> t - s) (now # alert_times h l rs ?m)"
      using Cons.IH [OF rs _ s(3) later] row True by simp
    then show ?thesis using True d by (auto simp: r STALE_ALERT_COOLDOWN_def)
  next
    case False
    have "\<forall>r \<in> set rs. prev \<le> fst r" using Cons.prems(5) by simp
    then show ?thesis using Cons.IH [OF rs _ Cons.prems(4)] row False by (simp add: r)
  qed
qed simp

text \<open>While the snapshots of a label stay stale, reminders of it are at least a day apart, however often it
  is checked and however the datasets concerned change.\<close>

theorem stale_reminders_spaced:
  assumes "list_all (stale_seen l) rs" "sorted (map fst rs)"
  shows "sorted_wrt (\<lambda>s t. STALE_ALERT_COOLDOWN \<le> t - s) (alert_times h l rs m)"
  using assms
proof (induction rs arbitrary: m)
  case (Cons r rs)
  obtain now up a where r: "r = (now, up, a)" by (cases r)
  let ?m = "check_stale_label now h up a l m"
  have s: "stale_in a l \<noteq> []" "\<not> too_young up l" "0 < now" using Cons.prems(1) by (auto simp: r stale_seen_def)
  have rs: "list_all (stale_seen l) rs" "sorted (map fst rs)" "\<forall>r \<in> set rs. now \<le> fst r" using Cons.prems by (auto simp: r)
  show ?case
  proof (cases "stale_due now h up a m l")
    case True
    then have "snd (state_get ''stale_snap'' (stale_key h l) ?m) = Some now"
      using check_stale_row [of now h up a l m] s by (simp add: state_get_row [of _ _ ?m] stale_row_def)
    from alert_times_after [OF rs(1,2) this s(3) rs(3)] show ?thesis using True by (simp add: r)
  next
    case False
    then show ?thesis using Cons.IH [OF rs(1,2)] by (simp add: r)
  qed
qed simp


text \<open>One dataset whose newest hourly snapshot is from time 1000.\<close>

definition hourly_seen :: "int \<Rightarrow> analysis" where
  "hourly_seen now = analyze_snapshots
     \<lparr>ae_now = now, ae_retention = [], ae_disabled = [], ae_creation = [], ae_round1 = (\<lambda>a b. [])\<rparr>
     \<lparr>sa_datasets = [(''tank'', [(''hourly'', \<lparr>li_count = 1, li_oldest = 1000, li_newest = 1000, li_timestamps = [1000]\<rparr>)])],
      sa_manual = []\<rparr>"

theorem stale_reminders_spaced_witness:
  "let rs = map (\<lambda>t. (t, None, hourly_seen t)) [20000, 20300, 106399, 106400, 106700]
   in alert_times ex_host ''hourly'' rs ex_mon = [20000, 106400] \<and>
      sorted_wrt (\<lambda>s t. STALE_ALERT_COOLDOWN \<le> t - s) (alert_times ex_host ''hourly'' rs ex_mon)"
proof -
  let ?rs = "map (\<lambda>t. (t, None, hourly_seen t)) [20000, 20300, 106399, 106400, 106700]"
  have "list_all (stale_seen ''hourly'') ?rs" by code_simp
  moreover have "sorted (map fst ?rs)" by simp
  moreover have "alert_times ex_host ''hourly'' ?rs ex_mon = [20000, 106400]" by code_simp
  ultimately show ?thesis unfolding Let_def using stale_reminders_spaced by blast
qed

text \<open>The thresholds of this module decide only how long a host must have been up. What is stale is decided by
  those of the analysis, so a label is announced earlier than the comments beside the thresholds say.\<close>

lemma hourly_announced_after_two_hours:
  "stale_due (1000 + 7201) ex_host (Some 14400) (hourly_seen (1000 + 7201)) ex_mon ''hourly''"
  by code_simp

text \<open>A host that has just booted is left alone.\<close>

lemma fresh_boot_silent:
  assumes "host_uptime_seconds run h = Some u" "u < 2 * 3600"
  shows "check_auto_snapshots now r1 run tags h m = m"
proof -
  have "too_young (Some u) l" if "l \<in> set (dkeys STALE_THRESHOLDS)" for l
    using that assms(2) by (auto simp: too_young_def STALE_THRESHOLDS_def dkeys_def dget_or_def dget_cons)
  then have "check_stale_label now h (Some u) a l m = m" if "l \<in> set (dkeys STALE_THRESHOLDS)" for a l
    using that by (simp add: check_stale_label_def Let_def)
  then have "fold (check_stale_label now h (Some u) a) ls m = m" if "set ls \<subseteq> set (dkeys STALE_THRESHOLDS)" for a ls
    using that by (induction ls) auto
  then show ?thesis by (simp add: check_auto_snapshots_def assms(1) split: option.split)
qed

end
