(* ===== verification/Calendar.thy ===== *)
theory Calendar
  imports PyStr
begin

text \<open>
  The part of Python's \<open>datetime\<close> that the schedulers use: naive local times, their ordinal day, week day,
  ISO week, distance, and the fixed-width stamp \<open>%Y%m%d-%H%M%S\<close> in both directions. Times are read in
  whole seconds.
\<close>

record datetime =
  dt_year :: int
  dt_month :: int
  dt_day :: int
  dt_hour :: int
  dt_minute :: int
  dt_second :: int

definition is_leap :: "int \<Rightarrow> bool" where
  "is_leap y = (y mod 4 = 0 \<and> (y mod 100 \<noteq> 0 \<or> y mod 400 = 0))"

definition days_in_month :: "int \<Rightarrow> int \<Rightarrow> int" where
  "days_in_month y m = (if m = 2 then (if is_leap y then 29 else 28)
     else if m = 4 \<or> m = 6 \<or> m = 9 \<or> m = 11 then 30 else 31)"

definition days_before_year :: "int \<Rightarrow> int" where
  "days_before_year y = (let n = y - 1 in n * 365 + n div 4 - n div 100 + n div 400)"

definition days_before_month :: "int \<Rightarrow> int \<Rightarrow> int" where
  "days_before_month y m = sum_list (map (days_in_month y) [1..m - 1])"

definition ymd2ord :: "int \<Rightarrow> int \<Rightarrow> int \<Rightarrow> int" where
  "ymd2ord y m d = days_before_year y + days_before_month y m + d"

definition ordinal :: "datetime \<Rightarrow> int" where
  "ordinal t = ymd2ord (dt_year t) (dt_month t) (dt_day t)"

text \<open>Monday is 0.\<close>

definition weekday :: "datetime \<Rightarrow> int" where
  "weekday t = (ordinal t + 6) mod 7"

definition week1_monday :: "int \<Rightarrow> int" where
  "week1_monday y = (let first = ymd2ord y 1 1; wd = (first + 6) mod 7; monday = first - wd
     in if wd > 3 then monday + 7 else monday)"

definition iso_week :: "datetime \<Rightarrow> int \<times> int" where
  "iso_week t =
     (let y = dt_year t; today = ordinal t; week = (today - week1_monday y) div 7
      in if week < 0 then (y - 1, (today - week1_monday (y - 1)) div 7 + 1)
         else if week \<ge> 52 \<and> today \<ge> week1_monday (y + 1) then (y + 1, 1)
         else (y, week + 1))"

definition seconds_of :: "datetime \<Rightarrow> int" where
  "seconds_of t = ordinal t * 86400 + dt_hour t * 3600 + dt_minute t * 60 + dt_second t"

definition valid_datetime :: "datetime \<Rightarrow> bool" where
  "valid_datetime t = (1 \<le> dt_year t \<and> dt_year t \<le> 9999 \<and> 1 \<le> dt_month t \<and> dt_month t \<le> 12 \<and>
     1 \<le> dt_day t \<and> dt_day t \<le> days_in_month (dt_year t) (dt_month t) \<and>
     0 \<le> dt_hour t \<and> dt_hour t \<le> 23 \<and> 0 \<le> dt_minute t \<and> dt_minute t \<le> 59 \<and> 0 \<le> dt_second t \<and> dt_second t \<le> 59)"

text \<open>The C library pads the year to four digits, as do all platforms for the years in question.\<close>

fun pad_digits :: "nat \<Rightarrow> int \<Rightarrow> string" where
  "pad_digits 0 n = []"
| "pad_digits (Suc w) n = pad_digits w (n div 10) @ [char_of (48 + n mod 10)]"

definition day_digits :: "datetime \<Rightarrow> string" where
  "day_digits t = pad_digits 4 (dt_year t) @ pad_digits 2 (dt_month t) @ pad_digits 2 (dt_day t)"

definition time_digits :: "datetime \<Rightarrow> string" where
  "time_digits t = pad_digits 2 (dt_hour t) @ pad_digits 2 (dt_minute t) @ pad_digits 2 (dt_second t)"

definition stamp :: "datetime \<Rightarrow> string" where
  "stamp t = day_digits t @ ''-'' @ time_digits t"

text \<open>\<open>strptime\<close> of eight and six digits: fields of fixed width in this case, checked by the constructor.\<close>

definition from_stamp :: "string \<Rightarrow> string \<Rightarrow> datetime option" where
  "from_stamp d t =
     (let r = \<lparr>dt_year = digits_val (take 4 d), dt_month = digits_val (take 2 (drop 4 d)), dt_day = digits_val (drop 6 d),
               dt_hour = digits_val (take 2 t), dt_minute = digits_val (take 2 (drop 2 t)), dt_second = digits_val (drop 4 t)\<rparr>
      in if valid_datetime r then Some r else None)"

lemma length_pad [simp]: "length (pad_digits w n) = w"
  by (induction w arbitrary: n) auto

lemma pad_digit: "0 \<le> n \<Longrightarrow> list_all is_digit (pad_digits w n)"
  by (induction w arbitrary: n) (auto intro!: is_digit_char_of)

lemma pad_val: "0 \<le> n \<Longrightarrow> n < 10 ^ w \<Longrightarrow> digits_val (pad_digits w n) = n"
proof (induction w arbitrary: n)
  case (Suc w)
  have "n div 10 * 10 \<le> n" by simp
  moreover have "n < 10 * 10 ^ w" using Suc.prems(2) by simp
  ultimately have "n div 10 < 10 ^ w" by linarith
  then have "digits_val (pad_digits w (n div 10)) = n div 10" using Suc by simp
  moreover have "digit_val (char_of (48 + n mod 10)) = n mod 10"
    by (simp add: digit_val_def)
  ultimately show ?case by (simp add: digits_val_snoc)
qed (simp add: digits_val_def)

lemma stamp_parts: "length (day_digits t) = 8" "length (time_digits t) = 6" "length (stamp t) = 15"
  by (simp_all add: day_digits_def time_digits_def stamp_def)

lemma stamp_digits:
  assumes "valid_datetime t"
  shows "list_all is_digit (day_digits t)" "list_all is_digit (time_digits t)"
  using assms by (simp_all add: day_digits_def time_digits_def valid_datetime_def pad_digit)

lemma from_stamp_stamp:
  assumes "valid_datetime t"
  shows "from_stamp (day_digits t) (time_digits t) = Some t"
proof -
  have b: "0 \<le> dt_year t" "dt_year t < 10 ^ 4" "0 \<le> dt_month t" "dt_month t < 10 ^ 2" "0 \<le> dt_day t" "dt_day t < 10 ^ 2"
    "0 \<le> dt_hour t" "dt_hour t < 10 ^ 2" "0 \<le> dt_minute t" "dt_minute t < 10 ^ 2" "0 \<le> dt_second t" "dt_second t < 10 ^ 2"
    using assms by (auto simp: valid_datetime_def days_in_month_def split: if_splits)
  note v = pad_val [OF b(1,2)] pad_val [OF b(3,4)] pad_val [OF b(5,6)] pad_val [OF b(7,8)] pad_val [OF b(9,10)] pad_val [OF b(11,12)]
  have "take 4 (day_digits t) = pad_digits 4 (dt_year t)" "take 2 (drop 4 (day_digits t)) = pad_digits 2 (dt_month t)"
    "drop 6 (day_digits t) = pad_digits 2 (dt_day t)" "take 2 (time_digits t) = pad_digits 2 (dt_hour t)"
    "take 2 (drop 2 (time_digits t)) = pad_digits 2 (dt_minute t)" "drop 4 (time_digits t) = pad_digits 2 (dt_second t)"
    unfolding day_digits_def time_digits_def by simp_all
  moreover have "\<lparr>dt_year = dt_year t, dt_month = dt_month t, dt_day = dt_day t, dt_hour = dt_hour t,
      dt_minute = dt_minute t, dt_second = dt_second t\<rparr> = t" by simp
  ultimately have "from_stamp (day_digits t) (time_digits t) = (if valid_datetime t then Some t else None)"
    unfolding from_stamp_def Let_def by (simp only: v)
  with assms show ?thesis by simp
qed

section \<open>Stamps are in chronological order\<close>

lemma append_less_iff: "length a = length b \<Longrightarrow> a @ x < b @ y \<longleftrightarrow> a < b \<or> a = b \<and> x < (y :: string)"
  by (induction a b rule: list_induct2) auto

lemma pad_inj: "0 \<le> m \<Longrightarrow> m < 10 ^ w \<Longrightarrow> 0 \<le> n \<Longrightarrow> n < 10 ^ w \<Longrightarrow> pad_digits w m = pad_digits w n \<longleftrightarrow> m = n"
  using pad_val by metis

lemma digit_less: "0 \<le> m \<Longrightarrow> m < 10 \<Longrightarrow> 0 \<le> n \<Longrightarrow> n < 10 \<Longrightarrow> (char_of (48 + m) :: char) < char_of (48 + n) \<longleftrightarrow> m < (n :: int)"
proof -
  assume b: "0 \<le> m" "m < 10" "0 \<le> n" "n < 10"
  have "(of_char (char_of (48 + k) :: char) :: int) = 48 + k" if "0 \<le> k" "k < 10" for k :: int
    using that by simp
  then have "cc (char_of (48 + m)) = 48 + m" "cc (char_of (48 + n)) = 48 + n" using b by (simp_all add: cc_def)
  moreover have "(c < d) = (cc c < cc d)" for c d :: char
  proof -
    have "(of_char c :: int) = int (of_char c)" "(of_char d :: int) = int (of_char d)" by (simp_all add: of_nat_of_char)
    then show ?thesis unfolding less_char_def cc_def by linarith
  qed
  ultimately show ?thesis by simp
qed

lemma pad_less: "0 \<le> m \<Longrightarrow> m < 10 ^ w \<Longrightarrow> 0 \<le> n \<Longrightarrow> n < 10 ^ w \<Longrightarrow> pad_digits w m < pad_digits w n \<longleftrightarrow> m < n"
proof (induction w arbitrary: m n)
  case (Suc w)
  have b: "0 \<le> m div 10" "m div 10 < 10 ^ w" "0 \<le> n div 10" "n div 10 < 10 ^ w" using Suc.prems by simp_all
  have d: "(char_of (48 + m mod 10) :: char) < char_of (48 + n mod 10) \<longleftrightarrow> m mod 10 < n mod 10"
    by (rule digit_less) simp_all
  have "pad_digits (Suc w) m < pad_digits (Suc w) n \<longleftrightarrow> m div 10 < n div 10 \<or> m div 10 = n div 10 \<and> m mod 10 < n mod 10"
    by (simp add: append_less_iff Suc.IH [OF b] pad_inj [OF b] d)
  also have "\<dots> \<longleftrightarrow> m < n"
  proof -
    have "m = m div 10 * 10 + m mod 10" "n = n div 10 * 10 + n mod 10" "0 \<le> m mod 10" "m mod 10 < 10" "0 \<le> n mod 10" "n mod 10 < 10"
      by simp_all
    then show ?thesis by linarith
  qed
  finally show ?case .
qed simp

lemma pair_less: "(a, b) < (c, d) \<longleftrightarrow> a < c \<or> a = c \<and> b < d" for a c :: int and b d :: "'a::linorder"
  by (auto simp: less_prod_def)

definition fields_of :: "datetime \<Rightarrow> int \<times> int \<times> int \<times> int \<times> int \<times> int" where
  "fields_of t = (dt_year t, dt_month t, dt_day t, dt_hour t, dt_minute t, dt_second t)"

lemma valid_bounds:
  assumes "valid_datetime t"
  shows "0 \<le> dt_year t" "dt_year t < 10 ^ 4" "0 \<le> dt_month t" "dt_month t < 10 ^ 2" "0 \<le> dt_day t" "dt_day t < 10 ^ 2"
    "0 \<le> dt_hour t" "dt_hour t < 10 ^ 2" "0 \<le> dt_minute t" "dt_minute t < 10 ^ 2" "0 \<le> dt_second t" "dt_second t < 10 ^ 2"
  using assms by (auto simp: valid_datetime_def days_in_month_def split: if_splits)

lemma stamp_less_fields:
  assumes "valid_datetime a" "valid_datetime b"
  shows "stamp a < stamp b \<longleftrightarrow> fields_of a < fields_of b"
proof -
  note A = valid_bounds [OF assms(1)] and B = valid_bounds [OF assms(2)]
  note l = pad_less [OF A(1,2) B(1,2)] pad_less [OF A(3,4) B(3,4)] pad_less [OF A(5,6) B(5,6)]
    pad_less [OF A(7,8) B(7,8)] pad_less [OF A(9,10) B(9,10)] pad_less [OF A(11,12) B(11,12)]
  note e = pad_inj [OF A(1,2) B(1,2)] pad_inj [OF A(3,4) B(3,4)] pad_inj [OF A(5,6) B(5,6)]
    pad_inj [OF A(7,8) B(7,8)] pad_inj [OF A(9,10) B(9,10)]
  show ?thesis
    unfolding stamp_def day_digits_def time_digits_def fields_of_def append_assoc pair_less
    by (simp add: append_less_iff l e)
qed

lemma dim_pos: "0 < days_in_month y m"
  by (simp add: days_in_month_def)

lemma dbm_mono: "m \<le> n \<Longrightarrow> 1 \<le> m \<Longrightarrow> days_before_month y m \<le> days_before_month y n"
proof (induction rule: int_ge_induct)
  case (step i)
  have "[1..i + 1 - 1] = [1..i - 1] @ [i]" using step.hyps step.prems upto_rec2 [of 1 i] by simp
  then have "days_before_month y (i + 1) = days_before_month y i + days_in_month y i" by (simp add: days_before_month_def)
  with step dim_pos [of y i] show ?case by linarith
qed simp

lemma dbm_next: "1 \<le> m \<Longrightarrow> days_before_month y (m + 1) = days_before_month y m + days_in_month y m"
  using upto_rec2 [of 1 m] by (simp add: days_before_month_def)

lemma div_pred: "0 < k \<Longrightarrow> (y :: int) div k = (y - 1) div k + (if y mod k = 0 then 1 else 0)"
proof -
  assume k: "0 < k"
  define q r where "q = y div k" and "r = y mod k"
  have y: "y = q * k + r" and r: "0 \<le> r" "r < k" using k by (simp_all add: q_def r_def)
  show ?thesis
  proof (cases "r = 0")
    case True
    have "(y - 1) div k = q - 1"
      by (rule int_div_pos_eq [of _ _ _ "k - 1"]) (use k y True in \<open>simp_all add: algebra_simps\<close>)
    with True show ?thesis by (simp add: q_def r_def)
  next
    case False
    have "(y - 1) div k = q"
      by (rule int_div_pos_eq [of _ _ _ "r - 1"]) (use k y r False in \<open>simp_all add: algebra_simps\<close>)
    with False show ?thesis by (simp add: q_def r_def)
  qed
qed

lemma mod_dvd: "(y :: int) mod 400 = 0 \<Longrightarrow> y mod 100 = 0" "(y :: int) mod 100 = 0 \<Longrightarrow> y mod 4 = 0"
  by (simp_all add: dvd_eq_mod_eq_0 [symmetric]) (auto elim: dvd_trans [rotated])

lemma year_days: "days_before_year (y + 1) = days_before_year y + (if is_leap y then 366 else 365)"
proof -
  have "days_before_year (y + 1) = y * 365 + y div 4 - y div 100 + y div 400"
    by (simp add: days_before_year_def)
  also have "\<dots> = days_before_year y + 365 + (if y mod 4 = 0 then 1 else 0) - (if y mod 100 = 0 then 1 else 0)
      + (if y mod 400 = 0 then 1 else 0)"
    by (simp only: days_before_year_def Let_def div_pred [of 4 y, OF zero_less_numeral]
        div_pred [of 100 y, OF zero_less_numeral] div_pred [of 400 y, OF zero_less_numeral]) (simp only: algebra_simps)
  also have "\<dots> = days_before_year y + (if is_leap y then 366 else 365)"
  proof -
    define a b c where abc: "a = (y mod 4 = 0)" "b = (y mod 100 = 0)" "c = (y mod 400 = 0)"
    have "c \<longrightarrow> b" "b \<longrightarrow> a" unfolding abc using mod_dvd [of y] by blast+
    then show ?thesis unfolding is_leap_def abc [symmetric] by (cases a; cases b; cases c) simp_all
  qed
  finally show ?thesis .
qed

lemma dbm_year: "days_before_month y 13 = (if is_leap y then 366 else 365)"
proof -
  have "[1..13 - 1] = [1, 2, 3, 4, 5, 6, 7, 8, 9, 10, 11, 12 :: int]" by (simp add: upto.simps)
  then show ?thesis by (simp add: days_before_month_def days_in_month_def)
qed

lemma dby_mono: "y \<le> z \<Longrightarrow> days_before_year y \<le> days_before_year z"
  by (induction rule: int_ge_induct) (auto simp: year_days split: if_splits)

lemma day_in_year:
  assumes "valid_datetime t"
  shows "0 < days_before_month (dt_year t) (dt_month t) + dt_day t"
    "days_before_month (dt_year t) (dt_month t) + dt_day t \<le> days_before_month (dt_year t) (dt_month t + 1)"
    "days_before_month (dt_year t) (dt_month t + 1) \<le> days_before_month (dt_year t) 13"
proof -
  have v: "1 \<le> dt_month t" "dt_month t \<le> 12" "1 \<le> dt_day t" "dt_day t \<le> days_in_month (dt_year t) (dt_month t)"
    using assms by (simp_all add: valid_datetime_def)
  have "0 = days_before_month (dt_year t) 1" by (simp add: days_before_month_def)
  also have "\<dots> \<le> days_before_month (dt_year t) (dt_month t)" using v by (intro dbm_mono) simp_all
  finally show "0 < days_before_month (dt_year t) (dt_month t) + dt_day t" using v by simp
  show "days_before_month (dt_year t) (dt_month t) + dt_day t \<le> days_before_month (dt_year t) (dt_month t + 1)"
    using v by (simp add: dbm_next)
  show "days_before_month (dt_year t) (dt_month t + 1) \<le> days_before_month (dt_year t) 13"
    using v by (intro dbm_mono) simp_all
qed

lemma ordinal_mono:
  assumes "valid_datetime a" "valid_datetime b"
    and "(dt_year a, dt_month a, dt_day a) < (dt_year b, dt_month b, dt_day b)"
  shows "ordinal a < ordinal b"
proof -
  note A = day_in_year [OF assms(1)] and B = day_in_year [OF assms(2)]
  from assms(3) [unfolded pair_less] consider "dt_year a < dt_year b"
    | "dt_year a = dt_year b" "dt_month a < dt_month b"
    | "dt_year a = dt_year b" "dt_month a = dt_month b" "dt_day a < dt_day b" by blast
  then show ?thesis
  proof cases
    case 1
    then have "days_before_year (dt_year a + 1) \<le> days_before_year (dt_year b)" by (intro dby_mono) simp
    with A B show ?thesis by (simp add: ordinal_def ymd2ord_def year_days dbm_year split: if_splits)
  next
    case 2
    have "1 \<le> dt_month a" using assms(1) by (simp add: valid_datetime_def)
    with 2 have "days_before_month (dt_year b) (dt_month a + 1) \<le> days_before_month (dt_year b) (dt_month b)"
      by (intro dbm_mono) simp_all
    moreover have "1 \<le> dt_day b" using assms(2) by (simp add: valid_datetime_def)
    ultimately show ?thesis using A(2) 2 by (simp add: ordinal_def ymd2ord_def)
  qed (simp add: ordinal_def ymd2ord_def)
qed

lemma fields_mono:
  assumes "valid_datetime a" "valid_datetime b" "fields_of a < fields_of b"
  shows "seconds_of a < seconds_of b"
proof -
  have v: "0 \<le> dt_hour t \<and> dt_hour t \<le> 23 \<and> 0 \<le> dt_minute t \<and> dt_minute t \<le> 59 \<and> 0 \<le> dt_second t \<and> dt_second t \<le> 59"
    if "valid_datetime t" for t using that by (simp add: valid_datetime_def)
  from assms(3) consider "(dt_year a, dt_month a, dt_day a) < (dt_year b, dt_month b, dt_day b)"
    | "ordinal a = ordinal b" "(dt_hour a, dt_minute a, dt_second a) < (dt_hour b, dt_minute b, dt_second b)"
    unfolding fields_of_def ordinal_def pair_less by metis
  then show ?thesis
  proof cases
    case 1
    from ordinal_mono [OF assms(1,2) this] v [OF assms(1)] v [OF assms(2)] show ?thesis by (simp add: seconds_of_def)
  next
    case 2
    with v [OF assms(1)] v [OF assms(2)] show ?thesis unfolding pair_less seconds_of_def by linarith
  qed
qed

theorem stamp_less_iff:
  assumes "valid_datetime a" "valid_datetime b"
  shows "stamp a < stamp b \<longleftrightarrow> seconds_of a < seconds_of b"
proof -
  have "fields_of a = fields_of b \<Longrightarrow> seconds_of a = seconds_of b"
    by (simp add: fields_of_def seconds_of_def ordinal_def)
  then have "fields_of a < fields_of b \<longleftrightarrow> seconds_of a < seconds_of b"
    using fields_mono [OF assms] fields_mono [OF assms(2,1)] by (cases "fields_of a" "fields_of b" rule: linorder_cases) auto
  then show ?thesis by (simp add: stamp_less_fields [OF assms])
qed

end
