(* ===== verification/Shell.thy ===== *)
theory Shell
  imports PyVal
begin

text \<open>
  Shell scripts that the program sends. A script is written as its list of lines; since quotes and
  backslashes cannot stand in a string literal here, each script names three characters it does not use
  to stand for the double quote, the single quote and the backslash.
\<close>

definition script_char :: "string \<Rightarrow> char \<Rightarrow> char" where
  "script_char subst c =
     (case subst of [d, s, b] \<Rightarrow> if c = d then CHR 0x22 else if c = s then CHR 0x27 else if c = b then CHR 0x5C else c
      | _ \<Rightarrow> c)"

definition script_text :: "string \<Rightarrow> string list \<Rightarrow> string" where
  "script_text subst ls = map (script_char subst) (join [newline] ls)"

text \<open>A script fed to a shell through a here-document with a quoted delimiter.\<close>

definition heredoc :: "string \<Rightarrow> string \<Rightarrow> string" where
  "heredoc mark script = ''bash -s <<'' @ sq @ mark @ sq @ [newline] @ script @ [newline] @ mark"

end
