(* ===== verification/PyScan.thy ===== *)
theory PyScan
  imports PyRegex
begin

text \<open>
  The functions of \<open>re\<close> that go through a whole text: \<open>finditer\<close>, and \<open>sub\<close> with a replacement that
  depends on the match. Both are for patterns that never match the empty string. Further anchors:
  \<open>^\<close> and \<open>$\<close> under \<open>MULTILINE\<close>, and the word boundary.
\<close>

function find_from :: "re \<Rightarrow> string \<Rightarrow> string \<Rightarrow> mstate list" where
  "find_from r b s =
     (case steps r (b, s, []) of
        (b', s', g) # _ \<Rightarrow>
          (if length s' < length s then (b', s', g) # find_from r b' s'
           else (case s of [] \<Rightarrow> [] | c # t \<Rightarrow> find_from r (c # b) t))
      | [] \<Rightarrow> (case s of [] \<Rightarrow> [] | c # t \<Rightarrow> find_from r (c # b) t))"
  by pat_completeness auto
termination
  by (relation "measure (\<lambda>(r, b, s). length s)") auto

function sub_with_from :: "re \<Rightarrow> (mstate \<Rightarrow> string) \<Rightarrow> string \<Rightarrow> string \<Rightarrow> string" where
  "sub_with_from r f b s =
     (case steps r (b, s, []) of
        (b', s', g) # _ \<Rightarrow>
          (if length s' < length s then f (b', s', g) @ sub_with_from r f b' s'
           else (case s of [] \<Rightarrow> [] | c # t \<Rightarrow> c # sub_with_from r f (c # b) t))
      | [] \<Rightarrow> (case s of [] \<Rightarrow> [] | c # t \<Rightarrow> c # sub_with_from r f (c # b) t))"
  by pat_completeness auto
termination
  by (relation "measure (\<lambda>(r, f, b, s). length s)") auto

declare find_from.simps [simp del] sub_with_from.simps [simp del]

definition re_finditer :: "re \<Rightarrow> string \<Rightarrow> mstate list" where
  "re_finditer r s = find_from r [] s"

definition re_sub_with :: "re \<Rightarrow> (mstate \<Rightarrow> string) \<Rightarrow> string \<Rightarrow> string" where
  "re_sub_with r f s = sub_with_from r f [] s"

text \<open>\<open>\w\<close>: letters, digits and the other numeric characters below 256, and the underscore.\<close>

definition word_char :: "char \<Rightarrow> bool" where
  "word_char c = (let n = cc c in is_alnum c \<or> c = CHR ''_'' \<or> n \<in> {170, 178, 179, 181, 185, 186, 188, 189, 190} \<or>
     (192 \<le> n \<and> n \<noteq> 215 \<and> n \<noteq> 247))"

definition line_start :: re where "line_start = NotBehind (\<lambda>c. c \<noteq> newline)"

definition line_end :: re where "line_end = Alt Eol (Ahead (chr newline))"

text \<open>\<open>\b\<close> in front of a word character, and \<open>\b\<close> behind a character that the pattern has consumed.\<close>

definition word_start :: re where "word_start = NotBehind word_char"

definition word_edge :: re where
  "word_edge = Alt (Seq (NotBehind (\<lambda>c. \<not> word_char c)) (Alt Eol (Ahead (Ch (\<lambda>c. \<not> word_char c)))))
     (Seq (NotBehind word_char) (Ahead (Ch word_char)))"

text \<open>A text without a match stays as it is.\<close>

lemma sub_with_none: "(\<And>u v. s = u @ v \<Longrightarrow> steps r (rev u @ b, v, []) = []) \<Longrightarrow> sub_with_from r f b s = s"
proof (induction s arbitrary: b)
  case Nil
  from Nil [of "[]" "[]"] show ?case by (simp add: sub_with_from.simps)
next
  case (Cons c s)
  from Cons.prems [of "[]" "c # s"] have n: "steps r (b, c # s, []) = []" by simp
  have "sub_with_from r f (c # b) s = s" using Cons.prems [of "c # u" v for u v] by (intro Cons.IH) simp
  then show ?case by (subst sub_with_from.simps) (simp add: n)
qed

lemma re_sub_with_none: "(\<And>u v. s = u @ v \<Longrightarrow> steps r (rev u, v, []) = []) \<Longrightarrow> re_sub_with r f s = s"
  unfolding re_sub_with_def by (rule sub_with_none) simp

lemma sub_with_hit:
  "steps r (b, s, []) = (b', s', g) # ms \<Longrightarrow> length s' < length s \<Longrightarrow>
   sub_with_from r f b s = f (b', s', g) @ sub_with_from r f b' s'"
  by (subst sub_with_from.simps) simp

lemma sub_with_skip: "steps r (b, c # s, []) = [] \<Longrightarrow> sub_with_from r f b (c # s) = c # sub_with_from r f (c # b) s"
  by (subst sub_with_from.simps) simp

section \<open>Parts that match in one way\<close>

lemma steps_seq1: "steps r1 st = [st1] \<Longrightarrow> steps (Seq r1 r2) st = steps r2 st1"
  by simp

lemma steps_times_iff:
  "steps (times n (Ch P)) (b, s, g) = (if n \<le> length s \<and> list_all P (take n s) then [(rev (take n s) @ b, drop n s, g)] else [])"
proof (induction n arbitrary: b s)
  case (Suc n)
  then show ?case by (cases s) auto
qed simp

lemma steps_lit_app: "steps (lit w) (b, w @ s, g) = [(rev w @ b, s, g)]"
  by (simp add: steps_lit)

lemma steps_lit_ne: "steps (lit w) (b, s, g) \<noteq> [] \<Longrightarrow> \<exists>t. s = w @ t"
  unfolding steps_lit using starts_withD by (auto split: if_splits)

lemma steps_chr: "steps (chr c) (b, s, g) = (case s of [] \<Rightarrow> [] | d # t \<Rightarrow> if d = c then [(d # b, t, g)] else [])"
  by (cases s) (simp_all add: chr_def)

text \<open>Patterns whose first part matches in one way.\<close>

lemma seq_ne:
  "steps (Seq Bol r2) ([], s, g) = steps r2 ([], s, g)"
  "steps (Seq (times n (Ch P)) r2) (b, s, g) \<noteq> [] \<longleftrightarrow>
     n \<le> length s \<and> list_all P (take n s) \<and> steps r2 (rev (take n s) @ b, drop n s, g) \<noteq> []"
  "steps (Seq (chr c) r2) (b, s, g) \<noteq> [] \<longleftrightarrow> (\<exists>t. s = c # t \<and> steps r2 (c # b, t, g) \<noteq> [])"
  "steps (Seq (lit w) r2) (b, s, g) \<noteq> [] \<longleftrightarrow> (\<exists>t. s = w @ t \<and> steps r2 (rev w @ b, t, g) \<noteq> [])"
proof -
  show "steps (Seq Bol r2) ([], s, g) = steps r2 ([], s, g)" by simp
  show "steps (Seq (times n (Ch P)) r2) (b, s, g) \<noteq> [] \<longleftrightarrow>
     n \<le> length s \<and> list_all P (take n s) \<and> steps r2 (rev (take n s) @ b, drop n s, g) \<noteq> []"
    unfolding steps.simps(3) steps_times_iff by (auto split: if_splits)
  show "steps (Seq (chr c) r2) (b, s, g) \<noteq> [] \<longleftrightarrow> (\<exists>t. s = c # t \<and> steps r2 (c # b, t, g) \<noteq> [])"
    unfolding steps.simps(3) steps_chr by (cases s) auto
  show "steps (Seq (lit w) r2) (b, s, g) \<noteq> [] \<longleftrightarrow> (\<exists>t. s = w @ t \<and> steps r2 (rev w @ b, t, g) \<noteq> [])"
    unfolding steps.simps(3) steps_lit using starts_withD [of w s] by auto
qed

end
