(* ===== verification/HostBackup.thy ===== *)
theory HostBackup
  imports Monitor Calendar Shell SnapTags PyScan
begin

text \<open>
  \<open>app/hostbackup.py\<close>: backups of a host's configuration. The stored files are a dictionary from
  directory to its entries; what the host answers and whether the transfer succeeds are parameters. The
  scheduler's variables are a record, one pass of it is a function, and a run is a list of passes.
  Schedules are as \<open>set_schedule\<close> writes them. The measured durations serve the log only. A quotation mark outside
  Latin-1 in a message is an ASCII one.
\<close>

section \<open>Names\<close>

definition FILE_RE :: re where
  "FILE_RE = seqs [Bol, lit ''pve-backup-'', times 8 (Ch is_digit), chr CHR ''-'', times 6 (Ch is_digit),
     opt (lit ''-withpriv''), lit ''.tar.gz'', Eol]"

definition FILE_TS_RE :: re where
  "FILE_TS_RE = seqs [Bol, lit ''pve-backup-'', Grp 1 (times 8 (Ch is_digit)), chr CHR ''-'', Grp 2 (times 6 (Ch is_digit))]"

definition INTERVAL_SECONDS :: "(string, int) dict" where
  "INTERVAL_SECONDS = [(''daily'', 86400), (''weekly'', 604800), (''monthly'', 2592000)]"

definition RETRY_THROTTLE_SEC :: int where "RETRY_THROTTLE_SEC = 1800"

definition safe_addr :: "string \<Rightarrow> string" where
  "safe_addr address = map (\<lambda>c. if is_alnum c \<or> c \<in> set ''._-'' then c else CHR ''_'')
     (if address = [] then ''unknown'' else address)"

definition BACKUP_DIR :: string where "BACKUP_DIR = ''/app/data/host_backups''"

definition host_backup_dir :: "string \<Rightarrow> string" where
  "host_backup_dir address = BACKUP_DIR @ ''/'' @ safe_addr address"

definition is_valid_backup_name :: "string \<Rightarrow> bool" where
  "is_valid_backup_name name = (name \<noteq> [] \<and> CHR ''/'' \<notin> set name \<and> \<not> contains_str ''..'' name \<and> re_test FILE_RE name)"

definition select_prunable :: "string list \<Rightarrow> int \<Rightarrow> string list" where
  "select_prunable filenames keep =
     (let valid = sort (filter is_valid_backup_name filenames)
      in if keep \<le> 0 then valid
         else if int (length valid) \<le> keep then []
         else take (length valid - nat keep) valid)"

section \<open>The script\<close>

text \<open>\<open>~\<close> is a double quote, \<open>!\<close> a single quote, \<open>@\<close> a backslash.\<close>

definition backup_text :: "string list \<Rightarrow> string" where
  "backup_text ls = script_text ''~!@'' ls"

definition BACKUP_SCRIPT_BODY :: "string list" where
  "BACKUP_SCRIPT_BODY = [
      ''STAGE=$(mktemp -d)'',
      ''mkdir -p ~$STAGE/etc~ ~$STAGE/cmd~'',
      [],
      ''# /etc/pve cluster filesystem (with or without priv secrets)'',
      ''if [ -d /etc/pve ]; then'',
      ''  mkdir -p ~$STAGE/etc/pve~'',
      ''  if [ ~$INCLUDE_PRIV~ = ~1~ ]; then'',
      ''    tar -C /etc/pve -cf - . 2>/dev/null | tar -C ~$STAGE/etc/pve~ -xf - 2>/dev/null || true'',
      ''  else'',
      ''    tar -C /etc/pve --exclude=priv --exclude=./priv -cf - . 2>/dev/null | tar -C ~$STAGE/etc/pve~ -xf - 2>/dev/null || true'',
      ''  fi'',
      ''fi'',
      [],
      ''# APT repositories + signing keys (public) so a restore brings the package'',
      ''# sources back. auth.conf* may hold repo passwords -> deliberately excluded.'',
      ''if [ -d /etc/apt ]; then'',
      ''  mkdir -p ~$STAGE/etc/apt~'',
      ''  tar -C /etc/apt --exclude=auth.conf --exclude=./auth.conf       --exclude=auth.conf.d --exclude=./auth.conf.d       -cf - . 2>/dev/null | tar -C ~$STAGE/etc/apt~ -xf - 2>/dev/null || true'',
      ''fi'',
      [],
      ''# Third-party APT signing keys living OUTSIDE /etc/apt: the modern deb822'',
      ''# convention puts keyrings under /usr/share/keyrings (bashclub does, and any'',
      ''# future tool following the Debian pattern will too). Without them the'',
      ''# restored .sources entries fail signature verification (NO_PUBKEY) and apt'',
      ''# ignores the repo -- which then aborts the whole package reinstall.'',
      ''# Public keys only, so capturing them all is safe.'',
      ''for f in /usr/share/keyrings/*.gpg /usr/share/keyrings/*.asc; do'',
      ''  [ -e ~$f~ ] && cp -a --parents ~$f~ ~$STAGE~ 2>/dev/null || true'',
      ''done'',
      [],
      ''# ZFS-tool-relevant ancillary configs so all tool features survive a restore:'',
      ''# zfs-auto-snapshot retention (its cron files ARE the policy), the bashclub-zsync'',
      ''# replication config + cron, and the ARC limit.'',
      ''[ -d /etc/cron.d ] && cp -a --parents /etc/cron.d ~$STAGE~ 2>/dev/null || true'',
      ''for f in /etc/cron.hourly/zfs-auto-snapshot /etc/cron.daily/zfs-auto-snapshot          /etc/cron.weekly/zfs-auto-snapshot /etc/cron.monthly/zfs-auto-snapshot          /etc/fstab /etc/vzdump.conf; do'',
      ''  [ -e ~$f~ ] && cp -a --parents ~$f~ ~$STAGE~ 2>/dev/null || true'',
      ''done'',
      ''[ -d /etc/bashclub ] && cp -a --parents /etc/bashclub ~$STAGE~ 2>/dev/null || true'',
      ''# Whole modprobe.d, not just zfs.conf: other module options (e.g. kvm,'',
      ''# vfio-pci for passthrough) are just as load-bearing after a rebuild.'',
      ''[ -d /etc/modprobe.d ] && cp -a --parents /etc/modprobe.d ~$STAGE~ 2>/dev/null || true'',
      [],
      ''# sshd CONFIG only -- a fresh install listens on the default port with default'',
      ''# settings, so a custom Port/PermitRootLogin/AllowUsers would silently not come'',
      ''# back and this tool (which connects over SSH) could not reach the host.'',
      ''# Host PRIVATE keys are deliberately NOT captured (secret sprawl; the DR'',
      ''# ~refresh host key~ option handles a reinstalled host instead).'',
      ''for f in /etc/ssh/sshd_config; do'',
      ''  [ -e ~$f~ ] && cp -a --parents ~$f~ ~$STAGE~ 2>/dev/null || true'',
      ''done'',
      ''[ -d /etc/ssh/sshd_config.d ] && cp -a --parents /etc/ssh/sshd_config.d ~$STAGE~ 2>/dev/null || true'',
      [],
      ''# Custom systemd units/timers, kernel tuning, timezone -- host behaviour that a'',
      ''# fresh install does not reproduce. (Symlinks that encode the enabled state are'',
      ''# archived but not restored, so re-enable units manually after a restore.)'',
      ''[ -d /etc/systemd/system ] && cp -a --parents /etc/systemd/system ~$STAGE~ 2>/dev/null || true'',
      ''[ -d /etc/sysctl.d ] && cp -a --parents /etc/sysctl.d ~$STAGE~ 2>/dev/null || true'',
      ''for f in /etc/sysctl.conf /etc/timezone; do'',
      ''  [ -e ~$f~ ] && cp -a --parents ~$f~ ~$STAGE~ 2>/dev/null || true'',
      ''done'',
      [],
      ''# Mail relay for PVE!s own notification mails, and host-served file shares.'',
      ''# Secrets are excluded on purpose: postfix sasl_passwd* holds the SMTP relay'',
      ''# password in cleartext, and samba!s *.tdb hold account secrets.'',
      ''if [ -d /etc/postfix ]; then'',
      ''  mkdir -p ~$STAGE/etc/postfix~'',
      ''  tar -C /etc/postfix --exclude=!sasl_passwd*! --exclude=!./sasl_passwd*!       -cf - . 2>/dev/null | tar -C ~$STAGE/etc/postfix~ -xf - 2>/dev/null || true'',
      ''fi'',
      ''if [ -d /etc/samba ]; then'',
      ''  mkdir -p ~$STAGE/etc/samba~'',
      ''  tar -C /etc/samba --exclude=!*.tdb! --exclude=!./*.tdb!       -cf - . 2>/dev/null | tar -C ~$STAGE/etc/samba~ -xf - 2>/dev/null || true'',
      ''fi'',
      ''for f in /etc/aliases /etc/exports; do'',
      ''  [ -e ~$f~ ] && cp -a --parents ~$f~ ~$STAGE~ 2>/dev/null || true'',
      ''done'',
      [],
      ''# Network + base config files'',
      ''for f in /etc/network/interfaces /etc/hosts /etc/resolv.conf /etc/hostname; do'',
      ''  [ -e ~$f~ ] && cp -a --parents ~$f~ ~$STAGE~ 2>/dev/null || true'',
      ''done'',
      ''[ -d /etc/network/interfaces.d ] && cp -a --parents /etc/network/interfaces.d ~$STAGE~ 2>/dev/null || true'',
      [],
      ''# Root!s authorized_keys (PUBLIC keys only) -- lets a restore bring back all'',
      ''# trusted SSH access at once (incl. this tool!s key) so a rebuilt host is'',
      ''# reachable again. `cat` dereferences the cluster symlink to priv/authorized_keys'',
      ''# so the content lands as a plain file. Private keys are deliberately NOT captured.'',
      ''if [ -e /root/.ssh/authorized_keys ]; then'',
      ''  mkdir -p ~$STAGE/root/.ssh~'',
      ''  cat /root/.ssh/authorized_keys > ~$STAGE/root/.ssh/authorized_keys~ 2>/dev/null || true'',
      ''fi'',
      [],
      ''# NIC naming artifacts -- a major upgrade can rename interfaces (the classic'',
      ''# ~host offline after PVE upgrade~ pitfall); persistent-name rules plus the'',
      ''# MAC/driver/path identity captured below let you reconstruct the mapping.'',
      ''for f in /etc/udev/rules.d/*net*.rules /etc/systemd/network/*.link /lib/systemd/network/*.link; do'',
      ''  [ -e ~$f~ ] && cp -a --parents ~$f~ ~$STAGE~ 2>/dev/null || true'',
      ''done'',
      [],
      ''# Command captures (best-effort)'',
      ''pveversion -v          > ~$STAGE/cmd/pveversion.txt~        2>&1 || true'',
      ''dpkg --get-selections  > ~$STAGE/cmd/dpkg-selections.txt~   2>&1 || true'',
      ''# Manually-installed package set -- a restore reinstalls THESE via apt-get'',
      ''# install and lets apt pull the dependencies, so autoremove tracking stays'',
      ''# clean (vs. marking every dependency as manual).'',
      ''apt-mark showmanual    > ~$STAGE/cmd/apt-manual.txt~       2>/dev/null || true'',
      ''ip -d address show     > ~$STAGE/cmd/ip-address.txt~        2>&1 || true'',
      ''ip route show          > ~$STAGE/cmd/ip-route.txt~          2>&1 || true'',
      ''zpool status           > ~$STAGE/cmd/zpool-status.txt~      2>&1 || true'',
      ''zpool list             > ~$STAGE/cmd/zpool-list.txt~        2>&1 || true'',
      ''zfs list -o name,used,avail,refer,mountpoint > ~$STAGE/cmd/zfs-list.txt~ 2>&1 || true'',
      ''# Pool + dataset properties (with source), so a restore can re-apply the'',
      ''# locally-set ones (autotrim/autoexpand, compression, com.sun:auto-snapshot'',
      ''# labels, quotas, inheritance points). zfs send -R carries dataset props for'',
      ''# replicated datasets, but NOT pool props and not non-replicated datasets.'',
      ''zpool get -H -o name,property,value,source all 2>/dev/null > ~$STAGE/cmd/zpool-properties.txt~ || true'',
      ''zfs get -H -o name,property,value,source -t filesystem,volume all 2>/dev/null > ~$STAGE/cmd/zfs-properties.txt~ || true'',
      ''pvecm status           > ~$STAGE/cmd/pvecm-status.txt~      2>&1 || true'',
      ''ls -l /sys/class/net/  > ~$STAGE/cmd/net-devices.txt~       2>&1 || true'',
      ''for n in /sys/class/net/*; do'',
      ''  dev=$(basename ~$n~); [ ~$dev~ = ~lo~ ] && continue'',
      ''  echo ~=== $dev ===~'',
      ''  echo ~mac=$(cat ~$n/address~ 2>/dev/null)~'',
      ''  ethtool -i ~$dev~ 2>/dev/null || true'',
      ''  udevadm info -q property ~$n~ 2>/dev/null | grep -E ~^(ID_NET_NAME|ID_PATH|ID_MODEL|ID_VENDOR|INTERFACE)~ || true'',
      ''done > ~$STAGE/cmd/nic-identity.txt~ 2>&1 || true'',
      ''{ echo ~host=$(hostname -f 2>/dev/null || hostname)~; echo ~date=$(date -Is)~; echo ~include_priv=$INCLUDE_PRIV~; } > ~$STAGE/cmd/_meta.txt~ 2>&1 || true'',
      []]"

definition build_backup_script :: "bool \<Rightarrow> string \<Rightarrow> string" where
  "build_backup_script include_priv dest =
     (let priv_flag = (if include_priv then ''1'' else ''0''); qdest = shell_quote dest
      in backup_text [''set -e'', ''INCLUDE_PRIV=''] @ priv_flag @ [newline]
         @ backup_text (BACKUP_SCRIPT_BODY @ [''tar -C ~$STAGE~ -czf '']) @ qdest
         @ backup_text ['' . 2>/dev/null'', ''rm -rf ~$STAGE~'', ''echo ~__SIZE__=$(stat -c %s ''] @ qdest
         @ backup_text ['' 2>/dev/null || echo 0)~'', ''echo ~__OK__~''])"

section \<open>Creating, listing, deleting\<close>

record stored =
  sf_bytes :: int
  sf_mtime :: int

type_synonym backup_store = "(string, (string, stored) dict) dict"

definition listdir :: "backup_store \<Rightarrow> string \<Rightarrow> (string, stored) dict" where
  "listdir s d = dget_or [] s d"

record fetch_result =
  fr_success :: bool
  fr_bytes :: int
  fr_error :: string

record create_result =
  ct_success :: bool
  ct_filename :: "string option"
  ct_bytes :: int
  ct_include_priv :: bool
  ct_error :: string

definition backup_filename :: "datetime \<Rightarrow> bool \<Rightarrow> string" where
  "backup_filename ts include_priv =
     ''pve-backup-'' @ stamp ts @ (if include_priv then ''-withpriv'' else []) @ ''.tar.gz''"

definition create_failed :: "bool \<Rightarrow> string \<Rightarrow> create_result" where
  "create_failed include_priv err = \<lparr>ct_success = False, ct_filename = None, ct_bytes = 0,
     ct_include_priv = include_priv, ct_error = err\<rparr>"

definition build_error :: "cmd_result \<Rightarrow> string" where
  "build_error r = ''archive build failed on host: '' @ take 300 (strip
     (if cr_stderr r \<noteq> [] then cr_stderr r else if cr_stdout r \<noteq> [] then cr_stdout r else ''unknown''))"

text \<open>What the outside answers: the shell, the transfer of a remote file, the modification time the new
  file gets.\<close>

record outside =
  os_run :: "host \<Rightarrow> string \<Rightarrow> cmd_result"
  os_fetch :: "host \<Rightarrow> string \<Rightarrow> fetch_result"
  os_mtime :: int

definition create_backup :: "outside \<Rightarrow> datetime \<Rightarrow> host \<Rightarrow> bool \<Rightarrow> backup_store \<Rightarrow> create_result \<times> backup_store" where
  "create_backup os ts h include_priv s =
     (let filename = backup_filename ts include_priv; remote_tmp = ''/tmp/'' @ filename;
          dir = host_backup_dir (ho_address h); s1 = dmodify dir [] (\<lambda>d. d) s;
          r = os_run os h (heredoc ''__EOF__'' (build_backup_script include_priv remote_tmp))
      in if \<not> contains_str ''__OK__'' (cr_stdout r) then (create_failed include_priv (build_error r), s1)
         else let fr = os_fetch os h remote_tmp
              in if \<not> fr_success fr
                 then (create_failed include_priv (''SFTP fetch failed: '' @ take 300 (fr_error fr)),
                       dmodify dir [] (dpop filename) s1)
                 else (\<lparr>ct_success = True, ct_filename = Some filename, ct_bytes = fr_bytes fr,
                         ct_include_priv = include_priv, ct_error = []\<rparr>,
                       dmodify dir [] (dset filename \<lparr>sf_bytes = fr_bytes fr, sf_mtime = os_mtime os\<rparr>) s1))"

record backup_item =
  bi_filename :: string
  bi_bytes :: int
  bi_created_ts :: int
  bi_include_priv :: bool

definition ends_with :: "string \<Rightarrow> string \<Rightarrow> bool" where
  "ends_with p s = starts_with (rev p) (rev s)"

definition item_of :: "string \<times> stored \<Rightarrow> backup_item" where
  "item_of e = \<lparr>bi_filename = fst e, bi_bytes = sf_bytes (snd e), bi_created_ts = sf_mtime (snd e),
     bi_include_priv = ends_with ''-withpriv.tar.gz'' (fst e)\<rparr>"

text \<open>\<open>sort(key=.., reverse=True)\<close> keeps the order of equal keys.\<close>

definition sort_desc :: "('a \<Rightarrow> string) \<Rightarrow> 'a list \<Rightarrow> 'a list" where
  "sort_desc f xs = rev (sort_key f (rev xs))"

definition list_backups :: "backup_store \<Rightarrow> host \<Rightarrow> backup_item list" where
  "list_backups s h = sort_desc bi_filename
     (map item_of (filter (\<lambda>e. is_valid_backup_name (fst e)) (listdir s (host_backup_dir (ho_address h)))))"

definition list_all_backups :: "backup_store \<Rightarrow> host list \<Rightarrow> (backup_item \<times> string \<times> string) list" where
  "list_all_backups s hosts = sort_desc (\<lambda>x. bi_filename (fst x))
     (concat (map (\<lambda>h. map (\<lambda>b. (b, ho_address h, if ho_name h \<noteq> [] then ho_name h else ho_address h)) (list_backups s h)) hosts))"

definition stored_at :: "backup_store \<Rightarrow> host \<Rightarrow> string \<Rightarrow> bool" where
  "stored_at s h filename = dhas (listdir s (host_backup_dir (ho_address h))) filename"

definition delete_backup :: "host \<Rightarrow> string \<Rightarrow> backup_store \<Rightarrow> (string + unit) \<times> backup_store" where
  "delete_backup h filename s =
     (if \<not> is_valid_backup_name filename then (Inl ''invalid filename'', s)
      else if \<not> stored_at s h filename then (Inl ''not found'', s)
      else (Inr (), dmodify (host_backup_dir (ho_address h)) [] (dpop filename) s))"

definition backup_path :: "backup_store \<Rightarrow> host \<Rightarrow> string \<Rightarrow> string option" where
  "backup_path s h filename =
     (if is_valid_backup_name filename \<and> stored_at s h filename
      then Some (host_backup_dir (ho_address h) @ ''/'' @ filename) else None)"

definition prune_backups :: "host \<Rightarrow> int \<Rightarrow> backup_store \<Rightarrow> nat \<times> backup_store" where
  "prune_backups h keep s =
     (let dir = host_backup_dir (ho_address h);
          gone = select_prunable (dkeys (listdir s dir)) keep
      in (length gone, if dhas s dir then dmodify dir [] (fold dpop gone) s else s))"

section \<open>Schedules\<close>

record schedule =
  sc_enabled :: bool
  sc_interval :: string
  sc_hour :: int
  sc_weekday :: int
  sc_keep :: int
  sc_priv :: bool

definition default_schedule :: schedule where
  "default_schedule = \<lparr>sc_enabled = False, sc_interval = ''weekly'', sc_hour = 3, sc_weekday = 0, sc_keep = 8, sc_priv = False\<rparr>"

type_synonym schedules = "(string, schedule) dict"

definition get_schedule :: "schedules \<Rightarrow> string \<Rightarrow> schedule" where
  "get_schedule cfg address = dget_or default_schedule cfg address"

text \<open>A request, decoded; a member that is not a number where one is needed raises.\<close>

definition int_member :: "(string, pyval) dict \<Rightarrow> string \<Rightarrow> int \<Rightarrow> int option" where
  "int_member d k dflt = (case dget d k of
     None \<Rightarrow> Some dflt | Some (VInt i) \<Rightarrow> Some i | Some (VBool b) \<Rightarrow> Some (if b then 1 else 0)
   | Some (VStr s) \<Rightarrow> py_int s | _ \<Rightarrow> None)"

definition set_schedule :: "string \<Rightarrow> (string, pyval) dict \<Rightarrow> schedules \<Rightarrow> (schedule \<times> schedules) option" where
  "set_schedule address sched cfg =
     (case (int_member sched ''hour'' 3, int_member sched ''weekday'' 0, int_member sched ''keep'' 8) of
        (Some hour, Some wd, Some keep) \<Rightarrow>
          let s = \<lparr>sc_enabled = truthy (vget sched ''enabled''),
                   sc_interval = (case dget sched ''interval'' of Some (VStr i) \<Rightarrow> i | _ \<Rightarrow> ''weekly''),
                   sc_hour = hour, sc_weekday = wd, sc_keep = max 0 keep, sc_priv = truthy (vget sched ''include_priv'')\<rparr>
          in Some (s, dset address s cfg)
      | _ \<Rightarrow> None)"

definition backup_filename_dt :: "string \<Rightarrow> datetime option" where
  "backup_filename_dt filename =
     (case re_match FILE_TS_RE filename of None \<Rightarrow> None | Some m \<Rightarrow> from_stamp (group_str 1 m) (group_str 2 m))"

definition same_period :: "datetime \<Rightarrow> datetime \<Rightarrow> string \<Rightarrow> bool" where
  "same_period dt now interval =
     (if interval = ''weekly'' then iso_week dt = iso_week now
      else if interval = ''monthly'' then (dt_year dt, dt_month dt) = (dt_year now, dt_month now)
      else (dt_year dt, dt_month dt, dt_day dt) = (dt_year now, dt_month now, dt_day now))"

text \<open>One and a half times the interval, compared after doubling.\<close>

definition backup_due :: "datetime option \<Rightarrow> datetime \<Rightarrow> schedule \<Rightarrow> bool" where
  "backup_due newest now sched =
     (let interval = sc_interval sched
      in if (case newest of None \<Rightarrow> False | Some dt \<Rightarrow> same_period dt now interval) then False
         else
           let on_day = (if interval = ''weekly'' then weekday now \<ge> sc_weekday sched else True);
               preferred = (on_day \<and> dt_hour now \<ge> sc_hour sched);
               overdue = (case newest of None \<Rightarrow> True
                 | Some dt \<Rightarrow> 2 * (seconds_of now - seconds_of dt) > 3 * dget_or 86400 INTERVAL_SECONDS interval)
           in preferred \<or> overdue)"

definition newest_backup_dt :: "backup_store \<Rightarrow> host \<Rightarrow> datetime option" where
  "newest_backup_dt s h =
     (case List.map_filter (\<lambda>b. backup_filename_dt (bi_filename b)) (list_backups s h) of [] \<Rightarrow> None | dt # _ \<Rightarrow> Some dt)"

section \<open>The scheduler\<close>

record scheduler =
  sd_store :: backup_store
  sd_attempt :: "(string, int) dict"
  sd_failing :: "(string, int) dict"
  sd_logged :: "string list"
  sd_sent :: "notification list"

definition backup_host_name :: "host \<Rightarrow> string" where
  "backup_host_name h = (if ho_name h \<noteq> [] then ho_name h else ho_address h)"

definition failure_notice :: "host \<Rightarrow> string \<Rightarrow> notification" where
  "failure_notice h err = notif ''host_backup_failed'' (''Host-Backup fehlgeschlagen: '' @ backup_host_name h)
     (''Host: '' @ ho_address h @ [newline] @ ''Fehler: '' @ take 500 err @ [newline, newline]
      @ ''Weitere Versuche laufen alle '' @ show_int (RETRY_THROTTLE_SEC div 60) @ '' Minuten ohne weitere Meldung; die n''
      @ [CHR 0xE4] @ ''chste Mail kommt, wenn ein Backup wieder gelingt. Ist der Host absichtlich aus, unter Hosts als ''
      @ [CHR 0x22] @ ''Erwartet offline'' @ [CHR 0x22] @ '' markieren.'') 7 [] [] (ho_address h)"

definition recovery_notice :: "(int \<Rightarrow> string) \<Rightarrow> host \<Rightarrow> int \<Rightarrow> notification" where
  "recovery_notice local_fmt h since = notif ''host_backup_failed'' (''Host-Backup wieder erfolgreich: '' @ backup_host_name h)
     (''Host: '' @ ho_address h @ [newline] @ ''Fehlgeschlagen seit: '' @ local_fmt since) 3 [] [] (ho_address h)"

definition record_failure :: "int \<Rightarrow> host \<Rightarrow> string \<Rightarrow> scheduler \<Rightarrow> scheduler" where
  "record_failure epoch h err st =
     (if dhas (sd_failing st) (ho_address h) then st
      else st\<lparr>sd_failing := dset (ho_address h) epoch (sd_failing st), sd_sent := sd_sent st @ [failure_notice h err]\<rparr>)"

definition record_success :: "(int \<Rightarrow> string) \<Rightarrow> host \<Rightarrow> scheduler \<Rightarrow> scheduler" where
  "record_success local_fmt h st =
     (case dget (sd_failing st) (ho_address h) of
        None \<Rightarrow> st
      | Some since \<Rightarrow> st\<lparr>sd_failing := dpop (ho_address h) (sd_failing st),
                          sd_sent := sd_sent st @ [recovery_notice local_fmt h since]\<rparr>)"

text \<open>What one pass finds: the local time, the epoch, the hosts, the schedules, the outside.\<close>

record tick_input =
  ti_now :: datetime
  ti_epoch :: int
  ti_hosts :: "host list"
  ti_schedules :: schedules
  ti_outside :: outside
  ti_local :: "int \<Rightarrow> string"

definition run_backup :: "tick_input \<Rightarrow> host \<Rightarrow> schedule \<Rightarrow> scheduler \<Rightarrow> scheduler" where
  "run_backup i h sched st =
     (let st1 = st\<lparr>sd_attempt := dset (ho_address h) (ti_epoch i) (sd_attempt st)\<rparr>;
          (res, s1) = create_backup (ti_outside i) (ti_now i) h (sc_priv sched) (sd_store st1)
      in if ct_success res
         then record_success (ti_local i) h (st1\<lparr>sd_store := snd (prune_backups h (sc_keep sched) s1)\<rparr>)
         else record_failure (ti_epoch i) h (ct_error res) (st1\<lparr>sd_store := s1\<rparr>))"

definition attempt_due :: "tick_input \<Rightarrow> host \<Rightarrow> schedule \<Rightarrow> scheduler \<Rightarrow> bool" where
  "attempt_due i h sched st =
     (backup_due (newest_backup_dt (sd_store st) h) (ti_now i) sched \<and>
      \<not> ti_epoch i - dget_or 0 (sd_attempt st) (ho_address h) < RETRY_THROTTLE_SEC)"

definition tick_one :: "tick_input \<Rightarrow> string \<times> schedule \<Rightarrow> scheduler \<Rightarrow> scheduler" where
  "tick_one i entry st =
     (case entry of (address, sched) \<Rightarrow>
        if \<not> sc_enabled sched then st
        else case find (\<lambda>h. ho_address h = address) (rev (ti_hosts i)) of
          None \<Rightarrow> st
        | Some h \<Rightarrow>
            if ho_standby h then st\<lparr>sd_logged := List.insert address (sd_logged st)\<rparr>
            else
              let st1 = st\<lparr>sd_logged := removeAll address (sd_logged st)\<rparr>
              in if attempt_due i h sched st1 then run_backup i h sched st1 else st1)"

definition scheduler_tick :: "tick_input \<Rightarrow> scheduler \<Rightarrow> scheduler" where
  "scheduler_tick i st = fold (tick_one i) (ti_schedules i) st"


section \<open>What a valid name looks like\<close>

definition ts_shape :: "string \<Rightarrow> string \<Rightarrow> string \<Rightarrow> string \<Rightarrow> bool" where
  "ts_shape s d t r = (s = ''pve-backup-'' @ d @ ''-'' @ t @ r \<and> length d = 8 \<and> length t = 6 \<and>
     list_all is_digit d \<and> list_all is_digit t)"

lemma ts_re_match:
  assumes "ts_shape s d t r"
  shows "backup_filename_dt s = from_stamp d t"
proof -
  from assms have s: "s = ''pve-backup-'' @ d @ ''-'' @ t @ r" "length d = 8" "length t = 6" "list_all is_digit d" "list_all is_digit t"
    by (auto simp: ts_shape_def)
  have d: "steps (Grp 1 (times 8 (Ch is_digit))) (b, d @ ''-'' @ t @ r, g) = [(rev d @ b, ''-'' @ t @ r, (1, d) # g)]" for b g
    using s(2,4) by (simp add: steps_times_iff del: append_Cons append_Nil)
  have t: "steps (Grp 2 (times 6 (Ch is_digit))) (b, t @ r, g) = [(rev t @ b, r, (2, t) # g)]" for b g
    using s(3,5) by (simp add: steps_times_iff)
  let ?R = "seqs [Grp 1 (times 8 (Ch is_digit)), chr CHR ''-'', Grp 2 (times 6 (Ch is_digit))]"
  have "steps FILE_TS_RE ([], s, []) = steps ?R (rev ''pve-backup-'', d @ ''-'' @ t @ r, [])"
    unfolding FILE_TS_RE_def s(1) seqs.simps
    by (simp only: steps.simps(3) [of Bol] steps.simps(3) [of "lit w" for w] steps.simps(8) steps_lit_app fst_conv if_True
        list.map concat.simps append_Nil2 simp_thms)
  also have "\<dots> = [(rev t @ CHR ''-'' # rev d @ rev ''pve-backup-'', r, [(2, t), (1, d)])]"
    unfolding seqs.simps steps.simps(3) [of "Grp 1 (times 8 (Ch is_digit))"] d
    by (simp only: list.map concat.simps append_Nil2 steps.simps(3) [of "chr c" for c] steps_chr append_Cons append_Nil
        list.case if_True refl t simp_thms)
  finally show ?thesis by (simp add: backup_filename_dt_def re_match_def group_str_def group_def)
qed


lemma file_re_ne:
  "re_test FILE_RE s \<longleftrightarrow> (\<exists>d t r. ts_shape s d t r \<and>
     steps (seqs [opt (lit ''-withpriv''), lit ''.tar.gz'', Eol]) (rev (''pve-backup-'' @ d @ ''-'' @ t), r, []) \<noteq> [])"
  (is "_ \<longleftrightarrow> (\<exists>d t r. _ \<and> ?E d t r \<noteq> [])")
proof -
  have "re_test FILE_RE s \<longleftrightarrow> (\<exists>u. s = ''pve-backup-'' @ u \<and> 8 \<le> length u \<and> list_all is_digit (take 8 u) \<and>
      (\<exists>v. drop 8 u = CHR ''-'' # v \<and> 6 \<le> length v \<and> list_all is_digit (take 6 v) \<and>
        ?E (take 8 u) (take 6 v) (drop 6 v) \<noteq> []))"
    unfolding re_test_def FILE_RE_def seqs.simps(3) seq_ne by (simp only: rev_append append_assoc rev.simps append_Nil append_Cons)
  also have "\<dots> \<longleftrightarrow> (\<exists>d t r. ts_shape s d t r \<and> ?E d t r \<noteq> [])"
  proof
    assume "\<exists>u. s = ''pve-backup-'' @ u \<and> 8 \<le> length u \<and> list_all is_digit (take 8 u) \<and>
      (\<exists>v. drop 8 u = CHR ''-'' # v \<and> 6 \<le> length v \<and> list_all is_digit (take 6 v) \<and>
        ?E (take 8 u) (take 6 v) (drop 6 v) \<noteq> [])"
    then obtain u v where u: "s = ''pve-backup-'' @ u" "8 \<le> length u" "list_all is_digit (take 8 u)"
      "drop 8 u = CHR ''-'' # v" "6 \<le> length v" "list_all is_digit (take 6 v)" "?E (take 8 u) (take 6 v) (drop 6 v) \<noteq> []" by blast
    have "u = take 8 u @ ''-'' @ take 6 v @ drop 6 v" using u(4) append_take_drop_id [of 8 u] by simp
    with u(1) have "s = ''pve-backup-'' @ take 8 u @ ''-'' @ take 6 v @ drop 6 v" by metis
    then have "ts_shape s (take 8 u) (take 6 v) (drop 6 v)" unfolding ts_shape_def using u(2,3,5,6) by auto
    then show "\<exists>d t r. ts_shape s d t r \<and> ?E d t r \<noteq> []" using u(7) by blast
  next
    assume "\<exists>d t r. ts_shape s d t r \<and> ?E d t r \<noteq> []"
    then obtain d t r where x: "s = ''pve-backup-'' @ d @ ''-'' @ t @ r" "length d = 8" "length t = 6"
      "list_all is_digit d" "list_all is_digit t" "?E d t r \<noteq> []" unfolding ts_shape_def by blast
    then show "\<exists>u. s = ''pve-backup-'' @ u \<and> 8 \<le> length u \<and> list_all is_digit (take 8 u) \<and>
      (\<exists>v. drop 8 u = CHR ''-'' # v \<and> 6 \<le> length v \<and> list_all is_digit (take 6 v) \<and>
        ?E (take 8 u) (take 6 v) (drop 6 v) \<noteq> [])"
      by (intro exI [of _ "d @ ''-'' @ t @ r"]) simp
  qed
  finally show ?thesis .
qed

lemma valid_shape: "is_valid_backup_name s \<Longrightarrow> \<exists>d t r. ts_shape s d t r"
  unfolding is_valid_backup_name_def file_re_ne by blast

lemma filename_shape:
  "valid_datetime ts \<Longrightarrow> ts_shape (backup_filename ts p) (day_digits ts) (time_digits ts) ((if p then ''-withpriv'' else []) @ ''.tar.gz'')"
  by (simp add: ts_shape_def backup_filename_def stamp_def stamp_parts stamp_digits)

lemma filename_dt: "valid_datetime ts \<Longrightarrow> backup_filename_dt (backup_filename ts p) = Some ts"
  using ts_re_match [OF filename_shape] from_stamp_stamp by simp

lemma no_dots: "CHR ''.'' \<notin> set u \<Longrightarrow> contains_str ''..'' (u @ v) = contains_str ''..'' v"
proof (induction u)
  case (Cons c u)
  then show ?case by (auto simp: starts_with_def)
qed simp

lemma filename_valid:
  assumes "valid_datetime ts"
  shows "is_valid_backup_name (backup_filename ts p)"
proof -
  let ?tail = "(if p then ''-withpriv'' else []) @ ''.tar.gz''"
  note sh = filename_shape [OF assms, of p, unfolded ts_shape_def]
  have dig: "c \<noteq> CHR ''/'' \<and> c \<noteq> CHR ''.''" if "is_digit c" for c using that by (auto simp: is_digit_def cc_def)
  have f: "backup_filename ts p = (''pve-backup-'' @ day_digits ts @ ''-'' @ time_digits ts) @ ?tail" using sh by simp
  have "CHR ''/'' \<notin> set (backup_filename ts p)" unfolding f using sh dig by (auto simp: list_all_iff)
  moreover have "\<not> contains_str ''..'' (backup_filename ts p)"
  proof -
    have "CHR ''.'' \<notin> set (''pve-backup-'' @ day_digits ts @ ''-'' @ time_digits ts)" using sh dig by (auto simp: list_all_iff)
    from no_dots [OF this, of ?tail] show ?thesis unfolding f by (simp add: starts_with_def)
  qed
  moreover have "re_test FILE_RE (backup_filename ts p)"
  proof -
    have "steps (seqs [opt (lit ''-withpriv''), lit ''.tar.gz'', Eol]) (b, ?tail, []) \<noteq> []" for b
      unfolding opt_def seqs.simps steps.simps(3) [of "Alt a c" for a c] steps.simps(4)
      by (cases p) (simp_all add: steps_lit starts_with_def del: lit.simps)
    then show ?thesis unfolding file_re_ne using filename_shape [OF assms] by blast
  qed
  moreover have "backup_filename ts p \<noteq> []" by (simp add: backup_filename_def)
  ultimately show ?thesis by (simp add: is_valid_backup_name_def)
qed


section \<open>Pruning\<close>

definition backup_files :: "backup_store \<Rightarrow> host \<Rightarrow> (string, stored) dict" where
  "backup_files s h = listdir s (host_backup_dir (ho_address h))"

definition backup_names :: "backup_store \<Rightarrow> host \<Rightarrow> string list" where
  "backup_names s h = sort (filter is_valid_backup_name (dkeys (backup_files s h)))"

lemma listdir_dmodify [simp]:
  "listdir (dmodify d [] f s) d' = (if d' = d then f (listdir s d) else listdir s d')"
  by (simp add: listdir_def)

lemma select_prunable_take:
  "select_prunable names keep = (let valid = sort (filter is_valid_backup_name names) in take (length valid - nat keep) valid)"
  by (auto simp: select_prunable_def Let_def)

lemma fold_dpop_filter: "fold dpop ks d = filter (\<lambda>e. fst e \<notin> set ks) d"
proof (induction ks arbitrary: d)
  case (Cons k ks)
  have "dpop k d = filter (\<lambda>e. fst e \<noteq> k) d" unfolding dpop_def AList.delete_eq by (rule filter_cong) auto
  then show ?case unfolding fold_simps Cons.IH filter_filter by (simp only: filter_filter) (rule filter_cong; auto)
qed simp

lemma backup_files_prune:
  "backup_files (snd (prune_backups h keep s)) h =
    filter (\<lambda>e. fst e \<notin> set (take (length (backup_names s h) - nat keep) (backup_names s h))) (backup_files s h)"
  by (simp add: prune_backups_def backup_files_def backup_names_def fold_dpop_filter select_prunable_take Let_def listdir_def
      dget_or_def dhas_def dkeys_def split: option.split)

lemma sort_drop: "distinct xs \<Longrightarrow> sorted xs \<Longrightarrow> sort (filter (\<lambda>x. x \<notin> set (take n xs)) ys) = drop n xs"
  if "mset ys = mset xs" for xs ys :: "string list"
proof -
  assume d: "distinct xs" and s: "sorted xs"
  have "mset (filter (\<lambda>x. x \<notin> set (take n xs)) ys) = mset (filter (\<lambda>x. x \<notin> set (take n xs)) xs)"
    using that by (metis mset_filter)
  also have "filter (\<lambda>x. x \<notin> set (take n xs)) xs = drop n xs"
  proof -
    have "set (take n xs) \<inter> set (drop n xs) = {}" using d by (metis append_take_drop_id distinct_append)
    then have "filter (\<lambda>x. x \<notin> set (take n xs)) (drop n xs) = drop n xs" by (intro filter_True) auto
    moreover have "filter (\<lambda>x. x \<notin> set (take n xs)) (take n xs) = []" by (simp add: filter_empty_conv)
    ultimately show ?thesis by (metis append_Nil append_take_drop_id filter_append)
  qed
  finally show "sort (filter (\<lambda>x. x \<notin> set (take n xs)) ys) = drop n xs"
    using s by (metis properties_for_sort sorted_wrt_drop)
qed

lemma sort_names_drop:
  assumes "distinct names"
  shows "sort (filter is_valid_backup_name (filter (\<lambda>x. x \<notin> set (take n (sort (filter is_valid_backup_name names)))) names))
    = drop n (sort (filter is_valid_backup_name names))"
proof -
  let ?v = "filter is_valid_backup_name names"
  have "filter is_valid_backup_name (filter (\<lambda>x. x \<notin> set (take n (sort ?v))) names) = filter (\<lambda>x. x \<notin> set (take n (sort ?v))) ?v"
    by (simp add: conj_commute)
  moreover have "distinct (sort ?v)" using assms by simp
  ultimately show ?thesis using sort_drop [of ?v "sort ?v" n] by simp
qed

lemma prune_keeps_newest_names:
  assumes "dinv (backup_files s h)"
  shows "backup_names (snd (prune_backups h keep s)) h = drop (length (backup_names s h) - nat keep) (backup_names s h)"
proof -
  let ?n = "length (backup_names s h) - nat keep"
  have "dkeys (backup_files (snd (prune_backups h keep s)) h) =
      filter (\<lambda>x. x \<notin> set (take ?n (backup_names s h))) (dkeys (backup_files s h))"
    unfolding backup_files_prune dkeys_def by (simp add: filter_map comp_def)
  moreover have "distinct (dkeys (backup_files s h))" using assms by (simp add: dinv_dkeys)
  ultimately show ?thesis
    unfolding backup_names_def [of "snd (prune_backups h keep s)"] using sort_names_drop by (simp add: backup_names_def)
qed

text \<open>Pruning leaves the newest \<open>keep\<close> backups of the host and nothing else of them, counts what it deleted,
  keeps every file that is not a backup, and touches no other directory.\<close>

theorem prune_keeps_newest:
  assumes "dinv (backup_files s h)"
  shows "case prune_backups h keep s of (n, s') \<Rightarrow>
    backup_names s' h = drop n (backup_names s h) \<and> n = length (backup_names s h) - nat keep \<and>
    filter (\<lambda>e. \<not> is_valid_backup_name (fst e)) (backup_files s' h) = filter (\<lambda>e. \<not> is_valid_backup_name (fst e)) (backup_files s h) \<and>
    filter (\<lambda>e. fst e \<in> set (backup_names s' h)) (backup_files s h) = filter (\<lambda>e. is_valid_backup_name (fst e)) (backup_files s' h) \<and>
    (\<forall>d. d \<noteq> host_backup_dir (ho_address h) \<longrightarrow> listdir s' d = listdir s d)"
proof -
  define names where "names = backup_names s h"
  define n where "n = length names - nat keep"
  define s' where "s' = snd (prune_backups h keep s)"
  have n: "prune_backups h keep s = (n, s')"
    by (simp add: prune_backups_def n_def names_def s'_def backup_names_def backup_files_def select_prunable_take Let_def)
  have files: "backup_files s' h = filter (\<lambda>e. fst e \<notin> set (take n names)) (backup_files s h)"
    unfolding s'_def n_def names_def by (rule backup_files_prune)
  have dist: "distinct (dkeys (backup_files s h))" using assms by (simp add: dinv_dkeys)
  have names': "backup_names s' h = drop n names"
    unfolding s'_def n_def names_def by (rule prune_keeps_newest_names [OF assms])
  have valid: "x \<in> set names \<Longrightarrow> is_valid_backup_name x" for x by (simp add: names_def backup_names_def)
  have dn: "distinct names" using dist by (simp add: names_def backup_names_def)
  then have disj: "x \<in> set (take n names) \<Longrightarrow> x \<notin> set (drop n names)" for x
    by (metis append_take_drop_id disjoint_iff distinct_append)
  have kept: "is_valid_backup_name (fst e) \<and> fst e \<notin> set (take n names) \<longleftrightarrow> fst e \<in> set (drop n names)"
    if "e \<in> set (backup_files s h)" for e
  proof -
    have "is_valid_backup_name (fst e) \<longleftrightarrow> fst e \<in> set names" using that by (auto simp: names_def backup_names_def dkeys_def)
    then show ?thesis using disj by (metis UnE append_take_drop_id in_set_dropD set_append)
  qed
  have "filter (\<lambda>e. \<not> is_valid_backup_name (fst e)) (backup_files s' h) = filter (\<lambda>e. \<not> is_valid_backup_name (fst e)) (backup_files s h)"
    unfolding files filter_filter using valid by (intro filter_cong) (auto dest: in_set_takeD)
  moreover have "filter (\<lambda>e. fst e \<in> set (drop n names)) (backup_files s h) = filter (\<lambda>e. is_valid_backup_name (fst e)) (backup_files s' h)"
    unfolding files filter_filter using kept by (intro filter_cong) auto
  moreover have "\<forall>d. d \<noteq> host_backup_dir (ho_address h) \<longrightarrow> listdir s' d = listdir s d"
    by (simp add: s'_def prune_backups_def Let_def)
  ultimately show ?thesis using n names' by (simp add: n_def names_def)
qed


section \<open>One backup per period\<close>

lemma map_sort_key: "map f (sort_key f xs) = sort (map f xs)"
  by (metis mset_map mset_sort properties_for_sort sorted_sort_key)

lemma newest_from_names:
  "newest_backup_dt s h = (case List.map_filter backup_filename_dt (rev (backup_names s h)) of [] \<Rightarrow> None | dt # _ \<Rightarrow> Some dt)"
proof -
  let ?items = "map item_of (filter (\<lambda>e. is_valid_backup_name (fst e)) (backup_files s h))"
  have "map bi_filename ?items = filter is_valid_backup_name (dkeys (backup_files s h))"
    by (simp add: item_of_def dkeys_def filter_map comp_def)
  then have "map bi_filename (rev ?items) = rev (filter is_valid_backup_name (dkeys (backup_files s h)))"
    by (simp only: rev_map [symmetric])
  moreover have "sort (rev xs) = sort xs" for xs :: "string list" by (rule properties_for_sort) simp_all
  ultimately have "map bi_filename (list_backups s h) = rev (backup_names s h)"
    by (simp add: list_backups_def sort_desc_def rev_map [symmetric] map_sort_key backup_names_def backup_files_def)
  moreover have "List.map_filter (\<lambda>b. f (g b)) xs = List.map_filter f (map g xs)" for f :: "string \<Rightarrow> datetime option" and g :: "backup_item \<Rightarrow> string" and xs
    by (induction xs) (simp_all add: List.map_filter_simps split: option.split)
  ultimately show ?thesis by (simp add: newest_backup_dt_def)
qed

lemma le_append_prefix: "length a = length b \<Longrightarrow> a @ x \<le> b @ y \<Longrightarrow> a \<le> (b :: string)"
proof (induction a b rule: list_induct2)
  case (Cons c a d b)
  then show ?case by auto
qed simp

lemma drop_prefix_le: "p @ a \<le> p @ b \<longleftrightarrow> a \<le> (b :: string)"
  by (induction p) auto

definition name_stamp :: "string \<Rightarrow> string" where
  "name_stamp s = take 15 (drop 11 s)"

lemma shape_text: "ts_shape s d t r \<Longrightarrow> s = ''pve-backup-'' @ (d @ ''-'' @ t) @ r"
  by (simp add: ts_shape_def)

lemma shape_stamp: "ts_shape s d t r \<Longrightarrow> name_stamp s = d @ ''-'' @ t"
  by (auto simp: ts_shape_def name_stamp_def)

lemma stamp_mono:
  assumes "ts_shape s d t r" "ts_shape s' d' t' r'" "s \<le> s'"
  shows "name_stamp s \<le> name_stamp s'"
proof -
  from assms have l: "length (d @ ''-'' @ t) = length (d' @ ''-'' @ t')" by (simp add: ts_shape_def)
  have "''pve-backup-'' @ (d @ ''-'' @ t) @ r \<le> ''pve-backup-'' @ (d' @ ''-'' @ t') @ r'"
    unfolding shape_text [OF assms(1), symmetric] shape_text [OF assms(2), symmetric]
    by (rule assms(3))
  then have "(d @ ''-'' @ t) @ r \<le> (d' @ ''-'' @ t') @ r'" unfolding drop_prefix_le .
  from le_append_prefix [OF l this] show ?thesis unfolding shape_stamp [OF assms(1)] shape_stamp [OF assms(2)] .
qed

lemma stamp_dt:
  assumes "ts_shape s d t r" "name_stamp s = stamp ts" "valid_datetime ts"
  shows "backup_filename_dt s = Some ts"
proof -
  have "d @ ''-'' @ t = day_digits ts @ ''-'' @ time_digits ts"
    using assms(2) unfolding shape_stamp [OF assms(1)] stamp_def .
  moreover have "length d = length (day_digits ts)" using assms(1) by (simp add: ts_shape_def stamp_parts)
  ultimately have "d = day_digits ts" "t = time_digits ts" by simp_all
  then show ?thesis using ts_re_match [OF assms(1)] from_stamp_stamp [OF assms(3)] by simp
qed

lemma filename_stamp: "valid_datetime ts \<Longrightarrow> name_stamp (backup_filename ts p) = stamp ts"
  unfolding stamp_def by (rule shape_stamp [OF filename_shape])

lemma newest_is_stamp:
  assumes "valid_datetime ts" "backup_filename ts p \<in> set (backup_names s h)"
    and "\<And>x. x \<in> set (backup_names s h) \<Longrightarrow> name_stamp x \<le> stamp ts"
    and "n < length (backup_names s h)" "backup_names s' h = drop n (backup_names s h)"
  shows "newest_backup_dt s' h = Some ts"
proof -
  let ?ns = "backup_names s h" let ?m = "last (backup_names s h)"
  have ne: "?ns \<noteq> []" using assms(2) by auto
  then have m: "?m \<in> set ?ns" by simp
  have valid: "is_valid_backup_name x" if "x \<in> set ?ns" for x using that by (simp add: backup_names_def)
  obtain d t r where sh: "ts_shape ?m d t r" using valid_shape [OF valid [OF m]] by blast
  have "sorted ?ns" by (simp add: backup_names_def)
  then have "backup_filename ts p \<le> ?m" using assms(2) by (rule sorted_le_last)
  then have "name_stamp (backup_filename ts p) \<le> name_stamp ?m" using stamp_mono [OF filename_shape [OF assms(1)] sh] by blast
  moreover have "name_stamp (backup_filename ts p) = stamp ts" by (rule filename_stamp [OF assms(1)])
  ultimately have "name_stamp ?m = stamp ts" using assms(3) [OF m] by simp
  then have dt: "backup_filename_dt ?m = Some ts" using stamp_dt [OF sh] assms(1) by simp
  have "drop n ?ns = butlast (drop n ?ns) @ [?m]" using assms(4) by (metis append_butlast_last_id drop_eq_Nil last_drop not_le)
  then obtain k where "drop n ?ns = k @ [?m]" by blast
  then have "List.map_filter backup_filename_dt (rev (backup_names s' h)) = ts # List.map_filter backup_filename_dt (rev k)"
    using dt by (simp add: assms(5) List.map_filter_simps)
  then show ?thesis by (simp add: newest_from_names)
qed

text \<open>C29: After a scheduled backup that succeeded the host is not due again for the rest of the period, whatever
  the hour, if at least one backup is kept and no stored one carries a later time stamp.\<close>

theorem no_second_backup_in_period:
  assumes "dinv (backup_files (sd_store st) h)" "valid_datetime (ti_now i)" "1 \<le> sc_keep sched"
    and "list_all (\<lambda>x. name_stamp x \<le> stamp (ti_now i)) (backup_names (sd_store st) h)"
    and "ct_success (fst (create_backup (ti_outside i) (ti_now i) h (sc_priv sched) (sd_store st)))"
    and "same_period (ti_now i) now' (sc_interval sched)"
  shows "\<not> backup_due (newest_backup_dt (sd_store (run_backup i h sched st)) h) now' sched"
proof -
  let ?f = "backup_filename (ti_now i) (sc_priv sched)"
  define s1 where "s1 = snd (create_backup (ti_outside i) (ti_now i) h (sc_priv sched) (sd_store st))"
  define s2 where "s2 = snd (prune_backups h (sc_keep sched) s1)"
  have st: "sd_store (run_backup i h sched st) = s2"
    using assms(5) by (simp add: run_backup_def split_def Let_def s2_def s1_def record_success_def split: option.split)
  obtain e where files: "backup_files s1 h = dset ?f e (backup_files (sd_store st) h)"
    using assms(5) unfolding s1_def by (auto simp: create_backup_def backup_files_def create_failed_def Let_def split: if_splits)
  then have dinv: "dinv (backup_files s1 h)" using assms(1) by simp
  have names: "set (backup_names s1 h) = insert ?f (set (backup_names (sd_store st) h))"
    using filename_valid [OF assms(2)] by (auto simp: backup_names_def files)
  have "name_stamp ?f = stamp (ti_now i)" by (rule filename_stamp [OF assms(2)])
  then have le: "name_stamp x \<le> stamp (ti_now i)" if "x \<in> set (backup_names s1 h)" for x
    using that assms(4) by (auto simp: names list_all_iff)
  have p: "backup_names s2 h = drop (length (backup_names s1 h) - nat (sc_keep sched)) (backup_names s1 h)"
    using prune_keeps_newest_names [OF dinv] by (simp add: s2_def)
  have "?f \<in> set (backup_names s1 h)" by (simp add: names)
  moreover from this have "length (backup_names s1 h) - nat (sc_keep sched) < length (backup_names s1 h)"
    using assms(3) by (cases "backup_names s1 h") auto
  ultimately have "newest_backup_dt s2 h = Some (ti_now i)" using newest_is_stamp [OF assms(2) _ le _ p] by blast
  then show ?thesis using assms(6) by (simp add: st backup_due_def)
qed


text \<open>A host with two stored backups, and a pass in which the archive is built and fetched.\<close>

definition ex_dt :: "int \<Rightarrow> int \<Rightarrow> datetime" where
  "ex_dt d hh = \<lparr>dt_year = 2026, dt_month = 7, dt_day = d, dt_hour = hh, dt_minute = 5, dt_second = 0\<rparr>"

definition ex_tick :: "int \<Rightarrow> tick_input" where
  "ex_tick d = \<lparr>ti_now = ex_dt d 3, ti_epoch = 86400 * d, ti_hosts = [plain_host ''pve1'' ''10.0.0.1''],
     ti_schedules = [(''10.0.0.1'', default_schedule\<lparr>sc_enabled := True, sc_interval := ''daily'', sc_keep := 2\<rparr>)],
     ti_outside = \<lparr>os_run = (\<lambda>h c. cmd_ok ''__OK__''), os_fetch = (\<lambda>h p. \<lparr>fr_success = True, fr_bytes = 9, fr_error = []\<rparr>), os_mtime = 0\<rparr>,
     ti_local = (\<lambda>t. [])\<rparr>"

definition ex_store :: backup_store where
  "ex_store = [(''/app/data/host_backups/10.0.0.1'',
     [(''notes.txt'', \<lparr>sf_bytes = 1, sf_mtime = 0\<rparr>), (''pve-backup-20260709-030000.tar.gz'', \<lparr>sf_bytes = 1, sf_mtime = 0\<rparr>),
      (''pve-backup-20260708-030000-withpriv.tar.gz'', \<lparr>sf_bytes = 1, sf_mtime = 0\<rparr>)])]"

definition ex_scheduler :: scheduler where
  "ex_scheduler = \<lparr>sd_store = ex_store, sd_attempt = [], sd_failing = [], sd_logged = [], sd_sent = []\<rparr>"

theorem prune_keeps_newest_witness:
  "let h = plain_host ''pve1'' ''10.0.0.1'' in
   case prune_backups h 1 ex_store of (n, s') \<Rightarrow>
     n = 1 \<and> backup_names s' h = [''pve-backup-20260709-030000.tar.gz''] \<and> backup_names s' h = drop n (backup_names ex_store h)"
proof -
  let ?h = "plain_host ''pve1'' ''10.0.0.1''"
  have d: "dinv (backup_files ex_store ?h)" by code_simp
  have "fst (prune_backups ?h 1 ex_store) = 1" by code_simp
  moreover have "drop 1 (backup_names ex_store ?h) = [''pve-backup-20260709-030000.tar.gz'']" by code_simp
  ultimately show ?thesis using prune_keeps_newest [OF d, of 1] by (auto simp: Let_def split: prod.splits)
qed

theorem no_second_backup_in_period_witness:
  "let h = plain_host ''pve1'' ''10.0.0.1''; sched = default_schedule\<lparr>sc_enabled := True, sc_interval := ''daily'', sc_keep := 2\<rparr>
   in attempt_due (ex_tick 10) h sched ex_scheduler \<and>
      \<not> backup_due (newest_backup_dt (sd_store (run_backup (ex_tick 10) h sched ex_scheduler)) h) (ex_dt 10 23) sched"
proof -
  let ?h = "plain_host ''pve1'' ''10.0.0.1''"
  let ?s = "default_schedule\<lparr>sc_enabled := True, sc_interval := ''daily'', sc_keep := 2\<rparr>"
  have 1: "dinv (backup_files (sd_store ex_scheduler) ?h)" by code_simp
  have 2: "valid_datetime (ti_now (ex_tick 10))" by code_simp
  have 3: "1 \<le> sc_keep ?s" by simp
  have 4: "list_all (\<lambda>x. name_stamp x \<le> stamp (ti_now (ex_tick 10))) (backup_names (sd_store ex_scheduler) ?h)" by code_simp
  have 5: "ct_success (fst (create_backup (ti_outside (ex_tick 10)) (ti_now (ex_tick 10)) ?h (sc_priv ?s) (sd_store ex_scheduler)))"
  proof -
    have "contains_str ''__OK__'' (cr_stdout (cmd_ok ''__OK__''))" by code_simp
    then show ?thesis by (simp add: create_backup_def ex_tick_def Let_def)
  qed
  have 6: "same_period (ti_now (ex_tick 10)) (ex_dt 10 23) (sc_interval ?s)" by code_simp
  have "attempt_due (ex_tick 10) ?h ?s ex_scheduler" by code_simp
  then show ?thesis unfolding Let_def using no_second_backup_in_period [OF 1 2 3 4 5 6] by blast
qed

text \<open>With nothing to keep every success deletes all backups of the host, the new one too, and the host is due
  again at once: half an hour later the next one is made and deleted.\<close>

lemma keep_zero_keeps_nothing:
  assumes "dinv (backup_files (sd_store st) h)" "sc_keep sched \<le> 0"
    and "ct_success (fst (create_backup (ti_outside i) (ti_now i) h (sc_priv sched) (sd_store st)))"
  shows "backup_names (sd_store (run_backup i h sched st)) h = [] \<and>
    backup_due (newest_backup_dt (sd_store (run_backup i h sched st)) h) now' sched"
proof -
  define s1 where "s1 = snd (create_backup (ti_outside i) (ti_now i) h (sc_priv sched) (sd_store st))"
  have st: "sd_store (run_backup i h sched st) = snd (prune_backups h (sc_keep sched) s1)"
    using assms(3) by (simp add: run_backup_def split_def Let_def s1_def record_success_def split: option.split)
  have "dinv (backup_files s1 h)"
    using assms(1,3) unfolding s1_def by (auto simp: create_backup_def backup_files_def create_failed_def Let_def split: if_splits)
  from prune_keeps_newest_names [OF this] have "backup_names (sd_store (run_backup i h sched st)) h = []"
    using assms(2) by (simp add: st)
  then show ?thesis by (simp add: newest_from_names List.map_filter_simps backup_due_def)
qed

section \<open>Notices\<close>

text \<open>The notices about one host: \<open>True\<close> for a failure, \<open>False\<close> for a recovery.\<close>

definition notices :: "string \<Rightarrow> notification list \<Rightarrow> bool list" where
  "notices a ns = map (\<lambda>n. nt_priority n = 7) (filter (\<lambda>n. nt_host n = a) ns)"

fun alternating :: "bool \<Rightarrow> bool list \<Rightarrow> bool" where
  "alternating b [] = True"
| "alternating b (x # xs) = (x \<noteq> b \<and> alternating x xs)"

definition now_open :: "bool list \<Rightarrow> bool" where
  "now_open xs = (xs \<noteq> [] \<and> last xs)"

lemma alternating_snoc: "alternating b (xs @ [x]) \<longleftrightarrow> alternating b xs \<and> x \<noteq> (if xs = [] then b else last xs)"
  by (induction xs arbitrary: b) auto

definition notices_ok :: "scheduler \<Rightarrow> bool" where
  "notices_ok st = (\<forall>a. alternating False (notices a (sd_sent st)) \<and> (now_open (notices a (sd_sent st)) \<longleftrightarrow> dhas (sd_failing st) a))"

lemma notices_snoc: "notices a (ns @ [n]) = notices a ns @ (if nt_host n = a then [nt_priority n = 7] else [])"
  by (simp add: notices_def)

lemma dhas_simps: "dhas (dset k v d) a \<longleftrightarrow> a = k \<or> dhas d a" "dhas (dpop k d) a \<longleftrightarrow> a \<noteq> k \<and> dhas d a"
  by (auto simp: dhas_def)

lemma notices_failure:
  assumes "notices_ok st"
  shows "notices_ok (record_failure e h err st)"
proof (cases "dhas (sd_failing st) (ho_address h)")
  case False
  have "alternating False (notices (ho_address h) (sd_sent st))" "\<not> now_open (notices (ho_address h) (sd_sent st))"
    using assms False by (auto simp: notices_ok_def)
  then show ?thesis using assms False
    by (auto simp: record_failure_def notices_ok_def notices_snoc failure_notice_def notif_def dhas_simps alternating_snoc now_open_def
        split: if_splits)
qed (use assms in \<open>simp add: record_failure_def\<close>)

lemma notices_success:
  assumes "notices_ok st"
  shows "notices_ok (record_success f h st)"
proof (cases "dget (sd_failing st) (ho_address h)")
  case (Some since)
  then have "dhas (sd_failing st) (ho_address h)" by (simp add: dhas_def)
  then have "alternating False (notices (ho_address h) (sd_sent st))" "now_open (notices (ho_address h) (sd_sent st))"
    using assms by (auto simp: notices_ok_def)
  then show ?thesis using assms Some
    by (auto simp: record_success_def notices_ok_def notices_snoc recovery_notice_def notif_def dhas_simps alternating_snoc now_open_def
        split: if_splits)
qed (use assms in \<open>simp add: record_success_def\<close>)

lemma notices_store [simp]:
  "notices_ok (st\<lparr>sd_store := s\<rparr>) = notices_ok st" "notices_ok (st\<lparr>sd_attempt := t\<rparr>) = notices_ok st"
  "notices_ok (st\<lparr>sd_logged := l\<rparr>) = notices_ok st"
  by (simp_all add: notices_ok_def)

lemma notices_run: "notices_ok st \<Longrightarrow> notices_ok (run_backup i h sched st)"
  by (auto simp: run_backup_def split_def Let_def intro!: notices_failure notices_success)

lemma notices_tick: "notices_ok st \<Longrightarrow> notices_ok (scheduler_tick i st)"
  unfolding scheduler_tick_def
  by (rule fold_inv) (auto simp: tick_one_def Let_def intro!: notices_run split: option.split)

text \<open>C31: Over any run of the scheduler, the notices about a host alternate: a failure is announced once, then
  nothing until the recovery, and a recovery is announced only for an announced failure. The open ones
  are exactly the hosts recorded as failing.\<close>

theorem backup_notices_alternate:
  "let st' = fold scheduler_tick is \<lparr>sd_store = s, sd_attempt = att, sd_failing = [], sd_logged = lg, sd_sent = []\<rparr>
   in alternating False (notices a (sd_sent st')) \<and> (now_open (notices a (sd_sent st')) \<longleftrightarrow> dhas (sd_failing st') a)"
proof -
  have "notices_ok \<lparr>sd_store = s, sd_attempt = att, sd_failing = [], sd_logged = lg, sd_sent = []\<rparr>"
    by (simp add: notices_ok_def notices_def now_open_def dhas_def)
  then have "notices_ok (fold scheduler_tick is \<lparr>sd_store = s, sd_attempt = att, sd_failing = [], sd_logged = lg, sd_sent = []\<rparr>)"
    by (rule fold_inv) (rule notices_tick)
  then show ?thesis by (simp add: notices_ok_def Let_def)
qed

text \<open>Expected-offline hosts are not tried.\<close>

lemma standby_not_tried:
  assumes "list_all ho_standby (ti_hosts i)"
  shows "sd_sent (scheduler_tick i st) = sd_sent st \<and> sd_store (scheduler_tick i st) = sd_store st"
proof -
  have "sd_sent (tick_one i e st) = sd_sent st \<and> sd_store (tick_one i e st) = sd_store st" for e st
  proof (cases e)
    case (Pair address sched)
    have "ho_standby h" if "find (\<lambda>h. ho_address h = address) (rev (ti_hosts i)) = Some h" for h
      using assms that by (metis find_Some_iff list_all_iff nth_mem set_rev)
    then show ?thesis by (auto simp: Pair tick_one_def split: option.split)
  qed
  then have "sd_sent (fold (tick_one i) es st) = sd_sent st \<and> sd_store (fold (tick_one i) es st) = sd_store st" for es
    by (induction es arbitrary: st) simp_all
  then show ?thesis by (simp add: scheduler_tick_def)
qed

end
