(* ===== verification/MigrateConfig.thy ===== *)
theory MigrateConfig
  imports PyScan PyVal Calendar
begin

text \<open>
  \<open>app/migrate.py\<close>, the pure part: what a guest's configuration says about its disks, bridges and
  storages, the storages of a host, the candidates for the target, and the configuration rewritten for
  the target. A bridge name that stands in a replacement has no backslash in it (\<open>re\<close> would read one as
  an escape).
\<close>

section \<open>Reading a guest's configuration\<close>

definition QEMU_DISK_KEY_RE :: re where
  "QEMU_DISK_KEY_RE =
     Alt (seqs [Bol, Alt (lit ''scsi'') (Alt (lit ''virtio'') (Alt (lit ''sata'') (lit ''ide''))), plus (Ch is_digit), Eol])
         (seqs [Bol, Alt (lit ''efidisk'') (lit ''tpmstate''), plus (Ch is_digit), Eol])"

definition LXC_DISK_KEY_RE :: re where
  "LXC_DISK_KEY_RE = seqs [Bol, Alt (lit ''rootfs'') (Seq (lit ''mp'') (plus (Ch is_digit))), Eol]"

definition SNAP_NAME_RE :: re where
  "SNAP_NAME_RE = seqs [Bol, lit ''migrate-'', times 8 (Ch is_digit), chr CHR ''-'', times 6 (Ch is_digit), Eol]"

definition ds_char :: "char \<Rightarrow> bool" where
  "ds_char c = (is_alnum c \<or> one_of ''_.:/-'' c)"

definition DS_RE :: re where
  "DS_RE = whitelist (\<lambda>c. is_lower c \<or> is_upper c) ds_char"

definition split_main_section :: "string \<Rightarrow> string" where
  "split_main_section text = join [newline] (takeWhile (\<lambda>l. \<not> starts_with ''['' l) (splitlines text))"

definition SNAP_SECTION_RE :: re where
  "SNAP_SECTION_RE = seqs [line_start, chr CHR ''['', Grp 1 (plus (Ch (\<lambda>c. c \<noteq> CHR '']''))), chr CHR '']'',
     Star (Ch is_space), line_end]"

definition config_snapshot_sections :: "string \<Rightarrow> string list" where
  "config_snapshot_sections text = map (group_str 1) (re_finditer SNAP_SECTION_RE text)"

definition CONFIG_LINE_RE :: re where
  "CONFIG_LINE_RE = seqs [Bol, Grp 1 (Seq (plus (Ch is_lower)) (Star (Ch is_digit))), chr CHR '':'', Star (Ch is_space),
     Grp 2 (plus any_char), Eol]"

definition disk_of_line :: "string \<Rightarrow> string \<Rightarrow> (string \<times> string) option" where
  "disk_of_line gtype line =
     (case re_match CONFIG_LINE_RE (strip line) of
        None \<Rightarrow> None
      | Some m \<Rightarrow>
          let key = group_str 1 m; v = strip (group_str 2 m);
              volid = strip (takeWhile (\<lambda>c. c \<noteq> CHR '','') v)
          in if \<not> re_test (if gtype = ''lxc'' then LXC_DISK_KEY_RE else QEMU_DISK_KEY_RE) key then None
             else if volid = [] \<or> volid = ''none'' \<or> contains_str ''media=cdrom'' v then None
             else if CHR '':'' \<notin> set volid then None
             else Some (key, volid))"

definition parse_guest_config_disks :: "string \<Rightarrow> string \<Rightarrow> (string \<times> string) list" where
  "parse_guest_config_disks text gtype = List.map_filter (disk_of_line gtype) (splitlines (split_main_section text))"

definition BRIDGE_RE :: re where
  "BRIDGE_RE = Seq (lit ''bridge='') (Grp 1 (plus (Ch (\<lambda>c. is_alnum c \<or> one_of ''_.-'' c))))"

definition parse_config_bridges :: "string \<Rightarrow> string list" where
  "parse_config_bridges text = sorted_set (map (group_str 1) (re_finditer BRIDGE_RE (split_main_section text)))"

definition dataset_from_pvesm_path :: "string \<Rightarrow> string" where
  "dataset_from_pvesm_path path =
     (let p = strip path
      in if p = [] then []
         else if starts_with ''/dev/zvol/'' p then drop 10 p
         else if starts_with ''/'' p then lstrip_chars ''/'' p
         else [])"

text \<open>\<open>s.rsplit("/", 1)[-1]\<close>.\<close>

definition last_part :: "string \<Rightarrow> string" where
  "last_part s = rev (takeWhile (\<lambda>c. c \<noteq> CHR ''/'') (rev s))"

definition volume_basename :: "string \<Rightarrow> string" where
  "volume_basename v = last_part (case split_once CHR '':'' v of None \<Rightarrow> v | Some (_, r) \<Rightarrow> r)"

definition config_storage_ids :: "string \<Rightarrow> string \<Rightarrow> string list" where
  "config_storage_ids text gtype =
     sorted_set (map (\<lambda>(_, v). takeWhile (\<lambda>c. c \<noteq> CHR '':'') v)
       (filter (\<lambda>(_, v). CHR '':'' \<in> set v) (parse_guest_config_disks text gtype)))"

section \<open>The storages of a host\<close>

record zfs_storage =
  zs_storage :: string
  zs_pool :: string
  zs_content :: "string list"
  zs_nodes :: "string list"

definition ZFS_HEADER_RE :: re where
  "ZFS_HEADER_RE = seqs [Bol, Grp 1 (plus (Ch word_char)), chr CHR '':'', Star (Ch is_space),
     Grp 2 (plus (Ch (\<lambda>c. \<not> is_space c))), Star (Ch is_space), Eol]"

definition ZFS_OPTION_RE :: re where
  "ZFS_OPTION_RE = seqs [Bol, plus (Ch is_space), Grp 1 (plus (Ch word_char)), plus (Ch is_space), Grp 2 (Star any_char), Eol]"

definition comma_list :: "string \<Rightarrow> string list" where
  "comma_list v = filter (\<lambda>c. c \<noteq> []) (map strip (split_on (\<lambda>c. c = CHR '','') v))"

definition set_zfs_option :: "string \<Rightarrow> string \<Rightarrow> zfs_storage \<Rightarrow> zfs_storage" where
  "set_zfs_option key v cur =
     (if key = ''pool'' then cur\<lparr>zs_pool := v\<rparr>
      else if key = ''content'' then cur\<lparr>zs_content := comma_list v\<rparr>
      else if key = ''nodes'' then cur\<lparr>zs_nodes := comma_list v\<rparr>
      else cur)"

text \<open>The storages whose body is complete, and the one whose body is being read, if any. In the code the
  open one is already in the output list; here it joins the list when it is closed.\<close>

definition zfs_step :: "string \<Rightarrow> zfs_storage list \<times> zfs_storage option \<Rightarrow> zfs_storage list \<times> zfs_storage option" where
  "zfs_step raw st = (case st of (out, cur) \<Rightarrow>
     (case re_match ZFS_HEADER_RE raw of
        Some m \<Rightarrow>
          (out @ (case cur of None \<Rightarrow> [] | Some s \<Rightarrow> [s]),
           if group_str 1 m = ''zfspool''
           then Some \<lparr>zs_storage = group_str 2 m, zs_pool = [], zs_content = [], zs_nodes = []\<rparr> else None)
      | None \<Rightarrow>
          (out, if strip raw = [] then cur
                else case re_match ZFS_OPTION_RE raw of
                  None \<Rightarrow> cur
                | Some p \<Rightarrow> map_option (set_zfs_option (group_str 1 p) (strip (group_str 2 p))) cur)))"

definition parse_zfs_storages :: "string \<Rightarrow> zfs_storage list" where
  "parse_zfs_storages text =
     (case fold zfs_step (splitlines text) ([], None) of
        (out, cur) \<Rightarrow> out @ (case cur of None \<Rightarrow> [] | Some s \<Rightarrow> [s]))"

definition usable_guest_storages :: "zfs_storage list \<Rightarrow> string \<Rightarrow> zfs_storage list" where
  "usable_guest_storages storages node =
     filter (\<lambda>s. zs_pool s \<noteq> [] \<and>
       \<not> (zs_content s \<noteq> [] \<and> \<not> (''images'' \<in> set (zs_content s) \<or> ''rootdir'' \<in> set (zs_content s))) \<and>
       \<not> (zs_nodes s \<noteq> [] \<and> node \<noteq> [] \<and> node \<notin> set (zs_nodes s))) storages"

section \<open>A name for a new storage\<close>

definition sid_char :: "char \<Rightarrow> bool" where
  "sid_char c = (is_lower c \<or> is_digit c \<or> one_of ''._-'' c)"

definition STORAGE_ID_RE :: re where
  "STORAGE_ID_RE = seqs [Bol, Ch is_lower, upto 62 (Ch sid_char), Eol]"

definition strip_chars :: "string \<Rightarrow> string \<Rightarrow> string" where
  "strip_chars cs s = rstrip_chars cs (lstrip_chars cs s)"

definition storage_base :: "string \<Rightarrow> string" where
  "storage_base dataset =
     (let leaf = lower_str (last_part (rstrip_chars ''/'' dataset));
          base = strip_chars ''-.'' (map (\<lambda>c. if sid_char c then c else CHR ''-'') leaf)
      in take 56
        (case base of
           [] \<Rightarrow> ''zfs-storage''
         | c # _ \<Rightarrow> if is_lower c then base else strip_chars ''-'' (''zfs-'' @ base)))"

definition numbered :: "string \<Rightarrow> nat \<Rightarrow> string" where
  "numbered base n = base @ ''-'' @ show_nat n"

text \<open>The search for a free name ends: each name taken is a different one of the finitely many that
  exist.\<close>

definition taken :: "string \<Rightarrow> string list \<Rightarrow> nat \<Rightarrow> nat" where
  "taken base ex n = card {m. n \<le> m \<and> numbered base m \<in> set ex}"

lemma numbered_inj: "numbered base m = numbered base n \<Longrightarrow> m = n"
  by (simp add: numbered_def show_nat_inj)

lemma finite_taken: "finite {m. n \<le> m \<and> numbered base m \<in> set ex}"
proof (rule finite_subset)
  show "{m. n \<le> m \<and> numbered base m \<in> set ex} \<subseteq> numbered base -` set ex" by auto
  show "finite (numbered base -` set ex)"
    by (rule finite_vimageI) (auto intro: injI dest: numbered_inj)
qed

lemma taken_step: "numbered base n \<in> set ex \<Longrightarrow> taken base ex n = Suc (taken base ex (Suc n))"
proof -
  assume "numbered base n \<in> set ex"
  then have "{m. n \<le> m \<and> numbered base m \<in> set ex} = insert n {m. Suc n \<le> m \<and> numbered base m \<in> set ex}"
    by (auto simp: Suc_le_eq le_less)
  then show ?thesis unfolding taken_def using finite_taken [of "Suc n" base ex] by simp
qed

function free_id :: "string \<Rightarrow> string list \<Rightarrow> string \<Rightarrow> nat \<Rightarrow> string" where
  "free_id base ex cand n = (if cand \<in> set ex then free_id base ex (numbered base n) (n + 1) else cand)"
  by pat_completeness auto
termination
  by (relation "measure (\<lambda>(base, ex, cand, n). if cand \<in> set ex then Suc (taken base ex n) else 0)")
    (auto simp: taken_step)

declare free_id.simps [simp del]

definition suggest_storage_id :: "string \<Rightarrow> string list \<Rightarrow> string" where
  "suggest_storage_id dataset existing = free_id (storage_base dataset) existing (storage_base dataset) 2"

section \<open>Candidates for the target\<close>

definition GUEST_DISK_DS_RE :: re where
  "GUEST_DISK_DS_RE = seqs [chr CHR ''/'', Alt (lit ''vm'') (Alt (lit ''subvol'') (Alt (lit ''base'') (lit ''basevol''))),
     chr CHR ''-'', plus (Ch is_digit), lit ''-disk-'', plus (Ch is_digit), Eol]"

record dataset_row =
  dr_name :: string
  dr_type :: string
  dr_avail :: string

definition is_root_candidate :: "dataset_row \<Rightarrow> bool" where
  "is_root_candidate d =
     (dr_name d \<noteq> [] \<and> dr_type d = ''filesystem'' \<and> re_search GUEST_DISK_DS_RE (dr_name d) = None \<and>
      (case split_on (\<lambda>c. c = CHR ''/'') (dr_name d) of _ # p # _ \<Rightarrow> p \<noteq> ''ROOT'' | _ \<Rightarrow> True))"

definition path_ends :: "string \<Rightarrow> string \<Rightarrow> bool" where
  "path_ends suffix s = starts_with (rev suffix) (rev s)"

definition candidate_target_roots :: "dataset_row list \<Rightarrow> (string \<times> string) list" where
  "candidate_target_roots datasets =
     sort_key (\<lambda>(n, a). (if path_ends ''/data'' n then 0 else 1 :: nat, n))
       (map (\<lambda>d. (dr_name d, dr_avail d)) (filter is_root_candidate datasets))"

section \<open>Rewriting the configuration\<close>

definition STORAGE_REF_RE :: "string \<Rightarrow> re" where
  "STORAGE_REF_RE old = seqs [Grp 1 (Alt Bol (Ch (\<lambda>c. is_space c \<or> one_of '':,'' c))), lit old, chr CHR '':'',
     Ahead (Ch (\<lambda>c. \<not> is_space c))]"

definition BRIDGE_REF_RE :: "string \<Rightarrow> re" where
  "BRIDGE_REF_RE old = Seq (lit (''bridge='' @ old)) word_edge"

definition VOL_KIND :: re where
  "VOL_KIND = Grp 1 (Alt (lit ''vm'') (Alt (lit ''subvol'') (Alt (lit ''base'') (lit ''basevol''))))"

definition VOLUME_REF_RE :: "string \<Rightarrow> re" where
  "VOLUME_REF_RE vmid = seqs [word_start, VOL_KIND, lit (''-'' @ vmid @ ''-disk-'')]"

definition map_storage :: "string \<times> string \<Rightarrow> string \<Rightarrow> string" where
  "map_storage on line = (case on of (old, new) \<Rightarrow>
     if old \<noteq> [] \<and> new \<noteq> []
     then re_sub_with (STORAGE_REF_RE old) (\<lambda>m. group_str 1 m @ new @ '':'') line else line)"

definition map_bridge :: "string \<times> string \<Rightarrow> string \<Rightarrow> string" where
  "map_bridge on line = (case on of (old, new) \<Rightarrow>
     if old \<noteq> [] \<and> new \<noteq> [] then re_sub (BRIDGE_REF_RE old) (''bridge='' @ new) line else line)"

definition rename_volumes :: "string \<Rightarrow> string \<Rightarrow> string \<Rightarrow> string" where
  "rename_volumes old_vmid new_vmid line =
     (if old_vmid \<noteq> [] \<and> new_vmid \<noteq> [] \<and> old_vmid \<noteq> new_vmid
      then re_sub_with (VOLUME_REF_RE old_vmid) (\<lambda>m. group_str 1 m @ ''-'' @ new_vmid @ ''-disk-'') line else line)"

text \<open>\<open>^lock:\s*\<close> matches the lines that begin with \<open>lock:\<close>.\<close>

definition is_lock_line :: "string \<Rightarrow> bool" where
  "is_lock_line line = starts_with ''lock:'' line"

definition rewrite_line :: "(string, string) dict \<Rightarrow> (string, string) dict \<Rightarrow> string \<Rightarrow> string \<Rightarrow> string \<Rightarrow> string" where
  "rewrite_line storage_map bridge_map old_vmid new_vmid line =
     rename_volumes old_vmid new_vmid (fold map_bridge bridge_map (fold map_storage storage_map line))"

definition rewrite_guest_config ::
  "string \<Rightarrow> (string, string) dict \<Rightarrow> (string, string) dict \<Rightarrow> string \<Rightarrow> string \<Rightarrow> string" where
  "rewrite_guest_config text storage_map bridge_map old_vmid new_vmid =
     join [newline] (map (rewrite_line storage_map bridge_map old_vmid new_vmid)
       (filter (\<lambda>l. \<not> is_lock_line l) (splitlines text)))
     @ (if text \<noteq> [] \<and> last text \<noteq> newline then [newline] else [])"

section \<open>Snapshots of a migration\<close>

definition make_snapshot_name :: "datetime \<Rightarrow> string" where
  "make_snapshot_name now = ''migrate-'' @ stamp now"

definition is_migration_snapshot :: "string \<Rightarrow> bool" where
  "is_migration_snapshot name = re_test SNAP_NAME_RE (strip name)"

record mig_snap =
  ms_dataset :: string
  ms_snapshot :: string
  ms_full :: string
  ms_used :: string

definition newest_step :: "mig_snap \<Rightarrow> (string, mig_snap) dict \<Rightarrow> (string, mig_snap) dict" where
  "newest_step s newest =
     (case dget newest (ms_dataset s) of
        None \<Rightarrow> dset (ms_dataset s) s newest
      | Some t \<Rightarrow> if ms_snapshot t < ms_snapshot s then dset (ms_dataset s) s newest else newest)"

definition select_snapshots_to_delete :: "mig_snap list \<Rightarrow> bool \<Rightarrow> mig_snap list" where
  "select_snapshots_to_delete snaps keep_latest =
     (if \<not> keep_latest then snaps
      else let newest = fold newest_step snaps [];
               keep = map (\<lambda>s. (ms_dataset s, ms_snapshot s)) (dvals newest)
           in filter (\<lambda>s. (ms_dataset s, ms_snapshot s) \<notin> set keep) snaps)"

section \<open>Storage and dataset must agree\<close>

definition check_storage_match :: "zfs_storage list \<Rightarrow> string \<Rightarrow> string \<Rightarrow> bool \<times> string \<times> string list" where
  "check_storage_match storages target_storage target_root =
     (let matching = map zs_storage (filter (\<lambda>s. zs_pool s = target_root) storages)
      in if target_storage = [] then
           (if matching \<noteq> [] then (False, ''pick the target storage (matching: '' @ join '', '' matching @ '')'', matching)
            else (False, ''no ZFS storage on the target writes into '' @ target_root
                   @ '' -- create one in PVE first, or pick a different target dataset'', []))
         else case List.find (\<lambda>s. zs_storage s = target_storage) storages of
           None \<Rightarrow> (False, ''storage '' @ target_storage @ '' does not exist on the target'', matching)
         | Some st \<Rightarrow>
             if zs_pool st \<noteq> target_root
             then (False, ''storage '' @ target_storage @ '' writes into '' @ zs_pool st @ '', but the disks go to ''
                    @ target_root @ '' -- the guest would not find them'', matching)
             else (True, target_storage @ '' -> '' @ target_root, matching))"

section \<open>The name of a disk on the target\<close>

text \<open>\<open>re.sub(rf"^(vm|subvol|base|basevol)-{vmid}-", ...)\<close>.\<close>

definition RENAME_RE :: "string \<Rightarrow> re" where
  "RENAME_RE vmid = seqs [Bol, VOL_KIND, lit (''-'' @ vmid @ ''-'')]"

definition target_basename :: "string \<Rightarrow> string option \<Rightarrow> string \<Rightarrow> string" where
  "target_basename vmid new_vmid dataset =
     (let base = volume_basename dataset
      in case new_vmid of
           None \<Rightarrow> base
         | Some n \<Rightarrow> if n \<noteq> [] \<and> n \<noteq> vmid
                     then re_sub_with (RENAME_RE vmid) (\<lambda>m. group_str 1 m @ ''-'' @ n @ ''-'') base else base)"

section \<open>The base of a later migration is kept\<close>

definition newest_of :: "mig_snap list \<Rightarrow> string \<Rightarrow> mig_snap option" where
  "newest_of ss d = dget (fold newest_step ss []) d"

lemma newest_step_get:
  "dget (newest_step s m) d = (if d \<noteq> ms_dataset s then dget m d
     else case dget m d of None \<Rightarrow> Some s | Some t \<Rightarrow> if ms_snapshot t < ms_snapshot s then Some s else Some t)"
  by (auto simp: newest_step_def split: option.splits)

lemma newest_inv:
  assumes "\<And>d t. dget m d = Some t \<Longrightarrow> ms_dataset t = d \<and> t \<in> A"
  shows "dget (fold newest_step ss m) d = Some t \<Longrightarrow>
    ms_dataset t = d \<and> t \<in> A \<union> set ss \<and> (\<forall>u. dget m d = Some u \<longrightarrow> ms_snapshot u \<le> ms_snapshot t) \<and>
    (\<forall>s \<in> set ss. ms_dataset s = d \<longrightarrow> ms_snapshot s \<le> ms_snapshot t)"
  using assms
proof (induction ss arbitrary: m A)
  case (Cons s ss)
  have "dget (newest_step s m) d = Some t \<Longrightarrow> ms_dataset t = d \<and> t \<in> insert s A" for d t
    using Cons.prems(2) by (auto simp: newest_step_get split: if_splits option.splits)
  from Cons.IH [OF _ this] Cons.prems(1) have ih:
    "ms_dataset t = d" "t \<in> insert s A \<union> set ss" "\<forall>u. dget (newest_step s m) d = Some u \<longrightarrow> ms_snapshot u \<le> ms_snapshot t"
    "\<forall>s \<in> set ss. ms_dataset s = d \<longrightarrow> ms_snapshot s \<le> ms_snapshot t" by auto
  have "\<forall>u. dget m d = Some u \<longrightarrow> ms_snapshot u \<le> ms_snapshot t" "ms_dataset s = d \<longrightarrow> ms_snapshot s \<le> ms_snapshot t"
    using ih(3) by (auto simp: newest_step_get not_less split: if_splits option.splits intro: order.trans less_imp_le order.strict_trans1)
  with ih show ?case by auto
qed auto

lemma newest_some: "dget m d \<noteq> None \<or> (\<exists>s \<in> set ss. ms_dataset s = d) \<Longrightarrow> dget (fold newest_step ss m) d \<noteq> None"
  by (induction ss arbitrary: m) (auto simp: newest_step_get split: option.splits)

lemma newest_dinv: "dinv m \<Longrightarrow> dinv (fold newest_step ss m)"
  by (induction ss arbitrary: m) (auto simp: newest_step_def split: option.splits)

text \<open>Sparing the newest snapshot deletes exactly the snapshots that are older than another one of the same dataset
  in the list, so that for every dataset the one that comes last by name survives.\<close>

theorem keep_latest_exact:
  "s \<in> set (select_snapshots_to_delete ss True) \<longleftrightarrow>
   s \<in> set ss \<and> (\<exists>t \<in> set ss. ms_dataset t = ms_dataset s \<and> ms_snapshot s < ms_snapshot t)"
proof -
  let ?m = "fold newest_step ss []"
  have inv: "ms_dataset t = d \<and> t \<in> set ss \<and> (\<forall>s \<in> set ss. ms_dataset s = d \<longrightarrow> ms_snapshot s \<le> ms_snapshot t)"
    if "dget ?m d = Some t" for d t using newest_inv [of "[]" "{}" ss d t] that by auto
  have vals: "t \<in> set (dvals ?m) \<longleftrightarrow> (\<exists>d. dget ?m d = Some t)" for t
    using dget_Some_iff [OF newest_dinv [of "[]" ss]] by (force simp: dvals_def)
  have "(ms_dataset s, ms_snapshot s) \<in> (\<lambda>s. (ms_dataset s, ms_snapshot s)) ` set (dvals ?m) \<longleftrightarrow>
      \<not> (\<exists>t \<in> set ss. ms_dataset t = ms_dataset s \<and> ms_snapshot s < ms_snapshot t)" if s: "s \<in> set ss"
  proof -
    obtain t where t: "dget ?m (ms_dataset s) = Some t" using newest_some [of "[]" "ms_dataset s" ss] s by auto
    note it = inv [OF t]
    have "(ms_dataset s, ms_snapshot s) \<in> (\<lambda>s. (ms_dataset s, ms_snapshot s)) ` set (dvals ?m) \<longleftrightarrow> ms_snapshot t = ms_snapshot s"
    proof
      assume "(ms_dataset s, ms_snapshot s) \<in> (\<lambda>s. (ms_dataset s, ms_snapshot s)) ` set (dvals ?m)"
      then obtain u d where u: "dget ?m d = Some u" "ms_dataset u = ms_dataset s" "ms_snapshot u = ms_snapshot s"
        unfolding vals [symmetric] using vals by auto
      with inv [OF u(1)] t show "ms_snapshot t = ms_snapshot s" by auto
    next
      assume "ms_snapshot t = ms_snapshot s"
      with it t show "(ms_dataset s, ms_snapshot s) \<in> (\<lambda>s. (ms_dataset s, ms_snapshot s)) ` set (dvals ?m)"
        using vals by (intro image_eqI [of _ _ t]) auto
    qed
    also have "\<dots> \<longleftrightarrow> \<not> (\<exists>t \<in> set ss. ms_dataset t = ms_dataset s \<and> ms_snapshot s < ms_snapshot t)"
      using it s by (metis less_le_not_le order.antisym not_less)
    finally show ?thesis .
  qed
  then show ?thesis by (auto simp: select_snapshots_to_delete_def Let_def)
qed

section \<open>Names of migration snapshots\<close>

lemma prefix_less: "p @ a < p @ b \<longleftrightarrow> a < (b :: string)"
  by (induction p) auto

lemma snap_name_shape:
  assumes "length d = 8" "length t = 6" "list_all is_digit d" "list_all is_digit t"
  shows "re_test SNAP_NAME_RE (''migrate-'' @ d @ ''-'' @ t)"
  unfolding re_test_def SNAP_NAME_RE_def seqs.simps(2,3) seq_ne
  using assms by (intro exI [of _ "d @ ''-'' @ t"]) simp

text \<open>A name made for a migration snapshot is recognised as one, and names are ordered as the times at which
  they were made.\<close>

theorem snapshot_names_chronological:
  assumes "valid_datetime a" and "valid_datetime b"
  shows "is_migration_snapshot (make_snapshot_name a) \<and>
    (make_snapshot_name a < make_snapshot_name b \<longleftrightarrow> seconds_of a < seconds_of b)"
proof
  have "time_digits a \<noteq> []" using stamp_parts(2) [of a] by auto
  then have "last (make_snapshot_name a) \<in> set (time_digits a)" by (simp add: make_snapshot_name_def stamp_def)
  with stamp_digits(2) [OF assms(1)] have "\<not> is_space (last (make_snapshot_name a))"
    by (auto simp: list_all_iff dest: digit_not_space)
  then have "strip (make_snapshot_name a) = make_snapshot_name a"
    by (intro strip_id) (simp_all add: make_snapshot_name_def is_space_def cc_def)
  then show "is_migration_snapshot (make_snapshot_name a)"
    unfolding is_migration_snapshot_def make_snapshot_name_def stamp_def
    using snap_name_shape [OF stamp_parts(1,2) stamp_digits [OF assms(1)]] by simp
  show "make_snapshot_name a < make_snapshot_name b \<longleftrightarrow> seconds_of a < seconds_of b"
    unfolding make_snapshot_name_def prefix_less by (rule stamp_less_iff [OF assms])
qed

definition ex_time :: "int \<Rightarrow> datetime" where
  "ex_time h = \<lparr>dt_year = 2026, dt_month = 8, dt_day = 4, dt_hour = h, dt_minute = 13, dt_second = 19\<rparr>"

theorem snapshot_names_chronological_witness:
  "is_migration_snapshot (make_snapshot_name (ex_time 10)) \<and> make_snapshot_name (ex_time 10) < make_snapshot_name (ex_time 12)"
proof -
  have "valid_datetime (ex_time 10)" "valid_datetime (ex_time 12)" "seconds_of (ex_time 10) < seconds_of (ex_time 12)"
    by code_simp+
  with snapshot_names_chronological [of "ex_time 10" "ex_time 12"] show ?thesis by blast
qed

end
