(* ===== verification/MigrateNaming.thy ===== *)
theory MigrateNaming
  imports MigrateConfig
begin

text \<open>
  The names a migration makes: the name suggested for a new storage is free and acceptable, and the configuration rewritten
  for the target names the volumes under which the plan puts the disks there. The patterns of the rewriting are shown to
  match exactly at the storage and at the volume of a disk line.
\<close>

section \<open>A suggested storage name can be used\<close>

lemma free_id_fresh: "free_id base ex cand n \<notin> set ex"
  by (induction base ex cand n rule: free_id.induct) (subst free_id.simps, auto)

lemma free_id_form:
  "free_id base ex cand n = cand \<or> (\<exists>m \<ge> n. free_id base ex cand n = numbered base m \<and> (\<forall>k. n \<le> k \<longrightarrow> k < m \<longrightarrow> numbered base k \<in> set ex))"
proof (induction base ex cand n rule: free_id.induct)
  case (1 base ex cand n)
  show ?case
  proof (cases "cand \<in> set ex")
    case True
    then have step: "free_id base ex cand n = free_id base ex (numbered base n) (n + 1)" by (subst free_id.simps) simp
    from 1 [OF True] show ?thesis unfolding step
    proof (elim disjE exE conjE)
      fix m assume m: "n + 1 \<le> m" "free_id base ex (numbered base n) (n + 1) = numbered base m"
        "\<forall>k. n + 1 \<le> k \<longrightarrow> k < m \<longrightarrow> numbered base k \<in> set ex"
      show "free_id base ex (numbered base n) (n + 1) = cand \<or> (\<exists>m \<ge> n. free_id base ex (numbered base n) (n + 1) = numbered base m \<and>
          (\<forall>k. n \<le> k \<longrightarrow> k < m \<longrightarrow> numbered base k \<in> set ex))"
      proof (cases "numbered base n \<in> set ex")
        case True
        have "\<forall>k. n \<le> k \<longrightarrow> k < m \<longrightarrow> numbered base k \<in> set ex"
        proof (intro allI impI)
          fix k assume k: "n \<le> k" "k < m"
          show "numbered base k \<in> set ex" using True m(3) k by (cases "k = n") auto
        qed
        with m show ?thesis by (intro disjI2 exI [of _ m]) auto
      next
        case False
        then have "free_id base ex (numbered base n) (n + 1) = numbered base n" by (subst free_id.simps) simp
        then show ?thesis by (intro disjI2 exI [of _ n]) simp
      qed
    qed (auto intro!: exI [of _ n])
  qed (subst free_id.simps, simp)
qed

lemma free_id_bound:
  assumes "free_id base ex cand n \<noteq> cand"
  shows "\<exists>m. n \<le> m \<and> m \<le> n + length ex \<and> free_id base ex cand n = numbered base m"
proof -
  from free_id_form [of base ex cand n] assms obtain m where m: "n \<le> m" "free_id base ex cand n = numbered base m"
    "\<forall>k. n \<le> k \<longrightarrow> k < m \<longrightarrow> numbered base k \<in> set ex" by blast
  have "card {n..<m} = card (numbered base ` {n..<m})"
    by (rule card_image [symmetric]) (auto intro: inj_onI dest: numbered_inj)
  also have "\<dots> \<le> card (set ex)" using m(3) by (intro card_mono) auto
  also have "\<dots> \<le> length ex" by (rule card_length)
  finally show ?thesis using m by (intro exI [of _ m]) simp
qed

lemma rstrip_chars_cons: "c \<notin> set cs \<Longrightarrow> rstrip_chars cs (c # s) = c # rstrip_chars cs s"
  by (cases "\<forall>x \<in> set s. x \<in> set cs") (auto simp: rstrip_chars_def dropWhile_append1 dropWhile_append3)

lemma set_strip_chars: "set (strip_chars cs s) \<subseteq> set s"
  by (auto simp: strip_chars_def rstrip_chars_def lstrip_chars_def dest!: set_dropWhileD)

lemma storage_base_form: "\<exists>c u. storage_base dataset = c # u \<and> is_lower c \<and> list_all sid_char u \<and> length u \<le> 55"
proof -
  define base where "base = strip_chars ''-.'' (map (\<lambda>c. if sid_char c then c else CHR ''-'') (lower_str (last_part (rstrip_chars ''/'' dataset))))"
  have dash: "sid_char CHR ''-''" by (simp add: sid_char_def one_of_def)
  have "set base \<subseteq> set (map (\<lambda>c. if sid_char c then c else CHR ''-'') (lower_str (last_part (rstrip_chars ''/'' dataset))))"
    unfolding base_def by (rule set_strip_chars)
  then have sid: "list_all sid_char base" using dash by (auto simp: list_all_iff)
  have "\<exists>c u. (case base of [] \<Rightarrow> ''zfs-storage'' | c # _ \<Rightarrow> if is_lower c then base else strip_chars ''-'' (''zfs-'' @ base)) = c # u \<and>
      is_lower c \<and> list_all sid_char u"
  proof (cases base)
    case Nil
    then show ?thesis by (simp add: is_lower_def cc_def sid_char_def one_of_def)
  next
    case (Cons c u)
    show ?thesis
    proof (cases "is_lower c")
      case True
      with Cons sid show ?thesis by simp
    next
      case False
      have "strip_chars ''-'' (''zfs-'' @ base) = CHR ''z'' # rstrip_chars ''-'' (''fs-'' @ base)"
        by (simp add: strip_chars_def lstrip_chars_def rstrip_chars_cons)
      moreover have "list_all sid_char (rstrip_chars ''-'' (''fs-'' @ base))"
      proof -
        have "list_all sid_char (''fs-'' @ base)" using sid dash by (simp add: sid_char_def is_lower_def cc_def)
        moreover have "set (rstrip_chars ''-'' s) \<subseteq> set s" for s by (auto simp: rstrip_chars_def dest: set_dropWhileD)
        ultimately show ?thesis unfolding list_all_iff by blast
      qed
      moreover have "is_lower CHR ''z''" by (simp add: is_lower_def cc_def)
      ultimately show ?thesis using False Cons by simp
    qed
  qed
  then obtain c u where "storage_base dataset = take 56 (c # u)" "is_lower c" "list_all sid_char u"
    unfolding storage_base_def Let_def base_def [symmetric] by auto
  then show ?thesis by (auto simp: list_all_iff dest: in_set_takeD)
qed

lemma upto_all: "list_all P u \<Longrightarrow> length u \<le> n \<Longrightarrow> (rev u @ b, [], g) \<in> set (steps (upto n (Ch P)) (b, u, g))"
proof (induction n arbitrary: u b)
  case (Suc n)
  show ?case
  proof (cases u)
    case (Cons c v)
    with Suc.IH [of v "c # b"] Suc.prems show ?thesis by simp
  qed simp
qed simp

lemma storage_id_ok:
  assumes "is_lower c" "list_all sid_char u" "length u \<le> 62"
  shows "re_test STORAGE_ID_RE (c # u)"
proof -
  have "(rev u @ [c], [], []) \<in> set (steps (upto 62 (Ch sid_char)) ([c], u, []))" by (rule upto_all [OF assms(2,3)])
  moreover have "steps Eol (rev u @ [c], [], []) \<noteq> []" by simp
  ultimately have "steps (Seq (upto 62 (Ch sid_char)) Eol) ([c], u, []) \<noteq> []"
    unfolding steps.simps(3) concat_eq_Nil_conv set_map ball_simps by blast
  then have "steps (Seq (Ch is_lower) (Seq (upto 62 (Ch sid_char)) Eol)) ([], c # u, []) \<noteq> []"
    using assms(1) by (subst steps.simps(3)) (simp del: upto.simps steps.simps(3,9))
  then show ?thesis unfolding re_test_def STORAGE_ID_RE_def seqs.simps seq_ne(1) .
qed

lemma length_digits: "0 \<le> n \<Longrightarrow> n < 10 ^ Suc k \<Longrightarrow> length (show_digits n) \<le> Suc k"
proof (induction k arbitrary: n)
  case 0
  then show ?case by (subst show_digits.simps) simp
next
  case (Suc k)
  show ?case
  proof (cases "n < 10")
    case False
    have "n div 10 < 10 ^ Suc k" using Suc.prems by simp
    with Suc.IH [of "n div 10"] Suc.prems False show ?thesis by (subst show_digits.simps) simp
  qed (subst show_digits.simps, simp)
qed

text \<open>C34: The search for a free storage name ends, the name it suggests is not taken, and the creation of a storage accepts
  it, as long as fewer than a million names exist.\<close>

theorem suggested_id_is_usable:
  assumes "length existing < 10 ^ 6 - 2"
  shows "suggest_storage_id dataset existing \<notin> set existing \<and> re_test STORAGE_ID_RE (suggest_storage_id dataset existing)"
proof
  show "suggest_storage_id dataset existing \<notin> set existing" unfolding suggest_storage_id_def by (rule free_id_fresh)
  obtain c u where b: "storage_base dataset = c # u" "is_lower c" "list_all sid_char u" "length u \<le> 55"
    using storage_base_form by blast
  show "re_test STORAGE_ID_RE (suggest_storage_id dataset existing)"
  proof (cases "suggest_storage_id dataset existing = storage_base dataset")
    case True
    with b show ?thesis by (simp add: storage_id_ok)
  next
    case False
    from free_id_bound [of "storage_base dataset" existing "storage_base dataset" 2] False obtain m where
      m: "m \<le> 2 + length existing" "suggest_storage_id dataset existing = numbered (storage_base dataset) m"
      unfolding suggest_storage_id_def by blast
    have "length (show_nat m) \<le> 6" unfolding show_nat_def
      using length_digits [of "int m" 5] m(1) assms by simp
    moreover have "list_all sid_char (show_nat m)" using show_nat_digits [of m] by (simp add: list_all_iff sid_char_def)
    moreover have "suggest_storage_id dataset existing = c # (u @ ''-'' @ show_nat m)" using m(2) b(1) by (simp add: numbered_def)
    ultimately show ?thesis using b(2-4) by (auto intro!: storage_id_ok simp: sid_char_def one_of_def)
  qed
qed

theorem suggested_id_is_usable_witness:
  "suggest_storage_id ''rpool/Data 2'' [''data-2''] \<noteq> ''data-2'' \<and> re_test STORAGE_ID_RE (suggest_storage_id ''rpool/Data 2'' [''data-2''])"
  using suggested_id_is_usable [of "[''data-2'']" "''rpool/Data 2''"] by simp
section \<open>The rewritten configuration names the copies\<close>

lemma sub_with_prefix:
  "(\<And>u1 c u2. u = u1 @ c # u2 \<Longrightarrow> steps r (rev u1 @ b, c # u2 @ v, []) = []) \<Longrightarrow>
   sub_with_from r f b (u @ v) = u @ sub_with_from r f (rev u @ b) v"
proof (induction u arbitrary: b)
  case (Cons c u)
  have "steps r (b, c # u @ v, []) = []" using Cons.prems [of "[]" c u] by simp
  moreover have "sub_with_from r f (c # b) (u @ v) = u @ sub_with_from r f (rev u @ c # b) v"
  proof (rule Cons.IH)
    fix u1 d u2 assume "u = u1 @ d # u2"
    then show "steps r (rev u1 @ c # b, d # u2 @ v, []) = []" using Cons.prems [of "c # u1" d u2] by simp
  qed
  ultimately show ?case by (simp add: sub_with_skip)
qed simp

lemma steps_ahead_ch: "steps (Ahead (Ch P)) (b, s, g) = (if s \<noteq> [] \<and> P (hd s) then [(b, s, g)] else [])"
  by (cases s) auto

definition sep_char :: "char \<Rightarrow> bool" where
  "sep_char c = (is_space c \<or> one_of '':,'' c)"

lemma storage_ref_steps:
  "steps (seqs [lit old, chr CHR '':'', Ahead (Ch (\<lambda>c. \<not> is_space c))]) (b, s, g) =
   (if starts_with (old @ '':'') s \<and> drop (length old + 1) s \<noteq> [] \<and> \<not> is_space (hd (drop (length old + 1) s))
    then [(CHR '':'' # rev old @ b, drop (length old + 1) s, g)] else [])"
proof (cases "starts_with old s")
  case True
  then obtain t where t: "s = old @ t" by (auto simp: starts_with_iff)
  show ?thesis
  proof (cases t)
    case Nil
    then show ?thesis unfolding t seqs.simps steps.simps(3) steps_lit_app by (simp add: steps_chr starts_with_def)
  next
    case (Cons c u)
    then show ?thesis unfolding t seqs.simps steps.simps(3) steps_lit_app
      by (simp add: steps_chr starts_with_def steps_ahead_ch del: steps.simps(11))
  qed
next
  case False
  then have "\<not> starts_with (old @ '':'') s" by (auto simp: starts_with_iff)
  with False show ?thesis unfolding seqs.simps steps.simps(3) steps_lit by simp
qed

lemma storage_ref:
  "steps (STORAGE_REF_RE old) (b, s, []) =
   (if b = [] then map (\<lambda>(b', s', g). (b', s', g)) (steps (seqs [lit old, chr CHR '':'', Ahead (Ch (\<lambda>c. \<not> is_space c))]) (b, s, [(1, [])])) else []) @
   (case s of [] \<Rightarrow> [] | c # t \<Rightarrow> if sep_char c
      then steps (seqs [lit old, chr CHR '':'', Ahead (Ch (\<lambda>c. \<not> is_space c))]) (c # b, t, [(1, [c])]) else [])"
  unfolding STORAGE_REF_RE_def seqs.simps(3) steps.simps(3) [of "Grp 1 r" for r] sep_char_def
  by (cases s) (simp_all add: steps.simps(3) del: seqs.simps)

lemma storage_ref_none: "CHR '':'' \<notin> set s \<Longrightarrow> steps (STORAGE_REF_RE old) (b, s, []) = []"
proof -
  have n: "CHR '':'' \<notin> set t \<Longrightarrow> \<not> starts_with (old @ '':'') t" for t by (auto simp: starts_with_iff)
  assume "CHR '':'' \<notin> set s"
  then show ?thesis unfolding storage_ref storage_ref_steps by (cases s) (simp_all add: n)
qed

lemma cut_unique: "a @ c # x = b @ c # (y :: string) \<Longrightarrow> c \<notin> set a \<Longrightarrow> c \<notin> set b \<Longrightarrow> a = b"
  using split_once_Some [of c "a @ c # x" a x] split_once_Some [of c "a @ c # x" b y] by simp

lemma map_storage_line:
  assumes key: "list_all (\<lambda>c. is_lower c \<or> is_digit c) key" and st: "st \<noteq> []" "list_all (\<lambda>c. \<not> sep_char c) st" "st' \<noteq> []"
    and v: "v \<noteq> []" "\<not> is_space (hd v)" "CHR '':'' \<notin> set v"
  shows "map_storage (st, st') (key @ '': '' @ st @ '':'' @ v) = key @ '': '' @ st' @ '':'' @ v"
proof -
  let ?R = "STORAGE_REF_RE st" and ?f = "\<lambda>m. group_str 1 m @ st' @ '':''"
  have colon: "sep_char CHR '':''" "sep_char CHR '' ''" by (simp_all add: sep_char_def one_of_def is_space_def cc_def)
  have ks: "\<not> sep_char c" if "c \<in> set key" for c
    using that key by (auto simp: list_all_iff sep_char_def one_of_def is_space_def is_lower_def is_digit_def cc_def Let_def)
  have kc: "CHR '':'' \<notin> set key" using ks colon by blast
  have sc: "CHR '':'' \<notin> set st" "CHR '' '' \<notin> set st" using st(2) colon by (auto simp: list_all_iff)
  have skip: "steps ?R (rev u1 @ [], c # u2 @ '' '' @ st @ '':'' @ v, []) = []" if u: "key @ '':'' = u1 @ c # u2" for u1 c u2
  proof -
    have 1: "steps (seqs [lit st, chr CHR '':'', Ahead (Ch (\<lambda>c. \<not> is_space c))]) (b, c # u2 @ '' '' @ st @ '':'' @ v, g) = []"
      if "u1 = []" for b g
    proof -
      have e: "c # u2 @ '' '' @ st @ '':'' @ v = key @ CHR '':'' # CHR '' '' # st @ '':'' @ v" using u that by simp
      have "st = key" if "starts_with (st @ '':'') (key @ CHR '':'' # CHR '' '' # st @ '':'' @ v)"
      proof -
        from that obtain t where "st @ CHR '':'' # t = key @ CHR '':'' # CHR '' '' # st @ '':'' @ v" by (auto simp: starts_with_iff)
        from cut_unique [OF this sc(1) kc] show ?thesis .
      qed
      then show ?thesis unfolding e storage_ref_steps by (auto simp: is_space_def cc_def)
    qed
    have 2: "steps (seqs [lit st, chr CHR '':'', Ahead (Ch (\<lambda>c. \<not> is_space c))]) (c # b, u2 @ '' '' @ st @ '':'' @ v, g) = []"
      if "sep_char c" for b g
    proof -
      have "c \<notin> set key" using ks that by blast
      then have "u2 = []" using u by (cases u2 rule: rev_cases) auto
      moreover have "\<not> starts_with (st @ '':'') ('' '' @ st @ '':'' @ v)" using st(1) sc by (cases st) (auto simp: starts_with_def)
      ultimately show ?thesis unfolding storage_ref_steps by simp
    qed
    show ?thesis unfolding storage_ref using 1 2 by (auto simp del: seqs.simps)
  qed
  have hit: "steps ?R (rev (key @ '':'') @ [], '' '' @ st @ '':'' @ v, []) =
      [(CHR '':'' # rev st @ CHR '' '' # rev (key @ '':''), v, [(1, '' '')])]"
    unfolding storage_ref storage_ref_steps using colon v by (simp add: starts_with_def)
  have none: "sub_with_from ?R ?f b v = v" for b
    by (rule sub_with_none) (use v(3) in \<open>auto intro: storage_ref_none\<close>)
  have p: "sub_with_from ?R ?f [] ((key @ '':'') @ '' '' @ st @ '':'' @ v) =
      (key @ '':'') @ sub_with_from ?R ?f (rev (key @ '':'') @ []) ('' '' @ st @ '':'' @ v)"
    by (rule sub_with_prefix) (rule skip)
  have len: "length v < length ('' '' @ st @ '':'' @ v)" by simp
  have h: "sub_with_from ?R ?f (rev (key @ '':'') @ []) ('' '' @ st @ '':'' @ v) = ('' '' @ st' @ '':'') @ v"
    unfolding sub_with_hit [OF hit len] none by (simp add: group_str_def group_def)
  have "re_sub_with ?R ?f (key @ '': '' @ st @ '':'' @ v) = key @ '': '' @ st' @ '':'' @ v"
    using p unfolding h re_sub_with_def by simp
  then show ?thesis using st by (simp add: map_storage_def)
qed

section \<open>Renamed volumes\<close>

definition KINDS :: "string list" where
  "KINDS = [''vm'', ''subvol'', ''base'', ''basevol'']"

lemma vol_kind_steps:
  "steps (Seq VOL_KIND (lit w)) (b, s, []) =
   concat (map (\<lambda>k. if starts_with (k @ w) s then [(rev w @ rev k @ b, drop (length k + length w) s, [(1, k)])] else []) KINDS)"
proof -
  have k: "concat (map (steps (lit w)) (map (close_group 1 s) (steps (lit k) (b, s, [])))) =
      (if starts_with (k @ w) s then [(rev w @ rev k @ b, drop (length k + length w) s, [(1, k)])] else [])" for k
  proof (cases "starts_with k s")
    case True
    then obtain t where t: "s = k @ t" by (auto simp: starts_with_iff)
    have "starts_with (k @ w) (k @ t) = starts_with w t" by (auto simp: starts_with_iff)
    then show ?thesis unfolding t steps_lit_app by (simp add: steps_lit add.commute)
  next
    case False
    then have "\<not> starts_with (k @ w) s" by (auto simp: starts_with_iff)
    with False show ?thesis by (simp add: steps_lit)
  qed
  show ?thesis
    unfolding VOL_KIND_def KINDS_def steps.simps(3,4,7) map_append concat_append rest_of.simps
    by (simp only: k list.map concat.simps append_Nil2)
qed

lemma kinds_unique:
  assumes "k \<in> set KINDS" "j \<in> set KINDS" "starts_with (j @ CHR ''-'' # w) (k @ CHR ''-'' # w')"
  shows "j = k"
proof -
  obtain t where "k @ CHR ''-'' # w' = j @ CHR ''-'' # (w @ t)" using assms(3) by (auto simp: starts_with_iff)
  moreover have "CHR ''-'' \<notin> set k" "CHR ''-'' \<notin> set j" using assms(1,2) by (auto simp: KINDS_def)
  ultimately show ?thesis using cut_unique by metis
qed

lemma vol_kind_hit:
  assumes "k \<in> set KINDS"
  shows "steps (Seq VOL_KIND (lit (CHR ''-'' # w))) (b, k @ CHR ''-'' # w @ t, []) =
    [(rev w @ CHR ''-'' # rev k @ b, t, [(1, k)])]"
proof -
  have s: "starts_with (j @ CHR ''-'' # w) (k @ CHR ''-'' # w @ t) \<longleftrightarrow> j = k" if "j \<in> set KINDS" for j
    using kinds_unique [OF assms that] by (auto simp: starts_with_iff)
  have d: "distinct KINDS" by (simp add: KINDS_def)
  have "concat (map (\<lambda>j. if j = k then [X] else []) xs) = (if k \<in> set xs then [X] else [])" if "distinct xs" for xs and X :: mstate
    using that by (induction xs) auto
  from this [OF d] assms have c: "concat (map (\<lambda>j. if j = k then [X] else []) KINDS) = [X]" for X :: mstate by simp
  have "steps (Seq VOL_KIND (lit (CHR ''-'' # w))) (b, k @ CHR ''-'' # w @ t, []) =
      concat (map (\<lambda>j. if j = k then [(rev w @ CHR ''-'' # rev k @ b, t, [(1, k)])] else []) KINDS)"
    unfolding vol_kind_steps by (intro arg_cong [of _ _ concat] map_cong refl) (auto simp: s)
  then show ?thesis unfolding c .
qed

lemma vol_kind_miss: "\<not> contains_str w s \<Longrightarrow> steps (Seq VOL_KIND (lit w)) (b, s, []) = []"
proof -
  assume "\<not> contains_str w s"
  then have "\<not> starts_with (k @ w) s" for k unfolding contains_str_iff by (auto simp: starts_with_iff)
  then show ?thesis unfolding vol_kind_steps by simp
qed
lemma vol_kind_none: "(\<And>j. j \<in> set KINDS \<Longrightarrow> \<not> starts_with (j @ w) s) \<Longrightarrow> steps (Seq VOL_KIND (lit w)) (b, s, []) = []"
  unfolding vol_kind_steps by simp

definition volume_name :: "string \<Rightarrow> string \<Rightarrow> string \<Rightarrow> string" where
  "volume_name k vmid n = k @ CHR ''-'' # (vmid @ ''-disk-'') @ n"

lemma contains_mid: "contains_str w (a @ w @ b)"
  unfolding contains_str_iff by blast

lemma disk_word: "contains_str (CHR ''-'' # vmid @ ''-disk-'') s \<Longrightarrow> contains_str ''-disk-'' s"
proof -
  assume "contains_str (CHR ''-'' # vmid @ ''-disk-'') s"
  then obtain a b where "s = a @ (CHR ''-'' # vmid @ ''-disk-'') @ b" unfolding contains_str_iff by blast
  then have "s = (a @ CHR ''-'' # vmid) @ ''-disk-'' @ b" by simp
  then show ?thesis by (simp only: contains_mid)
qed

lemma volume_ref_steps:
  "steps (VOLUME_REF_RE vmid) (b, s, []) =
   (if b \<noteq> [] \<and> word_char (hd b) then [] else steps (Seq VOL_KIND (lit (CHR ''-'' # vmid @ ''-disk-''))) (b, s, []))"
  by (cases b) (simp_all add: VOLUME_REF_RE_def word_start_def del: lit.simps)

lemma rename_volumes_line:
  assumes k: "k \<in> set KINDS" and pre: "\<not> contains_str ''-disk-'' pre" and old: "list_all is_digit old" "old \<noteq> []"
    and new: "new \<noteq> []" and tail: "\<not> contains_str ''-disk-'' tail"
  shows "rename_volumes old new (pre @ CHR '':'' # volume_name k old tail) = pre @ CHR '':'' # volume_name k new tail"
proof (cases "old = new")
  case False
  let ?w = "CHR ''-'' # old @ ''-disk-''" and ?R = "VOLUME_REF_RE old"
  let ?f = "\<lambda>m. group_str 1 m @ ''-'' @ new @ ''-disk-''"
  have colon: "CHR '':'' \<notin> set (j @ ?w)" if "j \<in> set KINDS" for j
    using that old(1) by (auto simp: KINDS_def list_all_iff is_digit_def cc_def)
  have skip: "steps ?R (rev u1 @ [], c # u2 @ volume_name k old tail, []) = []" if u: "pre @ '':'' = u1 @ c # u2" for u1 c u2
  proof -
    obtain y where y: "c # u2 = y @ '':''" "pre = u1 @ y"
      using u by (metis append_butlast_last_id append_is_Nil_conv butlast_append butlast_snoc last_appendR last_snoc list.distinct(1))
    have no: "\<not> starts_with (j @ ?w) (c # u2 @ volume_name k old tail)" if j: "j \<in> set KINDS" for j
    proof
      assume "starts_with (j @ ?w) (c # u2 @ volume_name k old tail)"
      then obtain t where "(j @ ?w) @ t = y @ CHR '':'' # volume_name k old tail"
        using y(1) unfolding starts_with_iff by (metis append_Cons append_Nil append_assoc)
      then obtain us where "(j @ ?w) @ us = y \<and> t = us @ CHR '':'' # volume_name k old tail \<or>
          j @ ?w = y @ us \<and> us @ t = CHR '':'' # volume_name k old tail"
        unfolding append_eq_append_conv2 by blast
      then show False
      proof (elim disjE conjE)
        assume "(j @ ?w) @ us = y"
        then have "pre = (u1 @ j) @ ?w @ us" using y(2) by simp
        then have "contains_str ?w pre" by (simp only: contains_mid)
        with disk_word pre show False by blast
      next
        assume a: "j @ ?w = y @ us" "us @ t = CHR '':'' # volume_name k old tail"
        show False
        proof (cases us)
          case Nil
          with a(1) y(2) have "pre = (u1 @ j) @ ?w @ []" by simp
          then have "contains_str ?w pre" by (simp only: contains_mid)
          with disk_word pre show False by blast
        next
          case (Cons d ds)
          with a have "CHR '':'' \<in> set (j @ ?w)" by auto
          with colon [OF j] show False by blast
        qed
      qed
    qed
    have "steps (Seq VOL_KIND (lit ?w)) (b, c # u2 @ volume_name k old tail, []) = []" for b
      by (rule vol_kind_none) (rule no)
    then show ?thesis unfolding volume_ref_steps by (simp only: if_cancel)
  qed
  have nw: "\<not> word_char CHR '':''" by (simp add: word_char_def is_alnum_def is_lower_def is_upper_def is_digit_def cc_def)
  have hit: "steps ?R (rev (pre @ '':'') @ [], volume_name k old tail, []) =
      [(rev (old @ ''-disk-'') @ CHR ''-'' # rev k @ rev (pre @ '':'') @ [], tail, [(1, k)])]"
    unfolding volume_ref_steps volume_name_def vol_kind_hit [OF k, of "old @ ''-disk-''"] using nw by simp
  have none: "sub_with_from ?R ?f b tail = tail" for b
  proof (rule sub_with_none)
    fix u v assume "tail = u @ v"
    with tail have "\<not> contains_str ''-disk-'' v" unfolding contains_str_iff by (metis append_assoc)
    then have "\<not> contains_str ?w v" using disk_word by blast
    then have "steps (Seq VOL_KIND (lit ?w)) (rev u @ b, v, []) = []" by (rule vol_kind_miss)
    then show "steps ?R (rev u @ b, v, []) = []" unfolding volume_ref_steps by (simp only: if_cancel)
  qed
  have len: "length tail < length (volume_name k old tail)" by (simp add: volume_name_def)
  have p: "sub_with_from ?R ?f [] ((pre @ '':'') @ volume_name k old tail) =
      (pre @ '':'') @ sub_with_from ?R ?f (rev (pre @ '':'') @ []) (volume_name k old tail)"
    by (rule sub_with_prefix) (rule skip)
  have h: "sub_with_from ?R ?f (rev (pre @ '':'') @ []) (volume_name k old tail) = volume_name k new tail"
    unfolding sub_with_hit [OF hit len] none by (simp add: group_str_def group_def volume_name_def)
  have "re_sub_with ?R ?f (pre @ CHR '':'' # volume_name k old tail) = pre @ CHR '':'' # volume_name k new tail"
    using p unfolding h re_sub_with_def by simp
  with False old new show ?thesis by (simp add: rename_volumes_def)
qed (simp add: rename_volumes_def)

lemma last_part_vol: "CHR ''/'' \<notin> set v \<Longrightarrow> last_part (p @ CHR ''/'' # v) = v"
proof -
  assume "CHR ''/'' \<notin> set v"
  then have "takeWhile (\<lambda>c. c \<noteq> CHR ''/'') (rev v) = rev v" by (intro takeWhile_eq_all_conv [THEN iffD2] ballI) auto
  moreover have "takeWhile (\<lambda>c. c \<noteq> CHR ''/'') (rev (p @ CHR ''/'' # v)) = takeWhile (\<lambda>c. c \<noteq> CHR ''/'') (rev v)"
    by (simp add: takeWhile_tail)
  ultimately show ?thesis unfolding last_part_def by (simp only: rev_rev_ident)
qed

lemma volume_basename_vol:
  assumes "CHR ''/'' \<notin> set v" "CHR '':'' \<notin> set v"
  shows "volume_basename (p @ CHR ''/'' # v) = v"
proof (cases "split_once CHR '':'' (p @ CHR ''/'' # v)")
  case None
  then show ?thesis by (simp add: volume_basename_def last_part_vol assms)
next
  case (Some ab)
  then obtain a c where s: "p @ CHR ''/'' # v = a @ CHR '':'' # c" "ab = (a, c)" using split_once_Some by (cases ab) blast
  then obtain us where "p = a @ us \<and> us @ CHR ''/'' # v = CHR '':'' # c \<or> p @ us = a \<and> CHR ''/'' # v = us @ CHR '':'' # c"
    unfolding append_eq_append_conv2 by blast
  then show ?thesis
  proof (elim disjE conjE)
    assume u: "us @ CHR ''/'' # v = CHR '':'' # c"
    then obtain us' where "c = us' @ CHR ''/'' # v" by (cases us) auto
    with Some s show ?thesis by (simp add: volume_basename_def last_part_vol assms)
  next
    assume "CHR ''/'' # v = us @ CHR '':'' # c"
    with assms show ?thesis by (cases us) auto
  qed
qed

lemma rename_ref_steps:
  "steps (RENAME_RE vmid) (b, s, []) = (if b = [] then steps (Seq VOL_KIND (lit (CHR ''-'' # vmid @ ''-''))) (b, s, []) else [])"
  by (simp add: RENAME_RE_def del: lit.simps)

lemma target_basename_vol:
  assumes k: "k \<in> set KINDS" and old: "list_all is_digit old" and n: "list_all is_digit n"
  shows "target_basename old (Some new) (p @ CHR ''/'' # volume_name k old n) = (if new \<noteq> [] then volume_name k new n else volume_name k old n)"
proof -
  let ?v = "volume_name k old n"
  have chars: "c = CHR ''-'' \<or> c \<in> set ''vmsubolaedik'' \<or> is_digit c" if "c \<in> set ?v" for c
    using that k old n by (auto simp: volume_name_def KINDS_def list_all_iff)
  have "\<not> is_digit CHR ''/''" "\<not> is_digit CHR '':''" by (simp_all add: is_digit_def cc_def)
  then have "CHR ''/'' \<notin> set ?v" "CHR '':'' \<notin> set ?v" using chars by fastforce+
  then have base: "volume_basename (p @ CHR ''/'' # ?v) = ?v" by (rule volume_basename_vol)
  have v: "?v = k @ CHR ''-'' # (old @ ''-'') @ ''disk-'' @ n" by (simp add: volume_name_def)
  have hit: "steps (RENAME_RE old) ([], ?v, []) = [(rev (old @ ''-'') @ CHR ''-'' # rev k @ [], ''disk-'' @ n, [(1, k)])]"
    unfolding rename_ref_steps v using vol_kind_hit [OF k, of "old @ ''-''" "[]" "''disk-'' @ n"] by simp
  have none: "sub_with_from (RENAME_RE old) f (x # b) s = s" for f x b s
    by (rule sub_with_none) (simp add: rename_ref_steps)
  have len: "length (''disk-'' @ n) < length ?v" by (simp add: v)
  have "re_sub_with (RENAME_RE old) (\<lambda>m. group_str 1 m @ ''-'' @ new @ ''-'') ?v = volume_name k new n"
    unfolding re_sub_with_def sub_with_hit [OF hit len]
    by (cases "rev (old @ ''-'') @ CHR ''-'' # rev k @ []") (simp_all add: none group_str_def group_def volume_name_def)
  then show ?thesis by (cases "new = old") (simp_all add: target_basename_def base Let_def)
qed

text \<open>Where no bridge is named, the map of bridges changes nothing.\<close>

lemma map_bridge_none: "\<not> contains_str ''bridge='' line \<Longrightarrow> map_bridge on line = line"
proof -
  assume n: "\<not> contains_str ''bridge='' line"
  have "sub_from (BRIDGE_REF_RE old) repl b s = s" if "\<not> contains_str ''bridge='' s" for old repl b s
    using that
  proof (induction s arbitrary: b)
    case Nil
    then show ?case by (subst sub_from.simps) (simp add: BRIDGE_REF_RE_def steps_lit starts_with_def del: lit.simps)
  next
    case (Cons c s)
    have "\<not> starts_with (''bridge='' @ old) (c # s)"
    proof
      assume "starts_with (''bridge='' @ old) (c # s)"
      then obtain t where "c # s = [] @ ''bridge='' @ old @ t" by (auto simp: starts_with_iff)
      then have "contains_str ''bridge='' (c # s)" unfolding contains_str_iff by blast
      with Cons.prems show False by blast
    qed
    then have "steps (BRIDGE_REF_RE old) (b, c # s, []) = []" unfolding BRIDGE_REF_RE_def steps.simps(3) steps_lit by simp
    moreover have "\<not> contains_str ''bridge='' s" using Cons.prems by simp
    ultimately show ?case using Cons.IH by (subst sub_from.simps) simp
  qed
  with n show ?thesis by (simp add: map_bridge_def re_sub_def split: prod.split)
qed

lemma fold_map_bridge_none: "\<not> contains_str ''bridge='' line \<Longrightarrow> fold map_bridge bs line = line"
  by (induction bs) (simp_all add: map_bridge_none)

text \<open>C21: The rewritten configuration of a disk names the copy the transfer makes: a line that names a volume
  of the usual form on a storage names, after the rewriting with that storage mapped and the number changed, the mapped storage
  and the very name under which the plan puts the disk on the target; the key and the options stay as they were.\<close>

theorem rewritten_config_names_the_copy:
  assumes key: "list_all (\<lambda>c. is_lower c \<or> is_digit c) key"
    and st: "list_all (\<lambda>c. \<not> sep_char c) st" "st \<noteq> []" "st' \<noteq> []"
    and k: "k \<in> set KINDS" and old: "list_all is_digit old" "old \<noteq> []" and new: "list_all is_digit new" "new \<noteq> []"
    and n: "list_all is_digit n"
    and free: "CHR '':'' \<notin> set rest" "\<not> contains_str ''-disk-'' (n @ rest)" "\<not> contains_str ''-disk-'' (key @ '': '' @ st')"
      "\<not> contains_str ''bridge='' (key @ '': '' @ st' @ CHR '':'' # volume_name k old (n @ rest))"
  shows "rewrite_line [(st, st')] bridges old new (key @ '': '' @ st @ CHR '':'' # volume_name k old (n @ rest)) =
    key @ '': '' @ st' @ CHR '':'' # target_basename old (Some new) (pool @ CHR ''/'' # volume_name k old n) @ rest"
proof -
  let ?v = "volume_name k old (n @ rest)"
  have "\<not> is_digit CHR '':''" by (simp add: is_digit_def cc_def)
  then have v: "CHR '':'' \<notin> set ?v" using k old(1) n free(1) by (auto simp: volume_name_def KINDS_def list_all_iff)
  have h: "?v \<noteq> []" "\<not> is_space (hd ?v)" using k by (auto simp: volume_name_def KINDS_def is_space_def cc_def)
  have "map_storage (st, st') (key @ '': '' @ st @ '':'' @ ?v) = key @ '': '' @ st' @ '':'' @ ?v"
    by (rule map_storage_line [OF key st(2) st(1) st(3) h v])
  then have "rewrite_line [(st, st')] bridges old new (key @ '': '' @ st @ CHR '':'' # ?v) =
      rename_volumes old new ((key @ '': '' @ st') @ CHR '':'' # ?v)"
    using fold_map_bridge_none [OF free(4), of bridges] by (simp add: rewrite_line_def)
  also have "\<dots> = (key @ '': '' @ st') @ CHR '':'' # volume_name k new (n @ rest)"
    by (rule rename_volumes_line [OF k free(3) old new(2) free(2)])
  finally show ?thesis using new(2) target_basename_vol [OF k old(1) n, of new pool] by (simp add: volume_name_def)
qed

theorem rewritten_config_names_the_copy_witness:
  "rewrite_line [(''local-zfs'', ''tank-zfs'')] [(''vmbr0'', ''vmbr1'')] ''100'' ''110'' ''scsi0: local-zfs:vm-100-disk-1,size=8G'' =
   ''scsi0: tank-zfs:'' @ target_basename ''100'' (Some ''110'') ''rpool/data/vm-100-disk-1'' @ '',size=8G''"
proof -
  have c: "list_all (\<lambda>c. is_lower c \<or> is_digit c) ''scsi0''" "list_all (\<lambda>c. \<not> sep_char c) ''local-zfs''" "''local-zfs'' \<noteq> []"
    "''tank-zfs'' \<noteq> []" "''vm'' \<in> set KINDS" "list_all is_digit ''100''" "''100'' \<noteq> []" "list_all is_digit ''110''" "''110'' \<noteq> []"
    "list_all is_digit ''1''" "CHR '':'' \<notin> set '',size=8G''" "\<not> contains_str ''-disk-'' (''1'' @ '',size=8G'')"
    "\<not> contains_str ''-disk-'' (''scsi0'' @ '': '' @ ''tank-zfs'')"
    "\<not> contains_str ''bridge='' (''scsi0'' @ '': '' @ ''tank-zfs'' @ CHR '':'' # volume_name ''vm'' ''100'' (''1'' @ '',size=8G''))"
    by code_simp+
  from rewritten_config_names_the_copy [OF c, of "[(''vmbr0'', ''vmbr1'')]" "''rpool/data''"]
  show ?thesis by (simp add: volume_name_def)
qed
section \<open>Corners of the rewriting\<close>

text \<open>The final newline is dropped where there is one and added where there is none.\<close>

lemma final_newline_inverted:
  "rewrite_guest_config (''cores: 2'' @ [newline]) [] [] [] [] = ''cores: 2''"
  "rewrite_guest_config ''cores: 2'' [] [] [] [] = ''cores: 2'' @ [newline]"
  by code_simp+

text \<open>A volume that is no numbered disk is renamed on the target but not in the configuration.\<close>

lemma other_volume_not_renamed:
  "rewrite_line [] [] ''100'' ''110'' ''mp0: tank:subvol-100-data,mp=/data'' = ''mp0: tank:subvol-100-data,mp=/data''"
  "target_basename ''100'' (Some ''110'') ''tank/subvol-100-data'' = ''subvol-110-data''"
  by code_simp+

text \<open>The entries of a storage map apply one after the other, so two storages that swap places end as one.\<close>

lemma storage_swap_collapses:
  "rewrite_line [(''a'', ''b''), (''b'', ''a'')] [] [] [] ''scsi0: a:vm-1-disk-0'' = ''scsi0: a:vm-1-disk-0''"
  "rewrite_line [(''a'', ''b''), (''b'', ''a'')] [] [] [] ''scsi1: b:vm-1-disk-1'' = ''scsi1: a:vm-1-disk-1''"
  by code_simp+

end
