(* ===== verification/Remote.thy ===== *)
theory Remote
  imports PyVal "HOL-Library.State_Monad"
begin

text \<open>
  Code that talks to hosts, in the state monad of the library. The outside world is the list of what has happened
  so far and a function that answers the next command; the function may look at everything that happened
  before, so every deterministic environment is one, hosts that fail or come back included. A statement
  over all worlds is a statement over all environments.

  \<open>does m Q\<close> says that in every world the operation \<open>m\<close> only adds to the history, and that its result and
  what it adds satisfy \<open>Q\<close>. The rules in \<open>does_rules\<close> follow the structure of the code.
\<close>

named_theorems does_rules "what an operation adds to the history, by the structure of the code"

datatype event =
    Ran host string cmd_result
  | Said string "bool option"
  | Forgot string
  | Noted string string string string

record world =
  w_log :: "event list"
  w_answer :: "event list \<Rightarrow> host \<Rightarrow> string \<Rightarrow> cmd_result"

type_synonym 'a act = "(world, 'a) state"

definition run_command :: "host \<Rightarrow> string \<Rightarrow> cmd_result act" where
  "run_command h cmd = State (\<lambda>w. let r = w_answer w (w_log w) h cmd in (r, w\<lparr>w_log := w_log w @ [Ran h cmd r]\<rparr>))"

text \<open>A message to the registry of background tasks.\<close>

definition say :: "string \<Rightarrow> bool option \<Rightarrow> unit act" where
  "say msg flag = State (\<lambda>w. ((), w\<lparr>w_log := w_log w @ [Said msg flag]\<rparr>))"

text \<open>The cached results of an address are dropped.\<close>

definition forget :: "host \<Rightarrow> unit act" where
  "forget h = State (\<lambda>w. ((), w\<lparr>w_log := w_log w @ [Forgot (ho_address h)]\<rparr>))"

text \<open>A notification of a kind, with its title, its text and the address it is about.\<close>

definition notify :: "string \<Rightarrow> string \<Rightarrow> string \<Rightarrow> host \<Rightarrow> unit act" where
  "notify kind title msg h = State (\<lambda>w. ((), w\<lparr>w_log := w_log w @ [Noted kind title msg (ho_address h)]\<rparr>))"

fun for_each :: "('a \<Rightarrow> 'b act) \<Rightarrow> 'a list \<Rightarrow> 'b list act" where
  "for_each f [] = State_Monad.return []"
| "for_each f (x # xs) = do { y \<leftarrow> f x; ys \<leftarrow> for_each f xs; State_Monad.return (y # ys) }"

definition does :: "'a act \<Rightarrow> ('a \<Rightarrow> event list \<Rightarrow> bool) \<Rightarrow> bool" where
  "does m Q = (\<forall>w. \<exists>es. snd (run_state m w) = w\<lparr>w_log := w_log w @ es\<rparr> \<and> Q (fst (run_state m w)) es)"

lemma doesI: "(\<And>w. \<exists>es. snd (run_state m w) = w\<lparr>w_log := w_log w @ es\<rparr> \<and> Q (fst (run_state m w)) es) \<Longrightarrow> does m Q"
  by (simp add: does_def)

lemma doesD: "does m Q \<Longrightarrow> \<exists>es. snd (run_state m w) = w\<lparr>w_log := w_log w @ es\<rparr> \<and> Q (fst (run_state m w)) es"
  by (simp add: does_def)

lemma does_weaken: "does m P \<Longrightarrow> (\<And>x es. P x es \<Longrightarrow> Q x es) \<Longrightarrow> does m Q"
  unfolding does_def by blast

lemma does_conj: "does m P \<Longrightarrow> does m Q \<Longrightarrow> does m (\<lambda>x es. P x es \<and> Q x es)"
proof (rule doesI)
  fix w assume "does m P" "does m Q"
  from doesD [OF this(1), of w] doesD [OF this(2), of w] obtain es fs where
    e: "snd (run_state m w) = w\<lparr>w_log := w_log w @ es\<rparr>" "P (fst (run_state m w)) es"
    and f: "snd (run_state m w) = w\<lparr>w_log := w_log w @ fs\<rparr>" "Q (fst (run_state m w)) fs" by blast
  from e(1) f(1) have "w_log (w\<lparr>w_log := w_log w @ es\<rparr>) = w_log (w\<lparr>w_log := w_log w @ fs\<rparr>)" by simp
  then have "es = fs" by simp
  with e f show "\<exists>es. snd (run_state m w) = w\<lparr>w_log := w_log w @ es\<rparr> \<and>
      P (fst (run_state m w)) es \<and> Q (fst (run_state m w)) es" by blast
qed

lemma does_return [does_rules]: "Q x [] \<Longrightarrow> does (State_Monad.return x) Q"
  by (rule doesI, rule exI [of _ "[]"]) (simp add: State_Monad.return_def)

lemma does_run [does_rules]: "(\<And>r. Q r [Ran h c r]) \<Longrightarrow> does (run_command h c) Q"
  by (auto simp: does_def run_command_def Let_def)

lemma does_say [does_rules]: "Q () [Said msg flag] \<Longrightarrow> does (say msg flag) Q"
  by (auto simp: does_def say_def)

lemma does_forget [does_rules]: "Q () [Forgot (ho_address h)] \<Longrightarrow> does (forget h) Q"
  by (auto simp: does_def forget_def)

lemma does_notify [does_rules]: "Q () [Noted kind title msg (ho_address h)] \<Longrightarrow> does (notify kind title msg h) Q"
  by (auto simp: does_def notify_def)

lemma run_bind: "run_state (State_Monad.bind m f) w = (case run_state m w of (x, w1) \<Rightarrow> run_state (f x) w1)"
  by (simp add: State_Monad.bind_def split: prod.split)

lemma does_bind:
  assumes "does m P" and "\<And>x es. P x es \<Longrightarrow> does (f x) (\<lambda>y fs. Q y (es @ fs))"
  shows "does (State_Monad.bind m f) Q"
proof (rule doesI)
  fix w
  obtain x w1 where m: "run_state m w = (x, w1)" by (cases "run_state m w")
  with doesD [OF assms(1), of w] obtain es where es: "w1 = w\<lparr>w_log := w_log w @ es\<rparr>" "P x es" by auto
  from doesD [OF assms(2) [OF es(2)], of w1] obtain fs where
    "snd (run_state (f x) w1) = w1\<lparr>w_log := w_log w1 @ fs\<rparr>" "Q (fst (run_state (f x) w1)) (es @ fs)" by blast
  then show "\<exists>es. snd (run_state (State_Monad.bind m f) w) = w\<lparr>w_log := w_log w @ es\<rparr> \<and>
      Q (fst (run_state (State_Monad.bind m f) w)) es"
    by (intro exI [of _ "es @ fs"]) (simp add: run_bind m es(1))
qed

text \<open>A command followed by the rest.\<close>

lemma does_run_bind [does_rules]:
  "(\<And>r. does (f r) (\<lambda>y fs. Q y (Ran h c r # fs))) \<Longrightarrow> does (State_Monad.bind (run_command h c) f) Q"
  by (rule does_bind [of _ "\<lambda>r es. es = [Ran h c r]"]) (auto intro: does_run)

lemma does_say_bind [does_rules]:
  "does (f ()) (\<lambda>y fs. Q y (Said msg flag # fs)) \<Longrightarrow> does (State_Monad.bind (say msg flag) f) Q"
  by (rule does_bind [of _ "\<lambda>r es. es = [Said msg flag]"]) (auto intro: does_say)

lemma does_forget_bind [does_rules]:
  "does (f ()) (\<lambda>y fs. Q y (Forgot (ho_address h) # fs)) \<Longrightarrow> does (State_Monad.bind (forget h) f) Q"
  by (rule does_bind [of _ "\<lambda>r es. es = [Forgot (ho_address h)]"]) (auto intro: does_forget)

lemma does_notify_bind [does_rules]:
  "does (f ()) (\<lambda>y fs. Q y (Noted kind title msg (ho_address h) # fs)) \<Longrightarrow>
   does (State_Monad.bind (notify kind title msg h) f) Q"
  by (rule does_bind [of _ "\<lambda>r es. es = [Noted kind title msg (ho_address h)]"]) (auto intro: does_notify)

lemma does_return_bind [does_rules]: "does (f x) Q \<Longrightarrow> does (State_Monad.bind (State_Monad.return x) f) Q"
  by (rule does_bind [of _ "\<lambda>r es. r = x \<and> es = []"]) (auto intro: does_return)

lemma does_bind_assoc: "does (State_Monad.bind m (\<lambda>x. State_Monad.bind (f x) g)) Q \<Longrightarrow> does (State_Monad.bind (State_Monad.bind m f) g) Q"
  by (simp only: State_Monad.bind_assoc)

lemma does_if [does_rules]: "(b \<Longrightarrow> does m Q) \<Longrightarrow> (\<not> b \<Longrightarrow> does n Q) \<Longrightarrow> does (if b then m else n) Q"
  by simp

lemma does_option [does_rules]:
  "(v = None \<Longrightarrow> does m Q) \<Longrightarrow> (\<And>x. v = Some x \<Longrightarrow> does (f x) Q) \<Longrightarrow>
   does (case v of None \<Rightarrow> m | Some x \<Rightarrow> f x) Q"
  by (cases v) simp_all

lemma does_sum [does_rules]:
  "(\<And>e. v = Inl e \<Longrightarrow> does (m e) Q) \<Longrightarrow> (\<And>x. v = Inr x \<Longrightarrow> does (f x) Q) \<Longrightarrow>
   does (case v of Inl e \<Rightarrow> m e | Inr x \<Rightarrow> f x) Q"
  by (cases v) simp_all

lemma does_prod [does_rules]: "(\<And>a b. p = (a, b) \<Longrightarrow> does (f a b) Q) \<Longrightarrow> does (case p of (a, b) \<Rightarrow> f a b) Q"
  by (cases p) simp

lemma does_for_each:
  assumes "\<And>x. x \<in> set xs \<Longrightarrow> does (f x) (P x)"
  shows "does (for_each f xs) (\<lambda>ys es. \<exists>ess. es = concat ess \<and> length ys = length xs \<and> length ess = length xs \<and>
    (\<forall>i < length xs. P (xs ! i) (ys ! i) (ess ! i)))"
  using assms
proof (induction xs)
  case Nil
  show ?case by (auto intro: does_return)
next
  case (Cons x xs)
  show ?case unfolding for_each.simps
  proof (rule does_bind [OF Cons.prems [of x]], simp, rule does_bind [OF Cons.IH], simp add: Cons.prems, rule does_return)
    fix y es ys fs
    assume y: "P x y es" and "\<exists>ess. fs = concat ess \<and> length ys = length xs \<and> length ess = length xs \<and>
        (\<forall>i < length xs. P (xs ! i) (ys ! i) (ess ! i))"
    then obtain ess where "fs = concat ess" "length ys = length xs" "length ess = length xs"
      "\<forall>i < length xs. P (xs ! i) (ys ! i) (ess ! i)" by blast
    with y show "\<exists>ess. es @ fs @ [] = concat ess \<and> length (y # ys) = length (x # xs) \<and> length ess = length (x # xs) \<and>
        (\<forall>i < length (x # xs). P ((x # xs) ! i) ((y # ys) ! i) (ess ! i))"
      by (intro exI [of _ "es # ess"]) (auto simp: nth_Cons split: nat.split)
  qed
qed

lemma does_for_each_all:
  assumes "\<And>x. x \<in> set xs \<Longrightarrow> does (f x) (\<lambda>_ es. list_all E es)"
  shows "does (for_each f xs) (\<lambda>_ es. list_all E es)"
proof (rule does_weaken [OF does_for_each [OF assms]], assumption)
  fix ys es
  assume "\<exists>ess. es = concat ess \<and> length ys = length xs \<and> length ess = length xs \<and>
    (\<forall>i < length xs. list_all E (ess ! i))"
  then obtain ess where e: "es = concat ess" "length ess = length xs" "\<forall>i < length xs. list_all E (ess ! i)" by blast
  then have "\<forall>l \<in> set ess. list_all E l" by (metis in_set_conv_nth)
  then show "list_all E es" unfolding e(1) by (auto simp: list_all_iff)
qed

text \<open>A feature of each result that its input determines.\<close>

lemma does_for_each_map:
  assumes "\<And>x. does (f x) (\<lambda>y es. g y = k x)"
  shows "does (for_each f xs) (\<lambda>ys es. map g ys = map k xs)"
proof (induction xs)
  case (Cons x xs)
  show ?case unfolding for_each.simps by (intro does_bind [OF assms] does_bind [OF Cons.IH] does_return) simp
qed (auto intro: does_return)

text \<open>The commands of a history.\<close>

definition commands :: "event list \<Rightarrow> (host \<times> string) list" where
  "commands es = List.map_filter (\<lambda>e. case e of Ran h c r \<Rightarrow> Some (h, c) | _ \<Rightarrow> None) es"

lemma commands_simps [simp]:
  "commands [] = []" "commands (Ran h c r # es) = (h, c) # commands es" "commands (Said m f # es) = commands es"
  "commands (Forgot a # es) = commands es" "commands (Noted k t m a # es) = commands es"
  "commands (es @ fs) = commands es @ commands fs"
  by (simp_all add: commands_def List.map_filter_def)

text \<open>A world with no history.\<close>

definition fresh :: "(event list \<Rightarrow> host \<Rightarrow> string \<Rightarrow> cmd_result) \<Rightarrow> world" where
  "fresh ans = \<lparr>w_log = [], w_answer = ans\<rparr>"

text \<open>A host whose answers depend on how a command begins.\<close>

fun answer_by :: "(string \<times> cmd_result) list \<Rightarrow> event list \<Rightarrow> host \<Rightarrow> string \<Rightarrow> cmd_result" where
  "answer_by [] es h c = cmd_fail ''unknown command''"
| "answer_by ((p, r) # rs) es h c = (if starts_with p c then r else answer_by rs es h c)"

definition result_of :: "'a act \<Rightarrow> world \<Rightarrow> 'a" where
  "result_of m w = fst (run_state m w)"

definition history_of :: "'a act \<Rightarrow> world \<Rightarrow> event list" where
  "history_of m w = drop (length (w_log w)) (w_log (snd (run_state m w)))"

lemma does_outcome: "does m Q \<Longrightarrow> Q (result_of m w) (history_of m w)"
  using doesD [of m Q w] by (auto simp: result_of_def history_of_def)

end
