(* ===== verification/Migrate.thy ===== *)
theory Migrate
  imports MigrateConfig Remote Validators Base64
begin

text \<open>
  \<open>app/migrate.py\<close>, the part that talks to the two hosts: what is read from them, the checks before a
  migration, the transfer, the cutover, the way back and the cleanup; \<open>restore_guest_config\<close> is the writer of
  \<open>app/dr.py\<close> that the cutover uses. The time limits of the commands are left out. Messages to the user
  have ASCII dashes and arrows. A background task is its job, run by \<open>app/tasks.py\<close>.
\<close>

section \<open>Commands\<close>

definition SSH_OPTS :: string where
  "SSH_OPTS = ''-o BatchMode=yes -o StrictHostKeyChecking=yes -o ConnectTimeout=15''"

definition hostref :: "host \<Rightarrow> string \<times> string \<times> int" where
  "hostref h = (ho_address h, if ho_user h = [] then ''root'' else ho_user h, if ho_port h = 0 then 22 else ho_port h)"

definition send_text :: "string \<Rightarrow> string \<Rightarrow> string" where
  "send_text src_snapshot base =
     ''zfs send '' @ (if base \<noteq> [] then ''-i '' @ shell_quote base @ '' '' else []) @ shell_quote src_snapshot"

definition ssh_text :: "string \<Rightarrow> string \<Rightarrow> int \<Rightarrow> string" where
  "ssh_text addr user port = ''ssh '' @ SSH_OPTS @ '' -p '' @ show_int port @ '' '' @ shell_quote (user @ ''@'' @ addr) @ '' ''"

definition build_send_recv ::
  "string \<times> string \<times> int \<Rightarrow> string \<times> string \<times> int \<Rightarrow> string \<Rightarrow> string \<Rightarrow> string \<Rightarrow> bool \<Rightarrow> string" where
  "build_send_recv source target src_snapshot target_dataset base pull =
     (case source of (s_addr, s_user, s_port) \<Rightarrow> case target of (t_addr, t_user, t_port) \<Rightarrow>
      let send = send_text src_snapshot base;
          recv = ''zfs recv -F '' @ shell_quote target_dataset;
          pipeline = (if pull then ssh_text s_addr s_user s_port @ shell_quote send @ '' | '' @ recv
                      else send @ '' | '' @ ssh_text t_addr t_user t_port @ shell_quote recv)
      in ''set -o pipefail 2>/dev/null; '' @ pipeline @ '' 2>&1; echo __exit=$?'')"

definition EXIT_RE :: re where
  "EXIT_RE = seqs [lit ''__exit='', Grp 1 (plus (Ch is_digit)), Star (Ch is_space), Eol]"

definition parse_exit_marker :: "string \<Rightarrow> int option" where
  "parse_exit_marker out = map_option (\<lambda>m. digits_val (group_str 1 m)) (re_search EXIT_RE (strip out))"

definition drop_exit_marker :: "string \<Rightarrow> string" where
  "drop_exit_marker out = strip (re_sub EXIT_RE [] out)"

definition guest_tool :: "string \<Rightarrow> string" where
  "guest_tool gtype = (if gtype \<noteq> ''lxc'' then ''qm'' else ''pct'')"

definition guest_dir :: "string \<Rightarrow> string" where
  "guest_dir gtype = (if gtype = ''lxc'' then ''lxc'' else ''qemu-server'')"

definition config_path :: "string \<Rightarrow> string \<Rightarrow> string" where
  "config_path gtype vmid = ''/etc/pve/'' @ guest_dir gtype @ ''/'' @ vmid @ ''.conf''"

section \<open>Reading\<close>

definition read_guest_config :: "host \<Rightarrow> string \<Rightarrow> string \<Rightarrow> (string + string \<times> string) act" where
  "read_guest_config h vmid gtype =
     (case validate_vmid (VStr vmid) of
        Inl e \<Rightarrow> State_Monad.return (Inl (exc_text e))
      | Inr v \<Rightarrow>
          let path = config_path gtype v in do {
            r \<leftarrow> run_command h (''cat '' @ shell_quote path @ '' 2>/dev/null'');
            State_Monad.return
              (if \<not> cr_success r \<or> strip (cr_stdout r) = [] then Inl (''guest config '' @ path @ '' not found'')
               else Inr (cr_stdout r, path)) })"

record disk =
  dk_key :: string
  dk_volid :: string
  dk_dataset :: string
  dk_used :: string

definition resolve_disk :: "host \<Rightarrow> string \<times> string \<Rightarrow> (string \<times> string + disk) act" where
  "resolve_disk h kv =
     (case kv of (key, volid) \<Rightarrow> do {
        r \<leftarrow> run_command h (''pvesm path '' @ shell_quote volid @ '' 2>/dev/null'');
        let ds = dataset_from_pvesm_path (if cr_success r then cr_stdout r else []) in
        if ds \<noteq> [] \<and> re_test DS_RE ds then do {
          chk \<leftarrow> run_command h (''zfs list -H -o name,used '' @ shell_quote ds @ '' 2>/dev/null'');
          let parts = split_on (\<lambda>c. c = tab) (strip (cr_stdout chk)) in
          State_Monad.return
            (if cr_success chk \<and> hd parts = ds
             then Inr \<lparr>dk_key = key, dk_volid = volid, dk_dataset = ds,
                    dk_used = (case parts of _ # u # _ \<Rightarrow> u | _ \<Rightarrow> [])\<rparr>
             else Inl (key, volid)) }
        else State_Monad.return (Inl (key, volid)) })"

definition discover_guest_disks :: "host \<Rightarrow> string \<Rightarrow> string \<Rightarrow> (disk list \<times> (string \<times> string) list) act" where
  "discover_guest_disks h gtype config_text = do {
     rs \<leftarrow> for_each (resolve_disk h) (parse_guest_config_disks config_text gtype);
     State_Monad.return
       (List.map_filter (case_sum (\<lambda>u. None) Some) rs, List.map_filter (case_sum Some (\<lambda>d. None)) rs) }"

definition guest_is_running :: "host \<Rightarrow> string \<Rightarrow> string \<Rightarrow> bool act" where
  "guest_is_running h vmid gtype = do {
     r \<leftarrow> run_command h (guest_tool gtype @ '' status '' @ shell_quote vmid @ '' 2>/dev/null'');
     State_Monad.return (contains_str ''running'' (lower_str (cr_stdout r))) }"

definition vmid_command :: "int \<Rightarrow> string" where
  "vmid_command n = ''([ -e /etc/pve/qemu-server/'' @ show_int n @ ''.conf ] || [ -e /etc/pve/lxc/'' @ show_int n
     @ ''.conf ]) && echo __USED__ || echo __FREE__''"

text \<open>\<open>int(vmid)\<close> raises for a text that is no number.\<close>

definition vmid_in_use :: "host \<Rightarrow> string \<Rightarrow> bool option act" where
  "vmid_in_use h vmid =
     (case py_int vmid of
        None \<Rightarrow> State_Monad.return None
      | Some n \<Rightarrow> do {
          r \<leftarrow> run_command h (vmid_command n);
          State_Monad.return (Some (contains_str ''__USED__'' (cr_stdout r))) })"

definition snapshot_of_line :: "string \<Rightarrow> string option" where
  "snapshot_of_line ln = map_option snd (split_once CHR ''@'' (strip ln))"

definition list_snapshots :: "host \<Rightarrow> string \<Rightarrow> string list act" where
  "list_snapshots h dataset = do {
     r \<leftarrow> run_command h (''zfs list -H -o name -t snapshot -d 1 '' @ shell_quote dataset @ '' -s creation 2>/dev/null'');
     State_Monad.return (List.map_filter snapshot_of_line (splitlines (cr_stdout r))) }"

definition dataset_exists :: "host \<Rightarrow> string \<Rightarrow> bool act" where
  "dataset_exists h dataset = do {
     r \<leftarrow> run_command h (''zfs list -H -o name '' @ shell_quote dataset @ '' 2>/dev/null'');
     State_Monad.return (strip (cr_stdout r) = dataset) }"

definition host_bridges :: "host \<Rightarrow> string list act" where
  "host_bridges h = do {
     r \<leftarrow> run_command h ''ls /sys/class/net 2>/dev/null'';
     State_Monad.return (filter (starts_with ''vmbr'') (split_ws (cr_stdout r))) }"

definition probe_ssh :: "host \<Rightarrow> host \<Rightarrow> bool act" where
  "probe_ssh from_host to_host =
     (case hostref to_host of (addr, user, port) \<Rightarrow> do {
        r \<leftarrow> run_command from_host (ssh_text addr user port @ ''true 2>/dev/null && echo __SSH_OK__'');
        State_Monad.return (contains_str ''__SSH_OK__'' (cr_stdout r)) })"

text \<open>The short name of the node: what stands before the first dot.\<close>

definition read_node :: "host \<Rightarrow> string act" where
  "read_node h = do {
     hr \<leftarrow> run_command h ''hostname'';
     State_Monad.return (if cr_success hr then takeWhile (\<lambda>c. c \<noteq> CHR ''.'') (strip (cr_stdout hr)) else []) }"

definition read_zfs_storages :: "host \<Rightarrow> zfs_storage list act" where
  "read_zfs_storages h = do {
     r \<leftarrow> run_command h ''cat /etc/pve/storage.cfg 2>/dev/null'';
     if \<not> cr_success r then State_Monad.return []
     else do { node \<leftarrow> read_node h; State_Monad.return (usable_guest_storages (parse_zfs_storages (cr_stdout r)) node) } }"

section \<open>Registering a storage\<close>

definition build_pvesm_add :: "string \<Rightarrow> string \<Rightarrow> string \<Rightarrow> string \<Rightarrow> string" where
  "build_pvesm_add storage_id dataset node content =
     ''pvesm add zfspool '' @ shell_quote storage_id @ '' --pool '' @ shell_quote dataset @ '' --content ''
     @ shell_quote content @ (if node \<noteq> [] then '' --nodes '' @ shell_quote node else []) @ '' 2>&1; echo __exit=$?''"

record storage_added =
  sa_success :: bool
  sa_exit_code :: "int option"
  sa_node :: string
  sa_output :: string

definition create_zfs_storage :: "host \<Rightarrow> string \<Rightarrow> string \<Rightarrow> string \<Rightarrow> (string + storage_added) act" where
  "create_zfs_storage h storage_id dataset content =
     (if \<not> re_test STORAGE_ID_RE storage_id
      then State_Monad.return (Inl ''invalid storage ID (a-z, 0-9, . - _, must start with a letter)'')
      else if \<not> re_test DS_RE dataset then State_Monad.return (Inl ''invalid dataset'')
      else do {
        there \<leftarrow> dataset_exists h dataset;
        if \<not> there then State_Monad.return (Inl (''dataset '' @ dataset @ '' does not exist on the host''))
        else do {
          node \<leftarrow> read_node h;
          r \<leftarrow> run_command h (build_pvesm_add storage_id dataset node content);
          State_Monad.return (Inr
            \<lparr>sa_success = (parse_exit_marker (cr_stdout r) = Some 0), sa_exit_code = parse_exit_marker (cr_stdout r),
             sa_node = node, sa_output = take 800 (drop_exit_marker (cr_stdout r))\<rparr>) } })"

section \<open>Preflight\<close>

datatype level = Err | Warn

record pf_check =
  pc_id :: string
  pc_ok :: bool
  pc_detail :: string
  pc_level :: level

text \<open>\<open>level\<close> is shown as "ok" when the check holds; what is kept here is its weight when it does not.\<close>

definition chk :: "string \<Rightarrow> bool \<Rightarrow> string \<Rightarrow> pf_check" where
  "chk cid ok detail = \<lparr>pc_id = cid, pc_ok = ok, pc_detail = detail, pc_level = Err\<rparr>"

definition chk_warn :: "string \<Rightarrow> bool \<Rightarrow> string \<Rightarrow> pf_check" where
  "chk_warn cid ok detail = \<lparr>pc_id = cid, pc_ok = ok, pc_detail = detail, pc_level = Warn\<rparr>"

record plan_entry =
  pe_key :: string
  pe_source :: string
  pe_target :: string
  pe_used :: string
  pe_exists :: bool
  pe_common :: string

record preflight_result =
  pr_checks :: "pf_check list"
  pr_plan :: "plan_entry list"
  pr_running :: bool
  pr_target_vmid :: string
  pr_bridges :: "string list"
  pr_target_bridges :: "string list"
  pr_source_storages :: "string list"
  pr_target_storages :: "zfs_storage list"
  pr_suggestions :: "string list"
  pr_id_suggestion :: string
  pr_target_storage :: string
  pr_pull :: bool
  pr_push :: bool
  pr_can :: bool

definition disks_check :: "disk list \<Rightarrow> (string \<times> string) list \<Rightarrow> pf_check" where
  "disks_check disks unresolved =
     (if unresolved \<noteq> [] then chk ''disks'' False
        (''not on ZFS / unresolvable: '' @ join '', '' (map (\<lambda>(k, v). k @ ''='' @ v) unresolved))
      else if disks = [] then chk ''disks'' False ''no disks found in the guest config''
      else chk ''disks'' True (join '', '' (map dk_dataset disks)))"

definition snapshots_checks :: "string list \<Rightarrow> pf_check list" where
  "snapshots_checks snaps =
     (if snaps \<noteq> [] then [chk_warn ''pve_snapshots'' False
        (''guest has PVE snapshots ('' @ join '', '' (take 5 snaps) @ '') -- their vmstate volumes are not migrated'')]
      else [])"

definition bridges_checks :: "string list \<Rightarrow> string list \<Rightarrow> pf_check list" where
  "bridges_checks src tgt =
     (let missing = filter (\<lambda>b. b \<notin> set tgt) src
      in if missing \<noteq> [] then [chk_warn ''bridges'' False
           (''missing on the target: '' @ join '', '' missing @ '' (remap them before the cutover)'')]
         else if src \<noteq> [] then [chk ''bridges'' True (join '', '' src)] else [])"

definition common_snapshot :: "string list \<Rightarrow> string list \<Rightarrow> string" where
  "common_snapshot src_snaps tgt_snaps =
     (case List.find (\<lambda>s. s \<in> set src_snaps) (rev tgt_snaps) of None \<Rightarrow> [] | Some s \<Rightarrow> s)"

definition plan_disk :: "host \<Rightarrow> host \<Rightarrow> string \<Rightarrow> string option \<Rightarrow> string \<Rightarrow> disk \<Rightarrow> plan_entry act" where
  "plan_disk source target vmid new_vmid target_root d =
     (let tds = target_root @ ''/'' @ target_basename vmid new_vmid (dk_dataset d) in do {
        there \<leftarrow> dataset_exists target tds;
        common \<leftarrow> (if there then do {
            s \<leftarrow> list_snapshots source (dk_dataset d);
            t \<leftarrow> list_snapshots target tds;
            State_Monad.return (common_snapshot s t) }
          else State_Monad.return []);
        State_Monad.return \<lparr>pe_key = dk_key d, pe_source = dk_dataset d, pe_target = tds, pe_used = dk_used d,
          pe_exists = there, pe_common = common\<rparr> })"

definition blocked :: "plan_entry \<Rightarrow> bool" where
  "blocked p = (pe_exists p \<and> pe_common p = [])"

definition targets_checks :: "plan_entry list \<Rightarrow> pf_check list" where
  "targets_checks plan =
     (if list_ex blocked plan then [chk ''target_datasets'' False
        (''target dataset exists without a common snapshot (a forced receive would destroy it): ''
          @ join '', '' (map pe_target (filter blocked plan)))]
      else if list_ex (\<lambda>p. pe_common p \<noteq> []) plan
        then [chk ''target_datasets'' True ''pre-seeded, incremental transfer possible'']
      else if plan \<noteq> [] then [chk ''target_datasets'' True ''target is empty, full transfer''] else [])"

definition no_errors :: "pf_check list \<Rightarrow> bool" where
  "no_errors checks = list_all (\<lambda>c. pc_ok c \<or> pc_level c = Warn) checks"

definition preflight_checks ::
  "string \<Rightarrow> disk list \<Rightarrow> (string \<times> string) list \<Rightarrow> bool \<Rightarrow> bool option \<Rightarrow> string \<Rightarrow> bool \<Rightarrow> string \<Rightarrow> string list \<Rightarrow>
   bool \<Rightarrow> string \<Rightarrow> string list \<Rightarrow> string list \<Rightarrow> bool \<Rightarrow> bool \<Rightarrow> plan_entry list \<Rightarrow> pf_check list" where
  "preflight_checks path disks unresolved running used tgt_vmid root_there target_root snaps ok_st detail_st
       bridges tgt_bridges pull push plan =
     [chk ''config'' True path, disks_check disks unresolved,
      chk_warn ''running'' True (if running then ''running (pre-copy possible while it runs)'' else ''stopped''),
      (if used \<noteq> Some False then chk ''vmid'' False (''VMID '' @ tgt_vmid @ '' is already in use on the target'')
       else chk ''vmid'' True (''VMID '' @ tgt_vmid @ '' is free on the target'')),
      (if root_there then chk ''target_root'' True target_root
       else chk ''target_root'' False (''target dataset root '' @ target_root @ '' does not exist''))]
     @ snapshots_checks snaps
     @ [chk ''storage'' ok_st detail_st]
     @ bridges_checks bridges tgt_bridges
     @ [if pull \<or> push
        then chk ''ssh'' True (if pull then ''target pulls from source'' else ''source pushes to target'')
        else chk ''ssh'' False (''no non-interactive SSH between the hosts in either direction -- ''
               @ ''set up replication or install the key first'')]
     @ targets_checks plan"

datatype preflight_outcome = Bad_Request string | No_Config "pf_check list" | Checked preflight_result

text \<open>\<open>new_vmid\<close> is the text given, empty for none.\<close>

definition preflight :: "host \<Rightarrow> host \<Rightarrow> string \<Rightarrow> string \<Rightarrow> string \<Rightarrow> string \<Rightarrow> string \<Rightarrow> preflight_outcome act" where
  "preflight source target vmid0 gtype target_root new_vmid target_storage =
     (case validate_vmid (VStr vmid0) of Inl e \<Rightarrow> State_Monad.return (Bad_Request (exc_text e)) | Inr vmid \<Rightarrow>
      (case (if new_vmid \<noteq> [] then validate_vmid (VStr new_vmid) else Inr vmid) of
         Inl e \<Rightarrow> State_Monad.return (Bad_Request (exc_text e)) | Inr tgt_vmid \<Rightarrow>
       if \<not> re_test DS_RE target_root then State_Monad.return (Bad_Request ''invalid target dataset root'')
       else do {
         cfg \<leftarrow> read_guest_config source vmid gtype;
         (case cfg of
            Inl e \<Rightarrow> State_Monad.return (No_Config [chk ''config'' False e])
          | Inr (text, path) \<Rightarrow> do {
              (disks, unresolved) \<leftarrow> discover_guest_disks source gtype text;
              running \<leftarrow> guest_is_running source vmid gtype;
              used \<leftarrow> vmid_in_use target tgt_vmid;
              root_there \<leftarrow> dataset_exists target target_root;
              storages \<leftarrow> read_zfs_storages target;
              tgt_bridges \<leftarrow> host_bridges target;
              pull \<leftarrow> probe_ssh target source;
              push \<leftarrow> (if pull then State_Monad.return False else probe_ssh source target);
              plan \<leftarrow> for_each (plan_disk source target vmid (if new_vmid = [] then None else Some new_vmid) target_root) disks;
              (let (ok_st, detail_st, suggestions) = check_storage_match storages target_storage target_root;
                   checks = preflight_checks path disks unresolved running used tgt_vmid root_there target_root
                     (config_snapshot_sections text) ok_st detail_st (parse_config_bridges text) tgt_bridges pull push plan
               in State_Monad.return (Checked
                 \<lparr>pr_checks = checks, pr_plan = plan, pr_running = running, pr_target_vmid = tgt_vmid,
                  pr_bridges = parse_config_bridges text, pr_target_bridges = tgt_bridges,
                  pr_source_storages = config_storage_ids text gtype, pr_target_storages = storages,
                  pr_suggestions = suggestions,
                  pr_id_suggestion = suggest_storage_id target_root (map zs_storage storages),
                  pr_target_storage = target_storage, pr_pull = pull, pr_push = push, pr_can = no_errors checks\<rparr>)) }) }))"

section \<open>Transfer\<close>

record transfer =
  tr_source :: string
  tr_target :: string
  tr_snapshot :: string
  tr_base :: string
  tr_success :: bool
  tr_exit_code :: "int option"
  tr_output :: string

definition last_chars :: "nat \<Rightarrow> string \<Rightarrow> string" where
  "last_chars n s = drop (length s - n) s"

definition transfer_command :: "host \<Rightarrow> host \<Rightarrow> string \<Rightarrow> bool \<Rightarrow> plan_entry \<Rightarrow> string" where
  "transfer_command source target snap_name pull p =
     build_send_recv (hostref source) (hostref target) (pe_source p @ ''@'' @ snap_name) (pe_target p) (pe_common p) pull"

definition transfer_ok :: "cmd_result \<Rightarrow> bool" where
  "transfer_ok r = (cr_success r \<and> parse_exit_marker (cr_stdout r) = Some 0)"

definition transfer_disk :: "host \<Rightarrow> host \<Rightarrow> string \<Rightarrow> bool \<Rightarrow> plan_entry \<Rightarrow> transfer act" where
  "transfer_disk source target snap_name pull p = do {
     say (pe_source p @ '' -> '' @ pe_target p @ '' (''
       @ (if pe_common p \<noteq> [] then ''incremental from '' @ pe_common p else ''full'') @ '') ...'') None;
     r \<leftarrow> run_command (if pull then target else source) (transfer_command source target snap_name pull p);
     State_Monad.return \<lparr>tr_source = pe_source p, tr_target = pe_target p, tr_snapshot = snap_name, tr_base = pe_common p,
       tr_success = transfer_ok r, tr_exit_code = parse_exit_marker (cr_stdout r),
       tr_output = last_chars 2000 (drop_exit_marker (cr_stdout r))\<rparr> }"

record snap_made =
  sm_dataset :: string
  sm_success :: bool
  sm_stderr :: string

definition snapshot_command :: "string \<Rightarrow> string \<Rightarrow> string" where
  "snapshot_command snap_name ds = ''zfs snapshot '' @ shell_quote ds @ ''@'' @ shell_quote snap_name"

definition snapshot_one :: "host \<Rightarrow> string \<Rightarrow> string \<Rightarrow> snap_made act" where
  "snapshot_one h snap_name ds = do {
     r \<leftarrow> run_command h (snapshot_command snap_name ds);
     State_Monad.return \<lparr>sm_dataset = ds, sm_success = cr_success r, sm_stderr = take 200 (strip (cr_stderr r))\<rparr> }"

definition snapshot_all :: "host \<Rightarrow> string list \<Rightarrow> string \<Rightarrow> snap_made list act" where
  "snapshot_all h datasets snap_name = for_each (snapshot_one h snap_name) datasets"

record transfer_result =
  tf_error :: "string option"
  tf_results :: "transfer list"

fun transfer_loop :: "host \<Rightarrow> host \<Rightarrow> string \<Rightarrow> bool \<Rightarrow> transfer list \<Rightarrow> plan_entry list \<Rightarrow> transfer_result act" where
  "transfer_loop source target snap_name pull done [] =
     State_Monad.return \<lparr>tf_error = None, tf_results = done\<rparr>"
| "transfer_loop source target snap_name pull done (p # ps) = do {
     res \<leftarrow> transfer_disk source target snap_name pull p;
     if \<not> tr_success res then do {
       say (''FAILED: '' @ pe_source p) (Some False);
       State_Monad.return \<lparr>tf_error = Some (''transfer of '' @ pe_source p @ '' failed''), tf_results = done @ [res]\<rparr> }
     else do {
       say (''OK: '' @ pe_target p) None;
       transfer_loop source target snap_name pull (done @ [res]) ps } }"

definition run_transfer :: "host \<Rightarrow> host \<Rightarrow> plan_entry list \<Rightarrow> bool \<Rightarrow> string \<Rightarrow> transfer_result act" where
  "run_transfer source target plan pull snap_name = do {
     say (''Creating snapshot @'' @ snap_name @ '' on the source ...'') None;
     snaps \<leftarrow> snapshot_all source (map pe_source plan) snap_name;
     let failed = filter (\<lambda>s. \<not> sm_success s) snaps in
     if failed \<noteq> [] then
       State_Monad.return \<lparr>tf_error = Some (''snapshot failed: ''
         @ join '', '' (map (\<lambda>s. sm_dataset s @ '': '' @ sm_stderr s) failed)), tf_results = []\<rparr>
     else transfer_loop source target snap_name pull [] plan }"

definition precopy_job :: "datetime \<Rightarrow> host \<Rightarrow> host \<Rightarrow> plan_entry list \<Rightarrow> bool \<Rightarrow> transfer_result act" where
  "precopy_job now source target plan pull = do {
     res \<leftarrow> run_transfer source target plan pull (make_snapshot_name now);
     say (if tf_error res = None then ''Pre-copy finished'' else ''Pre-copy failed'') (Some (tf_error res = None));
     State_Monad.return res }"

section \<open>Cutover\<close>

definition lock_command :: "string \<Rightarrow> string \<Rightarrow> string" where
  "lock_command path lock =
     ''sed -i '' @ sq @ ''/^lock:/d'' @ sq @ '' '' @ shell_quote path
     @ (if lock \<noteq> [] then '' && sed -i '' @ sq @ ''1i lock: '' @ shell_quote lock @ sq @ '' '' @ shell_quote path else [])
     @ '' && echo __OK__''"

definition set_guest_lock :: "host \<Rightarrow> string \<Rightarrow> string \<Rightarrow> string \<Rightarrow> (string + bool) act" where
  "set_guest_lock h vmid gtype lock =
     (case validate_vmid (VStr vmid) of
        Inl e \<Rightarrow> State_Monad.return (Inl (exc_text e))
      | Inr v \<Rightarrow> do {
          r \<leftarrow> run_command h (lock_command (config_path gtype v) lock);
          State_Monad.return (Inr (contains_str ''__OK__'' (cr_stdout r))) })"

definition lock_ok :: "string + bool \<Rightarrow> bool" where
  "lock_ok r = (r = Inr True)"

definition stop_guest :: "host \<Rightarrow> string \<Rightarrow> string \<Rightarrow> int \<Rightarrow> bool act" where
  "stop_guest h vmid gtype limit = do {
     say ''Shutting the guest down on the source ...'' None;
     run_command h (guest_tool gtype @ '' shutdown '' @ vmid @ '' --timeout '' @ show_int limit);
     up \<leftarrow> guest_is_running h vmid gtype;
     if \<not> up then State_Monad.return True
     else do {
       say ''Graceful shutdown timed out -- forcing stop ...'' None;
       run_command h (guest_tool gtype @ '' stop '' @ vmid);
       up2 \<leftarrow> guest_is_running h vmid gtype;
       State_Monad.return (\<not> up2) } }"

text \<open>\<open>restore_guest_config\<close> of \<open>app/dr.py\<close>.\<close>

datatype config_write =
    Refused_Type
  | Refused_Vmid
  | Config_Exists
  | Config_Written bool string

definition config_write_ok :: "config_write \<Rightarrow> bool" where
  "config_write_ok r = (case r of Config_Written ok err \<Rightarrow> ok | _ \<Rightarrow> False)"

definition config_write_error :: "config_write \<Rightarrow> string" where
  "config_write_error r = (case r of Refused_Type \<Rightarrow> ''invalid guest type'' | Refused_Vmid \<Rightarrow> ''invalid vmid''
     | Config_Exists \<Rightarrow> ''config already exists'' | Config_Written ok err \<Rightarrow> err)"

definition write_command :: "string \<Rightarrow> string \<Rightarrow> string" where
  "write_command dest content =
     ''echo '' @ shell_quote (b64encode content) @ '' | base64 -d > '' @ shell_quote dest @ '' && echo __OK__''"

definition restore_guest_config :: "host \<Rightarrow> string \<Rightarrow> string \<Rightarrow> string \<Rightarrow> bool \<Rightarrow> config_write act" where
  "restore_guest_config h gtype vmid content force =
     (if gtype \<noteq> ''lxc'' \<and> gtype \<noteq> ''qemu'' then State_Monad.return Refused_Type
      else if \<not> re_test VMID_RE vmid then State_Monad.return Refused_Vmid
      else let dest = config_path gtype vmid in do {
        r \<leftarrow> run_command h (''[ -e '' @ shell_quote dest @ '' ] && echo __EXISTS__ || echo __NO__'');
        if contains_str ''__EXISTS__'' (cr_stdout r) \<and> \<not> force then State_Monad.return Config_Exists
        else do {
          rw \<leftarrow> run_command h (write_command dest content);
          State_Monad.return (Config_Written (contains_str ''__OK__'' (cr_stdout rw)) (take 200 (strip (cr_stderr rw)))) } })"

record cutover_request =
  co_vmid :: string
  co_gtype :: string
  co_plan :: "plan_entry list"
  co_pull :: bool
  co_new_vmid :: string
  co_storage_map :: "(string, string) dict"
  co_bridge_map :: "(string, string) dict"
  co_start :: bool
  co_timeout :: int

datatype cutover_result =
    Crashed
  | Failed string "transfer list" bool bool
  | Moved string string "transfer list" bool bool

text \<open>\<open>Failed error results stopped transferred\<close>; \<open>Moved target_vmid snapshot results started locked\<close>.\<close>

definition target_vmid_of :: "cutover_request \<Rightarrow> string" where
  "target_vmid_of q = (if co_new_vmid q \<noteq> [] then co_new_vmid q else co_vmid q)"

definition start_command :: "string \<Rightarrow> string \<Rightarrow> string" where
  "start_command gtype vmid = guest_tool gtype @ '' start '' @ vmid"

definition start_guest :: "host \<Rightarrow> cutover_request \<Rightarrow> bool act" where
  "start_guest target q = do {
     say (''Starting the guest on the target (VMID '' @ target_vmid_of q @ '') ...'') None;
     sr \<leftarrow> run_command target (start_command (co_gtype q) (target_vmid_of q));
     if \<not> cr_success sr then do {
       say (''Start on the target failed: '' @ take 200 (cr_stderr sr)) (Some False);
       State_Monad.return False }
     else State_Monad.return True }"

definition finish_cutover :: "host \<Rightarrow> host \<Rightarrow> cutover_request \<Rightarrow> string \<Rightarrow> transfer list \<Rightarrow> cutover_result act" where
  "finish_cutover source target q snap_name results = do {
     lk \<leftarrow> set_guest_lock source (co_vmid q) (co_gtype q) ''migrate'';
     say (if lock_ok lk then ''Source locked'' else ''Warning: could not lock the source config'') None;
     started \<leftarrow> (if co_start q then start_guest target q else State_Monad.return False);
     say ''Cutover finished'' (Some True);
     State_Monad.return (Moved (target_vmid_of q) snap_name results started (lock_ok lk)) }"

definition move_config :: "host \<Rightarrow> host \<Rightarrow> cutover_request \<Rightarrow> string \<Rightarrow> transfer list \<Rightarrow> string \<Rightarrow> cutover_result act" where
  "move_config source target q snap_name results content = do {
     say ''Writing the guest config on the target ...'' None;
     wr \<leftarrow> restore_guest_config target (co_gtype q) (target_vmid_of q)
       (rewrite_guest_config content (co_storage_map q) (co_bridge_map q) (co_vmid q) (co_new_vmid q)) False;
     if \<not> config_write_ok wr
     then State_Monad.return (Failed (''config write failed: '' @ config_write_error wr) [] True True)
     else finish_cutover source target q snap_name results }"

definition deliver :: "host \<Rightarrow> host \<Rightarrow> cutover_request \<Rightarrow> string \<Rightarrow> string \<Rightarrow> cutover_result act" where
  "deliver source target q snap_name content = do {
     say ''Guest is stopped -- sending the final delta ...'' None;
     res \<leftarrow> run_transfer source target (co_plan q) (co_pull q) snap_name;
     (case tf_error res of
        Some e \<Rightarrow> do {
          say ''Final transfer failed -- source is untouched, restart it there'' (Some False);
          State_Monad.return (Failed e (tf_results res) True False) }
      | None \<Rightarrow> move_config source target q snap_name (tf_results res) content) }"

definition stop_and_deliver :: "host \<Rightarrow> host \<Rightarrow> cutover_request \<Rightarrow> string \<Rightarrow> string \<Rightarrow> cutover_result act" where
  "stop_and_deliver source target q snap_name content = do {
     stopped \<leftarrow> stop_guest source (co_vmid q) (co_gtype q) (co_timeout q);
     if \<not> stopped then State_Monad.return (Failed ''guest could not be stopped on the source'' [] False False)
     else deliver source target q snap_name content }"

definition cutover_job :: "datetime \<Rightarrow> host \<Rightarrow> host \<Rightarrow> cutover_request \<Rightarrow> cutover_result act" where
  "cutover_job now source target q = do {
     used \<leftarrow> vmid_in_use target (target_vmid_of q);
     (case used of
        None \<Rightarrow> State_Monad.return Crashed
      | Some in_use \<Rightarrow>
          if in_use then State_Monad.return (Failed (''VMID '' @ target_vmid_of q @ '' is in use on the target'') [] False False)
          else do {
            cfg \<leftarrow> read_guest_config source (co_vmid q) (co_gtype q);
            (case cfg of
               Inl e \<Rightarrow> State_Monad.return (Failed e [] False False)
             | Inr (content, path) \<Rightarrow> stop_and_deliver source target q (make_snapshot_name now) content) }) }"

section \<open>The way back\<close>

record rollback_result =
  rb_stop_target :: bool
  rb_remove_config :: bool
  rb_unlock_source :: bool
  rb_started :: bool
  rb_start_step :: bool

definition rollback_ok :: "rollback_result \<Rightarrow> bool" where
  "rollback_ok r = (rb_stop_target r \<and> rb_remove_config r \<and> rb_unlock_source r \<and> rb_start_step r)"

text \<open>\<open>vmid\<close> and \<open>target_vmid\<close> (empty for none) are validated; \<open>int\<close> of the digits names the file.\<close>

definition rollback :: "host \<Rightarrow> host \<Rightarrow> string \<Rightarrow> string \<Rightarrow> string \<Rightarrow> bool \<Rightarrow> (string + rollback_result) act" where
  "rollback source target vmid0 gtype target_vmid start_source =
     (case validate_vmid (VStr vmid0) of Inl e \<Rightarrow> State_Monad.return (Inl (exc_text e)) | Inr vmid \<Rightarrow>
      (case (if target_vmid \<noteq> [] then validate_vmid (VStr target_vmid) else Inr vmid) of
         Inl e \<Rightarrow> State_Monad.return (Inl (exc_text e)) | Inr tgt_vmid \<Rightarrow> do {
       run_command target (guest_tool gtype @ '' stop '' @ tgt_vmid @ '' 2>/dev/null'');
       up \<leftarrow> guest_is_running target tgt_vmid gtype;
       rm \<leftarrow> run_command target (''rm -f /etc/pve/'' @ guest_dir gtype @ ''/'' @ show_int (digits_val tgt_vmid)
         @ ''.conf && echo __OK__'');
       lk \<leftarrow> set_guest_lock source vmid gtype [];
       started \<leftarrow> (if start_source then do {
           sr \<leftarrow> run_command source (start_command gtype vmid);
           State_Monad.return (cr_success sr) }
         else State_Monad.return False);
       State_Monad.return (Inr \<lparr>rb_stop_target = (\<not> up), rb_remove_config = contains_str ''__OK__'' (cr_stdout rm),
         rb_unlock_source = lock_ok lk, rb_started = started, rb_start_step = (started \<or> \<not> start_source)\<rparr>) }))"

section \<open>Cleaning up\<close>

definition snap_of_line :: "string \<Rightarrow> mig_snap option" where
  "snap_of_line ln =
     (case split_on (\<lambda>c. c = tab) ln of
        full # used # _ \<Rightarrow>
          (case split_once CHR ''@'' full of
             None \<Rightarrow> None
           | Some (ds, snap) \<Rightarrow>
               if is_migration_snapshot snap
               then Some \<lparr>ms_dataset = ds, ms_snapshot = snap, ms_full = full, ms_used = used\<rparr> else None)
      | _ \<Rightarrow> None)"

definition list_migration_snapshots :: "host \<Rightarrow> string list \<Rightarrow> mig_snap list act" where
  "list_migration_snapshots h datasets = do {
     rs \<leftarrow> for_each (\<lambda>ds. run_command h (''zfs list -H -o name,used -t snapshot -d 1 '' @ shell_quote ds
         @ '' -s creation 2>/dev/null'')) (filter (re_test DS_RE) datasets);
     State_Monad.return (concat (map (\<lambda>r. List.map_filter snap_of_line (splitlines (cr_stdout r))) rs)) }"

definition migration_snapshot_overview :: "host \<Rightarrow> host \<Rightarrow> plan_entry list \<Rightarrow> (mig_snap list \<times> mig_snap list) act" where
  "migration_snapshot_overview source target plan = do {
     s \<leftarrow> list_migration_snapshots source (map pe_source plan);
     t \<leftarrow> list_migration_snapshots target (map pe_target plan);
     State_Monad.return (s, t) }"

record destroyed =
  de_side :: string
  de_snapshot :: string
  de_success :: bool
  de_output :: string

definition destroy_snapshot :: "string \<times> host \<times> mig_snap \<Rightarrow> destroyed act" where
  "destroy_snapshot x = (case x of (side, h, s) \<Rightarrow> do {
     r \<leftarrow> run_command h (''zfs destroy '' @ shell_quote (ms_full s) @ '' 2>&1'');
     State_Monad.return \<lparr>de_side = side, de_snapshot = ms_full s, de_success = cr_success r,
       de_output = take 200 (strip (cr_stdout r))\<rparr> })"

datatype cleanup_result = Busy "string list" | Cleaned bool nat bool "destroyed list"

text \<open>\<open>busy\<close>: the names of the running tasks whose name begins with \<open>guest-migration\<close>.\<close>

definition cleanup_migration_snapshots ::
  "string list \<Rightarrow> host \<Rightarrow> host \<Rightarrow> plan_entry list \<Rightarrow> bool \<Rightarrow> cleanup_result act" where
  "cleanup_migration_snapshots busy source target plan keep_latest_on_target =
     (if busy \<noteq> [] then State_Monad.return (Busy busy)
      else do {
        (s, t) \<leftarrow> migration_snapshot_overview source target plan;
        results \<leftarrow> for_each destroy_snapshot
          (map (\<lambda>x. (''source'', source, x)) (select_snapshots_to_delete s False)
           @ map (\<lambda>x. (''target'', target, x)) (select_snapshots_to_delete t keep_latest_on_target));
        State_Monad.return (Cleaned (list_all de_success results) (length (filter de_success results))
          keep_latest_on_target results) })"

record step_result =
  sp_step :: string
  sp_success :: bool
  sp_output :: string

fun destroy_datasets :: "host \<Rightarrow> string list \<Rightarrow> step_result list act" where
  "destroy_datasets h [] = State_Monad.return []"
| "destroy_datasets h (ds # rest) = do {
     there \<leftarrow> dataset_exists h ds;
     here \<leftarrow> (if there then do {
         d \<leftarrow> run_command h (''zfs destroy -r '' @ shell_quote ds @ '' 2>&1'');
         State_Monad.return [\<lparr>sp_step = ''destroy_dataset '' @ ds, sp_success = cr_success d,
           sp_output = last_chars 300 (cr_stdout d)\<rparr>] }
       else State_Monad.return []);
     more \<leftarrow> destroy_datasets h rest;
     State_Monad.return (here @ more) }"

fun first_invalid :: "string list \<Rightarrow> py_exc option" where
  "first_invalid [] = None"
| "first_invalid (ds # rest) =
     (case validate_zfs_name (VStr ds) ''Dataset'' of Inl e \<Rightarrow> Some e | Inr _ \<Rightarrow> first_invalid rest)"

definition cleanup_source :: "host \<Rightarrow> string \<Rightarrow> string \<Rightarrow> string list \<Rightarrow> (string + step_result list) act" where
  "cleanup_source source vmid0 gtype datasets =
     (case validate_vmid (VStr vmid0) of Inl e \<Rightarrow> State_Monad.return (Inl (exc_text e)) | Inr vmid \<Rightarrow>
      (case first_invalid datasets of Some e \<Rightarrow> State_Monad.return (Inl (exc_text e)) | None \<Rightarrow> do {
        up \<leftarrow> guest_is_running source vmid gtype;
        if up then State_Monad.return (Inl ''guest is still running on the source'')
        else do {
          set_guest_lock source vmid gtype [];
          r \<leftarrow> run_command source (guest_tool gtype @ '' destroy '' @ vmid @ '' --purge 2>&1'');
          rest \<leftarrow> destroy_datasets source datasets;
          State_Monad.return (Inr (\<lparr>sp_step = ''destroy_guest'', sp_success = cr_success r,
            sp_output = last_chars 500 (cr_stdout r)\<rparr> # rest)) } }))"

end
