(* ===== verification/MigrateSafety.thy ===== *)
theory MigrateSafety
  imports Migrate
begin

text \<open>
  What a migration does to the two hosts, in every environment: which commands run in which order, what was
  seen before the guest is started or a configuration is changed, what the checks before a migration guarantee, and
  what the cleanup destroys.
\<close>

section \<open>Commands that change a guest\<close>

definition starts_guest :: "string \<Rightarrow> bool" where
  "starts_guest c = (starts_with ''qm start '' c \<or> starts_with ''pct start '' c)"

text \<open>Starting a guest, or changing or removing its configuration in place.\<close>

definition changes_guest :: "string \<Rightarrow> bool" where
  "changes_guest c = (starts_guest c \<or> starts_with ''sed '' c \<or> starts_with ''rm '' c)"

definition quiet_event :: "event \<Rightarrow> bool" where
  "quiet_event e = (case e of Ran h c r \<Rightarrow> \<not> changes_guest c | _ \<Rightarrow> True)"

abbreviation quiet :: "event list \<Rightarrow> bool" where
  "quiet es \<equiv> list_all quiet_event es"

definition status_command :: "string \<Rightarrow> string \<Rightarrow> string" where
  "status_command gtype vmid = guest_tool gtype @ '' status '' @ shell_quote vmid @ '' 2>/dev/null''"

definition not_running :: "cmd_result \<Rightarrow> bool" where
  "not_running r = (\<not> contains_str ''running'' (lower_str (cr_stdout r)))"

lemma quiet_said [simp]: "quiet_event (Said m f)"
  by (simp add: quiet_event_def)

lemma quiet_ran: "quiet_event (Ran h c r) = (\<not> changes_guest c)"
  by (simp add: quiet_event_def)

lemmas changes_defs = changes_guest_def starts_guest_def starts_with_def

lemma quiet_commands:
  "\<not> changes_guest (''cat '' @ x)" "\<not> changes_guest (''([ -e '' @ x)" "\<not> changes_guest (''[ -e '' @ x)"
  "\<not> changes_guest (''echo '' @ x)" "\<not> changes_guest (''zfs '' @ x)" "\<not> changes_guest (''set '' @ x)"
  by (simp_all add: changes_defs)

lemma quiet_tool:
  "\<not> changes_guest (guest_tool g @ '' status '' @ x)" "\<not> changes_guest (guest_tool g @ '' shutdown '' @ x)"
  "\<not> changes_guest (guest_tool g @ '' stop '' @ x)"
  by (simp_all add: changes_defs guest_tool_def)

lemmas quiet_literals [simp] = quiet_commands quiet_commands [unfolded append_Cons append_Nil]
  quiet_tool quiet_tool [unfolded append_Cons append_Nil]

lemma quiet_status [simp]: "\<not> changes_guest (status_command g v)"
  unfolding status_command_def by (rule quiet_tool)

lemma quiet_words [simp]:
  "\<not> changes_guest (snapshot_command n ds)" "\<not> changes_guest (write_command d c)"
  "\<not> changes_guest (transfer_command s t n pull p)"
proof -
  show "\<not> changes_guest (snapshot_command n ds)"
    using quiet_commands(5) [of "''snapshot '' @ shell_quote ds @ ''@'' @ shell_quote n"] by (simp add: snapshot_command_def)
  show "\<not> changes_guest (write_command d c)" unfolding write_command_def by (rule quiet_commands)
  obtain x where "transfer_command s t n pull p = ''set '' @ x"
    by (cases "hostref s"; cases "hostref t") (simp add: transfer_command_def build_send_recv_def Let_def)
  then show "\<not> changes_guest (transfer_command s t n pull p)" by (metis quiet_commands(6))
qed

lemma start_changes: "changes_guest (start_command g v)"
  by (simp add: changes_defs start_command_def guest_tool_def)

section \<open>What each operation adds\<close>

lemma does_running:
  "does (guest_is_running h v g) (\<lambda>up es. \<exists>r. es = [Ran h (status_command g v) r] \<and> up = (\<not> not_running r))"
  unfolding guest_is_running_def status_command_def not_running_def by (intro does_rules) simp

lemma does_config:
  "does (read_guest_config h v g) (\<lambda>res es. quiet es \<and> (\<forall>t p. res = Inr (t, p) \<longrightarrow>
     (\<exists>r. es = [Ran h (''cat '' @ shell_quote p @ '' 2>/dev/null'') r] \<and> cr_success r \<and> cr_stdout r = t)))"
  unfolding read_guest_config_def Let_def by (intro does_rules) (auto simp: quiet_ran)

lemma quiet_vmid [simp]: "\<not> changes_guest (vmid_command n)"
  unfolding vmid_command_def using quiet_commands(2) by simp

lemma does_in_use:
  "does (vmid_in_use h v) (\<lambda>used es. quiet es \<and> (used = Some False \<longrightarrow>
     (\<exists>n r. py_int v = Some n \<and> es = [Ran h (vmid_command n) r] \<and> \<not> contains_str ''__USED__'' (cr_stdout r))))"
  unfolding vmid_in_use_def by (intro does_rules) (auto simp: quiet_ran)

lemma does_stop:
  "does (stop_guest h v g limit) (\<lambda>ok es. quiet es \<and>
     (ok \<longrightarrow> (\<exists>a r. es = a @ [Ran h (status_command g v) r] \<and> not_running r)))"
proof -
  have last: "\<exists>a r'. x # y # [Ran h (status_command g v) r] = a @ [Ran h (status_command g v) r'] \<and> not_running r'"
    if "not_running r" for x y r using that by (intro exI [of _ "[x, y]"] exI [of _ r]) simp
  have last2: "\<exists>a r'. x # y # s # u # z # [Ran h (status_command g v) r] = a @ [Ran h (status_command g v) r'] \<and> not_running r'"
    if "not_running r" for x y s u z r using that by (intro exI [of _ "[x, y, s, u, z]"] exI [of _ r]) simp
  show ?thesis
    unfolding stop_guest_def
    by (intro does_say_bind does_run_bind does_bind [OF does_running] does_if does_return; (elim exE conjE)?)
      (auto simp: quiet_ran intro: last last2)
qed

definition driver :: "host \<Rightarrow> host \<Rightarrow> bool \<Rightarrow> host" where
  "driver source target pull = (if pull then target else source)"

text \<open>The commands of a transfer are the snapshots of all disks and then the sends, up to the first that fails.\<close>

definition sends :: "host \<Rightarrow> host \<Rightarrow> string \<Rightarrow> bool \<Rightarrow> plan_entry list \<Rightarrow> (host \<times> string) list" where
  "sends source target snap pull plan = map (\<lambda>p. (driver source target pull, transfer_command source target snap pull p)) plan"

definition sent :: "host \<Rightarrow> host \<Rightarrow> string \<Rightarrow> bool \<Rightarrow> event list \<Rightarrow> plan_entry \<Rightarrow> bool" where
  "sent source target snap pull es p =
     (\<exists>r. Ran (driver source target pull) (transfer_command source target snap pull p) r \<in> set es \<and> transfer_ok r)"

lemma sent_append [simp]: "sent s t n pull (es @ fs) p \<longleftrightarrow> sent s t n pull es p \<or> sent s t n pull fs p"
  by (auto simp: sent_def)

lemma does_snapshots:
  "does (snapshot_all h dss snap) (\<lambda>ms es. quiet es \<and> map sm_dataset ms = dss \<and>
     commands es = map (\<lambda>ds. (h, snapshot_command snap ds)) dss)"
  unfolding snapshot_all_def
proof (induction dss)
  case Nil
  show ?case by (auto intro: does_return)
next
  case (Cons ds dss)
  have one: "does (snapshot_one h snap ds) (\<lambda>m es. sm_dataset m = ds \<and> (\<exists>r. es = [Ran h (snapshot_command snap ds) r]))"
    unfolding snapshot_one_def by (intro does_rules) simp
  show ?case unfolding for_each.simps
    by (intro does_bind [OF one] does_bind [OF Cons.IH] does_return) (auto simp: quiet_ran)
qed

lemma does_transfer_disk:
  "does (transfer_disk s t snap pull p) (\<lambda>res es. \<exists>m r.
     es = [m, Ran (driver s t pull) (transfer_command s t snap pull p) r] \<and> (\<exists>x. m = Said x None) \<and>
     tr_success res = transfer_ok r)"
  unfolding transfer_disk_def driver_def by (intro does_rules) auto

text \<open>\<open>n\<close> results stand already; the sends go up to the first failure, which is the last result.\<close>

definition sent_up_to ::
  "host \<Rightarrow> host \<Rightarrow> string \<Rightarrow> bool \<Rightarrow> nat \<Rightarrow> plan_entry list \<Rightarrow> transfer_result \<Rightarrow> event list \<Rightarrow> bool" where
  "sent_up_to s t snap pull n ps res es = (\<exists>k \<le> length ps.
     commands es = sends s t snap pull (take k ps) \<and> length (tf_results res) = n + k \<and>
     (if tf_error res = None then k = length ps \<and> list_all (sent s t snap pull es) ps
      else 0 < k \<and> \<not> tr_success (last (tf_results res))))"

lemma does_transfer_loop:
  "does (transfer_loop s t snap pull acc ps) (\<lambda>res es. quiet es \<and> sent_up_to s t snap pull (length acc) ps res es)"
proof (induction ps arbitrary: acc)
  case Nil
  show ?case unfolding transfer_loop.simps by (rule does_return) (simp add: sends_def sent_up_to_def)
next
  case (Cons p ps)
  have stop: "quiet (es @ [Said x f]) \<and> sent_up_to s t snap pull (length acc) (p # ps) \<lparr>tf_error = Some e, tf_results = acc @ [res]\<rparr>
      (es @ [Said x f])"
    if "es = [Said m None, Ran (driver s t pull) (transfer_command s t snap pull p) r]" "\<not> tr_success res"
    for es m r x f e and res :: transfer
    using that by (auto simp: quiet_ran sends_def sent_up_to_def intro: exI [of _ 1])
  have step: "quiet (es @ Said x f # fs) \<and> sent_up_to s t snap pull (length acc) (p # ps) y (es @ Said x f # fs)"
    if e: "es = [Said m None, Ran (driver s t pull) (transfer_command s t snap pull p) r]" "transfer_ok r"
      and fs: "quiet fs" "sent_up_to s t snap pull (length (acc @ [res])) ps y fs"
    for es m r x f fs y and res :: transfer
  proof -
    from fs(2) obtain k where k: "k \<le> length ps" "commands fs = sends s t snap pull (take k ps)"
      "length (tf_results y) = length acc + Suc k"
      and d: "if tf_error y = None then k = length ps \<and> list_all (sent s t snap pull fs) ps
        else 0 < k \<and> \<not> tr_success (last (tf_results y))" unfolding sent_up_to_def by auto
    have "sent s t snap pull (es @ Said x f # fs) p" using e by (auto simp: sent_def)
    moreover have "list_all (sent s t snap pull (es @ Said x f # fs)) ps" if "list_all (sent s t snap pull fs) ps"
      using that by (auto simp: list_all_iff sent_def)
    ultimately have "if tf_error y = None then Suc k = length (p # ps) \<and> list_all (sent s t snap pull (es @ Said x f # fs)) (p # ps)
        else 0 < Suc k \<and> \<not> tr_success (last (tf_results y))" using d by (auto split: if_splits)
    moreover have "commands (es @ Said x f # fs) = sends s t snap pull (take (Suc k) (p # ps))"
      using e k(2) by (simp add: sends_def)
    ultimately have "sent_up_to s t snap pull (length acc) (p # ps) y (es @ Said x f # fs)"
      unfolding sent_up_to_def using k(1,3) by (intro exI [of _ "Suc k"]) simp
    with e fs(1) show ?thesis by (simp add: quiet_ran)
  qed
  show ?case unfolding transfer_loop.simps
    by (intro does_bind [OF does_transfer_disk] does_if does_say_bind does_return; (elim exE conjE)?)
      ((hypsubst, rule stop [OF refl], assumption) |
       (hypsubst, rule does_weaken [OF Cons.IH], elim conjE, rule step [OF refl], simp, assumption, assumption))+
qed

lemma does_run_transfer:
  "does (run_transfer s t plan pull snap) (\<lambda>res es. quiet es \<and>
     (tf_error res = None \<longrightarrow> list_all (sent s t snap pull es) plan) \<and>
     (\<exists>k \<le> length plan. commands es = map (\<lambda>p. (s, snapshot_command snap (pe_source p))) plan @ sends s t snap pull (take k plan) \<and>
       length (tf_results res) = k \<and>
       (if tf_error res = None then k = length plan else k = 0 \<or> \<not> tr_success (last (tf_results res)))))"
  (is "does _ (\<lambda>res es. ?Q res es)")
proof -
  have fail: "?Q \<lparr>tf_error = Some e, tf_results = []\<rparr> (Said x f # es @ [])"
    if "quiet es" "commands es = map (\<lambda>ds. (s, snapshot_command snap ds)) (map pe_source plan)" for e x f es
    using that by (simp add: sends_def)
  have go: "?Q y (Said x f # es @ fs)"
    if "quiet es" "commands es = map (\<lambda>ds. (s, snapshot_command snap ds)) (map pe_source plan)" "quiet fs"
      "sent_up_to s t snap pull (length ([] :: transfer list)) plan y fs" for x f es fs y
  proof -
    have "list_all (sent s t snap pull (Said x f # es @ fs)) plan" if "list_all (sent s t snap pull fs) plan"
      using that by (auto simp: list_all_iff sent_def)
    with that show ?thesis by (auto simp: sent_up_to_def split: if_splits)
  qed
  show ?thesis unfolding run_transfer_def Let_def
    by (intro does_say_bind does_bind [OF does_snapshots] does_if does_return does_weaken [OF does_transfer_loop]; elim conjE)
      ((rule fail, assumption, assumption) | (rule go, assumption, assumption, assumption, assumption))+
qed

lemma does_restore:
  "does (restore_guest_config h g v content force) (\<lambda>wr es. quiet es \<and>
     (config_write_ok wr \<longrightarrow> (\<exists>r. Ran h (write_command (config_path g v) content) r \<in> set es \<and> contains_str ''__OK__'' (cr_stdout r))))"
  unfolding restore_guest_config_def Let_def by (intro does_rules) (auto simp: quiet_ran config_write_ok_def)

text \<open>The end of a cutover: the lock on the source, and then at most one start, on the target.\<close>

definition closing :: "host \<Rightarrow> host \<Rightarrow> cutover_request \<Rightarrow> event list \<Rightarrow> bool" where
  "closing source target q es = (\<exists>pre r post.
     es = pre @ (if co_start q then Ran target (start_command (co_gtype q) (target_vmid_of q)) r # post else post) \<and>
     (\<forall>h c r. Ran h c r \<in> set pre \<longrightarrow> h = source \<and> \<not> starts_guest c) \<and> quiet post)"

lemma not_start_lock [simp]: "\<not> starts_guest (lock_command p l)"
  by (simp add: lock_command_def starts_guest_def starts_with_def)

lemma does_lock:
  "does (set_guest_lock h v g l) (\<lambda>r es. \<forall>h' c r. Ran h' c r \<in> set es \<longrightarrow> h' = h \<and> \<not> starts_guest c)"
  unfolding set_guest_lock_def by (intro does_rules) auto

lemma does_start:
  "does (start_guest target q) (\<lambda>ok es. \<exists>x f r post. es = Said x f # Ran target (start_command (co_gtype q) (target_vmid_of q)) r # post \<and>
     quiet post)"
  unfolding start_guest_def by (intro does_rules) auto

lemma does_finish:
  "does (finish_cutover source target q snap results) (\<lambda>res es. closing source target q es \<and> (\<exists>a b c d e. res = Moved a b c d e))"
proof -
  have go: "closing source target q
      (es @ Said x f # Said y g # Ran target (start_command (co_gtype q) (target_vmid_of q)) r # post @ [Said z k])"
    if "\<forall>h c. (\<exists>r. Ran h c r \<in> set es) \<longrightarrow> h = source \<and> \<not> starts_guest c" "co_start q" "quiet post"
    for es x f y g z k r post
    unfolding closing_def by (rule exI [of _ "es @ [Said x f, Said y g]"], rule exI [of _ r], rule exI [of _ "post @ [Said z k]"])
      (use that in auto)
  have no: "closing source target q (es @ Said x f # [] @ [Said y g])"
    if "\<forall>h c r. Ran h c r \<in> set es \<longrightarrow> h = source \<and> \<not> starts_guest c" "\<not> co_start q" for es x f y g
    unfolding closing_def by (rule exI [of _ es], rule exI, rule exI [of _ "[Said x f, Said y g]"]) (use that in auto)
  show ?thesis
  proof (cases "co_start q")
    case True
    show ?thesis unfolding finish_cutover_def if_P [OF True]
      by (intro does_bind [OF does_lock] does_say_bind does_bind [OF does_start] does_return; elim exE conjE)
        (use True in \<open>auto intro!: go\<close>)
  next
    case False
    show ?thesis unfolding finish_cutover_def if_not_P [OF False]
      by (intro does_bind [OF does_lock] does_say_bind does_return_bind does_return) (use False no in auto)
  qed
qed

text \<open>What must stand in the history before the source is locked and the target started.\<close>

definition config_written :: "host \<Rightarrow> cutover_request \<Rightarrow> string \<Rightarrow> event list \<Rightarrow> bool" where
  "config_written target q content es =
     (\<exists>r. Ran target (write_command (config_path (co_gtype q) (target_vmid_of q))
         (rewrite_guest_config content (co_storage_map q) (co_bridge_map q) (co_vmid q) (co_new_vmid q))) r \<in> set es \<and>
       contains_str ''__OK__'' (cr_stdout r))"

definition handed_over :: "host \<Rightarrow> host \<Rightarrow> string \<Rightarrow> cutover_request \<Rightarrow> event list \<Rightarrow> bool" where
  "handed_over source target snap q es = (\<exists>a s b cmd r.
     es = a @ Ran source (status_command (co_gtype q) (co_vmid q)) s # b \<and> not_running s \<and>
     list_all (sent source target snap (co_pull q) b) (co_plan q) \<and>
     Ran source cmd r \<in> set a \<and> cr_success r \<and> config_written target q (cr_stdout r) b)"

definition moved :: "cutover_result \<Rightarrow> bool" where
  "moved res = (case res of Moved a b c d e \<Rightarrow> True | _ \<Rightarrow> False)"

lemma moved_simps [simp]: "moved (Moved a b c d e)" "\<not> moved (Failed x y z u)" "\<not> moved Crashed"
  by (simp_all add: moved_def)

definition cutover_post :: "host \<Rightarrow> host \<Rightarrow> string \<Rightarrow> cutover_request \<Rightarrow> cutover_result \<Rightarrow> event list \<Rightarrow> bool" where
  "cutover_post source target snap q res es =
     (if moved res
      then \<exists>pre fin. es = pre @ fin \<and> quiet pre \<and> handed_over source target snap q pre \<and> closing source target q fin
      else quiet es)"

lemma does_restore_config:
  "does (restore_guest_config target (co_gtype q) (target_vmid_of q)
       (rewrite_guest_config content (co_storage_map q) (co_bridge_map q) (co_vmid q) (co_new_vmid q)) False)
     (\<lambda>wr es. quiet es \<and> (config_write_ok wr \<longrightarrow> config_written target q content es))"
  by (rule does_weaken [OF does_restore]) (simp add: config_written_def)

lemma config_written_in: "config_written target q content es \<Longrightarrow> set es \<subseteq> set fs \<Longrightarrow> config_written target q content fs"
  by (auto simp: config_written_def)

definition move_post :: "host \<Rightarrow> host \<Rightarrow> cutover_request \<Rightarrow> string \<Rightarrow> cutover_result \<Rightarrow> event list \<Rightarrow> bool" where
  "move_post source target q content res es =
     (if moved res
      then \<exists>pre fin. es = pre @ fin \<and> quiet pre \<and> config_written target q content pre \<and> closing source target q fin
      else quiet es)"

lemma does_move:
  "does (move_config source target q snap results content) (move_post source target q content)"
proof -
  have go: "move_post source target q content res (Said x f # es @ fs)"
    if "quiet es" "config_written target q content es" "closing source target q fs" "moved res" for x f es fs res
    unfolding move_post_def if_P [OF that(4)] using that(1-3)
    by (intro exI [of _ "Said x f # es"] exI [of _ fs]) (auto elim: config_written_in)
  show ?thesis
    unfolding move_config_def
    by (intro does_say_bind does_bind [OF does_restore_config] does_if does_return does_weaken [OF does_finish]; (elim conjE exE)?)
      (auto simp: move_post_def [of _ _ _ _ "Failed a b c d" for a b c d] intro: go)
qed

text \<open>The state of a cutover that has stopped the guest, in the part of the history since the status.\<close>

definition deliver_post :: "host \<Rightarrow> host \<Rightarrow> string \<Rightarrow> cutover_request \<Rightarrow> string \<Rightarrow> cutover_result \<Rightarrow> event list \<Rightarrow> bool" where
  "deliver_post source target snap q content res es =
     (if moved res
      then \<exists>pre fin. es = pre @ fin \<and> quiet pre \<and> list_all (sent source target snap (co_pull q) pre) (co_plan q) \<and>
        config_written target q content pre \<and> closing source target q fin
      else quiet es)"

lemma does_deliver: "does (deliver source target q snap content) (deliver_post source target snap q content)"
proof -
  have go: "deliver_post source target snap q content res (Said x f # es @ fs)"
    if "quiet es" "list_all (sent source target snap (co_pull q) es) (co_plan q)" "move_post source target q content res fs"
    for x f es fs res
  proof (cases "moved res")
    case True
    with that(3) obtain pre fin where p: "fs = pre @ fin" "quiet pre" "config_written target q content pre"
      "closing source target q fin" unfolding move_post_def by auto
    have "list_all (sent source target snap (co_pull q) (Said x f # es @ pre)) (co_plan q)"
      using that(2) by (auto simp: list_all_iff sent_def)
    moreover have "config_written target q content (Said x f # es @ pre)" by (rule config_written_in [OF p(3)]) auto
    ultimately show ?thesis unfolding deliver_post_def if_P [OF True]
      by (intro exI [of _ "Said x f # es @ pre"] exI [of _ fin]) (use p that(1) in simp)
  qed (use that in \<open>simp add: deliver_post_def move_post_def\<close>)
  show ?thesis unfolding deliver_def
  proof (intro does_say_bind does_bind [OF does_run_transfer] does_option does_return does_weaken [OF does_move]; elim conjE)
    fix res es e assume "quiet es"
    then show "deliver_post source target snap q content (Failed e (tf_results res) True False)
      (Said ''Guest is stopped -- sending the final delta ...'' None # es @ [Said ''Final transfer failed -- source is untouched, restart it there'' (Some False)])"
      by (simp add: deliver_post_def)
  next
    fix res es y fs
    assume "tf_error res = None" "quiet es" "tf_error res = None \<longrightarrow> list_all (sent source target snap (co_pull q) es) (co_plan q)"
      "move_post source target q content y fs"
    then show "deliver_post source target snap q content y (Said ''Guest is stopped -- sending the final delta ...'' None # es @ fs)"
      by (intro go) simp_all
  qed
qed

definition stopped_post :: "host \<Rightarrow> host \<Rightarrow> string \<Rightarrow> cutover_request \<Rightarrow> string \<Rightarrow> cutover_result \<Rightarrow> event list \<Rightarrow> bool" where
  "stopped_post source target snap q content res es =
     (if moved res
      then \<exists>a s es'. es = a @ Ran source (status_command (co_gtype q) (co_vmid q)) s # es' \<and> quiet a \<and> not_running s \<and>
        deliver_post source target snap q content res es'
      else quiet es)"

lemma does_stop_deliver:
  "does (stop_and_deliver source target q snap content) (stopped_post source target snap q content)"
  unfolding stop_and_deliver_def
proof (intro does_bind [OF does_stop] does_if does_return does_weaken [OF does_deliver]; elim conjE)
  fix st es res fs
  assume *: "\<not> \<not> st" "quiet es" "deliver_post source target snap q content res fs"
    "st \<longrightarrow> (\<exists>a r. es = a @ [Ran source (status_command (co_gtype q) (co_vmid q)) r] \<and> not_running r)"
  then obtain a r where a: "es = a @ [Ran source (status_command (co_gtype q) (co_vmid q)) r]" "not_running r" by blast
  show "stopped_post source target snap q content res (es @ fs)"
  proof (cases "moved res")
    case True
    show ?thesis unfolding stopped_post_def if_P [OF True]
      by (intro exI [of _ a] exI [of _ r] exI [of _ fs]) (use * a in simp)
  qed (use * in \<open>auto simp: stopped_post_def deliver_post_def\<close>)
qed (simp add: stopped_post_def)

lemma does_cutover: "does (cutover_job now source target q) (cutover_post source target (make_snapshot_name now) q)"
proof -
  let ?snap = "make_snapshot_name now"
  have go: "cutover_post source target ?snap q res (es1 @ es2 @ fs)"
    if "quiet es1" "es2 = [Ran source cmd r]" "\<not> changes_guest cmd" "cr_success r" "stopped_post source target ?snap q (cr_stdout r) res fs"
    for es1 es2 cmd r fs res
  proof (cases "moved res")
    case True
    from that(5) obtain a s pre fin where
      f: "fs = a @ Ran source (status_command (co_gtype q) (co_vmid q)) s # pre @ fin" "quiet a" "not_running s" "quiet pre"
      "list_all (sent source target ?snap (co_pull q) pre) (co_plan q)" "config_written target q (cr_stdout r) pre"
      "closing source target q fin"
      unfolding stopped_post_def deliver_post_def if_P [OF True] by blast
    let ?pre = "es1 @ es2 @ a @ Ran source (status_command (co_gtype q) (co_vmid q)) s # pre"
    have "handed_over source target ?snap q ?pre"
      unfolding handed_over_def using that(2,4) f
      by (intro exI [of _ "es1 @ es2 @ a"] exI [of _ s] exI [of _ pre] exI [of _ cmd] exI [of _ r]) simp
    then show ?thesis
      unfolding cutover_post_def if_P [OF True] by (intro exI [of _ ?pre] exI [of _ fin]) (use f that(1-3) in \<open>simp add: quiet_ran\<close>)
  qed (use that in \<open>simp add: cutover_post_def stopped_post_def quiet_ran\<close>)
  have fail: "cutover_post source target ?snap q res es" if "quiet es" "\<not> moved res" for res es
    using that by (simp add: cutover_post_def)
  show ?thesis
    unfolding cutover_job_def
  proof (intro does_bind [OF does_in_use] does_option does_if does_return does_bind [OF does_config] does_sum does_prod
      does_weaken [OF does_stop_deliver]; (elim conjE)?)
    fix used es cfg fs x content path res gs
    assume *: "quiet es" "cfg = Inr x" "x = (content, path)" "stopped_post source target ?snap q content res gs"
      "\<forall>t p. cfg = Inr (t, p) \<longrightarrow> (\<exists>r. fs = [Ran source (''cat '' @ shell_quote p @ '' 2>/dev/null'') r] \<and> cr_success r \<and> cr_stdout r = t)"
    then obtain r where r: "fs = [Ran source (''cat '' @ shell_quote path @ '' 2>/dev/null'') r]" "cr_success r" "cr_stdout r = content"
      by blast
    show "cutover_post source target ?snap q res (es @ fs @ gs)"
      by (rule go [OF *(1) r(1) quiet_commands(1) r(2)]) (use * r in simp)
  qed (auto intro: fail)
qed

section \<open>The cutover\<close>

lemma quiet_start: "quiet es \<Longrightarrow> starts_guest c \<Longrightarrow> Ran h c r \<notin> set es"
  by (auto simp: list_all_iff quiet_ran changes_guest_def)

lemma closing_start:
  assumes "closing source target q fin" "fin = x @ Ran h c r # y" "starts_guest c"
  shows "h = target \<and> c = start_command (co_gtype q) (target_vmid_of q) \<and> co_start q \<and>
    (\<forall>h' c' r'. Ran h' c' r' \<in> set x \<longrightarrow> h' = source \<and> \<not> starts_guest c')"
proof -
  obtain pre r' post where c: "fin = pre @ (if co_start q then Ran target (start_command (co_gtype q) (target_vmid_of q)) r' # post else post)"
      "\<forall>h c r. Ran h c r \<in> set pre \<longrightarrow> h = source \<and> \<not> starts_guest c" "quiet post"
    using assms(1) unfolding closing_def by blast
  have m: "Ran h c r \<notin> set post" "Ran h c r \<notin> set pre" using quiet_start [OF c(3) assms(3)] c(2) assms(3) by blast+
  have "Ran h c r \<in> set fin" using assms(2) by simp
  with c(1) m have st: "co_start q" "Ran h c r = Ran target (start_command (co_gtype q) (target_vmid_of q)) r'"
    by (auto split: if_splits)
  have "x @ Ran h c r # y = pre @ Ran h c r # post" using c(1) assms(2) st by simp
  with m have "x = pre" using append_Cons_eq_iff [of "Ran h c r" pre post x y] by metis
  with st c(2) show ?thesis by simp
qed

lemma split_after:
  assumes "a @ e # b = pre @ fin" "e \<notin> set pre"
  shows "\<exists>x. a = pre @ x \<and> fin = x @ e # b"
proof -
  from assms(1) obtain us where "a = pre @ us \<and> us @ e # b = fin \<or> a @ us = pre \<and> e # b = us @ fin"
    unfolding append_eq_append_conv2 by blast
  then show ?thesis
  proof (elim disjE conjE)
    assume u: "a @ us = pre" "e # b = us @ fin"
    with assms(2) have "us = []" by (cases us) auto
    with u show ?thesis by auto
  qed auto
qed

text \<open>C11: A cutover starts a guest only on the target, once, and only after the source's last status answer did not say
  "running", every disk's final snapshot was sent with exit status 0 after that answer, and the
  rewritten configuration, made from what the source held, was written to the target. No guest is started on the source.\<close>

theorem cutover_starts_after_handover:
  assumes "history_of (cutover_job now source target q) w = a @ Ran h c r # b" and "starts_guest c"
  shows "h = target \<and> c = start_command (co_gtype q) (target_vmid_of q) \<and> co_start q \<and>
    (\<forall>h' c' r'. Ran h' c' r' \<in> set a \<longrightarrow> \<not> starts_guest c') \<and>
    (\<exists>a1 s a2 cmd k. a = a1 @ Ran source (status_command (co_gtype q) (co_vmid q)) s # a2 \<and> not_running s \<and>
       list_all (sent source target (make_snapshot_name now) (co_pull q) a2) (co_plan q) \<and>
       Ran source cmd k \<in> set a1 \<and> cr_success k \<and> config_written target q (cr_stdout k) a2)"
proof -
  let ?es = "history_of (cutover_job now source target q) w" and ?res = "result_of (cutover_job now source target q) w"
  have post: "cutover_post source target (make_snapshot_name now) q ?res ?es" by (rule does_outcome [OF does_cutover])
  have "moved ?res"
  proof (rule ccontr)
    assume "\<not> moved ?res"
    with post have "quiet ?es" by (simp add: cutover_post_def)
    from quiet_start [OF this assms(2)] assms(1) show False by auto
  qed
  with post obtain pre fin where p: "?es = pre @ fin" "quiet pre" "handed_over source target (make_snapshot_name now) q pre"
    "closing source target q fin" unfolding cutover_post_def by auto
  from quiet_start [OF p(2) assms(2)] have "Ran h c r \<notin> set pre" .
  with split_after [of a "Ran h c r" b pre fin] assms(1) p(1) obtain x where x: "a = pre @ x" "fin = x @ Ran h c r # b" by auto
  note cl = closing_start [OF p(4) x(2) assms(2)]
  from p(3) obtain a1 s a2 cmd k where e: "pre = a1 @ Ran source (status_command (co_gtype q) (co_vmid q)) s # a2" "not_running s"
     "list_all (sent source target (make_snapshot_name now) (co_pull q) a2) (co_plan q)"
     "Ran source cmd k \<in> set a1" "cr_success k" "config_written target q (cr_stdout k) a2"
    unfolding handed_over_def by blast
  have "list_all (sent source target (make_snapshot_name now) (co_pull q) (a2 @ x)) (co_plan q)"
    using e(3) by (auto simp: list_all_iff)
  moreover have "config_written target q (cr_stdout k) (a2 @ x)" by (rule config_written_in [OF e(6)]) auto
  ultimately have "\<exists>a1 s a2 cmd k. a = a1 @ Ran source (status_command (co_gtype q) (co_vmid q)) s # a2 \<and> not_running s \<and>
       list_all (sent source target (make_snapshot_name now) (co_pull q) a2) (co_plan q) \<and>
       Ran source cmd k \<in> set a1 \<and> cr_success k \<and> config_written target q (cr_stdout k) a2"
    using e(1,2,4,5) x(1)
    by (intro exI [of _ a1] exI [of _ s] exI [of _ "a2 @ x"] exI [of _ cmd] exI [of _ k]) simp
  moreover have "\<forall>h' c' r'. Ran h' c' r' \<in> set a \<longrightarrow> \<not> starts_guest c'"
    using cl quiet_start [OF p(2)] unfolding x(1) set_append Un_iff by blast
  ultimately show ?thesis using cl by blast
qed


text \<open>A migration of a guest with one disk, in an environment where everything works.\<close>

definition ex_answer :: "event list \<Rightarrow> host \<Rightarrow> string \<Rightarrow> cmd_result" where
  "ex_answer es h c =
     (if starts_with ''cat '' c then cmd_ok ''cores: 2''
      else if starts_with ''set '' c then cmd_ok ''__exit=0''
      else if starts_with ''echo '' c \<or> starts_with ''sed '' c then cmd_ok ''__OK__''
      else if starts_with ''qm status'' c then cmd_ok ''status: stopped''
      else cmd_ok [])"

definition ex_src :: host where "ex_src = plain_host ''pve1'' ''10.0.0.1''"
definition ex_tgt :: host where "ex_tgt = plain_host ''pve2'' ''10.0.0.2''"

definition ex_request :: cutover_request where
  "ex_request = \<lparr>co_vmid = ''100'', co_gtype = ''qemu'',
     co_plan = [\<lparr>pe_key = ''scsi0'', pe_source = ''rpool/vm-100-disk-0'', pe_target = ''tank/vm-100-disk-0'', pe_used = [],
       pe_exists = True, pe_common = ''migrate-1''\<rparr>],
     co_pull = True, co_new_vmid = [], co_storage_map = [], co_bridge_map = [], co_start = True, co_timeout = 120\<rparr>"

definition ex_now :: datetime where
  "ex_now = \<lparr>dt_year = 2026, dt_month = 8, dt_day = 4, dt_hour = 10, dt_minute = 13, dt_second = 19\<rparr>"

definition ex_history :: "event list" where
  "ex_history = history_of (cutover_job ex_now ex_src ex_tgt ex_request) (fresh ex_answer)"

lemma ex_history_start: "ex_history = take 17 ex_history @ Ran ex_tgt ''qm start 100'' (cmd_ok []) # drop 18 ex_history"
  by code_simp

theorem cutover_starts_after_handover_witness:
  "(\<exists>a1 s a2. take 17 ex_history = a1 @ Ran ex_src (status_command ''qemu'' ''100'') s # a2 \<and> not_running s \<and>
      list_all (sent ex_src ex_tgt ''migrate-20260804-101319'' True a2) (co_plan ex_request)) \<and>
   \<not> starts_guest ''qm shutdown 100 --timeout 120''"
proof -
  have n: "make_snapshot_name ex_now = ''migrate-20260804-101319''" by code_simp
  have q: "co_gtype ex_request = ''qemu''" "co_vmid ex_request = ''100''" "co_pull ex_request = True"
    by (simp_all add: ex_request_def)
  have "starts_guest ''qm start 100''" by (simp add: starts_guest_def starts_with_def)
  from cutover_starts_after_handover [OF ex_history_start [unfolded ex_history_def] this]
  have "\<exists>a1 s a2. take 17 ex_history = a1 @ Ran ex_src (status_command ''qemu'' ''100'') s # a2 \<and> not_running s \<and>
      list_all (sent ex_src ex_tgt ''migrate-20260804-101319'' True a2) (co_plan ex_request)"
    unfolding n q ex_history_def [symmetric] by blast
  moreover have "\<not> starts_guest ''qm shutdown 100 --timeout 120''" by (simp add: starts_guest_def starts_with_def)
  ultimately show ?thesis by blast
qed

text \<open>C20: A transfer first takes the snapshot of every disk and then sends the disks in the order of the plan, stopping at
  the first that fails; it reports success only when every send ended with exit status 0.\<close>

theorem transfer_is_fail_stop:
  "\<exists>k \<le> length plan. commands (history_of (run_transfer s t plan pull snap) w) =
       map (\<lambda>p. (s, snapshot_command snap (pe_source p))) plan @ sends s t snap pull (take k plan) \<and>
     length (tf_results (result_of (run_transfer s t plan pull snap) w)) = k \<and>
     (if tf_error (result_of (run_transfer s t plan pull snap) w) = None
      then k = length plan \<and> list_all (sent s t snap pull (history_of (run_transfer s t plan pull snap) w)) plan
      else k = 0 \<or> \<not> tr_success (last (tf_results (result_of (run_transfer s t plan pull snap) w))))"
  using does_outcome [OF does_run_transfer [of s t plan pull snap], of w] by auto

text \<open>A transfer of two disks whose first send fails.\<close>

definition ex_plan :: "plan_entry list" where
  "ex_plan = (let p = (\<lambda>k ds. \<lparr>pe_key = k, pe_source = ''rpool/'' @ ds, pe_target = ''tank/'' @ ds, pe_used = [],
     pe_exists = False, pe_common = []\<rparr>) in [p ''scsi0'' ''vm-100-disk-0'', p ''scsi1'' ''vm-100-disk-1''])"

definition broken_answer :: "event list \<Rightarrow> host \<Rightarrow> string \<Rightarrow> cmd_result" where
  "broken_answer es h c = (if starts_with ''set '' c then cmd_ok ''__exit=1'' else cmd_ok [])"

theorem transfer_is_fail_stop_witness:
  "\<exists>k \<le> 2. commands (history_of (run_transfer ex_src ex_tgt ex_plan True ''s'') (fresh broken_answer)) =
       map (\<lambda>p. (ex_src, snapshot_command ''s'' (pe_source p))) ex_plan @ sends ex_src ex_tgt ''s'' True (take k ex_plan) \<and> k = 1"
proof -
  have r: "length (tf_results (result_of (run_transfer ex_src ex_tgt ex_plan True ''s'') (fresh broken_answer))) = 1"
    by code_simp
  have p: "length ex_plan = 2" by code_simp
  from transfer_is_fail_stop [of ex_plan ex_src ex_tgt True "''s''" "fresh broken_answer"] obtain k where
    "k \<le> length ex_plan" "commands (history_of (run_transfer ex_src ex_tgt ex_plan True ''s'') (fresh broken_answer)) =
       map (\<lambda>p. (ex_src, snapshot_command ''s'' (pe_source p))) ex_plan @ sends ex_src ex_tgt ''s'' True (take k ex_plan)"
    "length (tf_results (result_of (run_transfer ex_src ex_tgt ex_plan True ''s'') (fresh broken_answer))) = k" by blast
  with r p show ?thesis by (intro exI [of _ k]) simp
qed

section \<open>What an unanswered status means\<close>

text \<open>A source that does not answer counts as stopped: if no answer of the source contains the word "running", the
  guest is reported as stopped although nothing is known about it. (The code says that the target is started only after
  the source is confirmed stopped.)\<close>

theorem silent_source_counts_as_stopped:
  assumes "\<And>es c. w_answer w es source c = cmd_fail err"
  shows "result_of (stop_guest source vmid gtype limit) w"
  using assms
  by (simp add: result_of_def stop_guest_def say_def run_command_def guest_is_running_def run_bind State_Monad.return_def
      Let_def cmd_fail_def lower_str_def)

theorem silent_source_counts_as_stopped_witness:
  "result_of (stop_guest ex_src ''100'' ''qemu'' 120) (fresh (\<lambda>es h c. cmd_fail ''timed out''))"
  by (rule silent_source_counts_as_stopped) (simp add: fresh_def)

lemma does_rollback:
  assumes "validate_vmid (VStr vmid) = Inr v" "validate_vmid (VStr tvmid) = Inr tv" "tvmid \<noteq> []"
  shows "does (rollback source target vmid gtype tvmid True) (\<lambda>res es. \<exists>a r up x.
    es = a @ [Ran source (start_command gtype v) r] \<and> Ran target (status_command gtype tv) up \<in> set a \<and>
    res = Inr x \<and> rb_stop_target x = not_running up)"
proof -
  have ne: "(if tvmid \<noteq> [] then validate_vmid (VStr tvmid) else Inr v) = Inr tv" using assms by simp
  have go: "\<exists>a r' up' x. e1 # es1 @ e3 # es @ [Ran source (start_command gtype v) r] = a @ [Ran source (start_command gtype v) r'] \<and>
      Ran target (status_command gtype tv) up' \<in> set a \<and> Inr y = Inr x \<and> rb_stop_target x = not_running up'"
    if "es1 = [Ran target (status_command gtype tv) up]" "rb_stop_target y = not_running up"
    for e1 es1 e3 es r up and y :: rollback_result
    using that by (intro exI [of _ "e1 # es1 @ e3 # es"] exI [of _ r] exI [of _ up] exI [of _ y]) simp
  show ?thesis
    unfolding rollback_def assms(1) ne sum.case if_True
    by (intro does_run_bind does_bind [OF does_running] does_bind [OF does_lock] does_bind_assoc does_return_bind does_return; (elim exE conjE)?)
      (rule go, assumption, simp)
qed

text \<open>The way back starts the guest on the source whatever became of the guest on the target: with valid numbers
  and a start asked for, the last command is always the start on the source, also when the target has just answered that its
  guest is still running. (The module promises that the guest never runs on both sides.)\<close>

theorem rollback_always_starts:
  assumes "validate_vmid (VStr vmid) = Inr v" and "validate_vmid (VStr tvmid) = Inr tv" and "tvmid \<noteq> []"
  shows "\<exists>a r up res. history_of (rollback source target vmid gtype tvmid True) w = a @ [Ran source (start_command gtype v) r] \<and>
     Ran target (status_command gtype tv) up \<in> set a \<and>
     result_of (rollback source target vmid gtype tvmid True) w = Inr res \<and> rb_stop_target res = not_running up"
  using does_outcome [OF does_rollback [OF assms, of source target gtype], of w] by blast

theorem rollback_always_starts_witness:
  "\<exists>a r up. history_of (rollback ex_src ex_tgt ''100'' ''qemu'' ''110'' True) (fresh (\<lambda>es h c. cmd_ok ''status: running'')) =
     a @ [Ran ex_src ''qm start 100'' r] \<and> Ran ex_tgt (status_command ''qemu'' ''110'') up \<in> set a"
proof -
  have v: "validate_vmid (VStr ''100'') = Inr ''100''" "validate_vmid (VStr ''110'') = Inr ''110''" by code_simp+
  have "start_command ''qemu'' ''100'' = ''qm start 100''" by (simp add: start_command_def guest_tool_def)
  with rollback_always_starts [OF v, of ex_src ex_tgt "''qemu''" "fresh (\<lambda>es h c. cmd_ok ''status: running'')"]
  show ?thesis by auto
qed

section \<open>What the checks guarantee\<close>

lemma no_errors_checks:
  assumes "no_errors (preflight_checks path disks unresolved running used tgt root_there root snaps ok_st detail
     bridges tgt_bridges pull push plan)"
  shows "unresolved = []" "disks \<noteq> []" "used = Some False" "root_there" "ok_st" "pull \<or> push" "\<not> list_ex blocked plan"
  using assms
  by (simp_all add: no_errors_def preflight_checks_def disks_check_def targets_checks_def chk_def chk_warn_def split: if_splits)

lemma does_resolve: "does (resolve_disk h kv) (\<lambda>r es. case_sum fst dk_key r = fst kv)"
  unfolding resolve_disk_def Let_def by (intro does_rules) simp_all

lemma all_resolved: "List.map_filter (case_sum Some (\<lambda>d. None)) rs = [] \<Longrightarrow>
   map dk_key (List.map_filter (case_sum (\<lambda>u. None) Some) rs) = map (case_sum fst dk_key) rs"
  by (induction rs) (auto simp: List.map_filter_simps split: sum.splits)

lemma does_discover:
  "does (discover_guest_disks h g text) (\<lambda>res es. snd res = [] \<longrightarrow>
     map dk_key (fst res) = map fst (parse_guest_config_disks text g))"
  unfolding discover_guest_disks_def
  by (intro does_bind [OF does_for_each_map [OF does_resolve]] does_return) (simp add: all_resolved)

lemma find_SomeD: "List.find P xs = Some x \<Longrightarrow> P x \<and> x \<in> set xs"
  by (auto simp: find_Some_iff)

lemma common_snapshot_both:
  "common_snapshot s t \<noteq> [] \<Longrightarrow> common_snapshot s t \<in> set s \<and> common_snapshot s t \<in> set t"
  using find_SomeD [of "\<lambda>x. x \<in> set s" "rev t"] by (auto simp: common_snapshot_def split: option.splits)

lemma does_exists: "does (dataset_exists h ds) (\<lambda>b es. True)"
  unfolding dataset_exists_def by (intro does_rules) simp

lemma does_list_snapshots: "does (list_snapshots h ds) (\<lambda>l es. True)"
  unfolding list_snapshots_def by (intro does_rules) simp

definition planned :: "string \<Rightarrow> string option \<Rightarrow> string \<Rightarrow> disk \<Rightarrow> string \<times> string \<times> string" where
  "planned vmid new_vmid root d = (dk_key d, dk_dataset d, root @ ''/'' @ target_basename vmid new_vmid (dk_dataset d))"

lemma does_plan:
  "does (plan_disk s t v n root d) (\<lambda>p es. (pe_key p, pe_source p, pe_target p) = planned v n root d)"
  unfolding plan_disk_def Let_def planned_def
  by (intro does_bind [OF does_exists] does_if does_bind [OF does_list_snapshots] does_bind_assoc does_return_bind does_return
      does_bind [of "if b then m else m'" "\<lambda>_ _. True" for b m m']) simp_all

lemma does_storages: "does (read_zfs_storages h) (\<lambda>l es. True)"
  unfolding read_zfs_storages_def read_node_def
  by (intro does_run_bind does_if does_bind_assoc does_return_bind does_return) simp_all

lemma does_bridges: "does (host_bridges h) (\<lambda>l es. True)"
  unfolding host_bridges_def by (intro does_rules) simp

lemma does_probe: "does (probe_ssh h k) (\<lambda>b es. True)"
  unfolding probe_ssh_def by (intro does_rules) simp

text \<open>What holds of a guest and its two hosts when the checks let a migration begin.\<close>

definition cleared :: "host \<Rightarrow> host \<Rightarrow> string \<Rightarrow> string \<Rightarrow> string \<Rightarrow> string \<Rightarrow> string \<Rightarrow> preflight_result \<Rightarrow> event list \<Rightarrow> bool" where
  "cleared source target vmid gtype root new_vmid storage pr es = (\<exists>cmd r disks.
     Ran source cmd r \<in> set es \<and> cr_success r \<and>
     map dk_key disks = map fst (parse_guest_config_disks (cr_stdout r) gtype) \<and> disks \<noteq> [] \<and>
     map (\<lambda>p. (pe_key p, pe_source p, pe_target p)) (pr_plan pr) =
       map (planned vmid (if new_vmid = [] then None else Some new_vmid) root) disks \<and>
     list_all (\<lambda>p. \<not> blocked p) (pr_plan pr) \<and>
     (\<exists>n k. py_int (pr_target_vmid pr) = Some n \<and> Ran target (vmid_command n) k \<in> set es \<and>
       \<not> contains_str ''__USED__'' (cr_stdout k)) \<and>
     (\<exists>s \<in> set (pr_target_storages pr). zs_storage s = storage \<and> zs_pool s = root) \<and>
     (pr_pull pr \<or> pr_push pr))"

lemma storage_match_ok:
  "fst (check_storage_match storages storage root) \<Longrightarrow> \<exists>s \<in> set storages. zs_storage s = storage \<and> zs_pool s = root"
  using find_SomeD [of "\<lambda>s. zs_storage s = storage" storages]
  by (auto simp: check_storage_match_def Let_def split: if_splits option.splits)

lemma does_preflight:
  "does (preflight source target vmid0 gtype root new_vmid storage) (\<lambda>out es. \<forall>pr. out = Checked pr \<longrightarrow> pr_can pr \<longrightarrow>
     (\<exists>vmid. validate_vmid (VStr vmid0) = Inr vmid \<and> cleared source target vmid gtype root new_vmid storage pr es))"
proof -
  have plan: "does (for_each (plan_disk source target v n root) ds) (\<lambda>ps es.
      map (\<lambda>p. (pe_key p, pe_source p, pe_target p)) ps = map (planned v n root) ds)" for v n ds
    by (rule does_for_each_map) (rule does_plan)
  have fin: "cleared source target vmid gtype root new_vmid storage pr es"
    if eq: "Checked \<lparr>pr_checks = cs, pr_plan = plan, pr_running = run, pr_target_vmid = tgt, pr_bridges = br, pr_target_bridges = tb,
        pr_source_storages = ss, pr_target_storages = ts, pr_suggestions = sg, pr_id_suggestion = ids, pr_target_storage = st,
        pr_pull = pull, pr_push = push,
        pr_can = no_errors (preflight_checks path disks unresolved run used tgt there root snaps ok det br tb pull push plan)\<rparr> = Checked pr"
      and can: "pr_can pr"
      and m: "check_storage_match ts storage root = (ok, det, sg)"
      and c: "Ran source cmd r \<in> set es" "cr_success r"
      and d: "unresolved = [] \<longrightarrow> map dk_key disks = map fst (parse_guest_config_disks (cr_stdout r) gtype)"
      and u: "used = Some False \<longrightarrow> (\<exists>n k. py_int tgt = Some n \<and> Ran target (vmid_command n) k \<in> set es \<and>
        \<not> contains_str ''__USED__'' (cr_stdout k))"
      and p: "map (\<lambda>p. (pe_key p, pe_source p, pe_target p)) plan =
        map (planned vmid (if new_vmid = [] then None else Some new_vmid) root) disks"
    for path disks unresolved run used tgt there snaps ok det br tb pull push plan cmd r es sg vmid pr cs ss ts ids st
  proof -
    have pr: "pr_plan pr = plan" "pr_target_vmid pr = tgt" "pr_pull pr = pull" "pr_push pr = push" "pr_target_storages pr = ts"
      and n: "no_errors (preflight_checks path disks unresolved run used tgt there root snaps ok det br tb pull push plan)"
      using eq can by auto
    note e = no_errors_checks [OF n]
    have "\<exists>s \<in> set (pr_target_storages pr). zs_storage s = storage \<and> zs_pool s = root"
      using storage_match_ok [of ts storage root] m e(5) pr(5) by simp
    moreover have "list_all (\<lambda>p. \<not> blocked p) plan" using e(7) by (simp add: list_all_iff list_ex_iff)
    ultimately show ?thesis
      unfolding cleared_def pr(1-4) using c d u p e by (intro exI [of _ cmd] exI [of _ r] exI [of _ disks]) simp
  qed
  have finish: "does (let (ok_st, detail_st, suggestions) = check_storage_match ts storage root;
          checks = preflight_checks path disks unresolved run used tgt there root snaps ok_st detail_st br tb pull push plan
        in State_Monad.return (Checked
          \<lparr>pr_checks = checks, pr_plan = plan, pr_running = run, pr_target_vmid = tgt, pr_bridges = br, pr_target_bridges = tb,
           pr_source_storages = ss, pr_target_storages = ts, pr_suggestions = suggestions, pr_id_suggestion = ids,
           pr_target_storage = st, pr_pull = pull, pr_push = push, pr_can = no_errors checks\<rparr>))
      (\<lambda>y fs. \<forall>pr. y = Checked pr \<longrightarrow> pr_can pr \<longrightarrow>
        (\<exists>vmid. validate_vmid (VStr vmid0) = Inr vmid \<and> cleared source target vmid gtype root new_vmid storage pr (F fs)))"
    if v: "validate_vmid (VStr vmid0) = Inr vmid"
      and p: "map (\<lambda>p. (pe_key p, pe_source p, pe_target p)) plan =
        map (planned vmid (if new_vmid = [] then None else Some new_vmid) root) disks"
      and x: "x = Inr (content, path)" "quiet es \<and> (\<forall>t p. x = Inr (t, p) \<longrightarrow>
        (\<exists>r. es = [Ran source (''cat '' @ shell_quote p @ '' 2>/dev/null'') r] \<and> cr_success r \<and> cr_stdout r = t))"
      and d: "snd (disks, unresolved) = [] \<longrightarrow> map dk_key (fst (disks, unresolved)) = map fst (parse_guest_config_disks content gtype)"
      and u: "quiet esc \<and> (used = Some False \<longrightarrow> (\<exists>n r. py_int tgt = Some n \<and> esc = [Ran target (vmid_command n) r] \<and>
        \<not> contains_str ''__USED__'' (cr_stdout r)))"
      and F: "\<And>fs. set es \<union> set esc \<subseteq> set (F fs)"
    for vmid plan disks unresolved x content path es esc used tgt F run there snaps br tb pull push ss ts ids st
  proof -
    from x obtain r where r: "es = [Ran source (''cat '' @ shell_quote path @ '' 2>/dev/null'') r]" "cr_success r" "cr_stdout r = content"
      by blast
    have c: "Ran source (''cat '' @ shell_quote path @ '' 2>/dev/null'') r \<in> set (F fs)" for fs using F [of fs] r(1) by simp
    have k: "used = Some False \<longrightarrow> (\<exists>n k. py_int tgt = Some n \<and> Ran target (vmid_command n) k \<in> set (F fs) \<and>
        \<not> contains_str ''__USED__'' (cr_stdout k))" for fs using u F [of fs] by fastforce
    have d': "unresolved = [] \<longrightarrow> map dk_key disks = map fst (parse_guest_config_disks (cr_stdout r) gtype)" using d r(3) by simp
    obtain ok det sg where m: "check_storage_match ts storage root = (ok, det, sg)" by (cases "check_storage_match ts storage root")
    show ?thesis
      unfolding Let_def m prod.case
      by (rule does_return, intro allI impI exI conjI, rule v, rule fin [OF _ _ m c r(2) d' k p], assumption, assumption)
  qed
  show ?thesis
    unfolding preflight_def
    by (intro does_sum does_if does_return does_bind [OF does_config] does_prod does_bind [OF does_discover]
        does_bind [OF does_running] does_bind [OF does_in_use] does_bind [OF does_exists] does_bind [OF does_storages]
        does_bind [OF does_bridges] does_bind [OF does_probe] does_bind [OF plan]
        does_bind [of "if b then State_Monad.return False else m" "\<lambda>_ _. True" for b m])
      (simp; fail | rule does_probe | hypsubst, rule finish, assumption, assumption, rule refl, assumption, assumption, assumption, force)+
qed


definition pf_answer :: "event list \<Rightarrow> host \<Rightarrow> string \<Rightarrow> cmd_result" where
  "pf_answer es h c =
     (if starts_with ''cat /etc/pve/qemu'' c then cmd_ok ''scsi0: zfs:vm-100-disk-0,size=8G''
      else if starts_with ''cat /etc/pve/storage'' c then cmd_ok (''zfspool: tz'' @ [newline, tab] @ ''pool tank'')
      else if starts_with ''pvesm path'' c then cmd_ok ''/dev/zvol/rpool/vm-100-disk-0''
      else if starts_with ''zfs list -H -o name,used'' c then cmd_ok (''rpool/vm-100-disk-0'' @ [tab] @ ''1G'')
      else if starts_with ''zfs list -H -o name tank 2'' c then cmd_ok ''tank''
      else if starts_with ''ssh '' c then cmd_ok ''__SSH_OK__''
      else cmd_ok [])"

definition ex_preflight :: preflight_result where
  "ex_preflight = (case result_of (preflight ex_src ex_tgt ''100'' ''qemu'' ''tank'' [] ''tz'') (fresh pf_answer) of
     Checked pr \<Rightarrow> pr
   | _ \<Rightarrow> \<lparr>pr_checks = [], pr_plan = [], pr_running = False, pr_target_vmid = [], pr_bridges = [], pr_target_bridges = [],
       pr_source_storages = [], pr_target_storages = [], pr_suggestions = [], pr_id_suggestion = [], pr_target_storage = [],
       pr_pull = False, pr_push = False, pr_can = False\<rparr>)"

lemma ex_preflight_can: "pr_can ex_preflight"
  by code_simp

lemma ex_preflight_result:
  "result_of (preflight ex_src ex_tgt ''100'' ''qemu'' ''tank'' [] ''tz'') (fresh pf_answer) = Checked ex_preflight"
  using ex_preflight_can by (auto simp: ex_preflight_def split: preflight_outcome.splits)


section \<open>What the cleanup destroys\<close>

definition destroys :: "string \<Rightarrow> bool" where
  "destroys c = (starts_with ''zfs destroy'' c \<or> starts_with ''qm destroy'' c \<or> starts_with ''pct destroy'' c)"

definition harmless :: "event list \<Rightarrow> bool" where
  "harmless es = list_all (\<lambda>e. case e of Ran h c r \<Rightarrow> \<not> destroys c | _ \<Rightarrow> True) es"

lemma harmless_simps [simp]:
  "harmless []" "harmless (Ran h c r # es) = (\<not> destroys c \<and> harmless es)" "harmless (Said m f # es) = harmless es"
  "harmless (es @ fs) = (harmless es \<and> harmless fs)"
  by (simp_all add: harmless_def)

lemma list_not_destroys: "\<not> destroys (''zfs list '' @ x)" "\<not> destroys (status_command g v)" "\<not> destroys (lock_command p l)"
  by (simp_all add: destroys_def starts_with_def status_command_def guest_tool_def lock_command_def)

lemmas list_not_destroys_simps [simp] = list_not_destroys list_not_destroys(1) [unfolded append_Cons append_Nil]

definition migration_snap :: "mig_snap \<Rightarrow> bool" where
  "migration_snap s = (split_once CHR ''@'' (ms_full s) = Some (ms_dataset s, ms_snapshot s) \<and> is_migration_snapshot (ms_snapshot s))"

lemma snap_of_line_migration: "snap_of_line ln = Some s \<Longrightarrow> migration_snap s"
  by (auto simp: snap_of_line_def migration_snap_def split: list.splits option.splits if_splits)

lemma list_ds_harmless: "\<not> destroys (''zfs list -H -o name,used -t snapshot -d 1 '' @ x)"
  using list_not_destroys(1) [of "''-H -o name,used -t snapshot -d 1 '' @ x"] by simp

lemma does_list_migration:
  "does (list_migration_snapshots h dss) (\<lambda>ss es. harmless es \<and> list_all migration_snap ss)"
proof -
  have one: "does (for_each (\<lambda>ds. run_command h (''zfs list -H -o name,used -t snapshot -d 1 '' @ shell_quote ds
         @ '' -s creation 2>/dev/null'')) (filter (re_test DS_RE) dss)) (\<lambda>rs es. harmless es)"
    unfolding harmless_def
    by (rule does_for_each_all, rule does_run) (simp add: list_ds_harmless [unfolded append_Cons append_Nil])
  show ?thesis
    unfolding list_migration_snapshots_def
    by (intro does_bind [OF one] does_return)
      (auto simp: list_all_iff map_filter_def dest: snap_of_line_migration)
qed

lemma select_subset: "s \<in> set (select_snapshots_to_delete ss k) \<Longrightarrow> s \<in> set ss"
  by (auto simp: select_snapshots_to_delete_def Let_def split: if_splits)

text \<open>The events of a cleanup: the only commands that destroy anything destroy a migration snapshot by its full name.\<close>

definition destroys_snaps_only :: "event \<Rightarrow> bool" where
  "destroys_snaps_only e = (case e of
       Ran h c r \<Rightarrow> destroys c \<longrightarrow> (\<exists>s. migration_snap s \<and> c = ''zfs destroy '' @ shell_quote (ms_full s) @ '' 2>&1'')
     | _ \<Rightarrow> True)"

abbreviation only_migration_snaps :: "event list \<Rightarrow> bool" where
  "only_migration_snaps es \<equiv> list_all destroys_snaps_only es"

lemma harmless_only: "harmless es \<Longrightarrow> e \<in> set es \<Longrightarrow> destroys_snaps_only e"
  by (auto simp: harmless_def destroys_snaps_only_def list_all_iff split: event.splits)

lemma does_cleanup:
  "does (cleanup_migration_snapshots busy source target plan keep) (\<lambda>res es. only_migration_snaps es \<and> (busy \<noteq> [] \<longrightarrow> es = []))"
proof -
  have one: "does (for_each destroy_snapshot xs) (\<lambda>rs es. only_migration_snaps es)"
    if "\<forall>x \<in> set xs. migration_snap (snd (snd x))" for xs
    using that
  proof (induction xs)
    case Nil
    show ?case unfolding for_each.simps by (rule does_return) simp
  next
    case (Cons x xs)
    have x: "does (destroy_snapshot x) (\<lambda>r es. only_migration_snaps es)"
      using Cons.prems unfolding destroy_snapshot_def
      by (intro does_prod does_run_bind does_return) (auto simp: destroys_snaps_only_def)
    have xs: "does (for_each destroy_snapshot xs) (\<lambda>rs es. only_migration_snaps es)" using Cons by simp
    show ?case unfolding for_each.simps by (intro does_bind [OF x] does_bind [OF xs] does_return) simp
  qed
  show ?thesis
    unfolding cleanup_migration_snapshots_def migration_snapshot_overview_def
    by (intro does_if does_return does_bind_assoc does_bind [OF does_list_migration] does_return_bind does_prod does_bind [OF one])
      (auto simp: list_all_iff dest: select_subset harmless_only)
qed

text \<open>C33: Cleaning up after a migration destroys nothing but snapshots that a migration made: every destroying command names a
  full snapshot whose part after the at sign has the form of a migration snapshot; while a migration runs,
  nothing is done at all.\<close>

theorem cleanup_destroys_migration_snapshots_only:
  "only_migration_snaps (history_of (cleanup_migration_snapshots busy source target plan keep) w) \<and>
   (busy = [] \<or> history_of (cleanup_migration_snapshots busy source target plan keep) w = [])"
  using does_outcome [OF does_cleanup [of busy source target plan keep], of w] by auto

end
