(* ===== verification/ZfsPools.thy ===== *)
theory ZfsPools
  imports Remote Validators PyScan
begin

text \<open>
  \<open>app/zfs_commands.py\<close>, the operations on pools, over the hosts of \<open>Remote\<close>. A read that the code lets the
  result cache answer is asked like every other one; the cache itself is \<open>Cache\<close>. An operation whose
  arguments a validator refuses returns the message and sends nothing.
\<close>

section \<open>The pattern of the operations\<close>

definition on_valid :: "'a checked \<Rightarrow> (string \<Rightarrow> 'b) \<Rightarrow> ('a \<Rightarrow> 'b act) \<Rightarrow> 'b act" where
  "on_valid c refuse k = (case c of Inl e \<Rightarrow> State_Monad.return (refuse (exc_text e)) | Inr x \<Rightarrow> k x)"

text \<open>A command that changes something: cached results of the host are dropped when it worked.\<close>

definition write_cmd :: "host \<Rightarrow> string \<Rightarrow> cmd_result act" where
  "write_cmd h cmd = do {
     r \<leftarrow> run_command h cmd;
     if cr_success r then do { forget h; State_Monad.return r } else State_Monad.return r }"

definition tab_fields :: "string \<Rightarrow> string list" where
  "tab_fields line = split_on (\<lambda>c. c = tab) line"

definition stripped_lines :: "string \<Rightarrow> string list" where
  "stripped_lines out = splitlines (strip out)"

section \<open>Reading\<close>

record zpool_row =
  zr_name :: string
  zr_size :: string
  zr_alloc :: string
  zr_free :: string
  zr_frag :: string
  zr_cap :: string
  zr_health :: string
  zr_dedup :: string

definition zpool_row_of :: "string \<Rightarrow> zpool_row option" where
  "zpool_row_of line =
     (case tab_fields line of
        a # b # c # d # e # f # g # i # _ \<Rightarrow>
          Some \<lparr>zr_name = a, zr_size = b, zr_alloc = c, zr_free = d, zr_frag = e, zr_cap = f, zr_health = g, zr_dedup = i\<rparr>
      | _ \<Rightarrow> None)"

text \<open>None: the listing failed.\<close>

definition get_pools_result :: "host \<Rightarrow> zpool_row list option act" where
  "get_pools_result h = do {
     r \<leftarrow> run_command h ''zpool list -H -o name,size,alloc,free,fragmentation,capacity,health,dedupratio'';
     State_Monad.return (if \<not> cr_success r then None else Some (List.map_filter zpool_row_of (stripped_lines (cr_stdout r)))) }"

definition get_pools :: "host \<Rightarrow> zpool_row list act" where
  "get_pools h = do { r \<leftarrow> get_pools_result h; State_Monad.return (case r of None \<Rightarrow> [] | Some ps \<Rightarrow> ps) }"

definition get_pool_status :: "host \<Rightarrow> pyval \<Rightarrow> cmd_result act" where
  "get_pool_status h pool = on_valid (validate_pool_name pool) cmd_fail (\<lambda>p. run_command h (''zpool status '' @ p))"

definition get_pool_iostat :: "host \<Rightarrow> pyval \<Rightarrow> cmd_result act" where
  "get_pool_iostat h pool = on_valid (validate_pool_name pool) cmd_fail (\<lambda>p. run_command h (''zpool iostat -v '' @ p))"

definition EDITABLE_POOL_PROPS :: "string list" where
  "EDITABLE_POOL_PROPS = [''autotrim'', ''autoexpand'']"

definition two_columns :: "string \<Rightarrow> (string \<times> string) option" where
  "two_columns line = (case tab_fields line of a # b # _ \<Rightarrow> Some (a, b) | _ \<Rightarrow> None)"

record pool_props =
  pp_success :: bool
  pp_autotrim :: "string option"
  pp_autoexpand :: "string option"

definition get_pool_props :: "host \<Rightarrow> pyval \<Rightarrow> (string + pool_props) act" where
  "get_pool_props h pool = on_valid (validate_pool_name pool) Inl (\<lambda>p. do {
     r \<leftarrow> run_command h (''zpool get -H -o property,value '' @ join '','' EDITABLE_POOL_PROPS @ '' '' @ p);
     let props = (if cr_success r then fold (\<lambda>(k, v). dset k v) (List.map_filter two_columns (splitlines (cr_stdout r))) [] else []) in
     State_Monad.return (Inr \<lparr>pp_success = cr_success r, pp_autotrim = dget props ''autotrim'',
       pp_autoexpand = dget props ''autoexpand''\<rparr>) })"

definition get_pool_history :: "host \<Rightarrow> pyval \<Rightarrow> pyval \<Rightarrow> cmd_result act" where
  "get_pool_history h pool limit = on_valid (validate_pool_name pool) cmd_fail (\<lambda>p.
     on_valid (validate_limit limit 50 10000) cmd_fail (\<lambda>n.
       run_command h (''zpool history '' @ p @ '' | tail -n '' @ show_int n)))"

definition get_arc_stats :: "host \<Rightarrow> cmd_result act" where
  "get_arc_stats h = run_command h (''cat /proc/spl/kstat/zfs/arcstats 2>/dev/null | grep -E ''
     @ sq @ ''^(size|hits|misses|c_max)'' @ sq @ '' '')"

definition get_zfs_events :: "host \<Rightarrow> pyval \<Rightarrow> cmd_result act" where
  "get_zfs_events h limit = on_valid (validate_limit limit 30 10000) cmd_fail (\<lambda>n.
     run_command h (''zpool events -v 2>/dev/null | tail -n '' @ show_int n))"

section \<open>Changing\<close>

definition set_pool_prop :: "host \<Rightarrow> pyval \<Rightarrow> pyval \<Rightarrow> pyval \<Rightarrow> (string + cmd_result) act" where
  "set_pool_prop h pool prop v = on_valid (validate_pool_name pool) Inl (\<lambda>p.
     (case (prop, v) of
        (VStr k, VStr x) \<Rightarrow>
          if k \<notin> set EDITABLE_POOL_PROPS then State_Monad.return (Inl ''unsupported property'')
          else if x \<notin> {''on'', ''off''}
            then State_Monad.return (Inl (''value must be '' @ sq @ ''on'' @ sq @ '' or '' @ sq @ ''off'' @ sq))
          else do { r \<leftarrow> write_cmd h (''zpool set '' @ k @ ''='' @ x @ '' '' @ p); State_Monad.return (Inr r) }
      | (VStr k, _) \<Rightarrow>
          State_Monad.return (Inl (if k \<notin> set EDITABLE_POOL_PROPS then ''unsupported property''
            else ''value must be '' @ sq @ ''on'' @ sq @ '' or '' @ sq @ ''off'' @ sq))
      | _ \<Rightarrow> State_Monad.return (Inl ''unsupported property'')))"

definition scrub_pool :: "host \<Rightarrow> pyval \<Rightarrow> cmd_result act" where
  "scrub_pool h pool = on_valid (validate_pool_name pool) cmd_fail (\<lambda>p. write_cmd h (''zpool scrub '' @ p))"

definition trim_pool :: "host \<Rightarrow> pyval \<Rightarrow> cmd_result act" where
  "trim_pool h pool = on_valid (validate_pool_name pool) cmd_fail (\<lambda>p. write_cmd h (''zpool trim '' @ p))"

definition upgrade_pool :: "host \<Rightarrow> pyval \<Rightarrow> cmd_result act" where
  "upgrade_pool h pool = on_valid (validate_pool_name pool) cmd_fail (\<lambda>p. write_cmd h (''zpool upgrade '' @ p))"

section \<open>What a pool's status says\<close>

definition status_says_upgradable :: "string \<Rightarrow> bool" where
  "status_says_upgradable stdout =
     (stdout \<noteq> [] \<and>
      (contains_str ''can be upgraded'' stdout \<or> contains_str ''Enable all features'' stdout \<or>
       contains_str ''action: Some supported features'' (lower_str stdout)))"

definition upgrade_verdict :: "bool \<Rightarrow> string \<Rightarrow> bool" where
  "upgrade_verdict upgradable out =
     (if contains_str ''already enabled'' out \<or> contains_str ''up-to-date'' out then False
      else if contains_str ''can be upgraded'' out \<or> contains_str ''enable the following features'' (lower_str out) then True
      else upgradable)"

definition check_pool_upgrade :: "host \<Rightarrow> pyval \<Rightarrow> (bool \<times> string) act" where
  "check_pool_upgrade h pool = on_valid (validate_pool_name pool) (\<lambda>e. (False, e)) (\<lambda>p. do {
     r \<leftarrow> run_command h (''zpool status '' @ p);
     if \<not> cr_success r then State_Monad.return (False, cr_stderr r)
     else do {
       u \<leftarrow> run_command h (''zpool upgrade '' @ p @ '' -n 2>&1 || true'');
       let out = cr_stdout u @ cr_stderr u in
       State_Monad.return (upgrade_verdict (status_says_upgradable (cr_stdout r)) out, strip out) } })"

text \<open>A literal without regard to case.\<close>

definition lit_ci :: "string \<Rightarrow> re" where
  "lit_ci s = seqs (map (\<lambda>c. Ch (\<lambda>x. lower_char x = c)) s)"

definition TRIM_NOTE_RE :: re where
  "TRIM_NOTE_RE = seqs [chr CHR ''('', Grp 1 (seqs [Star (Ch (\<lambda>c. c \<noteq> CHR '')'')), lit_ci ''trim'',
     Star (Ch (\<lambda>c. c \<noteq> CHR '')''))]), chr CHR '')'']"

definition TRIM_PERCENT_RE :: re where
  "TRIM_PERCENT_RE = seqs [lit_ci ''(trimming'', opt (chr CHR '')''), Star (Ch is_space),
     Grp 1 (Seq (plus (Ch is_digit)) (opt (Seq (chr CHR ''.'') (plus (Ch is_digit))))), chr CHR ''%'']"

text \<open>The progress is the text of the number.\<close>

record trim_device =
  td_name :: string
  td_state :: string
  td_progress :: "string option"

definition trim_device_of :: "string \<Rightarrow> trim_device option" where
  "trim_device_of line =
     map_option (\<lambda>m. \<lparr>td_name = (case split_ws (strip line) of [] \<Rightarrow> [] | w # _ \<Rightarrow> w), td_state = strip (group_str 1 m),
         td_progress = map_option (group_str 1) (re_search TRIM_PERCENT_RE line)\<rparr>)
       (re_search TRIM_NOTE_RE line)"

definition is_trimming :: "trim_device \<Rightarrow> bool" where
  "is_trimming d = contains_str ''trimming'' (lower_str (td_state d))"

definition parse_trim_state :: "string \<Rightarrow> bool \<times> trim_device list" where
  "parse_trim_state status_text =
     (let devices = List.map_filter trim_device_of (splitlines status_text) in (list_ex is_trimming devices, devices))"

section \<open>Watching a scrub or a trim\<close>

text \<open>The waits between the looks are left out: 1440 looks are about a day.\<close>

definition POLLS :: nat where "POLLS = 1440"

definition scan_line :: "string \<Rightarrow> string" where
  "scan_line stdout = (case List.find (starts_with ''scan:'') (map strip (splitlines stdout)) of None \<Rightarrow> [] | Some l \<Rightarrow> l)"

definition watch_text :: "host \<Rightarrow> string \<Rightarrow> string" where
  "watch_text h p = ''Pool: '' @ p @ [newline] @ ''Host: '' @ ho_name h @ '' ('' @ ho_address h @ '')''"

definition scrub_title :: "string \<Rightarrow> string" where
  "scrub_title stdout =
     (if contains_str ''scrub repaired'' stdout then ''Scrub Finished''
      else if contains_str ''scrub canceled'' stdout then ''Scrub Cancelled'' else ''Scrub Finished'')"

fun poll_scrub :: "nat \<Rightarrow> host \<Rightarrow> string \<Rightarrow> unit act" where
  "poll_scrub 0 h p = State_Monad.return ()"
| "poll_scrub (Suc n) h p = do {
     r \<leftarrow> run_command h (''zpool status '' @ p);
     if \<not> cr_success r then State_Monad.return ()
     else if contains_str ''scrub in progress'' (cr_stdout r) then poll_scrub n h p
     else notify ''scrub_finished'' (scrub_title (cr_stdout r)) (watch_text h p @ [newline] @ scan_line (cr_stdout r)) h }"

fun poll_trim :: "nat \<Rightarrow> host \<Rightarrow> string \<Rightarrow> unit act" where
  "poll_trim 0 h p = State_Monad.return ()"
| "poll_trim (Suc n) h p = do {
     r \<leftarrow> run_command h (''zpool status -t '' @ p);
     if \<not> cr_success r then State_Monad.return ()
     else if fst (parse_trim_state (cr_stdout r)) then poll_trim n h p
     else notify ''trim_finished'' ''Trim Finished'' (watch_text h p) h }"

definition monitor_scrub :: "host \<Rightarrow> pyval \<Rightarrow> unit act" where
  "monitor_scrub h pool = on_valid (validate_pool_name pool) (\<lambda>_. ()) (poll_scrub POLLS h)"

definition monitor_trim :: "host \<Rightarrow> pyval \<Rightarrow> unit act" where
  "monitor_trim h pool = on_valid (validate_pool_name pool) (\<lambda>_. ()) (poll_trim POLLS h)"

text \<open>One watcher per pool: \<open>alive\<close> are the keys whose thread runs. The flag says whether one is started.\<close>

definition watch_key :: "host \<Rightarrow> string \<Rightarrow> string" where
  "watch_key h p = ho_address h @ '':'' @ p"

definition start_monitor :: "host \<Rightarrow> string \<Rightarrow> string list \<Rightarrow> bool \<times> string list" where
  "start_monitor h p alive =
     (let key = watch_key h p in if key \<in> set alive then (False, alive) else (True, alive @ [key]))"

section \<open>Looking into a damaged pool\<close>

definition trim_out :: "cmd_result \<Rightarrow> string option" where
  "trim_out r = (if cr_success r then Some (strip (cr_stdout r)) else None)"

record zdb_analysis =
  zd_pool_info :: "string option"
  zd_block_stats :: "string option"
  zd_labels :: "(string \<times> string) list"

definition label_command :: "string \<Rightarrow> string" where
  "label_command path = ''zdb -l '' @ shell_quote path @ '' 2>&1 | head -30''"

text \<open>The label of the first of the paths that has one.\<close>

fun first_label :: "host \<Rightarrow> string list \<Rightarrow> (string \<times> string) option act" where
  "first_label h [] = State_Monad.return None"
| "first_label h (path # paths) = do {
     r \<leftarrow> run_command h (label_command path);
     if cr_success r \<and> strip (cr_stdout r) \<noteq> [] then State_Monad.return (Some (path, strip (cr_stdout r)))
     else first_label h paths }"

definition vdev_command :: "string \<Rightarrow> string" where
  "vdev_command p = ''zpool status '' @ p @ '' | grep -E '' @ sq @ ''^'' @ [tab] @ ''  '' @ sq @ '' | awk '' @ sq
     @ ''{print $1}'' @ sq @ '' | head -10''"

definition get_zdb_analysis :: "host \<Rightarrow> pyval \<Rightarrow> (string + zdb_analysis) act" where
  "get_zdb_analysis h pool = on_valid (validate_pool_name pool) (\<lambda>_. Inl ''Invalid pool name'') (\<lambda>p. do {
     info \<leftarrow> run_command h (''zdb '' @ p @ '' 2>&1 | head -80'');
     stats \<leftarrow> run_command h (''zdb -b '' @ p @ '' 2>&1 | tail -20'');
     vdevs \<leftarrow> run_command h (vdev_command p);
     labels \<leftarrow> for_each (\<lambda>v. first_label h [''/dev/'' @ v, ''/dev/disk/by-id/'' @ v])
       (if cr_success vdevs then take 6 (filter (\<lambda>v. v \<noteq> []) (map strip (stripped_lines (cr_stdout vdevs)))) else []);
     State_Monad.return (Inr \<lparr>zd_pool_info = trim_out info, zd_block_stats = trim_out stats,
       zd_labels = List.map_filter id labels\<rparr>) })"

end
