(* ===== verification/ZfsData.thy ===== *)
theory ZfsData
  imports ZfsPools SnapAnalysis
begin

text \<open>
  \<open>app/zfs_commands.py\<close>, the operations on datasets, snapshots, the properties that steer automatic
  snapshots, and guests.
\<close>

section \<open>Datasets\<close>

record dataset_entry =
  ds_name :: string
  ds_used :: string
  ds_avail :: string
  ds_refer :: string
  ds_mountpoint :: string
  ds_type :: string
  ds_compression :: string
  ds_ratio :: string

definition dataset_entry_of :: "string \<Rightarrow> dataset_entry option" where
  "dataset_entry_of line =
     (case tab_fields line of
        a # b # c # d # e # f # g # i # _ \<Rightarrow>
          Some \<lparr>ds_name = a, ds_used = b, ds_avail = c, ds_refer = d, ds_mountpoint = e, ds_type = f,
            ds_compression = g, ds_ratio = i\<rparr>
      | _ \<Rightarrow> None)"

text \<open>An optional argument: absent, refused, or the suffix of the command.\<close>

definition recurse_into :: "('p \<Rightarrow> string checked) \<Rightarrow> 'p option \<Rightarrow> string checked" where
  "recurse_into check v = (case v of None \<Rightarrow> Inr [] | Some x \<Rightarrow> map_sum id (\<lambda>p. '' -r '' @ p) (check x))"

definition get_datasets :: "host \<Rightarrow> pyval option \<Rightarrow> dataset_entry list act" where
  "get_datasets h pool = on_valid (recurse_into validate_pool_name pool) (\<lambda>_. []) (\<lambda>suffix. do {
     r \<leftarrow> run_command h (''zfs list -H -o name,used,avail,refer,mountpoint,type,compression,compressratio'' @ suffix);
     State_Monad.return (if \<not> cr_success r then [] else List.map_filter dataset_entry_of (stripped_lines (cr_stdout r))) })"

definition get_dataset_properties :: "host \<Rightarrow> pyval \<Rightarrow> cmd_result act" where
  "get_dataset_properties h dataset = on_valid (validate_zfs_name dataset ''Dataset'') cmd_fail (\<lambda>d.
     run_command h (''zfs get all '' @ d))"

definition set_dataset_property :: "host \<Rightarrow> pyval \<Rightarrow> pyval \<Rightarrow> pyval \<Rightarrow> cmd_result act" where
  "set_dataset_property h dataset prop v =
     on_valid (validate_zfs_name dataset ''Dataset'') cmd_fail (\<lambda>d.
     on_valid (validate_zfs_property prop) cmd_fail (\<lambda>k.
     on_valid (validate_zfs_value v) cmd_fail (\<lambda>x.
       write_cmd h (''zfs set '' @ k @ ''='' @ x @ '' '' @ d))))"

text \<open>The options are checked in order, and go into the command as they were given, not as the validators clean
  them.\<close>

fun check_options :: "(string \<times> pyval) list \<Rightarrow> unit checked" where
  "check_options [] = Inr ()"
| "check_options ((k, v) # rest) =
     (case validate_zfs_property (VStr k) of Inl e \<Rightarrow> Inl e | Inr _ \<Rightarrow>
      (case validate_zfs_value v of Inl e \<Rightarrow> Inl e | Inr _ \<Rightarrow> check_options rest))"

definition option_text :: "string \<times> pyval \<Rightarrow> string" where
  "option_text kv = (case kv of (k, v) \<Rightarrow> '' -o '' @ k @ ''='' @ py_str v)"

definition create_dataset :: "host \<Rightarrow> pyval \<Rightarrow> (string \<times> pyval) list \<Rightarrow> cmd_result act" where
  "create_dataset h name options =
     on_valid (validate_dataset_name name) cmd_fail (\<lambda>n.
     on_valid (check_options options) cmd_fail (\<lambda>_.
       write_cmd h (''zfs create'' @ concat (map option_text options) @ '' '' @ n)))"

definition recursive_flag :: "bool \<Rightarrow> string" where
  "recursive_flag b = (if b then '' -r'' else [])"

definition destroy_dataset :: "host \<Rightarrow> pyval \<Rightarrow> bool \<Rightarrow> cmd_result act" where
  "destroy_dataset h name recursive =
     on_valid (validate_dataset_name name) cmd_fail (\<lambda>n.
       write_cmd h (''zfs destroy'' @ recursive_flag recursive @ '' '' @ n))"

section \<open>Space of snapshots\<close>

definition space_row :: "string \<Rightarrow> (string \<times> int) option" where
  "space_row line = (case tab_fields line of a # b # _ \<Rightarrow> map_option (\<lambda>n. (strip a, n)) (py_int b) | _ \<Rightarrow> None)"

definition parse_snapshot_space :: "string \<Rightarrow> (string \<times> int) list" where
  "parse_snapshot_space stdout = List.map_filter space_row (stripped_lines stdout)"

definition pool_part :: "string \<Rightarrow> string" where
  "pool_part name = takeWhile (\<lambda>c. c \<noteq> CHR ''/'') name"

definition snapshot_space_by_pool :: "(string \<times> int) list \<Rightarrow> (string, int) dict" where
  "snapshot_space_by_pool rows = fold (\<lambda>(name, size). dmodify (pool_part name) 0 (\<lambda>n. n + size)) rows []"

record snapshot_space =
  sn_rows :: "(string \<times> int) list"
  sn_by_pool :: "(string, int) dict"
  sn_total :: int

definition space_of :: "(string \<times> int) list \<Rightarrow> snapshot_space" where
  "space_of rows = \<lparr>sn_rows = rows, sn_by_pool = snapshot_space_by_pool rows, sn_total = sum_list (map snd rows)\<rparr>"

definition get_snapshot_space :: "host \<Rightarrow> pyval option \<Rightarrow> (string + snapshot_space) act" where
  "get_snapshot_space h dataset = on_valid (recurse_into (\<lambda>d. validate_zfs_name d ''Dataset'') dataset) Inl (\<lambda>suffix. do {
     r \<leftarrow> run_command h (''zfs list -Hp -o name,usedsnap -t filesystem,volume'' @ suffix @ '' 2>/dev/null'');
     State_Monad.return (if \<not> cr_success r then Inl (cr_stderr r)
       else Inr (space_of (parse_snapshot_space (cr_stdout r)))) })"

section \<open>Snapshots\<close>

definition auto_word :: "char \<Rightarrow> bool" where
  "auto_word c = (is_alnum c \<or> c = CHR ''_'')"

definition AUTO_SNAP_RE :: re where
  "AUTO_SNAP_RE = Alt (Seq Bol (Alt (lit ''zfs-auto-snap'') (lit ''autosnap'')))
     (seqs [Bol, plus (Ch auto_word), chr CHR ''-'', times 4 (Ch is_digit), chr CHR ''-'', times 2 (Ch is_digit), chr CHR ''-'',
        times 2 (Ch is_digit), chr CHR ''-'', times 4 (Ch is_digit), Eol])"

definition is_auto_snapshot_name :: "string \<Rightarrow> bool" where
  "is_auto_snapshot_name name = (re_search AUTO_SNAP_RE name \<noteq> None)"

record snapshot_entry =
  se_clones :: "string list"
  se_full :: string
  se_dataset :: string
  se_snapshot :: string
  se_ds_type :: string
  se_used :: string
  se_refer :: string
  se_creation :: string

definition clone_names :: "string \<Rightarrow> string list" where
  "clone_names raw = filter (\<lambda>c. c \<noteq> [] \<and> c \<noteq> ''-'') (split_on (\<lambda>c. c = CHR '','') raw)"

definition snapshot_parts :: "string \<Rightarrow> string \<times> string" where
  "snapshot_parts full = (case rsplit_once CHR ''@'' full of None \<Rightarrow> (full, []) | Some p \<Rightarrow> p)"

definition snapshot_entry_of :: "(string, string) dict \<Rightarrow> string \<Rightarrow> snapshot_entry option" where
  "snapshot_entry_of ds_types line =
     (case tab_fields line of
        full # used # refer # creation # rest \<Rightarrow>
          (let (ds, snap) = snapshot_parts full;
               clones_raw = (if rest = [] then ''-'' else strip (join [tab] rest))
           in Some \<lparr>se_clones = clone_names clones_raw, se_full = full, se_dataset = ds, se_snapshot = snap,
                se_ds_type = dget_or ''unknown'' ds_types ds, se_used = used, se_refer = refer, se_creation = strip creation\<rparr>)
      | _ \<Rightarrow> None)"

definition get_snapshots :: "host \<Rightarrow> pyval option \<Rightarrow> snapshot_entry list act" where
  "get_snapshots h dataset = on_valid (recurse_into (\<lambda>d. validate_zfs_name d ''Dataset'') dataset) (\<lambda>_. []) (\<lambda>suffix. do {
     r \<leftarrow> run_command h (''zfs list -t snapshot -H -o name,used,refer,creation,clones -S creation'' @ suffix);
     if \<not> cr_success r then State_Monad.return []
     else do {
       t \<leftarrow> run_command h ''zfs list -H -o name,type'';
       let ds_types = (if cr_success t
             then fold (\<lambda>(k, v). dset k v) (List.map_filter two_columns (stripped_lines (cr_stdout t))) [] else []) in
       State_Monad.return (List.map_filter (snapshot_entry_of ds_types) (stripped_lines (cr_stdout r))) } })"

definition create_snapshot :: "host \<Rightarrow> pyval \<Rightarrow> pyval \<Rightarrow> bool \<Rightarrow> cmd_result act" where
  "create_snapshot h dataset snap_name recursive =
     on_valid (validate_dataset_name dataset) cmd_fail (\<lambda>d.
     on_valid (validate_zfs_name snap_name ''Snapshot name'') cmd_fail (\<lambda>s.
       write_cmd h (''zfs snapshot'' @ recursive_flag recursive @ '' '' @ d @ ''@'' @ s)))"

definition is_restore_clone :: "string \<Rightarrow> bool" where
  "is_restore_clone c = contains_str ''/restore-'' c"

definition destroy_command :: "bool \<Rightarrow> string \<Rightarrow> string" where
  "destroy_command recursive n = ''zfs destroy'' @ recursive_flag recursive @ '' '' @ n"

definition foreign_clones_text :: "string list \<Rightarrow> string" where
  "foreign_clones_text foreign = ''Snapshot has dependent clone(s) that are NOT tool restore clones: '' @ join '', '' foreign
     @ ''. Refusing to destroy them automatically -- remove or `zfs promote` them first.''"

definition kept_by_clones :: "cmd_result \<Rightarrow> bool" where
  "kept_by_clones r = (\<not> cr_success r \<and> contains_str ''dependent clones'' (cr_stderr r))"

definition clones_command :: "string \<Rightarrow> string" where
  "clones_command n = ''zfs get -H -o value clones '' @ n"

definition destroy_all_command :: "string \<Rightarrow> string" where
  "destroy_all_command n = ''zfs destroy -R '' @ n"

text \<open>The clones that hold the snapshot are removed with it when all of them were made to restore files.\<close>

definition destroy_with_clones :: "host \<Rightarrow> string \<Rightarrow> cmd_result \<Rightarrow> (cmd_result + cmd_result) act" where
  "destroy_with_clones h n r = do {
     c \<leftarrow> run_command h (clones_command n);
     let clones = clone_names (if cr_success c then strip (cr_stdout c) else []);
         foreign = filter (\<lambda>c. \<not> is_restore_clone c) clones in
     if foreign \<noteq> [] then State_Monad.return (Inl (cmd_fail (foreign_clones_text foreign)))
     else if clones \<noteq> [] then do { r2 \<leftarrow> run_command h (destroy_all_command n); State_Monad.return (Inr r2) }
     else State_Monad.return (Inr r) }"

definition forget_if :: "host \<Rightarrow> cmd_result \<Rightarrow> cmd_result act" where
  "forget_if h r = (if cr_success r then do { forget h; State_Monad.return r } else State_Monad.return r)"

definition destroy_snapshot :: "host \<Rightarrow> pyval \<Rightarrow> bool \<Rightarrow> cmd_result act" where
  "destroy_snapshot h full_name recursive = on_valid (validate_zfs_name full_name ''Snapshot'') cmd_fail (\<lambda>n.
     if CHR ''@'' \<notin> set n then State_Monad.return (cmd_fail (n @ '' is not a snapshot (no @) -- refusing''))
     else do {
       r \<leftarrow> run_command h (destroy_command recursive n);
       if kept_by_clones r then do {
         x \<leftarrow> destroy_with_clones h n r;
         (case x of Inl e \<Rightarrow> State_Monad.return e | Inr r2 \<Rightarrow> forget_if h r2) }
       else forget_if h r })"

text \<open>Rolling back, with the guest stopped meanwhile. \<open>guest\<close>: the number and type of a guest to stop.\<close>

record guest_actions =
  ga_stopped :: bool
  ga_stop_output :: "string option"
  ga_started :: bool
  ga_start_output :: "string option"

definition said_by :: "cmd_result \<Rightarrow> string" where
  "said_by r = (if cr_stderr r \<noteq> [] then cr_stderr r else cr_stdout r)"

definition guest_command :: "string \<Rightarrow> string \<Rightarrow> string \<Rightarrow> string" where
  "guest_command vm_type verb vmid = (if vm_type = ''qemu'' then ''qm '' else ''pct '') @ verb @ '' '' @ vmid"

definition rollback_command :: "bool \<Rightarrow> bool \<Rightarrow> string \<Rightarrow> string" where
  "rollback_command force destroy_recent n =
     ''zfs rollback'' @ (if destroy_recent then '' -r'' else []) @ (if force then '' -f'' else []) @ '' '' @ n"

definition check_guest :: "(pyval \<times> string) option \<Rightarrow> (string \<times> string) option checked" where
  "check_guest g =
     (case g of None \<Rightarrow> Inr None
      | Some (vmid, vm_type) \<Rightarrow>
          (case validate_vmid vmid of Inl e \<Rightarrow> Inl e | Inr v \<Rightarrow>
           (case validate_vm_type (VStr vm_type) of Inl e \<Rightarrow> Inl e | Inr t \<Rightarrow> Inr (Some (v, t)))))"

definition rollback_snapshot ::
  "host \<Rightarrow> pyval \<Rightarrow> bool \<Rightarrow> bool \<Rightarrow> (pyval \<times> string) option \<Rightarrow> (string + cmd_result \<times> guest_actions) act" where
  "rollback_snapshot h full_name force destroy_recent guest =
     on_valid (validate_zfs_name full_name ''Snapshot'') Inl (\<lambda>n.
     on_valid (check_guest guest) Inl (\<lambda>g. do {
       stop \<leftarrow> (case g of None \<Rightarrow> State_Monad.return None
               | Some (v, t) \<Rightarrow> do { s \<leftarrow> run_command h (guest_command t ''stop'' v); State_Monad.return (Some s) });
       r \<leftarrow> run_command h (rollback_command force destroy_recent n);
       start \<leftarrow> (case (g, stop) of
                  (Some (v, t), Some s) \<Rightarrow>
                    if cr_success s then do { x \<leftarrow> run_command h (guest_command t ''start'' v); State_Monad.return (Some x) }
                    else State_Monad.return None
                | _ \<Rightarrow> State_Monad.return None);
       forget_if h r;
       State_Monad.return (Inr (r, \<lparr>ga_stopped = (case stop of None \<Rightarrow> False | Some s \<Rightarrow> cr_success s),
         ga_stop_output = map_option said_by stop,
         ga_started = (case start of None \<Rightarrow> False | Some x \<Rightarrow> cr_success x),
         ga_start_output = map_option said_by start\<rparr>)) }))"

definition CLONE_PROPS :: string where
  "CLONE_PROPS = ''-o com.sun:auto-snapshot=false -o refreservation=none''"

definition clone_snapshot :: "host \<Rightarrow> pyval \<Rightarrow> pyval \<Rightarrow> cmd_result act" where
  "clone_snapshot h full_name clone_name =
     on_valid (validate_zfs_name full_name ''Snapshot'') cmd_fail (\<lambda>n.
     on_valid (validate_clone_name clone_name) cmd_fail (\<lambda>c.
       if pool_part n = pool_part c then write_cmd h (''zfs clone '' @ CLONE_PROPS @ '' '' @ n @ '' '' @ c)
       else do {
         r \<leftarrow> run_command h (''zfs send '' @ n @ '' | zfs recv '' @ c);
         if \<not> cr_success r then State_Monad.return r
         else do {
           run_command h (''zfs set com.sun:auto-snapshot=false '' @ c);
           forget h;
           State_Monad.return r } }))"

definition get_clone_targets :: "host \<Rightarrow> (string list \<times> string list) act" where
  "get_clone_targets h = do {
     r \<leftarrow> run_command h ''zfs list -H -o name -d 1'';
     let names = (if cr_success r then filter (\<lambda>n. n \<noteq> []) (map strip (stripped_lines (cr_stdout r))) else []) in
     State_Monad.return (filter (\<lambda>n. CHR ''/'' \<notin> set n) names, filter (\<lambda>n. CHR ''/'' \<in> set n) names) }"

section \<open>What changed since a snapshot\<close>

definition order_snapshot_pair :: "string \<Rightarrow> string \<Rightarrow> (string, int) dict \<Rightarrow> string \<times> string \<times> bool" where
  "order_snapshot_pair a b created =
     (case (dget created a, dget created b) of
        (Some ca, Some cb) \<Rightarrow> if ca > cb then (b, a, True) else (a, b, False)
      | _ \<Rightarrow> (a, b, False))"

definition snapshot_creation_epochs :: "host \<Rightarrow> string \<Rightarrow> (string, int) dict act" where
  "snapshot_creation_epochs h dataset = do {
     r \<leftarrow> run_command h (''zfs list -Hp -o name,creation -t snapshot -d 1 '' @ shell_quote dataset @ '' 2>/dev/null'');
     State_Monad.return (if cr_success r
       then fold (\<lambda>(k, v). dset k v) (List.map_filter space_row (splitlines (cr_stdout r))) [] else []) }"

record diff_result =
  di_success :: bool
  di_stdout :: string
  di_stderr :: string
  di_is_zvol :: bool
  di_from :: string
  di_to :: string
  di_swapped :: bool

definition diff_refused :: "string \<Rightarrow> diff_result" where
  "diff_refused e = \<lparr>di_success = False, di_stdout = [], di_stderr = e, di_is_zvol = False, di_from = [], di_to = [],
     di_swapped = False\<rparr>"

text \<open>A row of the table: name, used, refer, creation.\<close>

type_synonym snap_line = "string \<times> string \<times> string \<times> string"

definition snap_line_of :: "string \<Rightarrow> snap_line option" where
  "snap_line_of line =
     (case tab_fields line of
        a # b # c # d # rest \<Rightarrow> Some (a, b, c, join [tab] (d # rest))
      | _ \<Rightarrow> None)"

definition pad_right :: "nat \<Rightarrow> string \<Rightarrow> string" where
  "pad_right n s = s @ replicate (n - length s) CHR 0x20"

definition pad_left :: "nat \<Rightarrow> string \<Rightarrow> string" where
  "pad_left n s = replicate (n - length s) CHR 0x20 @ s"

text \<open>\<open>name.rsplit("@", 1)[-1]\<close>.\<close>

definition short_name :: "string \<Rightarrow> string" where
  "short_name n = (case rsplit_once CHR ''@'' n of None \<Rightarrow> n | Some (d, s) \<Rightarrow> s)"

definition snap_text :: "string \<Rightarrow> snap_line \<Rightarrow> string" where
  "snap_text current l = (case l of (name, used, refer, creation) \<Rightarrow>
     pad_right 60 (short_name name) @ '' '' @ pad_left 8 used @ '' '' @ pad_left 8 refer @ ''  '' @ creation
     @ (if name = current then '' <-- current'' else []) @ [newline])"

definition snap_table :: "string \<Rightarrow> snap_line list \<Rightarrow> string" where
  "snap_table current ls =
     (if ls = [] then []
      else ''=== All Snapshots ('' @ show_nat (length ls) @ '' total) ==='' @ [newline]
           @ pad_right 60 ''Name'' @ '' '' @ pad_left 8 ''Used'' @ '' '' @ pad_left 8 ''Refer'' @ ''  Created'' @ [newline]
           @ replicate 110 CHR ''-'' @ [newline] @ concat (map (snap_text current) ls))"

text \<open>The list is newest first: the one after the first occurrence is the previous snapshot.\<close>

fun name_after :: "string \<Rightarrow> string list \<Rightarrow> string option" where
  "name_after n [] = None"
| "name_after n (x # xs) = (if x = n then (case xs of [] \<Rightarrow> None | y # _ \<Rightarrow> Some y) else name_after n xs)"

definition send_estimate :: "host \<Rightarrow> string \<Rightarrow> string option \<Rightarrow> string act" where
  "send_estimate h snap prev =
     (case prev of
        Some p \<Rightarrow> do {
          r \<leftarrow> run_command h (''zfs send -nvi '' @ p @ '' '' @ snap @ '' 2>&1'');
          State_Monad.return (if cr_success r \<and> strip (cr_stdout r) \<noteq> []
            then ''=== Data Changed (incremental from previous snapshot) ==='' @ [newline] @ cr_stdout r @ [newline]
            else ''=== Data Changed ==='' @ [newline] @ ''(Could not estimate incremental size)'' @ [newline, newline]) }
      | None \<Rightarrow> do {
          r \<leftarrow> run_command h (''zfs send -nv '' @ snap @ '' 2>&1'');
          State_Monad.return (if cr_success r \<and> strip (cr_stdout r) \<noteq> []
            then ''=== Full Send Size (first snapshot) ==='' @ [newline] @ cr_stdout r @ [newline] else []) })"

definition diff_volume :: "host \<Rightarrow> string \<Rightarrow> string \<Rightarrow> diff_result act" where
  "diff_volume h snap ds = do {
     props \<leftarrow> run_command h (''zfs get -H -o property,value used,referenced,written,creation '' @ snap);
     all_snaps \<leftarrow> run_command h (''zfs list -t snapshot -H -o name,used,refer,creation -S creation -r '' @ ds);
     let ls = (if cr_success all_snaps then List.map_filter snap_line_of (stripped_lines (cr_stdout all_snaps)) else []) in do {
       est \<leftarrow> send_estimate h snap (case name_after snap (map fst ls) of Some [] \<Rightarrow> None | p \<Rightarrow> p);
       State_Monad.return \<lparr>di_success = True,
         di_stdout = ''=== Snapshot Info: '' @ snap @ '' ==='' @ [newline]
           @ (if cr_success props then cr_stdout props @ [newline] else []) @ est @ snap_table snap ls,
         di_stderr = [], di_is_zvol = True, di_from = [], di_to = [], di_swapped = False\<rparr> } }"

definition diff_done :: "string \<Rightarrow> string option \<Rightarrow> bool \<Rightarrow> cmd_result \<Rightarrow> diff_result" where
  "diff_done from snap2 swapped r =
     \<lparr>di_success = cr_success r,
      di_stdout = (if cr_success r \<and> strip (cr_stdout r) = []
        then (if snap2 \<noteq> None then ''(No differences between these snapshots)'' else ''(No changes since this snapshot)'')
        else cr_stdout r),
      di_stderr = cr_stderr r, di_is_zvol = False, di_from = from,
      di_to = (case snap2 of None \<Rightarrow> [] | Some s \<Rightarrow> s), di_swapped = swapped\<rparr>"

text \<open>\<open>name.rsplit("@", 1)[0]\<close>.\<close>

definition before_at :: "string \<Rightarrow> string" where
  "before_at n = (case rsplit_once CHR ''@'' n of None \<Rightarrow> n | Some (d, s) \<Rightarrow> d)"

definition diff_filesystem :: "host \<Rightarrow> string \<Rightarrow> string option \<Rightarrow> diff_result act" where
  "diff_filesystem h snap1 snap2 = do {
     m \<leftarrow> run_command h (''zfs get -H -o value mounted '' @ before_at snap1);
     if cr_success m \<and> strip (cr_stdout m) = ''no'' then
       State_Monad.return (diff_refused (sq @ before_at snap1 @ sq @ '' is not mounted. '' @ sq @ ''zfs diff'' @ sq
         @ '' requires the dataset to be mounted.'' @ [newline, newline] @ ''Try: zfs mount '' @ before_at snap1))
     else (case snap2 of
        None \<Rightarrow> do { r \<leftarrow> run_command h (''zfs diff '' @ snap1); State_Monad.return (diff_done snap1 None False r) }
      | Some s2 \<Rightarrow>
          if before_at s2 \<noteq> before_at snap1
          then State_Monad.return (diff_refused (''Both snapshots must belong to the same dataset ('' @ before_at snap1 @ '').''))
          else do {
            created \<leftarrow> snapshot_creation_epochs h (before_at snap1);
            (case order_snapshot_pair snap1 s2 created of (a, b, swapped) \<Rightarrow> do {
               r \<leftarrow> run_command h (''zfs diff '' @ a @ '' '' @ b);
               State_Monad.return (diff_done a (Some b) swapped r) }) }) }"

definition check_second :: "pyval option \<Rightarrow> string option checked" where
  "check_second v = (case v of None \<Rightarrow> Inr None | Some x \<Rightarrow> map_sum id Some (validate_zfs_name x ''Snapshot''))"

definition diff_snapshot :: "host \<Rightarrow> pyval \<Rightarrow> pyval option \<Rightarrow> diff_result act" where
  "diff_snapshot h snapshot1 snapshot2 =
     on_valid (validate_zfs_name snapshot1 ''Snapshot'') diff_refused (\<lambda>s1.
     on_valid (check_second snapshot2) diff_refused (\<lambda>s2. do {
       t \<leftarrow> run_command h (''zfs get -H -o value type '' @ before_at s1);
       if cr_success t \<and> strip (cr_stdout t) = ''volume'' then diff_volume h s1 (before_at s1)
       else diff_filesystem h s1 s2 }))"

section \<open>Which datasets get automatic snapshots\<close>

definition discover_snapshot_tags :: "host \<Rightarrow> (string, nat) dict act" where
  "discover_snapshot_tags h = do {
     r \<leftarrow> run_command h ''zfs list -t snapshot -Hpo name,creation'';
     State_Monad.return (if \<not> cr_success r then []
       else discover_tags (List.map_filter (\<lambda>l. map_option snd (rsplit_once CHR ''@'' (hd (tab_fields l))))
              (stripped_lines (cr_stdout r)))) }"

definition no_property :: "string \<times> string" where
  "no_property = (''-'', ''none'')"

definition get_auto_snapshot_property :: "host \<Rightarrow> pyval \<Rightarrow> (string \<times> string) act" where
  "get_auto_snapshot_property h dataset = on_valid (validate_dataset_name dataset) (\<lambda>_. no_property) (\<lambda>d. do {
     r \<leftarrow> run_command h (''zfs get com.sun:auto-snapshot '' @ d @ '' -H -o value,source'');
     State_Monad.return (if \<not> cr_success r then no_property
       else case tab_fields (strip (cr_stdout r)) of
              v # s # _ \<Rightarrow> (v, s) | [v] \<Rightarrow> (v, ''none'') | [] \<Rightarrow> no_property) })"

definition label_char :: "char \<Rightarrow> bool" where
  "label_char c = (is_alnum c \<or> one_of ''_-'' c)"

definition LABEL_RE :: re where
  "LABEL_RE = whitelist label_char label_char"

text \<open>\<open>label\<close> empty: none.\<close>

definition check_label :: "string \<Rightarrow> string \<Rightarrow> unit checked" where
  "check_label msg label = (if label \<noteq> [] \<and> \<not> re_test LABEL_RE label then bad msg else Inr ())"

definition auto_property :: "string \<Rightarrow> string" where
  "auto_property label = ''com.sun:auto-snapshot'' @ (if label \<noteq> [] then '':'' @ label else [])"

definition set_auto_snapshot :: "host \<Rightarrow> pyval \<Rightarrow> bool \<Rightarrow> string \<Rightarrow> cmd_result act" where
  "set_auto_snapshot h dataset enabled label =
     on_valid (validate_dataset_name dataset) cmd_fail (\<lambda>d.
     on_valid (check_label ''Invalid auto-snapshot label: only alphanumeric, _, - allowed'' label) cmd_fail (\<lambda>_.
       write_cmd h (''zfs set '' @ auto_property label @ ''='' @ (if enabled then ''true'' else ''false'') @ '' '' @ d)))"

definition inherit_auto_snapshot :: "host \<Rightarrow> pyval \<Rightarrow> string \<Rightarrow> cmd_result act" where
  "inherit_auto_snapshot h dataset label =
     on_valid (validate_dataset_name dataset) cmd_fail (\<lambda>d.
     on_valid (check_label ''Invalid auto-snapshot label'' label) cmd_fail (\<lambda>_.
       write_cmd h (''zfs inherit '' @ auto_property label @ '' '' @ d)))"

definition get_autosnap_map :: "host \<Rightarrow> (string, string \<times> string) dict act" where
  "get_autosnap_map h = do {
     r \<leftarrow> run_command h ''zfs get -H -o name,value,source com.sun:auto-snapshot -t filesystem,volume 2>/dev/null'';
     State_Monad.return (if \<not> cr_success r then []
       else fold (\<lambda>l d. case tab_fields l of a # b # c # _ \<Rightarrow> dset a (b, c) d | _ \<Rightarrow> d) (splitlines (cr_stdout r)) []) }"

section \<open>Guests\<close>

record pve_guest =
  pg_vmid :: string
  pg_name :: string
  pg_status :: string
  pg_type :: string

definition vm_of_line :: "string \<Rightarrow> pve_guest option" where
  "vm_of_line line = (case split_ws line of
     a # b # c # _ \<Rightarrow> Some \<lparr>pg_vmid = a, pg_name = b, pg_status = c, pg_type = ''qemu''\<rparr> | _ \<Rightarrow> None)"

definition ct_of_line :: "string \<Rightarrow> pve_guest option" where
  "ct_of_line line = (case split_ws line of
     a # b # c # _ \<Rightarrow> Some \<lparr>pg_vmid = a, pg_name = c, pg_status = b, pg_type = ''lxc''\<rparr> | _ \<Rightarrow> None)"

definition list_guests :: "(string \<Rightarrow> pve_guest option) \<Rightarrow> string \<Rightarrow> host \<Rightarrow> pve_guest list act" where
  "list_guests of_line cmd h = do {
     r \<leftarrow> run_command h cmd;
     State_Monad.return (if \<not> cr_success r then []
       else List.map_filter of_line (drop 1 (stripped_lines (cr_stdout r)))) }"

definition get_pve_vms :: "host \<Rightarrow> pve_guest list act" where
  "get_pve_vms = list_guests vm_of_line ''qm list 2>/dev/null''"

definition get_pve_cts :: "host \<Rightarrow> pve_guest list act" where
  "get_pve_cts = list_guests ct_of_line ''pct list 2>/dev/null''"

text \<open>The commands before and after the number.\<close>

definition GUEST_ACTIONS :: "((string \<times> string) \<times> string \<times> string) list" where
  "GUEST_ACTIONS =
     [((''qemu'', ''start''), ''qm start '', []), ((''qemu'', ''shutdown''), ''qm shutdown '', '' --timeout 60''),
      ((''qemu'', ''stop''), ''qm stop '', []), ((''qemu'', ''reboot''), ''qm reboot '', []),
      ((''lxc'', ''start''), ''pct start '', []), ((''lxc'', ''shutdown''), ''pct shutdown '', []),
      ((''lxc'', ''stop''), ''pct stop '', []), ((''lxc'', ''reboot''), ''pct reboot '', [])]"

definition guest_action :: "host \<Rightarrow> pyval \<Rightarrow> string \<Rightarrow> string \<Rightarrow> (string + cmd_result) act" where
  "guest_action h vmid vm_type action =
     on_valid (validate_vmid vmid) Inl (\<lambda>v.
     on_valid (validate_vm_type (VStr vm_type)) Inl (\<lambda>t.
       (case dget GUEST_ACTIONS (t, action) of
          None \<Rightarrow> State_Monad.return (Inl ''unsupported action'')
        | Some (pre, post) \<Rightarrow> do { r \<leftarrow> write_cmd h (pre @ v @ post); State_Monad.return (Inr r) })))"

definition disk_of_guest :: "string \<Rightarrow> string \<Rightarrow> bool" where
  "disk_of_guest prefix ds = (ds = prefix \<or> starts_with (prefix @ ''-disk-'') ds)"

text \<open>\<open>dataset.split("/")[-1]\<close>.\<close>

definition leaf_name :: "string \<Rightarrow> string" where
  "leaf_name ds = rev (takeWhile (\<lambda>c. c \<noteq> CHR ''/'') (rev ds))"

definition vm_snapshot_of_line :: "string \<Rightarrow> string \<Rightarrow> (string \<times> string \<times> string \<times> string) option" where
  "vm_snapshot_of_line prefix line =
     (case tab_fields line of
        full # used # refer # creation # _ \<Rightarrow>
          (case rsplit_once CHR ''@'' full of
             None \<Rightarrow> None
           | Some (ds, snap) \<Rightarrow> if disk_of_guest prefix (leaf_name ds) then Some (full, used, refer, creation) else None)
      | _ \<Rightarrow> None)"

definition get_vm_snapshots :: "host \<Rightarrow> pyval \<Rightarrow> pyval \<Rightarrow> string \<Rightarrow> (string \<times> string \<times> string \<times> string) list act" where
  "get_vm_snapshots h pool vmid vm_type =
     on_valid (validate_pool_name pool) (\<lambda>_. []) (\<lambda>p.
     on_valid (validate_vmid vmid) (\<lambda>_. []) (\<lambda>v.
     on_valid (validate_vm_type (VStr vm_type)) (\<lambda>_. []) (\<lambda>t. do {
       r \<leftarrow> run_command h ''zfs list -t snapshot -H -o name,used,refer,creation -s creation 2>/dev/null'';
       State_Monad.return (if \<not> cr_success r then []
         else List.map_filter (vm_snapshot_of_line ((if t = ''lxc'' then ''subvol-'' else ''vm-'') @ v))
                (stripped_lines (cr_stdout r))) })))"

section \<open>Estimates\<close>

definition estimate_send_size :: "host \<Rightarrow> pyval \<Rightarrow> cmd_result act" where
  "estimate_send_size h snapshot = on_valid (validate_zfs_name snapshot ''Snapshot'') cmd_fail (\<lambda>s.
     run_command h (''zfs send -nv '' @ s @ '' 2>&1''))"

definition estimate_incremental_size :: "host \<Rightarrow> pyval \<Rightarrow> pyval \<Rightarrow> cmd_result act" where
  "estimate_incremental_size h snap_from snap_to =
     on_valid (validate_zfs_name snap_from ''Snapshot (from)'') cmd_fail (\<lambda>a.
     on_valid (validate_zfs_name snap_to ''Snapshot (to)'') cmd_fail (\<lambda>b.
       run_command h (''zfs send -nvi '' @ a @ '' '' @ b @ '' 2>&1'')))"

end
