(* ===== verification/ZfsRestore.thy ===== *)
theory ZfsRestore
  imports ZfsData
begin

text \<open>
  \<open>app/zfs_commands.py\<close>, restoring files: partitions of a volume's snapshot are made visible with kpartx and
  mounted, a file system's snapshot is cloned; both are browsed, read and copied from under the mount.
  Sizes are exact where the code divides floats.
\<close>

section \<open>Text functions\<close>

text \<open>\<open>s.split(sep)\<close> for a separator of several characters.\<close>

fun split_str_from :: "string \<Rightarrow> string \<Rightarrow> string \<Rightarrow> string list" where
  "split_str_from sep acc [] = [rev acc]"
| "split_str_from sep acc (c # s) =
     (if starts_with sep (c # s) then rev acc # split_str_from sep [] (drop (length sep - 1) s)
      else split_str_from sep (c # acc) s)"

definition split_str :: "string \<Rightarrow> string \<Rightarrow> string list" where
  "split_str sep s = split_str_from sep [] s"

text \<open>\<open>s.split(None, n)\<close>.\<close>

fun split_ws_max :: "nat \<Rightarrow> string \<Rightarrow> string list" where
  "split_ws_max 0 s = (if lstrip s = [] then [] else [lstrip s])"
| "split_ws_max (Suc n) s =
     (let t = lstrip s in if t = [] then []
      else takeWhile (\<lambda>c. \<not> is_space c) t # split_ws_max n (dropWhile (\<lambda>c. \<not> is_space c) t))"

definition ends_str :: "string \<Rightarrow> string \<Rightarrow> bool" where
  "ends_str suffix s = starts_with (rev suffix) (rev s)"

text \<open>\<open>n / d\<close> with one digit after the point, a tie to the even digit.\<close>

definition one_decimal :: "nat \<Rightarrow> nat \<Rightarrow> string" where
  "one_decimal n d = (let t = round_half_even (10 * n) d in show_nat (t div 10) @ ''.'' @ show_nat (t mod 10))"

fun format_size_from :: "nat \<Rightarrow> nat \<Rightarrow> string list \<Rightarrow> string" where
  "format_size_from n d [] = one_decimal n d @ ''P''"
| "format_size_from n d (u # us) =
     (if n < 1024 * d then (if u = ''B'' then show_nat n @ u else one_decimal n d @ u)
      else format_size_from n (1024 * d) us)"

definition format_size :: "nat \<Rightarrow> string" where
  "format_size n = format_size_from n 1 [''B'', ''K'', ''M'', ''G'', ''T'']"

section \<open>Mappings of a volume\<close>

definition RESTORE_MOUNT_BASE :: string where "RESTORE_MOUNT_BASE = ''/tmp/zfs-tool-restore''"
definition ZVOL_MOUNT_BASE :: string where "ZVOL_MOUNT_BASE = ''/tmp/zfs-tool-zvol-restore''"

definition mapper_char :: "char \<Rightarrow> bool" where
  "mapper_char c = (is_alnum c \<or> one_of ''_.:@+-'' c)"

definition MAPPER_NAME_RE :: re where
  "MAPPER_NAME_RE = whitelist mapper_char mapper_char"

definition zvol_char :: "char \<Rightarrow> bool" where
  "zvol_char c = (is_alnum c \<or> one_of ''_.:/-'' c)"

definition ZVOL_DEV_RE :: re where
  "ZVOL_DEV_RE = seqs [Bol, lit ''/dev/zvol/'', plus (Ch zvol_char), chr CHR ''@'',
     plus (Ch (\<lambda>c. zvol_char c \<and> c \<noteq> CHR ''/'')), Eol]"

definition dq :: string where "dq = [CHR 0x22]"

definition ZVOL_BACKED_MAPPINGS_SH :: string where
  "ZVOL_BACKED_MAPPINGS_SH = ''for p in /dev/mapper/*; do n=${p##*/}; [ '' @ dq @ ''$n'' @ dq @ '' = control ] && continue; ''
     @ ''d=$(dmsetup deps -o devname '' @ dq @ ''$n'' @ dq @ '' 2>/dev/null); case '' @ dq @ ''$d'' @ dq @ '' in *zd[0-9]*) echo ''
     @ dq @ ''$n'' @ dq @ '';; esac; done''"

definition zvol_backed_mappings :: "host \<Rightarrow> string list act" where
  "zvol_backed_mappings h = do {
     r \<leftarrow> run_command h ZVOL_BACKED_MAPPINGS_SH;
     State_Monad.return (if \<not> cr_success r then []
       else filter (\<lambda>l. l \<noteq> [] \<and> re_test MAPPER_NAME_RE l) (map strip (splitlines (cr_stdout r)))) }"

definition ZD_RE :: re where
  "ZD_RE = seqs [word_edge, lit ''zd'', plus (Ch is_digit), word_edge]"

definition deps_command :: "string \<Rightarrow> string" where
  "deps_command dev = ''dmsetup deps -o devname '' @ shell_quote dev @ '' 2>/dev/null''"

definition zd_answer :: "cmd_result \<Rightarrow> bool" where
  "zd_answer r = (cr_success r \<and> re_search ZD_RE (cr_stdout r) \<noteq> None)"

definition is_zvol_backed :: "host \<Rightarrow> string \<Rightarrow> bool act" where
  "is_zvol_backed h dev =
     (if \<not> re_test MAPPER_NAME_RE dev then State_Monad.return False
      else do { r \<leftarrow> run_command h (deps_command dev); State_Monad.return (zd_answer r) })"

section \<open>Showing the partitions of a volume's snapshot\<close>

definition SKIP_FS :: "string list" where
  "SKIP_FS = [''swap'', ''linux_raid_member'', ''LVM2_member'', ''zfs_member'', ''linux_dmraid_member'', ''iso9660'',
     ''squashfs'', ''bcache'', ''drbd'', ''mdraid'', ''ceph_bluestore'']"

definition ENCRYPTED_FS :: "string list" where
  "ENCRYPTED_FS = [''BitLocker'', ''bitlocker'', ''crypto_LUKS'']"

record partition =
  pt_device :: string
  pt_name :: string
  pt_size :: string
  pt_fstype :: string
  pt_label :: string
  pt_mountable :: bool
  pt_encrypted :: bool

text \<open>Type, label and size of a \<open>blkid\<close> export. A negative number of sectors does not occur.\<close>

definition blkid_step :: "string \<Rightarrow> string \<times> string \<times> string \<Rightarrow> string \<times> string \<times> string" where
  "blkid_step line st = (case st of (fstype, label, sz) \<Rightarrow>
     if starts_with ''TYPE='' line then (drop 5 line, label, sz)
     else if starts_with ''LABEL='' line then (fstype, drop 6 line, sz)
     else if starts_with ''PART_ENTRY_SIZE='' line
       then (fstype, label, case py_int (drop 16 line) of None \<Rightarrow> sz | Some n \<Rightarrow> format_size (nat n * 512))
     else st)"

definition blkid_of :: "cmd_result \<Rightarrow> string \<times> string \<times> string" where
  "blkid_of r = (if cr_success r then fold blkid_step (stripped_lines (cr_stdout r)) ([], [], ''?'') else ([], [], ''?''))"

definition partition_of :: "string \<Rightarrow> string \<Rightarrow> string \<Rightarrow> string \<Rightarrow> partition option" where
  "partition_of name fstype label sz =
     (if fstype \<noteq> [] \<and> fstype \<notin> set SKIP_FS
      then Some \<lparr>pt_device = ''/dev/mapper/'' @ name, pt_name = name, pt_size = sz, pt_fstype = fstype, pt_label = label,
             pt_mountable = (fstype \<notin> set ENCRYPTED_FS), pt_encrypted = (fstype \<in> set ENCRYPTED_FS)\<rparr>
      else None)"

definition probe_partition :: "host \<Rightarrow> string \<Rightarrow> partition option act" where
  "probe_partition h name =
     (let path = ''/dev/mapper/'' @ name in do {
        b \<leftarrow> run_command h (''blkid -o export '' @ shell_quote path @ '' 2>/dev/null'');
        (case blkid_of b of (fstype, label, sz) \<Rightarrow>
           if sz \<noteq> ''?'' then State_Monad.return (partition_of name fstype label sz)
           else do {
             s \<leftarrow> run_command h (''blockdev --getsize64 '' @ shell_quote path @ '' 2>/dev/null'');
             State_Monad.return (partition_of name fstype label
               (case (if cr_success s then py_int (strip (cr_stdout s)) else None) of
                  None \<Rightarrow> sz | Some n \<Rightarrow> format_size (nat n))) }) })"

record zvol_mounted =
  zm_zvol_dev :: string
  zm_snapshot :: string
  zm_partitions :: "partition list"

definition list_partitions :: "host \<Rightarrow> string \<Rightarrow> string \<Rightarrow> (string + zvol_mounted) act" where
  "list_partitions h snapshot zvol_dev = do {
     kp \<leftarrow> run_command h (''kpartx -l '' @ shell_quote zvol_dev);
     ps \<leftarrow> for_each (probe_partition h)
       (if cr_success kp then nub (List.map_filter (\<lambda>l. case split_ws l of [] \<Rightarrow> None | w # _ \<Rightarrow> Some w)
          (stripped_lines (cr_stdout kp))) else []);
     forget h;
     State_Monad.return (Inr \<lparr>zm_zvol_dev = zvol_dev, zm_snapshot = snapshot, zm_partitions = List.map_filter id ps\<rparr>) }"

definition expose_partitions :: "host \<Rightarrow> string \<Rightarrow> string \<Rightarrow> (string + zvol_mounted) act" where
  "expose_partitions h snapshot ds =
     (let zvol_dev = ''/dev/zvol/'' @ snapshot in do {
        run_command h (''zfs set snapdev=visible '' @ ds);
        run_command h ''udevadm settle --timeout=5 2>/dev/null; sleep 1'';
        c \<leftarrow> run_command h (''test -e '' @ shell_quote zvol_dev @ '' && echo OK'');
        if \<not> cr_success c \<or> \<not> contains_str ''OK'' (cr_stdout c)
        then State_Monad.return (Inl (''Zvol device not found: '' @ zvol_dev @ ''. Try: zfs set snapdev=visible '' @ ds))
        else do {
          k \<leftarrow> run_command h (''kpartx -ars '' @ shell_quote zvol_dev);
          if \<not> cr_success k then State_Monad.return (Inl (''kpartx failed: '' @ cr_stderr k))
          else list_partitions h snapshot zvol_dev } })"

definition zvol_snapshot_mount :: "host \<Rightarrow> pyval \<Rightarrow> (string + zvol_mounted) act" where
  "zvol_snapshot_mount h snapshot = on_valid (validate_zfs_name snapshot ''Snapshot'') Inl (\<lambda>s.
     (let ds = (if CHR ''@'' \<in> set s then before_at s else []) in do {
        t \<leftarrow> run_command h (''zfs get -H -o value type '' @ ds);
        if cr_success t \<and> strip (cr_stdout t) \<noteq> ''volume''
        then State_Monad.return (Inl ''Zvol restore only works on volume datasets.'')
        else do {
          k \<leftarrow> run_command h ''which kpartx'';
          if \<not> cr_success k \<or> strip (cr_stdout k) = []
          then State_Monad.return (Inl ''kpartx is not installed on the Proxmox host. Install it with: apt install kpartx'')
          else expose_partitions h s ds } }))"

section \<open>Mounting a partition\<close>

definition mapper_name :: "string \<Rightarrow> string" where
  "mapper_name device = (if starts_with ''/dev/mapper/'' device then drop 12 device else [])"

definition mount_attempts :: "string \<Rightarrow> string \<Rightarrow> string \<Rightarrow> string list" where
  "mount_attempts fstype qdev qmp =
     (let rest = '' '' @ qdev @ '' '' @ qmp in
      if fstype \<in> {''ntfs'', ''ntfs3''} then [''mount -t ntfs-3g -o ro'' @ rest]
      else if fstype \<in> {''ext2'', ''ext3'', ''ext4'', ''ext''} then [''mount -o ro,norecovery'' @ rest, ''mount -o ro'' @ rest]
      else if fstype = ''xfs'' then [''mount -o ro,norecovery'' @ rest, ''mount -t xfs -o ro,norecovery'' @ rest]
      else if fstype = ''btrfs'' then [''mount -o ro,rescue=nologreplay'' @ rest, ''mount -o ro'' @ rest]
      else [''mount -o ro'' @ rest, ''mount -o ro,norecovery'' @ rest])"

text \<open>The command that worked, or the last error.\<close>

fun try_mounts :: "host \<Rightarrow> string \<Rightarrow> string list \<Rightarrow> (string + string) act" where
  "try_mounts h err [] = State_Monad.return (Inl err)"
| "try_mounts h err (c # cs) = do {
     r \<leftarrow> run_command h c;
     if cr_success r then State_Monad.return (Inr c)
     else try_mounts h (if cr_stderr r \<noteq> [] then cr_stderr r else if cr_stdout r \<noteq> [] then cr_stdout r else err) cs }"

record partition_mounted =
  pm_mount_path :: string
  pm_device :: string
  pm_mount_cmd :: string

definition remove_dir :: "host \<Rightarrow> string \<Rightarrow> unit act" where
  "remove_dir h path = do { run_command h (''rmdir '' @ shell_quote path @ '' 2>/dev/null''); State_Monad.return () }"

definition mount_checked :: "host \<Rightarrow> string \<Rightarrow> string \<Rightarrow> string \<Rightarrow> (string + partition_mounted) act" where
  "mount_checked h device fstype mount_path = do {
     m \<leftarrow> run_command h (''mkdir -p '' @ shell_quote mount_path);
     if \<not> cr_success m then State_Monad.return (Inl (''Failed to create mount dir: '' @ cr_stderr m))
     else do {
       no_ntfs \<leftarrow> (if fstype \<in> {''ntfs'', ''ntfs3''} then do {
           n \<leftarrow> run_command h ''which ntfs-3g'';
           State_Monad.return (\<not> cr_success n \<or> strip (cr_stdout n) = []) }
         else State_Monad.return False);
       if no_ntfs then do {
         remove_dir h mount_path;
         State_Monad.return (Inl ''ntfs-3g is not installed on the Proxmox host. Install it with: apt install ntfs-3g'') }
       else do {
         x \<leftarrow> try_mounts h [] (mount_attempts fstype (shell_quote device) (shell_quote mount_path));
         (case x of
            Inr c \<Rightarrow> State_Monad.return (Inr \<lparr>pm_mount_path = mount_path, pm_device = device, pm_mount_cmd = c\<rparr>)
          | Inl err \<Rightarrow> do { remove_dir h mount_path; State_Monad.return (Inl (''Mount failed: '' @ err)) }) } } }"

definition zvol_partition_mount :: "host \<Rightarrow> string \<Rightarrow> string \<Rightarrow> (string + partition_mounted) act" where
  "zvol_partition_mount h device fstype =
     (let dev = mapper_name device in
      if \<not> re_test MAPPER_NAME_RE dev
      then State_Monad.return (Inl ''Invalid device path -- must be /dev/mapper/<name>'')
      else do {
        ok \<leftarrow> is_zvol_backed h dev;
        if \<not> ok then State_Monad.return (Inl (device @ '' is not a kpartx mapping of a zvol snapshot -- refusing''))
        else mount_checked h device fstype (ZVOL_MOUNT_BASE @ ''/'' @ dev) })"

section \<open>Unmounting and cleaning up\<close>

definition under_zvol_base :: "string \<Rightarrow> bool" where
  "under_zvol_base mount_path =
     (starts_with (ZVOL_MOUNT_BASE @ ''/'') mount_path \<and>
      re_test MAPPER_NAME_RE (drop (length ZVOL_MOUNT_BASE + 1) mount_path))"

definition LEFTOVER_RE :: re where
  "LEFTOVER_RE = seqs [Bol, opt (chr CHR ''p''), plus (Ch is_digit), Eol]"

definition remove_mapping :: "host \<Rightarrow> string \<Rightarrow> cmd_result act" where
  "remove_mapping h dm = run_command h (''dmsetup remove '' @ shell_quote dm @ '' 2>/dev/null'')"

definition hide_snapdev :: "host \<Rightarrow> string \<Rightarrow> cmd_result act" where
  "hide_snapdev h ds = run_command h (''zfs set snapdev=hidden '' @ shell_quote ds)"

definition unmap_volume :: "host \<Rightarrow> string \<Rightarrow> unit act" where
  "unmap_volume h zvol_dev =
     (let path = drop 10 zvol_dev; snap_part = leaf_name path in do {
        run_command h (''kpartx -d '' @ shell_quote zvol_dev @ '' 2>/dev/null'');
        ms \<leftarrow> zvol_backed_mappings h;
        for_each (remove_mapping h)
          (filter (\<lambda>dm. starts_with snap_part dm \<and> re_test LEFTOVER_RE (drop (length snap_part) dm)) ms);
        hide_snapdev h (before_at path);
        State_Monad.return () })"

text \<open>The list of errors; empty arguments are left out.\<close>

definition zvol_unmount :: "host \<Rightarrow> string \<Rightarrow> string \<Rightarrow> (string + string list) act" where
  "zvol_unmount h mount_path zvol_dev0 =
     (let zvol_dev = strip zvol_dev0 in
      if mount_path \<noteq> [] \<and> \<not> under_zvol_base mount_path
      then State_Monad.return (Inl ''Invalid mount path -- must be <zvol restore base>/<mapping>'')
      else if zvol_dev \<noteq> [] \<and> \<not> re_test ZVOL_DEV_RE zvol_dev
      then State_Monad.return (Inl ''Invalid zvol device -- expected /dev/zvol/<pool>/<dataset>@<snapshot>'')
      else do {
        errors \<leftarrow> (if mount_path = [] then State_Monad.return [] else do {
            u \<leftarrow> run_command h (''umount '' @ shell_quote mount_path);
            remove_dir h mount_path;
            State_Monad.return (if cr_success u then [] else [''umount: '' @ cr_stderr u]) });
        (if zvol_dev = [] then State_Monad.return () else unmap_volume h zvol_dev);
        forget h;
        State_Monad.return (Inr errors) })"

text \<open>A line of \<open>mount\<close>: device, path and type.\<close>

definition mount_line :: "string \<Rightarrow> (string \<times> string \<times> string) option" where
  "mount_line line =
     (case split_str '' on '' line of
        d # r # _ \<Rightarrow>
          (case split_str '' type '' r of
             p # t # _ \<Rightarrow> Some (strip d, strip p, case split_ws t of [] \<Rightarrow> [] | w # _ \<Rightarrow> w)
           | [p] \<Rightarrow> Some (strip d, strip p, [])
           | [] \<Rightarrow> Some (strip d, [], []))
      | _ \<Rightarrow> None)"

definition zvol_mounts :: "host \<Rightarrow> (string \<times> string \<times> string) list act" where
  "zvol_mounts h = do {
     r \<leftarrow> run_command h (''mount | grep '' @ shell_quote ZVOL_MOUNT_BASE);
     State_Monad.return (if cr_success r then List.map_filter mount_line (stripped_lines (cr_stdout r)) else []) }"

definition visible_line :: "string \<Rightarrow> string option" where
  "visible_line line = (case two_columns line of None \<Rightarrow> None
     | Some (n, v) \<Rightarrow> if strip v = ''visible'' then Some (strip n) else None)"

definition visible_volumes :: "host \<Rightarrow> string list act" where
  "visible_volumes h = do {
     r \<leftarrow> run_command h ''zfs get snapdev -t volume -s local -H -o name,value'';
     State_Monad.return (if cr_success r then List.map_filter visible_line (stripped_lines (cr_stdout r)) else []) }"

record zvol_active =
  za_mounts :: "(string \<times> string \<times> string) list"
  za_mappings :: "string list"
  za_visible :: "string list"
  za_total :: nat

definition zvol_list_active :: "host \<Rightarrow> zvol_active act" where
  "zvol_list_active h = do {
     m \<leftarrow> zvol_mounts h;
     d \<leftarrow> zvol_backed_mappings h;
     v \<leftarrow> visible_volumes h;
     State_Monad.return \<lparr>za_mounts = m, za_mappings = d, za_visible = v, za_total = length m + length d + length v\<rparr> }"

record zvol_cleaned =
  zc_mounts :: "string list"
  zc_mappings :: "string list"
  zc_snapdev :: "string list"
  zc_errors :: "string list"
  zc_total :: nat

definition unmount_one :: "host \<Rightarrow> string \<times> string \<times> string \<Rightarrow> (string + string) act" where
  "unmount_one h m = (case m of (d, mp, t) \<Rightarrow> do {
     r \<leftarrow> run_command h (''umount '' @ shell_quote mp);
     remove_dir h mp;
     State_Monad.return (if cr_success r then Inr mp else Inl (''umount '' @ mp @ '': '' @ cr_stderr r)) })"

text \<open>The operation on each, and the ones on which it worked.\<close>

definition each_done :: "(string \<Rightarrow> cmd_result act) \<Rightarrow> string list \<Rightarrow> string list act" where
  "each_done f xs = do {
     rs \<leftarrow> for_each f xs;
     State_Monad.return (map fst (filter (\<lambda>(x, r). cr_success r) (zip xs rs))) }"

definition lefts :: "('a + 'b) list \<Rightarrow> 'a list" where
  "lefts xs = List.map_filter (case_sum Some (\<lambda>_. None)) xs"

definition rights :: "('a + 'b) list \<Rightarrow> 'b list" where
  "rights xs = List.map_filter (case_sum (\<lambda>_. None) Some) xs"

definition zvol_cleanup_all :: "host \<Rightarrow> zvol_cleaned act" where
  "zvol_cleanup_all h = do {
     m \<leftarrow> zvol_mounts h;
     us \<leftarrow> for_each (unmount_one h) m;
     run_command h (''rmdir '' @ ZVOL_MOUNT_BASE @ ''/* 2>/dev/null'');
     d \<leftarrow> zvol_backed_mappings h;
     ms \<leftarrow> each_done (remove_mapping h) d;
     v \<leftarrow> visible_volumes h;
     hs \<leftarrow> each_done (hide_snapdev h) v;
     forget h;
     State_Monad.return \<lparr>zc_mounts = rights us, zc_mappings = ms, zc_snapdev = hs, zc_errors = lefts us,
       zc_total = length (rights us) + length ms + length hs\<rparr> }"

section \<open>Clones of file systems\<close>

definition dashed :: "string \<Rightarrow> string" where
  "dashed s = map (\<lambda>c. if c = CHR ''/'' \<or> c = CHR ''@'' then CHR ''-'' else c) s"

definition clone_name_of :: "string \<Rightarrow> string" where
  "clone_name_of s =
     (let (ds, snap) = (case rsplit_once CHR ''@'' s of None \<Rightarrow> ([], []) | Some p \<Rightarrow> p)
      in dashed (ds @ ''-restore-'' @ snap))"

definition snapshot_dataset :: "string \<Rightarrow> string" where
  "snapshot_dataset s = (case rsplit_once CHR ''@'' s of None \<Rightarrow> [] | Some (ds, snap) \<Rightarrow> ds)"

definition clone_ds_of :: "string \<Rightarrow> string" where
  "clone_ds_of s = pool_part (snapshot_dataset s) @ ''/restore-'' @ clone_name_of s"

record clone_mounted =
  cm_clone_ds :: string
  cm_mount_path :: string
  cm_snapshot :: string

definition snapshot_mount :: "host \<Rightarrow> pyval \<Rightarrow> (string + clone_mounted) act" where
  "snapshot_mount h snapshot = on_valid (validate_zfs_name snapshot ''Snapshot'') Inl (\<lambda>s. do {
     t \<leftarrow> run_command h (''zfs get -H -o value type '' @ snapshot_dataset s);
     if cr_success t \<and> strip (cr_stdout t) \<noteq> ''filesystem''
     then State_Monad.return (Inl ''File restore only works on filesystem datasets (LXC containers).'')
     else let mount_path = RESTORE_MOUNT_BASE @ ''/'' @ clone_name_of s in do {
       run_command h (''zfs destroy -r '' @ clone_ds_of s @ '' 2>/dev/null'');
       c \<leftarrow> run_command h (''zfs clone -o mountpoint='' @ mount_path @ '' -o readonly=on -o com.sun:auto-snapshot=false ''
         @ s @ '' '' @ clone_ds_of s);
       if \<not> cr_success c then State_Monad.return (Inl (cr_stderr c))
       else do {
         forget h;
         State_Monad.return (Inr \<lparr>cm_clone_ds = clone_ds_of s, cm_mount_path = mount_path, cm_snapshot = s\<rparr>) } } })"

definition CLONE_DS_RE :: re where
  "CLONE_DS_RE = seqs [Bol, plus (Ch (\<lambda>c. c \<noteq> CHR ''/'' \<and> c \<noteq> CHR ''@'')), lit ''/restore-'',
     plus (Ch (\<lambda>c. is_alnum c \<or> one_of ''_.:-'' c)), Eol]"

definition snapshot_unmount :: "host \<Rightarrow> pyval \<Rightarrow> cmd_result act" where
  "snapshot_unmount h clone_ds = on_valid (validate_zfs_name clone_ds ''Clone dataset'') cmd_fail (\<lambda>c.
     if \<not> re_test CLONE_DS_RE c
     then State_Monad.return (cmd_fail (c @ '' is not a restore clone (<pool>/restore-...) -- refusing''))
     else write_cmd h (''zfs destroy -r '' @ shell_quote c))"

record restore_clone =
  rc_name :: string
  rc_mountpoint :: string
  rc_used :: string
  rc_creation :: string

definition restore_clone_of :: "string \<Rightarrow> restore_clone option" where
  "restore_clone_of line =
     (case tab_fields line of
        a # b # c # d # rest \<Rightarrow> Some \<lparr>rc_name = a, rc_mountpoint = b, rc_used = c, rc_creation = join [tab] (d # rest)\<rparr>
      | _ \<Rightarrow> None)"

definition list_restore_clones :: "host \<Rightarrow> restore_clone list act" where
  "list_restore_clones h = do {
     r \<leftarrow> run_command h (''zfs list -H -o name,mountpoint,used,creation -t filesystem | grep '' @ sq @ ''/restore-'' @ sq);
     State_Monad.return (if cr_success r then List.map_filter restore_clone_of (stripped_lines (cr_stdout r)) else []) }"

definition destroy_clone :: "host \<Rightarrow> restore_clone \<Rightarrow> (string + string) act" where
  "destroy_clone h c =
     (case validate_zfs_name (VStr (rc_name c)) ''Clone name'' of
        Inl e \<Rightarrow> State_Monad.return (Inl (rc_name c @ '': '' @ exc_text e))
      | Inr _ \<Rightarrow> do {
          r \<leftarrow> run_command h (''zfs destroy -r '' @ rc_name c);
          State_Monad.return (if cr_success r then Inr (rc_name c) else Inl (rc_name c @ '': '' @ cr_stderr r)) })"

definition cleanup_restore_clones :: "host \<Rightarrow> (string list \<times> string list) act" where
  "cleanup_restore_clones h = do {
     cs \<leftarrow> list_restore_clones h;
     rs \<leftarrow> for_each (destroy_clone h) cs;
     (if rights rs \<noteq> [] then forget h else State_Monad.return ());
     State_Monad.return (rights rs, lefts rs) }"

section \<open>Looking into a mounted snapshot\<close>

definition mount_bases :: "string list" where
  "mount_bases = [RESTORE_MOUNT_BASE, ZVOL_MOUNT_BASE]"

definition validated_mount :: "pyval \<Rightarrow> string checked" where
  "validated_mount mount_path =
     (case validate_path mount_path ''Mount path'' of Inl e \<Rightarrow> Inl e | Inr m \<Rightarrow>
        if \<not> list_ex (\<lambda>base. starts_with (base @ ''/'') m) mount_bases
        then bad ''Mount path: not a snapshot mount of this tool'' else Inr m)"

definition inside :: "string \<Rightarrow> string \<Rightarrow> bool" where
  "inside mount_path resolved =
     (let base = rstrip_chars ''/'' mount_path in resolved = base \<or> starts_with (base @ ''/'') resolved)"

definition realpath_command :: "string \<Rightarrow> string" where
  "realpath_command path = ''realpath '' @ shell_quote path"

text \<open>None: the path lies under the mount.\<close>

definition verify_under_mount :: "host \<Rightarrow> string \<Rightarrow> string \<Rightarrow> string \<Rightarrow> string option act" where
  "verify_under_mount h path mount_path what = do {
     r \<leftarrow> run_command h (realpath_command path);
     State_Monad.return (if \<not> cr_success r then Some (what @ '' could not be verified'')
       else if \<not> inside mount_path (strip (cr_stdout r)) then Some (what @ '' escapes mount point'') else None) }"

definition full_path :: "string \<Rightarrow> string \<Rightarrow> string" where
  "full_path mount_path sub = rstrip_chars ''/'' (mount_path @ ''/'' @ sub)"

definition LS_PERMS_RE :: re where
  "LS_PERMS_RE = seqs [Bol, Ch (one_of ''-dlcbps''), times 9 (Ch (one_of ''-rwxsStT'')), opt (Ch (one_of ''.+@'')), Eol]"

definition LS_SIZE_RE :: re where
  "LS_SIZE_RE = seqs [Bol, Alt (plus (Ch is_digit)) (seqs [plus (Ch is_digit), chr CHR '','', Star (Ch is_space), plus (Ch is_digit)]),
     Eol]"

definition LS_DATE_RE :: re where
  "LS_DATE_RE = seqs [Bol, times 4 (Ch is_digit), chr CHR ''-'', times 2 (Ch is_digit), chr CHR ''-'', times 2 (Ch is_digit),
     chr CHR 0x20, times 2 (Ch is_digit), chr CHR '':'', times 2 (Ch is_digit),
     opt (seqs [chr CHR '':'', times 2 (Ch is_digit), opt (Seq (chr CHR ''.'') (plus (Ch is_digit)))]),
     opt (seqs [chr CHR 0x20, Ch (one_of ''+-''), times 4 (Ch is_digit)]), Eol]"

record file_entry =
  fe_name :: string
  fe_type :: string
  fe_size :: string
  fe_date :: string
  fe_perms :: string

definition entry_type :: "string \<Rightarrow> string" where
  "entry_type perms = (if starts_with ''d'' perms then ''dir'' else if starts_with ''l'' perms then ''link'' else ''file'')"

definition file_entry_of :: "string list \<Rightarrow> file_entry option" where
  "file_entry_of parts =
     (case parts of
        perms # _ # _ # _ # sz # day # clock # name # _ \<Rightarrow>
          (let date = day @ '' '' @ clock in
           if name \<in> {''.'', ''..''} then None
           else if re_test LS_PERMS_RE perms \<and> re_test LS_SIZE_RE sz \<and> re_test LS_DATE_RE date
           then Some \<lparr>fe_name = name, fe_type = entry_type perms, fe_size = sz, fe_date = date, fe_perms = perms\<rparr>
           else None)
      | _ \<Rightarrow> None)"

text \<open>The numbers of a device file take two columns.\<close>

definition ls_columns :: "string \<Rightarrow> string list" where
  "ls_columns line =
     (case split_ws_max 7 line of
        a # b # c # d # e # rest \<Rightarrow>
          (if length rest \<ge> 3 \<and> ends_str '','' e
           then (case split_ws_max 8 line of
                   a # b # c # d # e # f # xs \<Rightarrow> if length xs < 3 then [] else a # b # c # d # (e @ '' '' @ f) # xs
                 | _ \<Rightarrow> [])
           else a # b # c # d # e # rest)
      | _ \<Rightarrow> [])"

definition ls_line :: "string \<Rightarrow> file_entry option" where
  "ls_line line = (if starts_with ''total'' line then None else file_entry_of (ls_columns line))"

definition check_sub :: "string \<Rightarrow> string checked" where
  "check_sub subpath = (if subpath = [] then Inr [] else validate_path (VStr subpath) ''Sub path'')"

definition snapshot_browse :: "host \<Rightarrow> pyval \<Rightarrow> string \<Rightarrow> (string + file_entry list \<times> string) act" where
  "snapshot_browse h mount_path subpath =
     on_valid (validated_mount mount_path) Inl (\<lambda>m.
     on_valid (check_sub subpath) Inl (\<lambda>s. do {
       esc \<leftarrow> verify_under_mount h (full_path m s) m ''Path'';
       (case esc of Some e \<Rightarrow> State_Monad.return (Inl e) | None \<Rightarrow> do {
          r \<leftarrow> run_command h (''ls -laq --time-style=long-iso '' @ shell_quote (full_path m s) @ '' 2>/dev/null'');
          State_Monad.return (if \<not> cr_success r then Inl (cr_stderr r)
            else Inr (List.map_filter ls_line (stripped_lines (cr_stdout r)), if s = [] then ''/'' else s)) }) }))"

text \<open>None: a size that is no number, on which the code raises.\<close>

definition snapshot_read_file :: "host \<Rightarrow> pyval \<Rightarrow> pyval \<Rightarrow> cmd_result option act" where
  "snapshot_read_file h mount_path file_path =
     on_valid (validated_mount mount_path) (\<lambda>e. Some (cmd_fail e)) (\<lambda>m.
     on_valid (validate_path file_path ''File path'') (\<lambda>e. Some (cmd_fail e)) (\<lambda>f. do {
       esc \<leftarrow> verify_under_mount h (full_path m f) m ''Path'';
       (case esc of Some e \<Rightarrow> State_Monad.return (Some (cmd_fail e)) | None \<Rightarrow> do {
          s \<leftarrow> run_command h (''stat -c%s '' @ shell_quote (full_path m f) @ '' 2>/dev/null'');
          (case (if \<not> cr_success s \<or> strip (cr_stdout s) = [] then Some 0 else py_int (strip (cr_stdout s))) of
             None \<Rightarrow> State_Monad.return None
           | Some n \<Rightarrow>
               if n > 102400
               then State_Monad.return (Some (cmd_fail (''File too large for preview ('' @ show_int n @ '' bytes). Use ''
                      @ sq @ ''Restore'' @ sq @ '' to download.'')))
               else do {
                 r \<leftarrow> run_command h (''cat '' @ shell_quote (full_path m f) @ '' 2>/dev/null'');
                 State_Monad.return (Some r) }) }) }))"

definition snapshot_restore_file :: "host \<Rightarrow> pyval \<Rightarrow> pyval \<Rightarrow> pyval \<Rightarrow> cmd_result act" where
  "snapshot_restore_file h mount_path file_path dest_path =
     on_valid (validated_mount mount_path) cmd_fail (\<lambda>m.
     on_valid (validate_path file_path ''File path'') cmd_fail (\<lambda>f.
     on_valid (validate_path dest_path ''Destination path'') cmd_fail (\<lambda>d. do {
       esc \<leftarrow> verify_under_mount h (full_path m f) m ''Source path'';
       (case esc of Some e \<Rightarrow> State_Monad.return (cmd_fail e) | None \<Rightarrow> do {
          run_command h (''mkdir -p '' @ dq @ ''$(dirname '' @ shell_quote d @ '')'' @ dq);
          run_command h (''cp -a '' @ shell_quote (full_path m f) @ '' '' @ shell_quote d) }) })))"

definition snapshot_restore_dir :: "host \<Rightarrow> pyval \<Rightarrow> pyval \<Rightarrow> pyval \<Rightarrow> cmd_result act" where
  "snapshot_restore_dir h mount_path dir_path dest_path =
     on_valid (validated_mount mount_path) cmd_fail (\<lambda>m.
     on_valid (validate_path dir_path ''Directory path'') cmd_fail (\<lambda>f.
     on_valid (validate_path dest_path ''Destination path'') cmd_fail (\<lambda>d. do {
       esc \<leftarrow> verify_under_mount h (full_path m f) m ''Source path'';
       (case esc of Some e \<Rightarrow> State_Monad.return (cmd_fail e) | None \<Rightarrow> do {
          run_command h (''mkdir -p '' @ shell_quote d);
          run_command h (''cp -a '' @ shell_quote (full_path m f @ ''/.'') @ '' '' @ shell_quote (d @ ''/'')) }) })))"

end
