(* ===== verification/ZfsSmart.thy ===== *)
theory ZfsSmart
  imports ZfsPools
begin

text \<open>
  \<open>app/zfs_commands.py\<close>, the health of the disks: the disks of each pool from \<open>zpool status\<close>, the whole disk behind a
  partition, and the verdict of \<open>smartctl\<close>, asked once per disk with one device type after the other.
\<close>

section \<open>Devices\<close>

definition NVME_PART_RE :: re where
  "NVME_PART_RE = seqs [Bol, Grp 1 (Seq (lit ''/dev/'') (Alt
     (seqs [lit ''nvme'', plus (Ch is_digit), chr CHR ''n'', plus (Ch is_digit)]) (Seq (lit ''mmcblk'') (plus (Ch is_digit))))),
     chr CHR ''p'', plus (Ch is_digit), Eol]"

definition SD_PART_RE :: re where
  "SD_PART_RE = seqs [Bol, lit ''/dev/sd'', plus (Ch is_lower), plus (Ch is_digit), Eol]"

definition smart_base_disk :: "string \<Rightarrow> string \<Rightarrow> bool \<Rightarrow> string" where
  "smart_base_disk dev_path pkname lsblk_ok =
     (if lsblk_ok then (if strip pkname \<noteq> [] then ''/dev/'' @ strip pkname else dev_path)
      else case re_match NVME_PART_RE dev_path of
          Some m \<Rightarrow> group_str 1 m
        | None \<Rightarrow> if re_test SD_PART_RE dev_path then re_sub (Seq (plus (Ch is_digit)) Eol) [] dev_path else dev_path)"

definition smart_device_types :: "string \<Rightarrow> string list" where
  "smart_device_types base_disk =
     (if re_test (seqs [Bol, lit ''/dev/nvme'', plus (Ch is_digit)]) base_disk then [[], ''-d nvme'']
      else [[], ''-d sat'', ''-d auto'', ''-d scsi''])"

datatype smart_verdict = PASSED | FAILED | NOTOOL

definition HEALTH_OK_RE :: re where
  "HEALTH_OK_RE = seqs [lit ''health status:'', Star (Ch is_space), lit ''ok'']"

definition classify_smart_output :: "string \<Rightarrow> smart_verdict option" where
  "classify_smart_output text =
     (let low = lower_str text in
      if contains_str ''command not found'' low \<or> contains_str ''smartctl: not found'' low then Some NOTOOL
      else if contains_str ''FAILED'' text then Some FAILED
      else if contains_str ''PASSED'' text \<or> re_search HEALTH_OK_RE low \<noteq> None then Some PASSED
      else None)"

section \<open>The disks of each pool\<close>

definition SMART_SKIP :: "string list" where
  "SMART_SKIP = [''mirror'', ''raidz'', ''log'', ''cache'', ''spare'', ''special'', ''dedup'', ''name'', ''state:'', ''status:'',
     ''action:'', ''scan:'', ''config:'', ''errors:'', ''pool:'', ''see:'']"

text \<open>The pattern is a list of beginnings, without regard to case.\<close>

definition skipped_name :: "string \<Rightarrow> bool" where
  "skipped_name name = list_ex (\<lambda>p. starts_with p (lower_str name)) SMART_SKIP"

definition SMART_STATES :: "string list" where
  "SMART_STATES = [''ONLINE'', ''DEGRADED'', ''FAULTED'', ''UNAVAIL'', ''OFFLINE'', ''REMOVED'', ''AVAIL'', ''INUSE'']"

definition smart_step ::
  "string list \<Rightarrow> string \<Rightarrow> (string, string list) dict \<times> string option \<Rightarrow> (string, string list) dict \<times> string option" where
  "smart_step pool_names line st = (case st of (disks, current) \<Rightarrow>
     (case split_ws line of
        name # state # _ \<Rightarrow>
          if name \<in> set pool_names \<and> state \<in> set SMART_STATES
          then (if dhas disks name then disks else dset name [] disks, Some name)
          else if skipped_name name then st
          else (case current of
                  Some p \<Rightarrow> if state \<in> set SMART_STATES then (dmodify p [] (\<lambda>l. l @ [name]) disks, current) else st
                | None \<Rightarrow> st)
      | _ \<Rightarrow> st))"

definition pools_disks :: "string list \<Rightarrow> string \<Rightarrow> (string, string list) dict" where
  "pools_disks pool_names stdout = fst (fold (smart_step pool_names) (splitlines stdout) ([], None))"

section \<open>Asking the disks\<close>

definition smart_command :: "string \<Rightarrow> string \<Rightarrow> string" where
  "smart_command dtype disk =
     ''smartctl -H '' @ (if dtype \<noteq> [] then dtype @ '' '' else []) @ shell_quote disk @ '' 2>&1''"

text \<open>The first verdict, and whether anything was printed at all.\<close>

fun ask_types :: "host \<Rightarrow> string \<Rightarrow> string list \<Rightarrow> bool \<Rightarrow> (smart_verdict option \<times> bool) act" where
  "ask_types h disk [] saw = State_Monad.return (None, saw)"
| "ask_types h disk (t # ts) saw = do {
     r \<leftarrow> run_command h (smart_command t disk);
     let saw' = (saw \<or> strip (cr_stdout r) \<noteq> []) in
     (case classify_smart_output (cr_stdout r) of
        Some v \<Rightarrow> State_Monad.return (Some v, saw')
      | None \<Rightarrow> ask_types h disk ts saw') }"

definition verdict_text :: "smart_verdict option \<times> bool \<Rightarrow> string" where
  "verdict_text vs =
     (case vs of
        (Some NOTOOL, _) \<Rightarrow> ''smartctl fehlt''
      | (Some PASSED, _) \<Rightarrow> ''PASSED''
      | (Some FAILED, _) \<Rightarrow> ''FAILED''
      | (None, saw) \<Rightarrow> if saw then ''N/A'' else ''Unknown'')"

definition smart_of_disk :: "host \<Rightarrow> bool \<Rightarrow> string \<Rightarrow> string act" where
  "smart_of_disk h present disk =
     (if \<not> present then State_Monad.return ''smartctl fehlt''
      else do { v \<leftarrow> ask_types h disk (smart_device_types disk) False; State_Monad.return (verdict_text v) })"

definition dev_path_of :: "host \<Rightarrow> string \<Rightarrow> string act" where
  "dev_path_of h disk_id =
     (if starts_with ''/dev/'' disk_id then State_Monad.return disk_id
      else do {
        r \<leftarrow> run_command h (''readlink -f '' @ shell_quote (''/dev/disk/by-id/'' @ disk_id) @ '' 2>/dev/null'');
        State_Monad.return (if cr_success r \<and> starts_with ''/dev/'' (strip (cr_stdout r)) then strip (cr_stdout r)
          else ''/dev/'' @ disk_id) })"

record smart_disk =
  sk_id :: string
  sk_dev :: string
  sk_status :: string

text \<open>The disks of one pool; \<open>seen\<close> are the answers so far.\<close>

fun smart_disks ::
  "host \<Rightarrow> bool \<Rightarrow> string list \<Rightarrow> (string, string) dict \<Rightarrow> (smart_disk list \<times> (string, string) dict) act" where
  "smart_disks h present [] seen = State_Monad.return ([], seen)"
| "smart_disks h present (d # ds) seen = do {
     path \<leftarrow> dev_path_of h d;
     s \<leftarrow> run_command h (''lsblk -no PKNAME '' @ shell_quote path @ '' 2>/dev/null | head -1'');
     let base = smart_base_disk path (cr_stdout s) (cr_success s) in do {
       status \<leftarrow> (case dget seen base of Some x \<Rightarrow> State_Monad.return x | None \<Rightarrow> smart_of_disk h present base);
       (rest, seen') \<leftarrow> smart_disks h present ds (if dhas seen base then seen else dset base status seen);
       State_Monad.return (\<lparr>sk_id = d, sk_dev = base, sk_status = status\<rparr> # rest, seen') } }"

fun smart_pools ::
  "host \<Rightarrow> bool \<Rightarrow> (string, string list) dict \<Rightarrow> (string, string) dict \<Rightarrow> (string, smart_disk list) dict act" where
  "smart_pools h present [] seen = State_Monad.return []"
| "smart_pools h present ((p, ds) # rest) seen = do {
     (here, seen') \<leftarrow> smart_disks h present ds seen;
     others \<leftarrow> smart_pools h present rest seen';
     State_Monad.return ((p, here) # others) }"

definition check_pool :: "pyval option \<Rightarrow> string option checked" where
  "check_pool v = (case v of None \<Rightarrow> Inr None | Some x \<Rightarrow> map_sum id Some (validate_pool_name x))"

definition get_smart_status :: "host \<Rightarrow> pyval option \<Rightarrow> (string + (string, smart_disk list) dict) act" where
  "get_smart_status h pool = on_valid (check_pool pool) Inl (\<lambda>p. do {
     n \<leftarrow> run_command h ''zpool list -H -o name'';
     st \<leftarrow> run_command h (case p of None \<Rightarrow> ''zpool status'' | Some x \<Rightarrow> ''zpool status '' @ x);
     if \<not> cr_success st then State_Monad.return (Inl (cr_stderr st))
     else let names = (if cr_success n then filter (\<lambda>x. x \<noteq> []) (map strip (stripped_lines (cr_stdout n))) else []);
              disks = pools_disks names (cr_stdout st) in
       if list_all (\<lambda>(k, v). v = []) disks
       then State_Monad.return (Inl ''No disks found in pool status output'')
       else do {
         tool \<leftarrow> run_command h ''command -v smartctl >/dev/null 2>&1 && echo yes'';
         pools \<leftarrow> smart_pools h (cr_success tool \<and> contains_str ''yes'' (cr_stdout tool)) disks [];
         State_Monad.return (Inr pools) } })"

end
