(* ===== verification/ZfsSafety.thy ===== *)
theory ZfsSafety
  imports ZfsRestore ZfsSmart
begin

text \<open>
  What the operations of \<open>app/zfs_commands.py\<close> do over all environments: what is read under a mount, what is
  mounted, what is destroyed, which commands reach the shell, and what the watcher of a scrub announces.
\<close>

lemma does_on_valid [does_rules]:
  "(\<And>e. c = Inl e \<Longrightarrow> Q (refuse (exc_text e)) []) \<Longrightarrow> (\<And>x. c = Inr x \<Longrightarrow> does (k x) Q) \<Longrightarrow> does (on_valid c refuse k) Q"
  unfolding on_valid_def by (cases c) (auto intro: does_return)

lemma does_write_cmd [does_rules]:
  assumes "\<And>r. cr_success r \<Longrightarrow> Q r [Ran h c r, Forgot (ho_address h)]" and "\<And>r. \<not> cr_success r \<Longrightarrow> Q r [Ran h c r]"
  shows "does (write_cmd h c) Q"
  unfolding write_cmd_def by (intro does_rules assms)

lemma does_forget_if [does_rules]:
  assumes "cr_success r \<Longrightarrow> Q r [Forgot (ho_address h)]" and "\<not> cr_success r \<Longrightarrow> Q r []"
  shows "does (forget_if h r) Q"
  unfolding forget_if_def by (intro does_rules assms)

lemma does_weaken_es: "does m (\<lambda>_. P) \<Longrightarrow> (\<And>es. P es \<Longrightarrow> Q es) \<Longrightarrow> does m (\<lambda>_. Q)"
  by (rule does_weaken)

section \<open>Reading under a mount\<close>

definition under_base :: "string \<Rightarrow> bool" where
  "under_base m = (list_ex (\<lambda>base. starts_with (base @ ''/'') m) mount_bases \<and> \<not> contains_str ''..'' m)"

text \<open>The commands that look at a path, and those that write to the destination of a copy.\<close>

definition looks_at :: "string \<Rightarrow> string \<Rightarrow> bool" where
  "looks_at p c = (\<exists>rest. c = ''ls -laq --time-style=long-iso '' @ shell_quote p @ rest \<or> c = ''stat -c%s '' @ shell_quote p @ rest \<or>
     c = ''cat '' @ shell_quote p @ rest \<or> c = ''cp -a '' @ shell_quote p @ rest \<or> c = ''cp -a '' @ shell_quote (p @ ''/.'') @ rest \<or>
     c = ''mkdir -p '' @ rest)"

definition looking :: "host \<Rightarrow> string \<Rightarrow> event \<Rightarrow> bool" where
  "looking h p e = (\<exists>c r. e = Ran h c r \<and> looks_at p c)"

lemma looking_ran [simp]: "looking h p (Ran h c r) = looks_at p c"
  by (simp add: looking_def)

definition bounded_access :: "host \<Rightarrow> event list \<Rightarrow> bool" where
  "bounded_access h es = (es = [] \<or>
     (\<exists>m sub r rest. es = Ran h (realpath_command (full_path m sub)) r # rest \<and> under_base m \<and>
        \<not> contains_str ''..'' sub \<and>
        (rest = [] \<or> cr_success r \<and> inside m (strip (cr_stdout r)) \<and>
           list_all (looking h (full_path m sub)) rest)))"

lemma validated_mount_base: "validated_mount v = Inr m \<Longrightarrow> under_base m"
  by (auto simp: validated_mount_def under_base_def validate_path_def bad_def Let_def split: sum.splits if_splits pyval.splits)

lemma validate_path_dots: "validate_path v l = Inr s \<Longrightarrow> \<not> contains_str ''..'' s"
  by (auto simp: validate_path_def bad_def Let_def split: sum.splits if_splits pyval.splits)

lemma check_sub_dots: "check_sub s = Inr t \<Longrightarrow> \<not> contains_str ''..'' t"
  by (auto simp: check_sub_def dest: validate_path_dots split: if_splits)

lemma bounded_refused:
  "under_base m \<Longrightarrow> \<not> contains_str ''..'' s \<Longrightarrow> bounded_access h [Ran h (realpath_command (full_path m s)) r]"
  unfolding bounded_access_def by blast

lemma bounded_inside:
  assumes "under_base m" "\<not> contains_str ''..'' s" "cr_success r" "inside m (strip (cr_stdout r))"
    "list_all (looking h (full_path m s)) rest"
  shows "bounded_access h (Ran h (realpath_command (full_path m s)) r # rest)"
  unfolding bounded_access_def using assms by blast

text \<open>The common shape of the four operations: the check, then only commands that look at the path.\<close>

lemma does_verified:
  assumes m: "under_base m" "\<not> contains_str ''..'' s"
    and k: "\<And>esc. does (k esc) (\<lambda>_ es. if esc = None
        then list_all (looking h (full_path m s)) es else es = [])"
  shows "does (State_Monad.bind (verify_under_mount h (full_path m s) m what) k) (\<lambda>_. bounded_access h)"
proof (rule does_bind [of _ "\<lambda>esc es. \<exists>r. es = [Ran h (realpath_command (full_path m s)) r] \<and>
      (esc = None \<longrightarrow> cr_success r \<and> inside m (strip (cr_stdout r)))"])
  show "does (verify_under_mount h (full_path m s) m what) (\<lambda>esc es.
      \<exists>r. es = [Ran h (realpath_command (full_path m s)) r] \<and>
        (esc = None \<longrightarrow> cr_success r \<and> inside m (strip (cr_stdout r))))"
    unfolding verify_under_mount_def by (intro does_rules) auto
next
  fix esc :: "string option" and es :: "event list"
  assume "\<exists>r. es = [Ran h (realpath_command (full_path m s)) r] \<and>
    (esc = None \<longrightarrow> cr_success r \<and> inside m (strip (cr_stdout r)))"
  then obtain r where r: "es = [Ran h (realpath_command (full_path m s)) r]"
    "esc = None \<longrightarrow> cr_success r \<and> inside m (strip (cr_stdout r))" by blast
  show "does (k esc) (\<lambda>y fs. bounded_access h (es @ fs))"
    by (rule does_weaken [OF k]) (use r bounded_refused [OF m] bounded_inside [OF m] in \<open>simp split: if_splits\<close>)
qed

lemma looks_simps [simp]:
  "looks_at p (''ls -laq --time-style=long-iso '' @ shell_quote p @ x)" "looks_at p (''stat -c%s '' @ shell_quote p @ x)"
  "looks_at p (''cat '' @ shell_quote p @ x)" "looks_at p (''cp -a '' @ shell_quote p @ x)"
  "looks_at p (''cp -a '' @ shell_quote (p @ ''/.'') @ x)" "looks_at p (''mkdir -p '' @ x)"
  unfolding looks_at_def by blast+

lemmas looks_cons [simp] = looks_simps [unfolded append_Cons append_Nil]

lemma bounded_nil [simp]: "bounded_access h []"
  by (simp add: bounded_access_def)

lemmas verified_rules = does_on_valid does_verified does_option does_run_bind does_return does_if does_run

lemma does_browse: "does (snapshot_browse h mp sub) (\<lambda>_. bounded_access h)"
  unfolding snapshot_browse_def
  by (intro verified_rules; (simp add: validated_mount_base check_sub_dots)?)

lemma does_read_file: "does (snapshot_read_file h mp f) (\<lambda>_. bounded_access h)"
  unfolding snapshot_read_file_def
  by (intro verified_rules; (simp add: validated_mount_base validate_path_dots)?)

lemma does_restore_file: "does (snapshot_restore_file h mp f d) (\<lambda>_. bounded_access h)"
  unfolding snapshot_restore_file_def
  by (intro verified_rules; (simp add: validated_mount_base validate_path_dots)?)

lemma does_restore_dir: "does (snapshot_restore_dir h mp f d) (\<lambda>_. bounded_access h)"
  unfolding snapshot_restore_dir_def
  by (intro verified_rules; (simp add: validated_mount_base validate_path_dots)?)

text \<open>C23: Browsing, reading and copying out of a snapshot never looks at a path before the host has resolved exactly this
  path to a place inside the mount, and the mount lies under one of the two directories where the tool mounts
  snapshots; whatever is asked for and whatever the host answers, nothing else is read.\<close>

theorem file_access_bounded:
  "bounded_access h (history_of (snapshot_browse h mp sub) w) \<and>
   bounded_access h (history_of (snapshot_read_file h mp f) w) \<and>
   bounded_access h (history_of (snapshot_restore_file h mp f d) w) \<and>
   bounded_access h (history_of (snapshot_restore_dir h mp f d) w)"
  using does_outcome [OF does_browse] does_outcome [OF does_read_file] does_outcome [OF does_restore_file]
    does_outcome [OF does_restore_dir] by blast

section \<open>Mounting a partition\<close>

definition mount_guarded :: "host \<Rightarrow> string \<Rightarrow> event list \<Rightarrow> bool" where
  "mount_guarded h device es = (es = [] \<or>
     (\<exists>dev r rest. device = ''/dev/mapper/'' @ dev \<and> CHR ''/'' \<notin> set dev \<and> dev \<noteq> [] \<and>
        es = Ran h (deps_command dev) r # rest \<and> (rest = [] \<or> zd_answer r)))"

lemma mapper_no_slash: "\<not> mapper_char CHR ''/''"
  by code_simp

lemma mapper_name_word: "re_test MAPPER_NAME_RE d \<Longrightarrow> d \<noteq> [] \<and> CHR ''/'' \<notin> set d"
  unfolding MAPPER_NAME_RE_def whitelist_iff using mapper_no_slash by (auto simp: list_all_iff newline_def)

lemma mapper_name_device: "mapper_name device \<noteq> [] \<Longrightarrow> device = ''/dev/mapper/'' @ mapper_name device"
  by (auto simp: mapper_name_def starts_with_iff split: if_splits)

lemma does_any: "does m (\<lambda>_ _. True) \<Longrightarrow> (\<And>x es. Q x es) \<Longrightarrow> does m Q"
  by (erule does_weaken)

lemma does_remove_dir [does_rules]: "(\<And>r. Q () [Ran h (''rmdir '' @ shell_quote p @ '' 2>/dev/null'') r]) \<Longrightarrow> does (remove_dir h p) Q"
  unfolding remove_dir_def by (intro does_rules)

lemma does_try_mounts: "does (try_mounts h err cs) (\<lambda>_ _. True)"
  by (induction h err cs rule: try_mounts.induct) (simp_all, (intro does_rules TrueI | assumption)+)

lemma does_true_bind: "does m (\<lambda>_ _. True) \<Longrightarrow> (\<And>x. does (f x) (\<lambda>_ _. True)) \<Longrightarrow> does (State_Monad.bind m f) (\<lambda>_ _. True)"
  by (rule does_bind)

lemmas true_rules = does_return does_run does_say does_forget does_notify does_remove_dir does_true_bind does_if does_option
  does_sum does_prod TrueI

lemma does_mount_checked: "does (mount_checked h device fstype mp) (\<lambda>_ _. True)"
  unfolding mount_checked_def by (intro true_rules does_try_mounts)

lemma does_partition_mount: "does (zvol_partition_mount h device fstype) (\<lambda>_. mount_guarded h device)"
proof -
  have "does (if \<not> re_test MAPPER_NAME_RE dev then m else do { ok \<leftarrow> is_zvol_backed h dev; if \<not> ok then n else k })
      (\<lambda>_. mount_guarded h device)"
    if d: "dev = mapper_name device" and m: "does m (\<lambda>_ es. es = [])" and n: "does n (\<lambda>_ es. es = [])"
      and k: "does k (\<lambda>_ _. True)"
    for m n k :: "(string + partition_mounted) act" and dev
  proof (cases "re_test MAPPER_NAME_RE dev")
    case False
    then show ?thesis using does_weaken [OF m] by (simp add: mount_guarded_def)
  next
    case True
    note w = mapper_name_word [OF True]
    have dv: "device = ''/dev/mapper/'' @ dev" using mapper_name_device w d by simp
    have g: "mount_guarded h device (Ran h (deps_command dev) r # rest)" if "rest = [] \<or> zd_answer r" for r rest
      unfolding mount_guarded_def using dv w that by blast
    have "does (is_zvol_backed h dev) (\<lambda>ok es. \<exists>r. es = [Ran h (deps_command dev) r] \<and> ok = zd_answer r)"
      unfolding is_zvol_backed_def using True by (auto intro!: does_rules)
    then have "does (do { ok \<leftarrow> is_zvol_backed h dev; if \<not> ok then n else k }) (\<lambda>_. mount_guarded h device)"
      by (rule does_bind) (auto intro!: does_if does_weaken [OF n] does_weaken [OF k] g)
    with True show ?thesis by simp
  qed
  from this [OF refl _ _ does_mount_checked] show ?thesis
    unfolding zvol_partition_mount_def Let_def by (simp add: does_return)
qed


section \<open>Destroying a snapshot\<close>

text \<open>What may happen: the snapshot alone is destroyed; or, when clones held it and the host named only clones made to
  restore files, the snapshot together with them.\<close>

definition asked_clones :: "host \<Rightarrow> string \<Rightarrow> event list \<Rightarrow> bool" where
  "asked_clones h n es = (\<exists>c. es = [Ran h (clones_command n) c] \<or>
     (\<exists>r. es = [Ran h (clones_command n) c, Ran h (destroy_all_command n) r] \<and> cr_success c \<and>
        clone_names (strip (cr_stdout c)) \<noteq> [] \<and> list_all is_restore_clone (clone_names (strip (cr_stdout c)))))"

definition destroy_trace :: "host \<Rightarrow> bool \<Rightarrow> string \<Rightarrow> event list \<Rightarrow> bool" where
  "destroy_trace h recursive n es = (CHR ''@'' \<in> set n \<and>
     (\<exists>r mid tail. es = Ran h (destroy_command recursive n) r # mid @ tail \<and> (tail = [] \<or> tail = [Forgot (ho_address h)]) \<and>
        (mid = [] \<or> kept_by_clones r \<and> asked_clones h n mid)))"

lemma clone_names_nil [simp]: "clone_names [] = []"
  by (simp add: clone_names_def)

lemma does_destroy_with_clones: "does (destroy_with_clones h n r) (\<lambda>_. asked_clones h n)"
  unfolding destroy_with_clones_def Let_def
  by (intro does_rules) (auto simp: asked_clones_def filter_empty_conv list_all_iff split: if_splits)

lemma does_forget_if_tail: "does (forget_if h r) (\<lambda>_ es. es = [] \<or> es = [Forgot (ho_address h)])"
  by (intro does_rules) auto

lemma destroy_traceI:
  "CHR ''@'' \<in> set n \<Longrightarrow> tail = [] \<or> tail = [Forgot (ho_address h)] \<Longrightarrow> mid = [] \<or> kept_by_clones r \<and> asked_clones h n mid \<Longrightarrow>
   destroy_trace h rec n (Ran h (destroy_command rec n) r # mid @ tail)"
  unfolding destroy_trace_def by blast

lemma does_destroy_clones_then:
  assumes "CHR ''@'' \<in> set n" "kept_by_clones r"
  shows "does (do { x \<leftarrow> destroy_with_clones h n r; case x of Inl e \<Rightarrow> State_Monad.return e | Inr r2 \<Rightarrow> forget_if h r2 })
    (\<lambda>_ es. destroy_trace h rec n (Ran h (destroy_command rec n) r # es))"
proof (rule does_bind [OF does_destroy_with_clones])
  fix x :: "cmd_result + cmd_result" and mid assume mid: "asked_clones h n mid"
  have "does (case x of Inl e \<Rightarrow> State_Monad.return e | Inr r2 \<Rightarrow> forget_if h r2) (\<lambda>_ es. es = [] \<or> es = [Forgot (ho_address h)])"
    by (intro does_rules does_forget_if_tail) auto
  then show "does (case x of Inl e \<Rightarrow> State_Monad.return e | Inr r2 \<Rightarrow> forget_if h r2)
      (\<lambda>_ fs. destroy_trace h rec n (Ran h (destroy_command rec n) r # mid @ fs))"
    by (rule does_weaken) (use assms mid destroy_traceI in blast)
qed

lemma does_destroy_snapshot:
  "does (destroy_snapshot h full rec) (\<lambda>_ es. es = [] \<or> (\<exists>n. validate_zfs_name full ''Snapshot'' = Inr n \<and> destroy_trace h rec n es))"
proof -
  have t: "destroy_trace h rec n (Ran h (destroy_command rec n) r # es)"
    if "CHR ''@'' \<in> set n" "es = [] \<or> es = [Forgot (ho_address h)]" for n r es
    using destroy_traceI [OF that, of "[]"] by simp
  show ?thesis
    unfolding destroy_snapshot_def
    by (intro does_on_valid does_if does_return does_run_bind does_weaken [OF does_destroy_clones_then]
        does_weaken [OF does_forget_if_tail]) (auto intro: t)
qed

text \<open>C24: Deleting a snapshot sends a destroying command only for a name with an @ that the validator has accepted, and destroys
  clones with it only after the host has refused because of clones and has listed clones made for restoring files and
  no other.\<close>

theorem snapshot_delete_is_bounded:
  "history_of (destroy_snapshot h full rec) w = [] \<or>
   (\<exists>n. validate_zfs_name full ''Snapshot'' = Inr n \<and> destroy_trace h rec n (history_of (destroy_snapshot h full rec) w))"
  by (rule does_outcome [OF does_destroy_snapshot])

section \<open>Rolling back with the guest stopped\<close>

definition guest_part :: "host \<Rightarrow> string \<Rightarrow> (string \<times> string) option \<Rightarrow> (host \<times> string) list" where
  "guest_part h verb g = (case g of None \<Rightarrow> [] | Some (v, t) \<Rightarrow> [(h, guest_command t verb v)])"

lemma does_forget_if_commands: "does (forget_if h r) (\<lambda>_ es. commands es = [])"
  by (intro does_rules) auto

definition rollback_post ::
  "host \<Rightarrow> pyval \<Rightarrow> bool \<Rightarrow> bool \<Rightarrow> (pyval \<times> string) option \<Rightarrow> string + cmd_result \<times> guest_actions \<Rightarrow> event list \<Rightarrow> bool" where
  "rollback_post h full force destroy guest x es = (case x of
     Inl e \<Rightarrow> commands es = []
   | Inr (r, ga) \<Rightarrow> \<exists>n g. validate_zfs_name full ''Snapshot'' = Inr n \<and> check_guest guest = Inr g \<and>
       commands es = guest_part h ''stop'' g @ [(h, rollback_command force destroy n)]
         @ (if ga_stopped ga then guest_part h ''start'' g else []))"

lemma does_rollback_snapshot: "does (rollback_snapshot h full force destroy guest) (rollback_post h full force destroy guest)"
  unfolding rollback_snapshot_def
proof (intro does_on_valid)
  fix n g assume n: "validate_zfs_name full ''Snapshot'' = Inr n" and g: "check_guest guest = Inr g"
  have tail: "does (do { forget_if h r; State_Monad.return (Inr (r, \<lparr>ga_stopped = stopped, ga_stop_output = a,
        ga_started = started, ga_start_output = b\<rparr>)) }) (\<lambda>x es. rollback_post h full force destroy guest x (sofar @ es))"
    if "commands sofar = guest_part h ''stop'' g @ [(h, rollback_command force destroy n)]
         @ (if stopped then guest_part h ''start'' g else [])" for sofar stopped r a started b
    by (rule does_bind [OF does_forget_if_commands], rule does_return) (use that n g in \<open>auto simp: rollback_post_def\<close>)
  note tail1 = tail [of "[e1]" for e1, simplified] and tail2 = tail [of "[e1, e2]" for e1 e2, simplified]
    and tail3 = tail [of "[e1, e2, e3]" for e1 e2 e3, simplified]
  show "does (do {
       stop \<leftarrow> (case g of None \<Rightarrow> State_Monad.return None
               | Some (v, t) \<Rightarrow> do { s \<leftarrow> run_command h (guest_command t ''stop'' v); State_Monad.return (Some s) });
       r \<leftarrow> run_command h (rollback_command force destroy n);
       start \<leftarrow> (case (g, stop) of
                  (Some (v, t), Some s) \<Rightarrow>
                    if cr_success s then do { x \<leftarrow> run_command h (guest_command t ''start'' v); State_Monad.return (Some x) }
                    else State_Monad.return None
                | _ \<Rightarrow> State_Monad.return None);
       forget_if h r;
       State_Monad.return (Inr (r, \<lparr>ga_stopped = (case stop of None \<Rightarrow> False | Some s \<Rightarrow> cr_success s),
         ga_stop_output = map_option said_by stop,
         ga_started = (case start of None \<Rightarrow> False | Some x \<Rightarrow> cr_success x),
         ga_start_output = map_option said_by start\<rparr>)) }) (rollback_post h full force destroy guest)"
    by (cases g) (auto intro!: does_run_bind does_return_bind does_bind_assoc tail1 tail2 tail3 simp: guest_part_def)
qed (auto simp: rollback_post_def)


section \<open>Watching a scrub\<close>

definition in_progress :: "cmd_result \<Rightarrow> bool" where
  "in_progress r = (cr_success r \<and> contains_str ''scrub in progress'' (cr_stdout r))"

definition scrub_notice :: "host \<Rightarrow> string \<Rightarrow> cmd_result \<Rightarrow> event list" where
  "scrub_notice h p r = (if cr_success r
     then [Noted ''scrub_finished'' (scrub_title (cr_stdout r)) (watch_text h p @ [newline] @ scan_line (cr_stdout r)) (ho_address h)]
     else [])"

definition watched :: "nat \<Rightarrow> host \<Rightarrow> string \<Rightarrow> event list \<Rightarrow> bool" where
  "watched n h p es = (\<exists>rs. list_all in_progress rs \<and>
     (length rs = n \<and> es = map (Ran h (''zpool status '' @ p)) rs \<or>
      (\<exists>r. length rs < n \<and> \<not> in_progress r \<and>
         es = map (Ran h (''zpool status '' @ p)) rs @ Ran h (''zpool status '' @ p) r # scrub_notice h p r)))"

lemma watched_step: "in_progress r \<Longrightarrow> watched n h p es \<Longrightarrow> watched (Suc n) h p (Ran h (''zpool status '' @ p) r # es)"
  unfolding watched_def by (elim exE conjE disjE) (rule exI [of _ "r # rs" for rs], auto)+

lemma watched_end: "\<not> in_progress r \<Longrightarrow> watched (Suc n) h p (Ran h (''zpool status '' @ p) r # scrub_notice h p r)"
  unfolding watched_def by (rule exI [of _ "[]"]) auto

lemma does_poll_scrub: "does (poll_scrub n h p) (\<lambda>_. watched n h p)"
proof (induction n)
  case 0
  show ?case by (auto intro!: does_return simp: watched_def)
next
  case (Suc n)
  show ?case unfolding poll_scrub.simps
  proof (intro does_run_bind)
    fix r
    show "does (if \<not> cr_success r then State_Monad.return ()
        else if contains_str ''scrub in progress'' (cr_stdout r) then poll_scrub n h p
        else notify ''scrub_finished'' (scrub_title (cr_stdout r)) (watch_text h p @ [newline] @ scan_line (cr_stdout r)) h)
        (\<lambda>_ es. watched (Suc n) h p (Ran h (''zpool status '' @ p) r # es))"
      using watched_end [of r n h p] watched_step [of r n h p]
      by (intro does_if does_return does_notify does_weaken [OF Suc.IH]) (simp_all add: in_progress_def scrub_notice_def)
  qed
qed


section \<open>One answer per disk\<close>

definition agree :: "(string, string) dict \<Rightarrow> smart_disk list \<Rightarrow> bool" where
  "agree seen ds = list_all (\<lambda>d. dget seen (sk_dev d) = Some (sk_status d)) ds"

definition keeps_seen :: "(string, string) dict \<Rightarrow> (string, string) dict \<Rightarrow> bool" where
  "keeps_seen a b = (\<forall>k v. dget a k = Some v \<longrightarrow> dget b k = Some v)"

lemma keeps_refl [simp]: "keeps_seen a a"
  by (simp add: keeps_seen_def)

lemma keeps_trans: "keeps_seen a b \<Longrightarrow> keeps_seen b c \<Longrightarrow> keeps_seen a c"
  by (simp add: keeps_seen_def)

lemma keeps_new: "dget a k = None \<Longrightarrow> keeps_seen a (dset k v a)"
  by (auto simp: keeps_seen_def)

lemma agree_keeps: "agree a ds \<Longrightarrow> keeps_seen a b \<Longrightarrow> agree b ds"
  by (auto simp: agree_def keeps_seen_def list_all_iff)

lemma agree_simps [simp]: "agree s []" "agree s (d # ds) = (dget s (sk_dev d) = Some (sk_status d) \<and> agree s ds)"
  "agree s (xs @ ys) = (agree s xs \<and> agree s ys)"
  by (auto simp: agree_def)

lemma does_ask_types: "does (ask_types h disk ts saw) (\<lambda>_ _. True)"
  by (induction h disk ts saw rule: ask_types.induct) (simp_all add: Let_def, (intro true_rules | assumption)+)

lemma does_smart_of_disk: "does (smart_of_disk h present disk) (\<lambda>_ _. True)"
  unfolding smart_of_disk_def by (intro true_rules does_ask_types)

lemma does_dev_path: "does (dev_path_of h d) (\<lambda>_ _. True)"
  unfolding dev_path_of_def by (intro true_rules)

lemma does_smart_disks:
  "does (smart_disks h present ds seen) (\<lambda>x es. keeps_seen seen (snd x) \<and> agree (snd x) (fst x))"
proof (induction ds arbitrary: seen)
  case (Cons d ds)
  have rest: "does (do { (rest, seen') \<leftarrow> smart_disks h present ds s2;
        State_Monad.return (\<lparr>sk_id = d, sk_dev = base, sk_status = status\<rparr> # rest, seen') })
      (\<lambda>x es. keeps_seen seen (snd x) \<and> agree (snd x) (fst x))"
    if "keeps_seen seen s2" "dget s2 base = Some status" for s2 base status
    by (rule does_bind [OF Cons.IH])
      (use that in \<open>auto intro!: does_return does_prod elim: keeps_trans simp: keeps_seen_def\<close>)
  show ?case unfolding smart_disks.simps Let_def
  proof (rule does_bind [OF does_dev_path], rule does_run_bind)
    fix path r
    let ?b = "smart_base_disk path (cr_stdout r) (cr_success r)"
    show "does (do {
        status \<leftarrow> (case dget seen ?b of Some x \<Rightarrow> State_Monad.return x | None \<Rightarrow> smart_of_disk h present ?b);
        (rest, seen') \<leftarrow> smart_disks h present ds (if dhas seen ?b then seen else dset ?b status seen);
        State_Monad.return (\<lparr>sk_id = d, sk_dev = ?b, sk_status = status\<rparr> # rest, seen') })
        (\<lambda>x fs. keeps_seen seen (snd x) \<and> agree (snd x) (fst x))"
    proof (cases "dget seen ?b")
      case None
      show ?thesis unfolding None option.case
        by (rule does_bind [OF does_smart_of_disk]) (use None in \<open>auto intro!: rest keeps_new simp: dhas_def\<close>)
    next
      case (Some x)
      show ?thesis unfolding Some option.case
        by (rule does_return_bind) (use Some in \<open>auto intro!: rest simp: dhas_def\<close>)
    qed
  qed
qed (auto intro: does_return)

lemma does_smart_pools:
  "does (smart_pools h present ps seen) (\<lambda>x es. \<exists>s. keeps_seen seen s \<and> agree s (concat (map snd x)))"
proof (induction ps arbitrary: seen)
  case Nil
  show ?case by (auto intro!: does_return exI [of _ seen])
next
  case (Cons pd ps)
  obtain p ds where pd: "pd = (p, ds)" by (cases pd)
  show ?case unfolding pd smart_pools.simps
  proof (rule does_bind [OF does_smart_disks])
    fix x :: "smart_disk list \<times> (string, string) dict" and es
    assume x: "keeps_seen seen (snd x) \<and> agree (snd x) (fst x)"
    obtain here s1 where [simp]: "x = (here, s1)" by (cases x)
    show "does (case x of (here, seen') \<Rightarrow> do {
        others \<leftarrow> smart_pools h present ps seen'; State_Monad.return ((p, here) # others) })
        (\<lambda>y fs. \<exists>s. keeps_seen seen s \<and> agree s (concat (map snd y)))"
      using x by (auto intro!: does_bind [OF Cons.IH] does_return) (blast intro: keeps_trans agree_keeps)
  qed
qed

definition one_answer :: "(string, smart_disk list) dict \<Rightarrow> bool" where
  "one_answer pools = (\<forall>d \<in> set (concat (map snd pools)). \<forall>e \<in> set (concat (map snd pools)).
     sk_dev d = sk_dev e \<longrightarrow> sk_status d = sk_status e)"

lemma agree_one: "agree s (concat (map snd pools)) \<Longrightarrow> one_answer pools"
  unfolding agree_def one_answer_def list_all_iff by (metis option.inject)

text \<open>The health shown for one disk is the same wherever the disk appears, whichever of its partitions or names stand in the
  pools and however the answers of the disk change while it is asked.\<close>

theorem smart_one_answer_per_disk:
  "case result_of (get_smart_status h pool) w of Inl e \<Rightarrow> True | Inr pools \<Rightarrow> one_answer pools"
proof -
  have "does (get_smart_status h pool) (\<lambda>x es. case x of Inl e \<Rightarrow> True | Inr pools \<Rightarrow> one_answer pools)"
    unfolding get_smart_status_def Let_def
    by (intro does_on_valid does_run_bind does_if does_return does_bind [OF does_smart_pools])
      (auto intro: agree_one)
  from does_outcome [OF this] show ?thesis .
qed

section \<open>What reaches the shell\<close>

text \<open>The operations that change a host, as the browser can ask for them.\<close>

datatype zfs_write =
    Set_Pool_Prop pyval pyval pyval | Scrub pyval | Trim pyval | Upgrade pyval
  | Set_Property pyval pyval pyval | Destroy_Dataset pyval bool
  | Create_Snapshot pyval pyval bool | Destroy_Snapshot pyval bool
  | Rollback pyval bool bool "(pyval \<times> string) option" | Clone_Snapshot pyval pyval
  | Set_Auto pyval bool string | Inherit_Auto pyval string | Guest_Action pyval string string

fun perform :: "host \<Rightarrow> zfs_write \<Rightarrow> unit act" where
  "perform h (Set_Pool_Prop p k v) = do { set_pool_prop h p k v; State_Monad.return () }"
| "perform h (Scrub p) = do { scrub_pool h p; State_Monad.return () }"
| "perform h (Trim p) = do { trim_pool h p; State_Monad.return () }"
| "perform h (Upgrade p) = do { upgrade_pool h p; State_Monad.return () }"
| "perform h (Set_Property d k v) = do { set_dataset_property h d k v; State_Monad.return () }"
| "perform h (Destroy_Dataset d r) = do { destroy_dataset h d r; State_Monad.return () }"
| "perform h (Create_Snapshot d s r) = do { create_snapshot h d s r; State_Monad.return () }"
| "perform h (Destroy_Snapshot s r) = do { destroy_snapshot h s r; State_Monad.return () }"
| "perform h (Rollback s f d g) = do { rollback_snapshot h s f d g; State_Monad.return () }"
| "perform h (Clone_Snapshot s c) = do { clone_snapshot h s c; State_Monad.return () }"
| "perform h (Set_Auto d b l) = do { set_auto_snapshot h d b l; State_Monad.return () }"
| "perform h (Inherit_Auto d l) = do { inherit_auto_snapshot h d l; State_Monad.return () }"
| "perform h (Guest_Action v t a) = do { guest_action h v t a; State_Monad.return () }"

text \<open>A line of words in which no character means anything to the shell, and a pipe of two of them.\<close>

definition line_char :: "char \<Rightarrow> bool" where
  "line_char c = (quote_safe c \<or> c = CHR 0x20)"

definition plain_command :: "string \<Rightarrow> bool" where
  "plain_command c = list_all line_char c"

definition send_pipe :: "string \<Rightarrow> bool" where
  "send_pipe c = (\<exists>a b. c = ''zfs send '' @ a @ '' | zfs recv '' @ b \<and> plain_command a \<and> plain_command b)"

definition harmless_line :: "host \<Rightarrow> event \<Rightarrow> bool" where
  "harmless_line h e = (case e of Ran h' c r \<Rightarrow> h' = h \<and> (plain_command c \<or> send_pipe c) | _ \<Rightarrow> True)"

text \<open>A label that ends in a newline passes the pattern.\<close>

fun label_of :: "zfs_write \<Rightarrow> string" where
  "label_of (Set_Auto d b l) = l" | "label_of (Inherit_Auto d l) = l" | "label_of _ = []"

definition one_line_label :: "zfs_write \<Rightarrow> bool" where
  "one_line_label op = (newline \<notin> set (label_of op))"

lemma plain_append: "plain_command (a @ b) = (plain_command a \<and> plain_command b)"
  by (simp add: plain_command_def)

lemma plain_nil: "plain_command []"
  by (simp add: plain_command_def)

lemma word_plain: "shell_word s \<Longrightarrow> plain_command s"
  by (auto simp: shell_word_def plain_command_def line_char_def list_all_iff)

lemma harmless_line_simps [simp]:
  "harmless_line h (Ran h' c r) = (h' = h \<and> (plain_command c \<or> send_pipe c))" "harmless_line h (Forgot a)"
  by (simp_all add: harmless_line_def)

lemma zfs_plain: "validate_zfs_name v l = Inr s \<Longrightarrow> plain_command s"
  by (rule word_plain) (rule zfs_name.accepted_word)

lemma dataset_plain: "validate_dataset_name v = Inr s \<Longrightarrow> plain_command s"
  unfolding validate_dataset_name_def by (rule zfs_plain)

lemma clone_plain: "validate_clone_name v = Inr s \<Longrightarrow> plain_command s"
  unfolding validate_clone_name_def by (rule zfs_plain)

lemma pool_plain: "validate_pool_name v = Inr s \<Longrightarrow> plain_command s"
  by (rule word_plain) (rule pool_name.accepted_word)

lemma property_plain: "validate_zfs_property v = Inr s \<Longrightarrow> plain_command s"
  by (rule word_plain) (rule zfs_property.accepted_word)

lemma vmid_plain: "validate_vmid v = Inr s \<Longrightarrow> plain_command s"
  by (rule word_plain) (rule vmid.accepted_word)

lemma alnum_line: "is_alnum c \<Longrightarrow> line_char c"
  by (simp add: line_char_def is_alnum_safe)

lemma value_chars_line: "list_all line_char ''_./:@=, -''"
  by code_simp

lemma zfs_value_char_line: "zfs_value_char c \<Longrightarrow> line_char c"
  unfolding zfs_value_char_def one_of_def using value_chars_line alnum_line unfolding list_all_iff by blast

lemma value_plain: "validate_zfs_value v = Inr s \<Longrightarrow> plain_command s"
proof -
  assume "validate_zfs_value v = Inr s"
  then have s: "s = strip (py_str v)" and "re_test ZFS_VALUE_RE s"
    by (auto simp: validate_zfs_value_def bad_def Let_def split: if_splits sum.splits)
  then obtain c u where "strip (py_str v) = c # u" "is_alnum c" "list_all zfs_value_char u"
    unfolding s ZFS_VALUE_RE_def whitelist_strip by blast
  then show ?thesis unfolding s by (simp add: plain_command_def list_all_iff zfs_value_char_line alnum_line)
qed

lemma label_chars_line: "list_all line_char ''_-''"
  by code_simp

lemma label_char_line: "label_char c \<Longrightarrow> line_char c"
  unfolding label_char_def one_of_def using label_chars_line alnum_line unfolding list_all_iff by blast

lemma label_plain: "check_label msg l = Inr x \<Longrightarrow> newline \<notin> set l \<Longrightarrow> plain_command l"
  by (auto simp: check_label_def bad_def LABEL_RE_def whitelist_iff plain_command_def list_all_iff label_char_line split: if_splits)

lemma plain_literals:
  "plain_command ''zpool set ''" "plain_command ''=''" "plain_command '' ''" "plain_command ''zpool scrub ''"
  "plain_command ''zpool trim ''" "plain_command ''zpool upgrade ''" "plain_command ''zfs set ''" "plain_command ''zfs destroy''"
  "plain_command '' -r''" "plain_command ''zfs snapshot''" "plain_command ''@''" "plain_command ''zfs get -H -o value clones ''"
  "plain_command ''zfs destroy -R ''" "plain_command ''qm ''" "plain_command ''pct ''" "plain_command ''stop''"
  "plain_command ''start''" "plain_command ''zfs rollback''" "plain_command '' -f''" "plain_command ''zfs clone ''"
  "plain_command CLONE_PROPS" "plain_command ''zfs set com.sun:auto-snapshot=false ''" "plain_command ''com.sun:auto-snapshot''"
  "plain_command '':''" "plain_command ''true''" "plain_command ''false''" "plain_command ''zfs inherit ''"
  by code_simp+

lemma plain_recursive: "plain_command (recursive_flag b)"
  by (cases b) (simp_all add: recursive_flag_def plain_literals plain_nil)

lemma plain_editable: "k \<in> set EDITABLE_POOL_PROPS \<Longrightarrow> plain_command k"
proof -
  have "list_all plain_command EDITABLE_POOL_PROPS" by code_simp
  then show "k \<in> set EDITABLE_POOL_PROPS \<Longrightarrow> plain_command k" by (simp add: list_all_iff)
qed

lemma plain_on_off: "x \<in> {''on'', ''off''} \<Longrightarrow> plain_command x"
proof -
  have "list_all plain_command [''on'', ''off'']" by code_simp
  then show "x \<in> {''on'', ''off''} \<Longrightarrow> plain_command x" by (auto simp: list_all_iff)
qed

lemma plain_action: "dget GUEST_ACTIONS k = Some (pre, post) \<Longrightarrow> plain_command pre \<and> plain_command post"
proof -
  have "list_all (\<lambda>(k, pre, post). plain_command pre \<and> plain_command post) GUEST_ACTIONS" by code_simp
  moreover assume "dget GUEST_ACTIONS k = Some (pre, post)"
  then have "(k, pre, post) \<in> set GUEST_ACTIONS" unfolding dget_def by (rule map_of_SomeD)
  ultimately show ?thesis by (auto simp: list_all_iff)
qed

lemmas plain_rules = plain_append plain_nil plain_literals plain_recursive zfs_plain dataset_plain clone_plain pool_plain property_plain
  vmid_plain value_plain plain_editable plain_on_off

abbreviation harmless_act :: "host \<Rightarrow> 'a act \<Rightarrow> bool" where
  "harmless_act h m \<equiv> does m (\<lambda>_. list_all (harmless_line h))"

lemma harmless_bind:
  assumes "harmless_act h m" and "\<And>x. harmless_act h (f x)"
  shows "harmless_act h (State_Monad.bind m f)"
  by (rule does_bind [OF assms(1)], rule does_weaken [OF assms(2)]) simp

lemma harmless_return: "harmless_act h (State_Monad.return x)"
  by (rule does_return) simp

lemma harmless_write: "plain_command c \<Longrightarrow> harmless_act h (write_cmd h c)"
  by (rule does_write_cmd) simp_all

lemma harmless_run: "plain_command c \<or> send_pipe c \<Longrightarrow> harmless_act h (run_command h c)"
  by (rule does_run) simp

lemma harmless_forget: "harmless_act h (forget h)"
  by (rule does_forget) simp

lemma harmless_forget_if: "harmless_act h (forget_if h r)"
  by (rule does_forget_if) simp_all

lemma harmless_on_valid: "(\<And>x. c = Inr x \<Longrightarrow> harmless_act h (k x)) \<Longrightarrow> harmless_act h (on_valid c refuse k)"
  by (rule does_on_valid) simp_all

lemmas harmless_rules = harmless_on_valid harmless_write harmless_bind harmless_return harmless_forget harmless_forget_if does_if
  does_option does_sum does_prod

lemma harmless_set_pool_prop: "harmless_act h (set_pool_prop h p k v)"
  unfolding set_pool_prop_def
  by (intro harmless_on_valid, cases k; cases v; simp only: pyval.case prod.case; intro harmless_rules)
    (simp_all only: plain_rules not_not)

lemma harmless_pool: "harmless_act h (scrub_pool h p)" "harmless_act h (trim_pool h p)" "harmless_act h (upgrade_pool h p)"
  unfolding scrub_pool_def trim_pool_def upgrade_pool_def by (intro harmless_rules; simp only: plain_rules)+

lemma harmless_set_property: "harmless_act h (set_dataset_property h d k v)"
  unfolding set_dataset_property_def by (intro harmless_rules) (simp only: plain_rules)

lemma harmless_destroy_dataset: "harmless_act h (destroy_dataset h d r)"
  unfolding destroy_dataset_def by (intro harmless_rules) (simp only: plain_rules)

lemma harmless_create_snapshot: "harmless_act h (create_snapshot h d s r)"
  unfolding create_snapshot_def by (intro harmless_rules) (simp only: plain_rules)

lemma plain_destroy: "plain_command n \<Longrightarrow> plain_command (destroy_command r n)" "plain_command n \<Longrightarrow> plain_command (clones_command n)"
  "plain_command n \<Longrightarrow> plain_command (destroy_all_command n)"
  unfolding destroy_command_def clones_command_def destroy_all_command_def by (simp_all only: plain_rules)

lemma harmless_destroy_snapshot: "harmless_act h (destroy_snapshot h s r)"
  unfolding destroy_snapshot_def destroy_with_clones_def Let_def
  by (intro harmless_rules harmless_run disjI1) (simp_all only: plain_destroy zfs_plain)

lemma check_guest_plain: "check_guest g = Inr (Some (v, t)) \<Longrightarrow> plain_command v"
  by (auto simp: check_guest_def vmid_plain split: option.splits sum.splits)

lemma plain_guest: "plain_command v \<Longrightarrow> plain_command (guest_command t ''stop'' v)" "plain_command v \<Longrightarrow> plain_command (guest_command t ''start'' v)"
  unfolding guest_command_def by (simp_all only: plain_rules split: if_splits) simp_all

lemma plain_rollback: "plain_command n \<Longrightarrow> plain_command (rollback_command f d n)"
  unfolding rollback_command_def by (cases f; cases d; simp only: if_True if_False plain_rules)

lemma harmless_rollback: "harmless_act h (rollback_snapshot h s f d g)"
  unfolding rollback_snapshot_def
  by (intro harmless_rules harmless_run disjI1; (erule plain_rollback [OF zfs_plain])?;
      (rule plain_guest, rule check_guest_plain, simp)?)

lemma harmless_clone: "harmless_act h (clone_snapshot h s c)"
  unfolding clone_snapshot_def
proof (intro harmless_rules harmless_run)
  fix n k assume n: "validate_zfs_name s ''Snapshot'' = Inr n" and k: "validate_clone_name c = Inr k"
  show "plain_command (''zfs clone '' @ CLONE_PROPS @ '' '' @ n @ '' '' @ k)"
    "plain_command (''zfs set com.sun:auto-snapshot=false '' @ k) \<or> send_pipe (''zfs set com.sun:auto-snapshot=false '' @ k)"
    using n k by (simp_all only: simp_thms plain_rules)
  show "plain_command (''zfs send '' @ n @ '' | zfs recv '' @ k) \<or> send_pipe (''zfs send '' @ n @ '' | zfs recv '' @ k)"
    unfolding send_pipe_def using n k zfs_plain clone_plain by blast
qed

lemma plain_auto_property: "plain_command l \<Longrightarrow> plain_command (auto_property l)"
  unfolding auto_property_def by (cases "l = []") (simp_all only: if_True if_False simp_thms plain_rules)

lemma harmless_set_auto: "newline \<notin> set l \<Longrightarrow> harmless_act h (set_auto_snapshot h d b l)"
  unfolding set_auto_snapshot_def
  by (intro harmless_rules, cases b) (simp_all only: if_True if_False simp_thms plain_rules plain_auto_property label_plain)

lemma harmless_inherit_auto: "newline \<notin> set l \<Longrightarrow> harmless_act h (inherit_auto_snapshot h d l)"
  unfolding inherit_auto_snapshot_def by (intro harmless_rules) (simp_all only: simp_thms plain_rules plain_auto_property label_plain)

lemma harmless_guest_action: "harmless_act h (guest_action h v t a)"
  unfolding guest_action_def
  by (intro harmless_rules) (simp only: plain_append vmid_plain plain_action [THEN conjunct1] plain_action [THEN conjunct2])

lemmas harmless_ops = harmless_set_pool_prop harmless_pool harmless_set_property harmless_destroy_dataset harmless_create_snapshot
  harmless_destroy_snapshot harmless_rollback harmless_clone harmless_set_auto harmless_inherit_auto harmless_guest_action

lemma harmless_perform: "one_line_label op \<Longrightarrow> harmless_act h (perform h op)"
  by (cases op) (auto simp: one_line_label_def intro!: harmless_bind harmless_ops harmless_return)



section \<open>Where the checks do not reach\<close>

lemma does_write_commands: "does (write_cmd h c) (\<lambda>_ es. commands es = [(h, c)])"
  by (rule does_write_cmd) simp_all

text \<open>The options of a new dataset are checked after stripping and sent as they came: a value with a newline at its end
  makes the shell run the name of the dataset as a command.\<close>

lemma create_runs_name_as_command:
  "commands (history_of (create_dataset h (VStr ''reboot'') [(''compression'', VStr (''lz4'' @ [newline]))]) w) =
     [(h, ''zfs create -o compression=lz4'' @ [newline] @ '' reboot'')]"
proof -
  have "validate_dataset_name (VStr ''reboot'') = Inr ''reboot''"
    "check_options [(''compression'', VStr (''lz4'' @ [newline]))] = Inr ()"
    "''zfs create'' @ concat (map option_text [(''compression'', VStr (''lz4'' @ [newline]))]) @ '' '' @ ''reboot'' =
       ''zfs create -o compression=lz4'' @ [newline] @ '' reboot''" by code_simp+
  then have "create_dataset h (VStr ''reboot'') [(''compression'', VStr (''lz4'' @ [newline]))] =
      write_cmd h (''zfs create -o compression=lz4'' @ [newline] @ '' reboot'')"
    unfolding create_dataset_def on_valid_def by (simp only: sum.case)
  then show ?thesis using does_outcome [OF does_write_commands] by (simp only:)
qed

text \<open>A property value may hold spaces, which the shell takes apart: the property is set on a second dataset.\<close>

lemma value_names_second_dataset:
  "commands (history_of (set_dataset_property h (VStr ''rpool/data'') (VStr ''compression'') (VStr ''lz4 tank/other'')) w) =
     [(h, ''zfs set compression=lz4 tank/other rpool/data'')]"
proof -
  have "validate_zfs_name (VStr ''rpool/data'') ''Dataset'' = Inr ''rpool/data''"
    "validate_zfs_property (VStr ''compression'') = Inr ''compression''"
    "validate_zfs_value (VStr ''lz4 tank/other'') = Inr ''lz4 tank/other''"
    "''zfs set '' @ ''compression'' @ ''='' @ ''lz4 tank/other'' @ '' '' @ ''rpool/data'' =
       ''zfs set compression=lz4 tank/other rpool/data''" by code_simp+
  then have "set_dataset_property h (VStr ''rpool/data'') (VStr ''compression'') (VStr ''lz4 tank/other'') =
      write_cmd h ''zfs set compression=lz4 tank/other rpool/data''"
    unfolding set_dataset_property_def on_valid_def by (simp only: sum.case)
  then show ?thesis using does_outcome [OF does_write_commands] by (simp only:)
qed

text \<open>The leftover clones are those lines of the listing in which \<open>/restore-\<close> occurs, its mountpoint column included; their
  names are not looked at again before they are destroyed.\<close>

definition mountpoint_answer :: "event list \<Rightarrow> host \<Rightarrow> string \<Rightarrow> cmd_result" where
  "mountpoint_answer es h c =
     (if starts_with ''zfs list'' c
      then cmd_ok (''tank/data'' @ [tab] @ ''/mnt/restore-2024'' @ [tab] @ ''2T'' @ [tab] @ ''Tue Aug  4 10:13 2026'')
      else cmd_ok [])"

lemma cleanup_destroys_by_mountpoint:
  "map snd (commands (history_of (cleanup_restore_clones (plain_host ''pve'' ''10.0.0.1'')) (fresh mountpoint_answer))) =
     [''zfs list -H -o name,mountpoint,used,creation -t filesystem | grep '' @ sq @ ''/restore-'' @ sq,
      ''zfs destroy -r tank/data'']"
  by code_simp

text \<open>Two snapshots whose names differ in a slash and a dash share one clone, and mounting begins by destroying it.\<close>

lemma restore_clones_collide: "clone_ds_of ''tank/a/b@daily'' = clone_ds_of ''tank/a-b@daily''"
  by code_simp

text \<open>The pool of a snapshot of the pool's own dataset is taken to be the whole name, so a clone in the same pool becomes a full
  copy.\<close>

lemma root_snapshot_is_copied:
  "map snd (commands (history_of (clone_snapshot (plain_host ''pve'' ''10.0.0.1'') (VStr ''rpool@s'') (VStr ''rpool/x''))
     (fresh (\<lambda>es h c. cmd_ok [])))) =
   [''zfs send rpool@s | zfs recv rpool/x'', ''zfs set com.sun:auto-snapshot=false rpool/x'']"
  by code_simp

text \<open>\<open>pct list\<close> has a column for the lock, which is empty for most containers: a locked container goes by the name of its lock.\<close>

lemma locked_container_named_by_lock: "map_option pg_name (ct_of_line ''101        stopped    migrate      web'') = Some ''migrate''"
  by code_simp

text \<open>Text in small letters does not contain a capital: one of the three signs of a possible upgrade is never seen.\<close>

lemma lower_char_S: "lower_char c \<noteq> CHR ''S''"
proof
  assume l: "lower_char c = CHR ''S''"
  let ?n = "cc c"
  have S: "cc (CHR ''S'') = 83" by code_simp
  show False
  proof (cases "is_upper c \<or> (192 \<le> ?n \<and> ?n \<le> 222 \<and> ?n \<noteq> 215)")
    case True
    then have r: "0 \<le> ?n + 32" "?n + 32 < 256" "97 \<le> ?n + 32" by (auto simp: is_upper_def)
    have "cc (lower_char c) = (?n + 32) mod 256" using True by (simp add: lower_char_def Let_def cc_def)
    also have "\<dots> = ?n + 32" using r by simp
    finally show False using l S r by simp
  next
    case False
    then have "c = CHR ''S''" using l unfolding lower_char_def Let_def by (simp only: if_False)
    moreover have "is_upper (CHR ''S'')" by code_simp
    ultimately show False using False by simp
  qed
qed

lemma lower_no_S: "CHR ''S'' \<notin> set (lower_str s)"
  using lower_char_S by (auto simp: lower_str_def dest: sym)

lemma contains_set: "contains_str p s \<Longrightarrow> set p \<subseteq> set s"
  by (induction p s rule: contains_str.induct) (auto simp: starts_with_iff dest!: arg_cong [of _ _ set] split: if_splits)

lemma upgrade_sign_never_seen: "\<not> contains_str ''action: Some supported features'' (lower_str s)"
  using contains_set [of "''action: Some supported features''" "lower_str s"] lower_no_S [of s] by auto

text \<open>A trim counts as running only when its note contains the word "trimming": a note that gives the part done counts as
  finished, and the watcher announces the end at its first look.\<close>

lemma trim_in_percent_is_finished:
  "parse_trim_state ''    sda  ONLINE  0  0  0  (23% trimmed, started at Tue Aug  4 10:13:19 2026)'' =
     (False, [\<lparr>td_name = ''sda'', td_state = ''23% trimmed, started at Tue Aug  4 10:13:19 2026'', td_progress = None\<rparr>])"
  by code_simp

text \<open>A disk whose name begins like the name of a group of devices is left out.\<close>

lemma cache_disk_left_out:
  "pools_disks [''tank''] (''tank ONLINE 0 0 0'' @ [newline] @ ''cachedisk1 ONLINE 0 0 0'' @ [newline] @ ''sdb ONLINE 0 0 0'') =
     [(''tank'', [''sdb''])]"
  by code_simp

end
