(* ===== verification/RecoveryConfig.thy ===== *)
theory RecoveryConfig
  imports MigrateConfig ZfsData
begin

text \<open>
  \<open>app/recovery_guest.py\<close>, the pure part: the configuration of a guest brought up from a snapshot next to the
  live one, the marker that makes it recognisable, the names of its volumes and of its storage. The two random
  identifiers and the time are arguments. A character that \<open>unquote\<close> would put at 256 or above, its replacement
  character included, is shown as a question mark.
\<close>

definition MARKER :: string where "MARKER = ''pve-zfs-tool-clone''"
definition LEGACY_MARKERS :: "string list" where "LEGACY_MARKERS = [''pve-zfs-tool-recovery'']"
definition RECOVERY_LEAF :: string where "RECOVERY_LEAF = ''clone''"
definition HOLD_TAG :: string where "HOLD_TAG = ''pve-zfs-tool-recovery''"

definition DROP_RE :: re where
  "DROP_RE = seqs [Bol, Alt (Seq (lit ''net'') (plus (Ch is_digit))) (Alt (lit ''lock'') (Alt (lit ''parent'') (Alt (lit ''onboot'')
     (Alt (lit ''startup'') (Alt (lit ''hookscript'') (Alt (Seq (lit ''unused'') (plus (Ch is_digit))) (Alt (lit ''vmgenid'')
     (Alt (lit ''smbios1'') (Alt (lit ''template'') (lit ''protection'')))))))))), chr CHR '':'']"

section \<open>Names\<close>

definition recovery_root :: "string \<Rightarrow> string" where
  "recovery_root pool = pool @ ''/'' @ RECOVERY_LEAF"

definition recovery_storage_id :: "string \<Rightarrow> string" where
  "recovery_storage_id pool =
     (let sid = strip_chars ''-.'' (map (\<lambda>c. if sid_char c then c else CHR ''-'') (lower_str (pool @ ''-'' @ RECOVERY_LEAF)))
      in take 63 (case sid of c # _ \<Rightarrow> if is_lower c then sid else ''zfs-'' @ sid | [] \<Rightarrow> ''zfs-'' @ sid))"

record snap_choice =
  sc_name :: string
  sc_on_all :: bool
  sc_missing :: "string list"

definition snap_choice_of :: "(string, string list) dict \<Rightarrow> string \<Rightarrow> snap_choice" where
  "snap_choice_of per_disk s =
     (let missing = filter (\<lambda>ds. s \<notin> set (dget_or [] per_disk ds)) (dkeys per_disk)
      in \<lparr>sc_name = s, sc_on_all = (missing = []), sc_missing = missing\<rparr>)"

definition common_snapshots :: "(string, string list) dict \<Rightarrow> snap_choice list" where
  "common_snapshots per_disk = map (snap_choice_of per_disk) (nub (concat (map snd per_disk)))"

definition CLONE_NAME_RE :: re where
  "CLONE_NAME_RE = seqs [Bol, VOL_KIND, chr CHR ''-'', plus (Ch is_digit), chr CHR ''-'',
     Grp 2 (Seq (lit ''disk-'') (plus (Ch is_digit))), Eol]"

definition clone_kind :: "string \<Rightarrow> string" where
  "clone_kind k = (if k = ''base'' then ''vm'' else if k = ''basevol'' then ''subvol'' else k)"

definition clone_volume_name :: "string \<Rightarrow> string \<Rightarrow> py_exc + string" where
  "clone_volume_name dataset new_vmid =
     (case re_match CLONE_NAME_RE (volume_basename dataset) of
        None \<Rightarrow> Inl (ValueError (''not a PVE guest volume: '' @ dataset))
      | Some m \<Rightarrow> Inr (clone_kind (group_str 1 m) @ ''-'' @ new_vmid @ ''-'' @ group_str 2 m))"

section \<open>Sizes and the clone command\<close>

definition SIZE_RE :: re where
  "SIZE_RE = seqs [Alt Bol (chr CHR '',''), lit ''size='', Grp 1 (Seq (plus (Ch is_digit)) (opt (Ch (one_of ''KMGTP'')))),
     Alt (chr CHR '','') Eol]"

definition size_from_value :: "string \<Rightarrow> string" where
  "size_from_value v = (case re_search SIZE_RE v of None \<Rightarrow> [] | Some m \<Rightarrow> group_str 1 m)"

definition first_field :: "string \<Rightarrow> string" where
  "first_field v = strip (takeWhile (\<lambda>c. c \<noteq> CHR '','') v)"

definition size_step :: "string \<Rightarrow> (string, string) dict \<Rightarrow> (string, string) dict" where
  "size_step line out =
     (case re_match CONFIG_LINE_RE (strip line) of
        None \<Rightarrow> out
      | Some m \<Rightarrow>
          let volid = first_field (group_str 2 m); sz = size_from_value (group_str 2 m)
          in if volid \<noteq> [] \<and> sz \<noteq> [] then dset volid sz out else out)"

definition disk_sizes :: "string \<Rightarrow> (string, string) dict" where
  "disk_sizes text = fold size_step (splitlines (split_main_section text)) []"

definition clone_command :: "string \<Rightarrow> string \<Rightarrow> string \<Rightarrow> string \<Rightarrow> string \<Rightarrow> string" where
  "clone_command dataset snapshot target gtype sz =
     ''zfs clone '' @ CLONE_PROPS
     @ (if gtype = ''lxc'' then '' -o acltype=posixacl -o xattr=sa'' @ (if sz \<noteq> [] then '' -o refquota='' @ shell_quote sz else [])
        else [])
     @ '' '' @ shell_quote (dataset @ ''@'' @ snapshot) @ '' '' @ shell_quote target"

section \<open>Entries that point at the host\<close>

datatype bound_reason = Bind_Mount | Passed_Through | Host_Device

record bound_entry =
  be_key :: string
  be_value :: string
  be_reason :: bound_reason

definition RECOVERY_DISK_KEY :: re where
  "RECOVERY_DISK_KEY = seqs [Bol, Alt (lit ''scsi'') (Alt (lit ''virtio'') (Alt (lit ''sata'') (lit ''ide''))), plus (Ch is_digit), Eol]"

definition CGROUP_RE :: re where
  "CGROUP_RE = seqs [Bol, lit ''lxc.cgroup'', opt (chr CHR ''2''), lit ''.devices.allow:'']"

definition ENTRY_RE :: re where
  "ENTRY_RE = seqs [Bol, Grp 1 (Seq (plus (Ch is_lower)) (Star (Ch is_digit))), chr CHR '':'', Star (Ch is_space),
     Grp 2 (Star any_char), Eol]"

text \<open>\<open>^<word>\d+$\<close>.\<close>

definition indexed_key :: "string \<Rightarrow> re" where
  "indexed_key w = seqs [Bol, lit w, plus (Ch is_digit), Eol]"

definition USB_RE :: re where
  "USB_RE = seqs [Alt Bol (chr CHR '',''), Alt (lit ''host'') (lit ''mapping''), chr CHR ''='']"

text \<open>What stands before and behind the first colon; nothing behind where there is none.\<close>

definition colon_parts :: "string \<Rightarrow> string \<times> string" where
  "colon_parts s = (case split_once CHR '':'' s of None \<Rightarrow> (s, []) | Some kv \<Rightarrow> kv)"

definition qemu_reason :: "string \<Rightarrow> string \<Rightarrow> bound_reason option" where
  "qemu_reason key v =
     (let first = first_field v
      in if re_test (indexed_key ''hostpci'') key then Some Passed_Through
         else if re_test (indexed_key ''usb'') key \<and> re_search USB_RE v \<noteq> None then Some Passed_Through
         else if re_test RECOVERY_DISK_KEY key \<and> starts_with ''/'' first \<and> \<not> contains_str ''media=cdrom'' v then Some Passed_Through
         else if (re_test (indexed_key ''serial'') key \<or> re_test (indexed_key ''parallel'') key) \<and> starts_with ''/dev/'' first
           then Some Host_Device
         else None)"

definition lxc_reason :: "string \<Rightarrow> string \<Rightarrow> bound_reason option" where
  "lxc_reason key v =
     (if re_test (indexed_key ''mp'') key \<and> CHR '':'' \<notin> set (first_field v) then Some Bind_Mount
      else if re_test (indexed_key ''dev'') key then Some Host_Device
      else None)"

definition bound_reason_of :: "string \<Rightarrow> string \<Rightarrow> string \<Rightarrow> bound_reason option" where
  "bound_reason_of gtype key v = (if gtype = ''lxc'' then lxc_reason key v else qemu_reason key v)"

definition bound_entry_of :: "string \<Rightarrow> string \<Rightarrow> bound_entry option" where
  "bound_entry_of gtype line =
     (let s = strip line; (k, v) = colon_parts s
      in if s = [] \<or> starts_with ''#'' s then None
         else if gtype = ''lxc'' \<and> starts_with ''lxc.mount.entry:'' s
           then Some \<lparr>be_key = ''lxc.mount.entry'', be_value = strip v, be_reason = Bind_Mount\<rparr>
         else if gtype = ''lxc'' \<and> re_test CGROUP_RE s
           then Some \<lparr>be_key = k, be_value = strip v, be_reason = Host_Device\<rparr>
         else (case re_match ENTRY_RE s of
             None \<Rightarrow> None
           | Some m \<Rightarrow> map_option (\<lambda>r. \<lparr>be_key = group_str 1 m, be_value = strip (group_str 2 m), be_reason = r\<rparr>)
               (bound_reason_of gtype (group_str 1 m) (strip (group_str 2 m)))))"

definition host_bound_entries :: "string \<Rightarrow> string \<Rightarrow> bound_entry list" where
  "host_bound_entries text gtype = List.map_filter (bound_entry_of gtype) (splitlines (split_main_section text))"

section \<open>The marker\<close>

definition iso_time :: "datetime \<Rightarrow> string" where
  "iso_time t = pad_digits 4 (dt_year t) @ ''-'' @ pad_digits 2 (dt_month t) @ ''-'' @ pad_digits 2 (dt_day t) @ ''T''
     @ pad_digits 2 (dt_hour t) @ '':'' @ pad_digits 2 (dt_minute t) @ '':'' @ pad_digits 2 (dt_second t)"

definition marker_line :: "string \<Rightarrow> string \<Rightarrow> datetime \<Rightarrow> string" where
  "marker_line origin_vmid snapshot now =
     ''#'' @ MARKER @ '' origin='' @ origin_vmid @ '' snapshot='' @ snapshot @ '' created='' @ iso_time now"

definition hex_val :: "char \<Rightarrow> int option" where
  "hex_val c = (let n = cc c in if is_digit c then Some (n - 48)
     else if 65 \<le> n \<and> n \<le> 70 then Some (n - 55) else if 97 \<le> n \<and> n \<le> 102 then Some (n - 87) else None)"

text \<open>\<open>urllib.parse.unquote\<close>: an escape that is none stays as it is; the bytes are read as UTF-8.\<close>

definition hex_byte :: "char \<Rightarrow> char \<Rightarrow> int option" where
  "hex_byte a b = (case (hex_val a, hex_val b) of (Some x, Some y) \<Rightarrow> Some (16 * x + y) | _ \<Rightarrow> None)"

text \<open>The next byte of the run of escapes, if it continues a character.\<close>

fun continues :: "string \<Rightarrow> (int \<times> string) option" where
  "continues (p # a # b # s) =
     (if p = CHR 0x25 then (case hex_byte a b of Some v \<Rightarrow> if 128 \<le> v \<and> v < 192 then Some (v - 128, s) else None | None \<Rightarrow> None)
      else None)"
| "continues s = None"

definition skip_continuation :: "string \<Rightarrow> string" where
  "skip_continuation s = (case continues s of None \<Rightarrow> s | Some (v, t) \<Rightarrow> t)"

definition decode_byte :: "int \<Rightarrow> string \<Rightarrow> char \<times> string" where
  "decode_byte v s =
     (if v < 128 then (char_of v, s)
      else if v = 194 \<or> v = 195
        then (case continues s of Some (x, t) \<Rightarrow> (char_of ((v - 192) * 64 + x), t) | None \<Rightarrow> (CHR ''?'', s))
      else if 196 \<le> v \<and> v < 224 then (CHR ''?'', skip_continuation s)
      else if 224 \<le> v \<and> v < 240 then (CHR ''?'', skip_continuation (skip_continuation s))
      else if 240 \<le> v \<and> v < 245 then (CHR ''?'', skip_continuation (skip_continuation (skip_continuation s)))
      else (CHR ''?'', s))"

lemma continues_shorter: "continues s = Some (v, t) \<Longrightarrow> length t < length s"
  by (cases s rule: continues.cases) (auto split: if_splits option.splits)

lemma skip_shorter: "length (skip_continuation s) \<le> length s"
  by (auto simp: skip_continuation_def split: option.splits dest: continues_shorter)

lemma decode_shorter: "length (snd (decode_byte v s)) \<le> length s"
  using skip_shorter le_trans [OF skip_shorter skip_shorter] le_trans [OF skip_shorter le_trans [OF skip_shorter skip_shorter]]
  by (auto simp: decode_byte_def split: option.splits dest: continues_shorter)

function unquote :: "string \<Rightarrow> string" where
  "unquote [] = []"
| "unquote (c # s) =
     (if c \<noteq> CHR 0x25 then c # unquote s
      else (case s of
          a # b # t \<Rightarrow>
            (case hex_byte a b of
               Some v \<Rightarrow> fst (decode_byte v t) # unquote (snd (decode_byte v t))
             | None \<Rightarrow> c # unquote s)
        | _ \<Rightarrow> c # unquote s))"
  by pat_completeness auto
termination
proof (relation "measure length")
  fix c a b :: char and s t :: string and l :: "char list" and v :: int
  assume "s = a # l" "l = b # t"
  with decode_shorter [of v t] show "(snd (decode_byte v t), c # s) \<in> measure length" by simp
qed auto

definition FIELD_RE :: re where
  "FIELD_RE = seqs [Grp 1 (plus (Ch word_char)), chr CHR ''='', Grp 2 (plus (Ch (\<lambda>c. \<not> is_space c)))]"

record marker =
  mk_origin :: string
  mk_snapshot :: string
  mk_created :: string

definition marker_fields :: "string \<Rightarrow> marker" where
  "marker_fields dec =
     (let fields = fold (\<lambda>m. dset (group_str 1 m) (group_str 2 m)) (re_finditer FIELD_RE dec) []
      in \<lparr>mk_origin = dget_or [] fields ''origin'', mk_snapshot = dget_or [] fields ''snapshot'',
          mk_created = dget_or [] fields ''created''\<rparr>)"

definition is_marker :: "string \<Rightarrow> bool" where
  "is_marker dec = list_ex (\<lambda>m. starts_with m dec) (MARKER # LEGACY_MARKERS)"

definition marker_of_line :: "string \<Rightarrow> marker option" where
  "marker_of_line line =
     (if starts_with ''#'' line \<and> is_marker (unquote (tl line)) then Some (marker_fields (unquote (tl line))) else None)"

definition parse_marker :: "string \<Rightarrow> marker option" where
  "parse_marker text =
     (case List.map_filter marker_of_line (splitlines text) of [] \<Rightarrow> None | m # _ \<Rightarrow> Some m)"

section \<open>The configuration of the copy\<close>

definition point_at_clone :: "(string, string) dict \<Rightarrow> string \<Rightarrow> string \<Rightarrow> string \<Rightarrow> string option" where
  "point_at_clone volid_map gtype key v =
     (case dget volid_map (first_field v) of
        Some w \<Rightarrow> Some (key @ '': '' @ w @ drop (length (first_field v)) v)
      | None \<Rightarrow>
          if key = ''name'' \<and> gtype \<noteq> ''lxc'' then Some (''name: '' @ strip v @ ''-clone'')
          else if key = ''hostname'' \<and> gtype = ''lxc'' then Some (''hostname: '' @ strip v @ ''-clone'')
          else None)"

definition recovery_line :: "(string \<times> string) list \<Rightarrow> (string, string) dict \<Rightarrow> string \<Rightarrow> string \<Rightarrow> string option" where
  "recovery_line left_out volid_map gtype line =
     (let s = strip line; (k, v) = colon_parts s
      in if s = [] \<or> starts_with ''#'' s then None
         else if re_test DROP_RE s then None
         else if (strip k, strip v) \<in> set left_out then None
         else (case re_match ENTRY_RE s of
             None \<Rightarrow> Some s
           | Some m \<Rightarrow> (case point_at_clone volid_map gtype (group_str 1 m) (group_str 2 m) of None \<Rightarrow> Some s | Some t \<Rightarrow> Some t)))"

definition recovery_lines ::
  "string \<times> string \<Rightarrow> datetime \<Rightarrow> string \<Rightarrow> string \<Rightarrow> (string, string) dict \<Rightarrow> string \<Rightarrow> string \<Rightarrow> string list" where
  "recovery_lines uuids now text gtype volid_map origin_vmid snapshot =
     marker_line origin_vmid snapshot now
     # List.map_filter (recovery_line (map (\<lambda>e. (be_key e, be_value e)) (host_bound_entries text gtype)) volid_map gtype)
         (splitlines (split_main_section text))
     @ [''onboot: 0'']
     @ (if gtype \<noteq> ''lxc'' then [''smbios1: uuid='' @ fst uuids, ''vmgenid: '' @ snd uuids] else [])"

definition build_recovery_config ::
  "string \<times> string \<Rightarrow> datetime \<Rightarrow> string \<Rightarrow> string \<Rightarrow> (string, string) dict \<Rightarrow> string \<Rightarrow> string \<Rightarrow> string" where
  "build_recovery_config uuids now text gtype volid_map origin_vmid snapshot =
     join [newline] (recovery_lines uuids now text gtype volid_map origin_vmid snapshot) @ [newline]"

end
