(* ===== verification/RecoveryGuest.thy ===== *)
theory RecoveryGuest
  imports RecoveryConfig Migrate
begin

text \<open>
  \<open>app/recovery_guest.py\<close>, the part that talks to the host: what the dialog shows, the creation of a guest from a
  snapshot, and its removal. An exception that leaves the creation in the middle of the clones is the result
  \<open>Clone_Crashed\<close>; the holds are released on the way, as the \<open>finally\<close> of the code does.
\<close>

section \<open>Reading\<close>

definition snapshots_newest_first :: "host \<Rightarrow> string \<Rightarrow> string list act" where
  "snapshots_newest_first h dataset = do {
     r \<leftarrow> run_command h (''zfs list -H -o name -t snapshot -d 1 '' @ shell_quote dataset @ '' -S creation 2>/dev/null'');
     State_Monad.return (List.map_filter snapshot_of_line (splitlines (cr_stdout r))) }"

definition NEXT_ID_RE :: re where
  "NEXT_ID_RE = seqs [word_start, Grp 1 (Seq (times 3 (Ch is_digit)) (Star (Ch is_digit))), word_edge]"

definition next_vmid :: "host \<Rightarrow> string act" where
  "next_vmid h = do {
     r \<leftarrow> run_command h ''pvesh get /cluster/nextid 2>/dev/null'';
     State_Monad.return
       (if cr_success r then (case re_search NEXT_ID_RE (cr_stdout r) of None \<Rightarrow> [] | Some m \<Rightarrow> group_str 1 m) else []) }"

text \<open>None where \<open>int\<close> would raise, which no accepted number makes it do.\<close>

definition suggest_vmid :: "host \<Rightarrow> string \<Rightarrow> string option act" where
  "suggest_vmid h vmid =
     (let cand = CHR ''9'' # vmid
      in if length cand \<le> 9
         then do {
           used \<leftarrow> vmid_in_use h cand;
           (case used of
              None \<Rightarrow> State_Monad.return None
            | Some u \<Rightarrow> if u then do { n \<leftarrow> next_vmid h; State_Monad.return (Some n) } else State_Monad.return (Some cand)) }
         else do { n \<leftarrow> next_vmid h; State_Monad.return (Some n) })"

definition storage_for_root :: "host \<Rightarrow> string \<Rightarrow> string act" where
  "storage_for_root h root = do {
     r \<leftarrow> run_command h ''cat /etc/pve/storage.cfg 2>/dev/null'';
     State_Monad.return
       (if \<not> cr_success r then []
        else case List.find (\<lambda>s. zs_pool s = root) (parse_zfs_storages (cr_stdout r)) of None \<Rightarrow> [] | Some s \<Rightarrow> zs_storage s) }"

definition NAME_LINE_RE :: "string \<Rightarrow> re" where
  "NAME_LINE_RE key = seqs [line_start, lit key, chr CHR '':'', Star (Ch is_space), Grp 1 (plus any_char), line_end]"

definition guest_name :: "string \<Rightarrow> string \<Rightarrow> string" where
  "guest_name text gtype =
     (case re_search (NAME_LINE_RE (if gtype = ''lxc'' then ''hostname'' else ''name'')) (split_main_section text) of
        None \<Rightarrow> [] | Some m \<Rightarrow> strip (group_str 1 m))"

definition pool_of :: "string \<Rightarrow> string" where
  "pool_of dataset = takeWhile (\<lambda>c. c \<noteq> CHR ''/'') dataset"

definition pools_of :: "disk list \<Rightarrow> string list" where
  "pools_of disks = sorted_set (map (\<lambda>d. pool_of (dk_dataset d)) disks)"

record preview_result =
  pv_vmid :: string
  pv_gtype :: string
  pv_name :: string
  pv_disks :: "disk list"
  pv_pool :: string
  pv_root :: string
  pv_root_exists :: bool
  pv_storage :: string
  pv_storage_exists :: bool
  pv_snapshots :: "snap_choice list"
  pv_usable :: "string list"
  pv_next_vmid :: string
  pv_left_out :: "bound_entry list"
  pv_blockers :: "string list"

definition preview_blockers :: "disk list \<Rightarrow> (string \<times> string) list \<Rightarrow> string list" where
  "preview_blockers disks unresolved =
     (if unresolved \<noteq> [] then [''unresolved: '' @ join '', '' (map (\<lambda>(k, v). k @ ''='' @ v) unresolved)] else [])
     @ (if disks = [] then [''no disks''] else [])
     @ (if length (pools_of disks) > 1 then [''cross_pool: '' @ join '', '' (pools_of disks)] else [])"

text \<open>None where an exception leaves the function.\<close>

definition preview_of :: "host \<Rightarrow> string \<Rightarrow> string \<Rightarrow> string \<Rightarrow> preview_result option act" where
  "preview_of h vmid gtype content = do {
     (disks, unresolved) \<leftarrow> discover_guest_disks h gtype content;
     let pool = (case pools_of disks of [] \<Rightarrow> [] | p # _ \<Rightarrow> p);
         root = (if pool \<noteq> [] then recovery_root pool else []) in do {
       snaps \<leftarrow> for_each (\<lambda>d. snapshots_newest_first h (dk_dataset d)) disks;
       let choices = common_snapshots (fold (\<lambda>(d, s). dset (dk_dataset d) s) (zip disks snaps) []) in do {
         storage \<leftarrow> (if root \<noteq> [] then storage_for_root h root else State_Monad.return []);
         there \<leftarrow> (if root \<noteq> [] then dataset_exists h root else State_Monad.return False);
         nxt \<leftarrow> suggest_vmid h vmid;
         State_Monad.return (map_option (\<lambda>n.
           \<lparr>pv_vmid = vmid, pv_gtype = gtype, pv_name = guest_name content gtype, pv_disks = disks, pv_pool = pool,
            pv_root = root, pv_root_exists = there,
            pv_storage = (if storage \<noteq> [] then storage else if pool \<noteq> [] then recovery_storage_id pool else []),
            pv_storage_exists = (storage \<noteq> []), pv_snapshots = choices,
            pv_usable = map sc_name (filter sc_on_all choices), pv_next_vmid = n,
            pv_left_out = host_bound_entries content gtype, pv_blockers = preview_blockers disks unresolved\<rparr>) nxt) } } }"

definition caught :: "py_exc \<Rightarrow> string + preview_result option" where
  "caught e = (case e of ValueError m \<Rightarrow> Inl m | _ \<Rightarrow> Inr None)"

definition preview :: "host \<Rightarrow> pyval \<Rightarrow> pyval \<Rightarrow> (string + preview_result option) act" where
  "preview h vmid0 gtype0 =
     (case validate_vmid vmid0 of Inl e \<Rightarrow> State_Monad.return (caught e) | Inr vmid \<Rightarrow>
      (case validate_vm_type gtype0 of Inl e \<Rightarrow> State_Monad.return (caught e) | Inr gtype \<Rightarrow> do {
        cfg \<leftarrow> read_guest_config h vmid gtype;
        (case cfg of
           Inl e \<Rightarrow> State_Monad.return (Inl e)
         | Inr (content, path) \<Rightarrow>
             if parse_marker content \<noteq> None then State_Monad.return (Inl ''this guest is itself a snapshot clone'')
             else do { p \<leftarrow> preview_of h vmid gtype content; State_Monad.return (Inr p) }) }))"

text \<open>\<open>re.escape\<close>.\<close>

definition re_escape :: "string \<Rightarrow> string" where
  "re_escape s = concat (map (\<lambda>c. if c \<in> set ''()[]{}?*+-|^$.&~# '' \<or> cc c = 92 \<or> (9 \<le> cc c \<and> cc c \<le> 13) then [CHR 0x5C, c] else [c]) s)"

definition marker_grep :: string where
  "marker_grep = ''grep -lE '' @ shell_quote (join ''|'' (map re_escape (MARKER # LEGACY_MARKERS)))
     @ '' /etc/pve/qemu-server/*.conf /etc/pve/lxc/*.conf 2>/dev/null''"

definition CONF_PATH_RE :: re where
  "CONF_PATH_RE = seqs [Bol, lit ''/etc/pve/'', Grp 1 (Alt (lit ''qemu-server'') (lit ''lxc'')), chr CHR ''/'',
     Grp 2 (plus (Ch is_digit)), lit ''.conf'', Eol]"

record recovery_guest =
  rg_vmid :: string
  rg_gtype :: string
  rg_marker :: marker

definition recovery_guest_at :: "host \<Rightarrow> string \<Rightarrow> recovery_guest option act" where
  "recovery_guest_at h path =
     (case re_match CONF_PATH_RE path of
        None \<Rightarrow> State_Monad.return None
      | Some m \<Rightarrow> do {
          cfg \<leftarrow> run_command h (''cat '' @ shell_quote path @ '' 2>/dev/null'');
          State_Monad.return (map_option
            (\<lambda>mk. \<lparr>rg_vmid = group_str 2 m, rg_gtype = (if group_str 1 m = ''lxc'' then ''lxc'' else ''qemu''), rg_marker = mk\<rparr>)
            (if cr_success cfg then parse_marker (cr_stdout cfg) else None)) })"

definition list_recovery_guests :: "host \<Rightarrow> recovery_guest list act" where
  "list_recovery_guests h = do {
     r \<leftarrow> run_command h marker_grep;
     gs \<leftarrow> for_each (recovery_guest_at h) (split_ws (cr_stdout r));
     State_Monad.return (List.map_filter id gs) }"

section \<open>Holds and clean-up of single datasets\<close>

definition volume_destroy :: "string \<Rightarrow> string" where
  "volume_destroy ds = ''zfs destroy '' @ shell_quote ds @ '' 2>&1''"

definition destroy_quietly :: "host \<Rightarrow> string list \<Rightarrow> cmd_result list act" where
  "destroy_quietly h datasets = for_each (\<lambda>ds. run_command h (volume_destroy ds)) (rev datasets)"

definition second_column :: "string \<Rightarrow> string option" where
  "second_column ln = (case split_on (\<lambda>c. c = tab) ln of a # b # _ \<Rightarrow> Some b | _ \<Rightarrow> None)"

definition still_held :: "host \<Rightarrow> string \<Rightarrow> string option act" where
  "still_held h s = do {
     r \<leftarrow> run_command h (''zfs holds -H '' @ shell_quote s @ '' 2>/dev/null'');
     State_Monad.return
       (if HOLD_TAG \<in> set (List.map_filter second_column (splitlines (cr_stdout r))) then Some s else None) }"

definition holds_left :: "host \<Rightarrow> string list \<Rightarrow> string list act" where
  "holds_left h snaps = do { ls \<leftarrow> for_each (still_held h) snaps; State_Monad.return (List.map_filter id ls) }"

definition hold_command :: "string \<Rightarrow> string" where
  "hold_command s = ''zfs hold '' @ HOLD_TAG @ '' '' @ shell_quote s @ '' 2>/dev/null''"

definition release_command :: "string \<Rightarrow> string" where
  "release_command s = ''zfs release '' @ HOLD_TAG @ '' '' @ shell_quote s @ '' 2>/dev/null''"

definition release_holds :: "host \<Rightarrow> string list \<Rightarrow> string list act" where
  "release_holds h snaps = do { for_each (\<lambda>s. run_command h (release_command s)) snaps; holds_left h snaps }"

text \<open>The properties of the replication tags that the root sees and that are not yet \<open>exclude\<close>.\<close>

definition tag_to_exclude :: "string \<Rightarrow> string option" where
  "tag_to_exclude ln =
     (case split_on (\<lambda>c. c = tab) ln of
        p # v # _ \<Rightarrow> if starts_with ''bashclub:'' p \<and> v \<noteq> ''exclude'' then Some p else None
      | _ \<Rightarrow> None)"

definition exclude_tag :: "host \<Rightarrow> string \<Rightarrow> string \<Rightarrow> string option act" where
  "exclude_tag h root p = do {
     r \<leftarrow> run_command h (''zfs set '' @ shell_quote p @ ''=exclude '' @ shell_quote root @ '' 2>&1'');
     State_Monad.return (if cr_success r then Some p else None) }"

definition exclude_replication_tags :: "host \<Rightarrow> string \<Rightarrow> string list act" where
  "exclude_replication_tags h root = do {
     r \<leftarrow> run_command h (''zfs get -H -o property,value,source all '' @ shell_quote root @ '' 2>/dev/null'');
     ps \<leftarrow> for_each (exclude_tag h root) (List.map_filter tag_to_exclude (splitlines (cr_stdout r)));
     State_Monad.return (List.map_filter id ps) }"

section \<open>Creating\<close>

record clone_made =
  cm_vmid :: string
  cm_storage :: string
  cm_clones :: "string list"
  cm_holds_left :: "string list"
  cm_left_out :: "bound_entry list"
  cm_tags :: "string list"

datatype create_result =
    Not_Valid py_exc
  | Not_Made string
  | Undone string "string list"
  | Clone_Crashed py_exc
  | Clone_Made clone_made

text \<open>The datasets cloned so far, newest last, with the volume identifier of each disk in its new place.\<close>

record clone_state =
  cl_created :: "string list"
  cl_map :: "(string, string) dict"

datatype clone_outcome = Cloned | Clone_Failed string | Bad_Volume py_exc

definition error_text :: "cmd_result \<Rightarrow> string" where
  "error_text r = take 300 (if cr_stderr r \<noteq> [] then cr_stderr r else cr_stdout r)"

text \<open>\<open>target.rsplit("/", 1)[-1]\<close> is what the volume was named.\<close>

fun clone_disks ::
  "host \<Rightarrow> string \<Rightarrow> string \<Rightarrow> string \<Rightarrow> string \<Rightarrow> string \<Rightarrow> (string, string) dict \<Rightarrow> clone_state \<Rightarrow> disk list \<Rightarrow>
   (clone_state \<times> clone_outcome) act" where
  "clone_disks h root storage new_vmid snapshot gtype sizes st [] = State_Monad.return (st, Cloned)"
| "clone_disks h root storage new_vmid snapshot gtype sizes st (d # ds) =
     (case clone_volume_name (dk_dataset d) new_vmid of
        Inl e \<Rightarrow> State_Monad.return (st, Bad_Volume e)
      | Inr n \<Rightarrow>
          let target = root @ ''/'' @ n in do {
            say (''Cloning '' @ dk_dataset d @ ''@'' @ snapshot @ '' -> '' @ target) None;
            r \<leftarrow> run_command h (clone_command (dk_dataset d) snapshot target gtype (dget_or [] sizes (dk_volid d)) @ '' 2>&1'');
            if \<not> cr_success r then do {
              destroy_quietly h (cl_created st);
              State_Monad.return (st, Clone_Failed (''zfs clone '' @ target @ '' failed: '' @ error_text r)) }
            else clone_disks h root storage new_vmid snapshot gtype sizes
              \<lparr>cl_created = cl_created st @ [target], cl_map = dset (dk_volid d) (storage @ '':'' @ last_part target) (cl_map st)\<rparr> ds })"

definition ensure_root :: "host \<Rightarrow> string \<Rightarrow> string option act" where
  "ensure_root h root = do {
     there \<leftarrow> dataset_exists h root;
     if there then State_Monad.return None
     else do {
       say (''Creating '' @ root @ '' ...'') None;
       r \<leftarrow> run_command h (''zfs create -o com.sun:auto-snapshot=false '' @ shell_quote root @ '' 2>&1'');
       State_Monad.return
         (if cr_success r then None else Some (''zfs create '' @ root @ '' failed: '' @ error_text r)) } }"

definition announce_excluded :: "string \<Rightarrow> string list \<Rightarrow> unit act" where
  "announce_excluded root tags =
     (if tags \<noteq> [] then say (''Excluded '' @ root @ '' from replication: '' @ join '', '' tags) None else State_Monad.return ())"

definition add_storage_command :: "string \<Rightarrow> string \<Rightarrow> string \<Rightarrow> string" where
  "add_storage_command storage root node =
     ''pvesm add zfspool '' @ shell_quote storage @ '' --pool '' @ shell_quote root @ '' --content images,rootdir''
     @ (if node \<noteq> [] then '' --nodes '' @ shell_quote node else []) @ '' 2>&1''"

definition ensure_storage :: "host \<Rightarrow> string \<Rightarrow> string \<Rightarrow> (string + string) act" where
  "ensure_storage h pool root = do {
     found \<leftarrow> storage_for_root h root;
     if found \<noteq> [] then State_Monad.return (Inr found)
     else let storage = recovery_storage_id pool in do {
       node \<leftarrow> read_node h;
       say (''Registering storage '' @ storage @ '' for '' @ root @ '' ...'') None;
       r \<leftarrow> run_command h (add_storage_command storage root node);
       State_Monad.return
         (if cr_success r then Inr storage else Inl (''pvesm add '' @ storage @ '' failed: '' @ error_text r)) } }"

fun first_missing :: "host \<Rightarrow> string \<Rightarrow> disk list \<Rightarrow> string option act" where
  "first_missing h snapshot [] = State_Monad.return None"
| "first_missing h snapshot (d # ds) = do {
     ss \<leftarrow> snapshots_newest_first h (dk_dataset d);
     if snapshot \<notin> set ss then State_Monad.return (Some (dk_dataset d)) else first_missing h snapshot ds }"

definition SNAP_LABEL_RE :: re where
  "SNAP_LABEL_RE = whitelist (\<lambda>c. is_alnum c \<or> one_of ''_.:-'' c) (\<lambda>c. is_alnum c \<or> one_of ''_.:-'' c)"

record creation =
  ct_vmid :: string
  ct_gtype :: string
  ct_snapshot :: string
  ct_new_vmid :: string
  ct_content :: string
  ct_disks :: "disk list"
  ct_pool :: string

definition origins_of :: "creation \<Rightarrow> string list" where
  "origins_of c = map (\<lambda>d. dk_dataset d @ ''@'' @ ct_snapshot c) (ct_disks c)"

text \<open>Step 4: the configuration, once every clone exists.\<close>

definition write_clone_config ::
  "string \<times> string \<Rightarrow> datetime \<Rightarrow> host \<Rightarrow> creation \<Rightarrow> string \<Rightarrow> clone_state \<Rightarrow> string list \<Rightarrow> string list \<Rightarrow> create_result act" where
  "write_clone_config uuids now h c storage st held tags = do {
     say (''Writing config for VMID '' @ ct_new_vmid c @ '' ...'') None;
     wr \<leftarrow> restore_guest_config h (ct_gtype c) (ct_new_vmid c)
       (build_recovery_config uuids now (ct_content c) (ct_gtype c) (cl_map st) (ct_vmid c) (ct_snapshot c)) False;
     if \<not> config_write_ok wr then do {
       destroy_quietly h (cl_created st);
       State_Monad.return (Undone (''config write failed: '' @ config_write_error wr) (cl_created st)) }
     else do {
       say (''Snapshot clone '' @ ct_new_vmid c @ '' is ready -- not started, no network'') (Some True);
       State_Monad.return (Clone_Made \<lparr>cm_vmid = ct_new_vmid c, cm_storage = storage, cm_clones = cl_created st,
         cm_holds_left = held, cm_left_out = host_bound_entries (ct_content c) (ct_gtype c), cm_tags = tags\<rparr>) } }"

definition release_origins :: "host \<Rightarrow> string list \<Rightarrow> string list act" where
  "release_origins h origins = do {
     left_over \<leftarrow> release_holds h origins;
     (if left_over \<noteq> [] then say (''Hold could not be released on: '' @ join '', '' left_over) (Some False) else State_Monad.return ());
     State_Monad.return left_over }"

text \<open>Step 3: the clones, under holds that are released however the loop ends.\<close>

definition clone_under_holds ::
  "string \<times> string \<Rightarrow> datetime \<Rightarrow> host \<Rightarrow> creation \<Rightarrow> string \<Rightarrow> string list \<Rightarrow> create_result act" where
  "clone_under_holds uuids now h c storage tags = do {
     for_each (\<lambda>s. run_command h (hold_command s)) (origins_of c);
     (st, res) \<leftarrow> clone_disks h (recovery_root (ct_pool c)) storage (ct_new_vmid c) (ct_snapshot c) (ct_gtype c)
       (disk_sizes (ct_content c)) \<lparr>cl_created = [], cl_map = []\<rparr> (ct_disks c);
     held \<leftarrow> release_origins h (origins_of c);
     (case res of
        Clone_Failed e \<Rightarrow> State_Monad.return (Undone e (cl_created st))
      | Bad_Volume e \<Rightarrow> State_Monad.return (Clone_Crashed e)
      | Cloned \<Rightarrow> write_clone_config uuids now h c storage st held tags) }"

text \<open>Steps 1 and 2, when the request has been checked.\<close>

definition create_checked :: "string \<times> string \<Rightarrow> datetime \<Rightarrow> host \<Rightarrow> creation \<Rightarrow> create_result act" where
  "create_checked uuids now h c =
     (let root = recovery_root (ct_pool c) in do {
        bad_root \<leftarrow> ensure_root h root;
        (case bad_root of
           Some e \<Rightarrow> State_Monad.return (Not_Made e)
         | None \<Rightarrow> do {
             tags \<leftarrow> exclude_replication_tags h root;
             announce_excluded root tags;
             storage \<leftarrow> ensure_storage h (ct_pool c) root;
             (case storage of
                Inl e \<Rightarrow> State_Monad.return (Not_Made e)
              | Inr sid \<Rightarrow> clone_under_holds uuids now h c sid tags) }) })"

definition create_new_vmid :: "host \<Rightarrow> string \<Rightarrow> string \<Rightarrow> string option act" where
  "create_new_vmid h new_vmid vmid =
     (if strip new_vmid \<noteq> [] then State_Monad.return (Some (strip new_vmid)) else suggest_vmid h vmid)"

text \<open>The number of the copy is settled: chosen or proposed, valid, and not in use.\<close>

definition create_numbered :: "string \<times> string \<Rightarrow> datetime \<Rightarrow> host \<Rightarrow> string \<Rightarrow> creation \<Rightarrow> create_result act" where
  "create_numbered uuids now h new_vmid0 c = do {
     chosen \<leftarrow> create_new_vmid h new_vmid0 (ct_vmid c);
     (case chosen of
        None \<Rightarrow> State_Monad.return (Not_Valid (ValueError ''invalid literal for int()''))
      | Some n \<Rightarrow>
          if n = [] then State_Monad.return (Not_Made ''no free VMID could be determined'')
          else (case validate_vmid (VStr n) of
              Inl e \<Rightarrow> State_Monad.return (Not_Valid e)
            | Inr new_vmid \<Rightarrow>
                if new_vmid = ct_vmid c then State_Monad.return (Not_Made (''VMID '' @ new_vmid @ '' is in use''))
                else do {
                  used \<leftarrow> vmid_in_use h new_vmid;
                  (case used of
                     None \<Rightarrow> State_Monad.return (Not_Valid (ValueError ''invalid literal for int()''))
                   | Some u \<Rightarrow>
                       if u then State_Monad.return (Not_Made (''VMID '' @ new_vmid @ '' is in use''))
                       else create_checked uuids now h (c\<lparr>ct_new_vmid := new_vmid\<rparr>)) })) }"

definition create_job ::
  "string \<times> string \<Rightarrow> datetime \<Rightarrow> host \<Rightarrow> pyval \<Rightarrow> pyval \<Rightarrow> string \<Rightarrow> string \<Rightarrow> create_result act" where
  "create_job uuids now h vmid0 gtype0 snapshot0 new_vmid0 =
     (case validate_vmid vmid0 of Inl e \<Rightarrow> State_Monad.return (Not_Valid e) | Inr vmid \<Rightarrow>
      (case validate_vm_type gtype0 of Inl e \<Rightarrow> State_Monad.return (Not_Valid e) | Inr gtype \<Rightarrow>
       let snapshot = strip snapshot0 in
       if \<not> re_test SNAP_LABEL_RE snapshot then State_Monad.return (Not_Made ''invalid snapshot label'')
       else do {
         cfg \<leftarrow> read_guest_config h vmid gtype;
         (case cfg of
            Inl e \<Rightarrow> State_Monad.return (Not_Made e)
          | Inr (content, path) \<Rightarrow>
              if parse_marker content \<noteq> None then State_Monad.return (Not_Made ''this guest is itself a snapshot clone'')
              else do {
                (disks, unresolved) \<leftarrow> discover_guest_disks h gtype content;
                if unresolved \<noteq> [] \<or> disks = [] then State_Monad.return (Not_Made
                  (''not every disk resolves to a ZFS dataset: '' @ join '', '' (map snd unresolved)))
                else if length (pools_of disks) > 1 then State_Monad.return (Not_Made
                  (''disks on different pools ('' @ join '', '' (pools_of disks) @ '') -- a clone cannot cross pools''))
                else do {
                  gap \<leftarrow> first_missing h snapshot disks;
                  (case gap of
                     Some ds \<Rightarrow> State_Monad.return (Not_Made (''snapshot '' @ snapshot @ '' missing on '' @ ds))
                   | None \<Rightarrow> create_numbered uuids now h new_vmid0
                       \<lparr>ct_vmid = vmid, ct_gtype = gtype, ct_snapshot = snapshot, ct_new_vmid = [], ct_content = content,
                        ct_disks = disks, ct_pool = hd (pools_of disks)\<rparr>) } }) }))"

section \<open>Removing\<close>

definition origin_of :: "host \<Rightarrow> string \<Rightarrow> string act" where
  "origin_of h clone_ds = do {
     r \<leftarrow> run_command h (''zfs get -H -o value origin '' @ shell_quote clone_ds @ '' 2>/dev/null'');
     let v = strip (cr_stdout r) in State_Monad.return (if cr_success r \<and> v \<noteq> [] \<and> v \<noteq> ''-'' then v else []) }"

definition clones_of_snapshot :: "host \<Rightarrow> string \<Rightarrow> string list act" where
  "clones_of_snapshot h snap = do {
     r \<leftarrow> run_command h (''zfs get -H -o value clones '' @ shell_quote snap @ '' 2>/dev/null'');
     State_Monad.return
       (if cr_success r then filter (\<lambda>c. c \<noteq> [] \<and> c \<noteq> ''-'') (split_on (\<lambda>c. c = CHR '','') (strip (cr_stdout r))) else []) }"

record removal =
  rm_origins :: "string list"
  rm_released :: "string list"
  rm_still_held :: "(string, string list) dict"
  rm_holds_left :: "string list"
  rm_marker :: marker

datatype destroy_result = Destroy_Invalid py_exc | Destroy_Refused string | Destroy_Failed string | Destroy_Done removal

definition in_recovery_root :: "string \<Rightarrow> bool" where
  "in_recovery_root ds = (case split_on (\<lambda>c. c = CHR ''/'') ds of [a, b, c] \<Rightarrow> b = RECOVERY_LEAF | _ \<Rightarrow> False)"

definition stop_if_running :: "host \<Rightarrow> string \<Rightarrow> string \<Rightarrow> unit act" where
  "stop_if_running h gtype vmid = do {
     st \<leftarrow> run_command h (guest_tool gtype @ '' status '' @ vmid @ '' 2>/dev/null'');
     if contains_str ''running'' (lower_str (cr_stdout st)) then do {
       say (''Stopping '' @ vmid @ '' ...'') None;
       run_command h (guest_tool gtype @ '' stop '' @ vmid @ '' 2>&1'');
       State_Monad.return () }
     else State_Monad.return () }"

definition guest_destroy_command :: "string \<Rightarrow> string \<Rightarrow> string" where
  "guest_destroy_command gtype vmid = guest_tool gtype @ '' destroy '' @ vmid @ '' --purge 2>&1''"

definition leftover_of :: "host \<Rightarrow> string \<Rightarrow> string option act" where
  "leftover_of h ds = do { there \<leftarrow> dataset_exists h ds; State_Monad.return (if there then Some ds else None) }"

definition destroy_leftover :: "host \<Rightarrow> string \<Rightarrow> cmd_result act" where
  "destroy_leftover h ds = do {
     say (''Destroying leftover '' @ ds @ '' ...'') None;
     run_command h (volume_destroy ds) }"

text \<open>After the guest and its volumes are gone: the holds and what still depends on the origins.\<close>

definition report_removal :: "host \<Rightarrow> string list \<Rightarrow> marker \<Rightarrow> destroy_result act" where
  "report_removal h origins mk = do {
     left_over \<leftarrow> (if origins \<noteq> [] then release_holds h origins else State_Monad.return []);
     cs \<leftarrow> for_each (clones_of_snapshot h) origins;
     let still = fold (\<lambda>(o1, c). if c \<noteq> [] then dset o1 c else id) (zip origins cs) [] in do {
       say (''Cleanup finished'' @ (if still \<noteq> [] \<or> left_over \<noteq> [] then '' -- some origins still held'' else []))
         (Some (still = [] \<and> left_over = []));
       State_Monad.return (Destroy_Done \<lparr>rm_origins = origins,
         rm_released = filter (\<lambda>x. \<not> dhas still x \<and> x \<notin> set left_over) origins,
         rm_still_held = still, rm_holds_left = left_over, rm_marker = mk\<rparr>) } }"

definition remove_guest :: "host \<Rightarrow> string \<Rightarrow> string \<Rightarrow> disk list \<Rightarrow> marker \<Rightarrow> destroy_result act" where
  "remove_guest h vmid gtype disks mk = do {
     os \<leftarrow> for_each (\<lambda>d. origin_of h (dk_dataset d)) disks;
     stop_if_running h gtype vmid;
     say (''Destroying guest '' @ vmid @ '' and its volumes ...'') None;
     r \<leftarrow> run_command h (guest_destroy_command gtype vmid);
     if \<not> cr_success r then State_Monad.return (Destroy_Failed (guest_tool gtype @ '' destroy failed: '' @ error_text r))
     else do {
       ls \<leftarrow> for_each (\<lambda>d. leftover_of h (dk_dataset d)) disks;
       for_each (destroy_leftover h) (List.map_filter id ls);
       report_removal h (filter (\<lambda>x. x \<noteq> []) os) mk } }"

definition destroy_job :: "host \<Rightarrow> pyval \<Rightarrow> pyval \<Rightarrow> destroy_result act" where
  "destroy_job h vmid0 gtype0 =
     (case validate_vmid vmid0 of Inl e \<Rightarrow> State_Monad.return (Destroy_Invalid e) | Inr vmid \<Rightarrow>
      (case validate_vm_type gtype0 of Inl e \<Rightarrow> State_Monad.return (Destroy_Invalid e) | Inr gtype \<Rightarrow> do {
        cfg \<leftarrow> read_guest_config h vmid gtype;
        (case cfg of
           Inl e \<Rightarrow> State_Monad.return (Destroy_Refused e)
         | Inr (content, path) \<Rightarrow>
             (case parse_marker content of
                None \<Rightarrow> State_Monad.return (Destroy_Refused (''VMID '' @ vmid @ '' is not a snapshot clone (no '' @ MARKER
                  @ '' marker) -- refusing''))
              | Some mk \<Rightarrow> do {
                  (disks, unresolved) \<leftarrow> discover_guest_disks h gtype content;
                  if unresolved \<noteq> [] then State_Monad.return (Destroy_Refused (''a disk does not resolve: ''
                    @ join '', '' (map snd unresolved) @ '' -- refusing''))
                  else (case List.find (\<lambda>d. \<not> in_recovery_root (dk_dataset d)) disks of
                      Some d \<Rightarrow> State_Monad.return (Destroy_Refused (dk_dataset d @ '' is not under a recovery root -- refusing''))
                    | None \<Rightarrow> remove_guest h vmid gtype disks mk) })) }))"

end
