(* ===== verification/RecoverySafety.thy ===== *)
theory RecoverySafety
  imports RecoveryGuest MigrateSafety MigrateNaming
begin

text \<open>
  What the creation and the removal of a guest from a snapshot do to the host, in every environment: what is cloned
  and destroyed, that holds are released, what must have been read before anything is destroyed.
\<close>

section \<open>Kinds of commands\<close>

definition destructive :: "string \<Rightarrow> bool" where
  "destructive c = (starts_with ''zfs destroy '' c \<or> starts_with ''qm destroy '' c \<or> starts_with ''pct destroy '' c)"

definition stops_guest :: "string \<Rightarrow> bool" where
  "stops_guest c = (starts_with ''qm stop '' c \<or> starts_with ''pct stop '' c)"

definition clones :: "string \<Rightarrow> bool" where
  "clones c = starts_with ''zfs clone '' c"

definition holds :: "string \<Rightarrow> bool" where
  "holds c = starts_with ''zfs hold '' c"

text \<open>None of the commands that matter here, and sent to the host in question.\<close>

definition idle :: "string \<Rightarrow> bool" where
  "idle c = (\<not> starts_guest c \<and> \<not> destructive c \<and> \<not> stops_guest c \<and> \<not> clones c \<and> \<not> holds c)"

definition idle_event :: "host \<Rightarrow> event \<Rightarrow> bool" where
  "idle_event h e = (case e of Ran h' c r \<Rightarrow> h' = h \<and> idle c | _ \<Rightarrow> True)"

lemma idle_event_simps [simp]:
  "idle_event h (Ran h' c r) = (h' = h \<and> idle c)" "idle_event h (Said m f)" "idle_event h (Forgot a)" "idle_event h (Noted k t m a)"
  by (simp_all add: idle_event_def)

lemmas idle_defs = idle_def starts_guest_def destructive_def stops_guest_def clones_def holds_def starts_with_def

lemma idle_commands:
  "idle (''cat '' @ x)" "idle (''([ -e '' @ x)" "idle (''[ -e '' @ x)" "idle (''echo '' @ x)" "idle (''pvesm '' @ x)"
  "idle (''zfs list '' @ x)" "idle (''zfs get '' @ x)" "idle (''zfs set '' @ x)" "idle (''zfs create '' @ x)"
  "idle (''zfs release '' @ x)" "idle (''zfs holds '' @ x)" "idle (''pvesh '' @ x)" "idle (''hostname'' @ x)"
  "idle (''qm status '' @ x)" "idle (''pct status '' @ x)"
  by (simp_all add: idle_defs)

lemmas idle_literals [simp] = idle_commands idle_commands [unfolded append_Cons append_Nil]
lemma idle_hostname [simp]: "idle ''hostname''"
  using idle_commands(13) [of "[]"] by simp

lemma idle_vmid [simp]: "idle (vmid_command n)"
  unfolding vmid_command_def using idle_commands(2) by simp

lemma idle_write [simp]: "idle (write_command d c)"
  unfolding write_command_def by (rule idle_commands)

lemma idle_release [simp]: "idle (release_command s)"
  unfolding release_command_def using idle_commands(10) by simp

lemma idle_add_storage [simp]: "idle (add_storage_command s root node)"
  unfolding add_storage_command_def using idle_commands(5) by simp

lemma idle_status [simp]: "idle (guest_tool g @ '' status '' @ x)"
  by (simp add: guest_tool_def)

text \<open>An operation that leaves everything as it is, as far as guests, clones and holds go.\<close>

abbreviation idles :: "host \<Rightarrow> 'a act \<Rightarrow> bool" where
  "idles h m \<equiv> does m (\<lambda>_ es. list_all (idle_event h) es)"

lemma idles_for_each: "(\<And>x. x \<in> set xs \<Longrightarrow> idles h (f x)) \<Longrightarrow> idles h (for_each f xs)"
  by (rule does_for_each_all)

lemma idles_bind: "idles h m \<Longrightarrow> (\<And>x. idles h (f x)) \<Longrightarrow> idles h (State_Monad.bind m f)"
  by (rule does_bind, assumption) (auto elim: does_weaken)

named_theorems idle_ops

lemma idles_return [idle_ops]: "idles h (State_Monad.return x)"
  by (rule does_return) simp

lemma idles_run [idle_ops]: "idle c \<Longrightarrow> idles h (run_command h c)"
  by (rule does_run) simp

lemma idles_say [idle_ops]: "idles h (say m f)"
  by (rule does_say) simp

lemma idles_config [idle_ops]: "idles h (read_guest_config h v g)"
  unfolding read_guest_config_def Let_def by (intro does_rules) auto

lemma idles_resolve: "idles h (resolve_disk h kv)"
  unfolding resolve_disk_def Let_def by (intro does_rules) auto

lemma idles_discover [idle_ops]: "idles h (discover_guest_disks h g t)"
  unfolding discover_guest_disks_def by (intro idles_bind idles_for_each idles_resolve idle_ops)

lemma idles_in_use [idle_ops]: "idles h (vmid_in_use h v)"
  unfolding vmid_in_use_def by (intro does_rules) auto

lemma idles_snapshots: "idles h (snapshots_newest_first h ds)"
  unfolding snapshots_newest_first_def by (intro does_rules) auto

lemma idles_missing [idle_ops]: "idles h (first_missing h s ds)"
proof (induction ds)
  case (Cons d ds)
  show ?case unfolding first_missing.simps by (intro idles_bind idles_snapshots does_if idle_ops Cons.IH)
qed (simp add: idle_ops)

lemma idles_next: "idles h (next_vmid h)"
  unfolding next_vmid_def by (intro does_rules) auto

lemma idles_suggest [idle_ops]: "idles h (suggest_vmid h v)"
  unfolding suggest_vmid_def Let_def by (intro does_if does_option idles_bind idles_next idle_ops)

lemma idles_new_vmid [idle_ops]: "idles h (create_new_vmid h n v)"
  unfolding create_new_vmid_def by (intro does_if idle_ops)

lemma idles_exists [idle_ops]: "idles h (dataset_exists h ds)"
  unfolding dataset_exists_def by (intro does_rules) auto

lemma idles_root [idle_ops]: "idles h (ensure_root h root)"
  unfolding ensure_root_def by (intro does_if idles_bind idle_ops) simp_all

lemma idles_tags [idle_ops]: "idles h (exclude_replication_tags h root)"
  unfolding exclude_replication_tags_def exclude_tag_def
  by (intro does_if idles_bind idles_for_each idle_ops) simp_all

lemma idles_announce [idle_ops]: "idles h (announce_excluded root tags)"
  unfolding announce_excluded_def by (intro does_if idle_ops)

lemma idles_storage_for [idle_ops]: "idles h (storage_for_root h root)"
  unfolding storage_for_root_def by (intro idles_bind idle_ops idle_literals)

lemma idles_node [idle_ops]: "idles h (read_node h)"
  unfolding read_node_def by (intro idles_bind idle_ops idle_hostname)

lemma idles_storage [idle_ops]: "idles h (ensure_storage h pool root)"
  unfolding ensure_storage_def Let_def by (intro does_if idles_bind idle_ops idle_add_storage)

lemma idles_restore [idle_ops]: "idles h (restore_guest_config h g v t force)"
  unfolding restore_guest_config_def Let_def by (intro does_rules) auto

lemma idles_holds_left [idle_ops]: "idles h (holds_left h ss)"
  unfolding holds_left_def still_held_def by (intro idles_bind idles_for_each idle_ops) simp_all


section \<open>What a creation leaves behind\<close>

definition clone_event :: "host \<Rightarrow> string \<Rightarrow> event \<Rightarrow> bool" where
  "clone_event h t e = (\<exists>d s g sz r. e = Ran h (clone_command d s t g sz @ '' 2>&1'') r \<and> cr_success r)"

definition ran_event :: "host \<Rightarrow> string \<Rightarrow> event \<Rightarrow> bool" where
  "ran_event h c e = (\<exists>r. e = Ran h c r)"

lemma ran_event_simps [simp]: "ran_event h c (Ran h' c' r) = (h' = h \<and> c' = c)" "\<not> ran_event h c (Said m f)"
  by (auto simp: ran_event_def)

definition cloned :: "host \<Rightarrow> event list \<Rightarrow> string \<Rightarrow> bool" where
  "cloned h es t = list_ex (clone_event h t) es"

definition destroyed :: "host \<Rightarrow> event list \<Rightarrow> string \<Rightarrow> bool" where
  "destroyed h es t = list_ex (ran_event h (volume_destroy t)) es"

definition released :: "host \<Rightarrow> event list \<Rightarrow> string \<Rightarrow> bool" where
  "released h es s = list_ex (ran_event h (release_command s)) es"

lemma seen_append [simp]:
  "cloned h (es @ fs) t \<longleftrightarrow> cloned h es t \<or> cloned h fs t"
  "destroyed h (es @ fs) t \<longleftrightarrow> destroyed h es t \<or> destroyed h fs t"
  "released h (es @ fs) s \<longleftrightarrow> released h es s \<or> released h fs s"
  by (simp_all add: cloned_def destroyed_def released_def)

text \<open>Before the clones exist: no destruction; a clone that was made is one of \<open>ts\<close>, a hold is on one of \<open>os\<close>.\<close>

definition before_event :: "host \<Rightarrow> string list \<Rightarrow> string list \<Rightarrow> event \<Rightarrow> bool" where
  "before_event h ss ts e = (case e of
     Ran h' c r \<Rightarrow> h' = h \<and> (idle c \<or> (\<exists>s \<in> set ss. c = hold_command s) \<or>
       (\<exists>d s t g sz. c = clone_command d s t g sz @ '' 2>&1'' \<and> (cr_success r \<longrightarrow> t \<in> set ts)))
   | _ \<Rightarrow> True)"

text \<open>Afterwards: nothing but the clones is destroyed, and nothing is cloned, held, started or stopped.\<close>

definition after_event :: "host \<Rightarrow> string list \<Rightarrow> event \<Rightarrow> bool" where
  "after_event h ts e = (case e of
     Ran h' c r \<Rightarrow> h' = h \<and> (idle c \<or> (\<exists>t \<in> set ts. c = volume_destroy t))
   | _ \<Rightarrow> True)"

definition undoes :: "create_result \<Rightarrow> string list \<Rightarrow> bool" where
  "undoes res ts = (\<exists>e. res = Undone e ts)"

definition gives_up :: "create_result \<Rightarrow> bool" where
  "gives_up res = (case res of Undone e us \<Rightarrow> True | Not_Made e \<Rightarrow> True | Not_Valid e \<Rightarrow> True | _ \<Rightarrow> False)"

text \<open>The history falls into two parts; \<open>ts\<close> are the datasets cloned in the first. If the creation gives up, they are
  destroyed in the second; otherwise nothing is destroyed.\<close>

definition creation_parts ::
  "host \<Rightarrow> string list \<Rightarrow> string list \<Rightarrow> create_result \<Rightarrow> event list \<Rightarrow> event list \<Rightarrow> bool" where
  "creation_parts h ss ts res a b =
     (list_all (before_event h ss ts) a \<and> list_all (\<lambda>t. cloned h a t) ts \<and> list_all (released h b) ss \<and>
      list_all (after_event h (if gives_up res then ts else [])) b \<and> (gives_up res \<longrightarrow> list_all (destroyed h b) ts) \<and>
      (\<forall>e us. res = Undone e us \<longrightarrow> us = ts))"

definition creation_post :: "host \<Rightarrow> create_result \<Rightarrow> event list \<Rightarrow> bool" where
  "creation_post h res es = (\<exists>a b ss ts. es = a @ b \<and> creation_parts h ss ts res a b)"

lemma before_simps [simp]:
  "before_event h ss ts (Said m f)"
  "(cr_success r \<longrightarrow> t \<in> set ts) \<Longrightarrow> before_event h ss ts (Ran h (clone_command d s t g sz @ '' 2>&1'') r)"
  "s \<in> set ss \<Longrightarrow> before_event h ss ts (Ran h (hold_command s) r)"
  by (simp_all add: before_event_def) blast+

lemma idle_before: "idle_event h e \<Longrightarrow> before_event h ss ts e"
  by (auto simp: before_event_def split: event.splits)

lemma idle_after: "idle_event h e \<Longrightarrow> after_event h ts e"
  by (auto simp: after_event_def split: event.splits)

lemma before_more: "list_all (before_event h [] ts) es \<Longrightarrow> list_all (before_event h ss ts) es"
  by (rule list.pred_mono_strong, assumption) (auto simp: before_event_def split: event.splits)

lemma after_said [simp]: "after_event h ts (Said m f)"
  by (simp add: after_event_def)

lemma said_nothing [simp]:
  "cloned h (Said m f # es) t = cloned h es t" "destroyed h (Said m f # es) t = destroyed h es t"
  "released h (Said m f # es) s = released h es s" "\<not> destroyed h [] t" "\<not> released h [] t"
  by (simp_all add: cloned_def destroyed_def released_def clone_event_def)

lemma idle_list:
  "list_all (idle_event h) es \<Longrightarrow> list_all (before_event h ss ts) es"
  "list_all (idle_event h) es \<Longrightarrow> list_all (after_event h ts) es"
  by (auto simp: list_all_iff idle_before idle_after)

lemma list_all_append_left: "list_all (\<lambda>t. P t) ts \<Longrightarrow> list_all (\<lambda>t. Q t \<or> P t) ts"
  by (simp add: list_all_iff)

lemma idle_all: "list_all (idle_event h) es \<Longrightarrow> list_all (before_event h ss ts) es \<and> list_all (after_event h us) es"
  by (auto simp: list_all_iff idle_before idle_after)

lemma creation_prefix:
  assumes "list_all (idle_event h) es" "creation_post h res fs"
  shows "creation_post h res (es @ fs)"
proof -
  from assms(2) obtain a b ss ts where "fs = a @ b" "creation_parts h ss ts res a b" unfolding creation_post_def by blast
  with idle_all [OF assms(1)] show ?thesis unfolding creation_post_def creation_parts_def
    by (rule_tac x = "es @ a" in exI, rule_tac x = b in exI, rule_tac x = ss in exI, rule_tac x = ts in exI) (simp, simp add: list_all_iff)
qed

lemma creation_bind:
  assumes "idles h m" and "\<And>x. does (f x) (creation_post h)"
  shows "does (State_Monad.bind m f) (creation_post h)"
  by (rule does_bind [OF assms(1)], rule does_weaken [OF assms(2)]) (rule creation_prefix)

lemma creation_stop:
  "does (State_Monad.return (Not_Made e)) (creation_post h)" "does (State_Monad.return (Not_Valid x)) (creation_post h)"
  by (auto intro!: does_return exI [of _ "[] :: string list"] simp: creation_post_def creation_parts_def)

lemma does_destroy_quietly:
  "does (destroy_quietly h ts) (\<lambda>_ es. list_all (after_event h ts) es \<and> list_all (destroyed h es) ts)"
proof -
  have "does (for_each (\<lambda>ds. run_command h (volume_destroy ds)) us)
    (\<lambda>_ es. \<forall>ts. set us \<subseteq> set ts \<longrightarrow> list_all (after_event h ts) es \<and> list_all (destroyed h es) us)" for us
  proof (induction us)
    case Nil
    show ?case by (auto intro: does_return)
  next
    case (Cons u us)
    have one: "does (run_command h (volume_destroy u)) (\<lambda>_ es. \<exists>r. es = [Ran h (volume_destroy u) r])"
      by (rule does_run) simp
    show ?case unfolding for_each.simps
      by (rule does_bind [OF one], rule does_bind [OF Cons.IH], rule does_return)
        (auto simp: after_event_def destroyed_def list_all_iff list_ex_iff)
  qed
  from this [of "rev ts"] show ?thesis unfolding destroy_quietly_def
    by (rule does_weaken) (auto dest: spec [of _ ts])
qed

text \<open>The loop over the disks: what it clones it has in its state when it ends, and if a clone fails all of it is
  destroyed again.\<close>

definition clone_post ::
  "host \<Rightarrow> string list \<Rightarrow> clone_state \<times> clone_outcome \<Rightarrow> event list \<Rightarrow> bool" where
  "clone_post h old out es = (\<exists>a b new. es = a @ b \<and> cl_created (fst out) = old @ new \<and>
     list_all (before_event h [] (old @ new)) a \<and> list_all (cloned h a) new \<and>
     (case snd out of
        Clone_Failed e \<Rightarrow> list_all (after_event h (old @ new)) b \<and> list_all (destroyed h b) (old @ new)
      | _ \<Rightarrow> b = []))"

lemma clones_not_idle: "\<not> idle (clone_command d s t g sz @ x)" "\<not> idle (hold_command s)" "\<not> idle (volume_destroy s)"
  by (simp_all add: idle_defs clone_command_def hold_command_def volume_destroy_def)

lemma does_clone_disks:
  "does (clone_disks h root storage n snap g sizes st ds) (clone_post h (cl_created st))"
proof (induction ds arbitrary: st)
  case Nil
  show ?case unfolding clone_disks.simps
    by (rule does_return) (auto simp: clone_post_def intro: exI [of _ "[] :: string list"])
next
  case (Cons d ds)
  have bad: "clone_post h (cl_created st) (st, Bad_Volume e) []" for e
    by (auto simp: clone_post_def)
  have fail: "clone_post h (cl_created st) (st, Clone_Failed e) (Said x f # Ran h (clone_command u v t w z @ '' 2>&1'') r # es)"
    if "\<not> cr_success r" "list_all (after_event h (cl_created st)) es \<and> list_all (destroyed h es) (cl_created st)"
    for e x f u v t w z r es
    unfolding clone_post_def
    by (rule exI [of _ "[Said x f, Ran h (clone_command u v t w z @ '' 2>&1'') r]"], rule exI [of _ es], rule exI [of _ "[]"])
      (use that in auto)
  have step: "clone_post h (cl_created st) out (Said x f # Ran h (clone_command u v t w z @ '' 2>&1'') r # es)"
    if "cr_success r" "clone_post h (cl_created st @ [t]) out es" for x f u v t w z r es out
  proof -
    from that(2) obtain a b new where p: "es = a @ b" "cl_created (fst out) = (cl_created st @ [t]) @ new"
      "list_all (before_event h [] ((cl_created st @ [t]) @ new)) a" "list_all (cloned h a) new"
      "case snd out of Clone_Failed e \<Rightarrow> list_all (after_event h ((cl_created st @ [t]) @ new)) b \<and>
         list_all (destroyed h b) ((cl_created st @ [t]) @ new) | _ \<Rightarrow> b = []"
      unfolding clone_post_def by blast
    let ?a = "Said x f # Ran h (clone_command u v t w z @ '' 2>&1'') r # a"
    have "list_all (cloned h ?a) (t # new)" using p(4) that(1)
      by (auto simp: list_all_iff cloned_def clone_event_def)
    moreover have "list_all (before_event h [] (cl_created st @ t # new)) ?a" using p(3) by auto
    ultimately show ?thesis unfolding clone_post_def using p(1,2,5)
      by (rule_tac x = ?a in exI, rule_tac x = b in exI, rule_tac x = "t # new" in exI) (simp split: clone_outcome.splits)
  qed
  show ?case unfolding clone_disks.simps Let_def
    by (intro does_sum does_say_bind does_run_bind does_if does_bind [OF does_destroy_quietly] does_return bad
        does_weaken [OF Cons.IH]; simp add: fail step)
qed


lemma does_release_holds:
  "does (release_holds h ss) (\<lambda>_ es. list_all (idle_event h) es \<and> list_all (released h es) ss)"
proof -
  have one: "does (for_each (\<lambda>s. run_command h (release_command s)) ss)
    (\<lambda>_ es. list_all (idle_event h) es \<and> list_all (released h es) ss)" for ss
  proof (induction ss)
    case Nil
    show ?case by (auto intro: does_return)
  next
    case (Cons s ss)
    have s: "does (run_command h (release_command s)) (\<lambda>_ es. \<exists>r. es = [Ran h (release_command s) r])"
      by (rule does_run) simp
    show ?case unfolding for_each.simps
      by (rule does_bind [OF s], rule does_bind [OF Cons.IH], rule does_return)
        (auto simp: released_def list_all_iff list_ex_iff)
  qed
  show ?thesis unfolding release_holds_def
    by (rule does_bind [OF one], rule does_weaken [OF idles_holds_left]) (auto simp: list_all_iff [of "released h es" for es] Ball_def)
qed

lemma does_release_origins:
  "does (release_origins h ss) (\<lambda>_ es. list_all (idle_event h) es \<and> list_all (released h es) ss)"
  unfolding release_origins_def
  by (intro does_bind [OF does_release_holds] does_bind [of _ "\<lambda>_ es. list_all (idle_event h) es"] does_return does_if does_say)
    (auto simp: list_all_iff Ball_def)

lemma does_hold:
  "does (for_each (\<lambda>s. run_command h (hold_command s)) us) (\<lambda>_ es. \<forall>ss ts. set us \<subseteq> set ss \<longrightarrow> list_all (before_event h ss ts) es)"
proof (induction us)
  case Nil
  show ?case by (auto intro: does_return)
next
  case (Cons u us)
  have one: "does (run_command h (hold_command u)) (\<lambda>_ es. \<exists>r. es = [Ran h (hold_command u) r])"
    by (rule does_run) simp
  show ?case unfolding for_each.simps
    by (rule does_bind [OF one], rule does_bind [OF Cons.IH], rule does_return) auto
qed

text \<open>The last part: the configuration, and what is undone if it cannot be written.\<close>

lemma does_write_config:
  "does (write_clone_config u now h c sid st held tags) (\<lambda>res es.
     list_all (after_event h (if gives_up res then cl_created st else [])) es \<and>
     (gives_up res \<longrightarrow> list_all (destroyed h es) (cl_created st)) \<and> (\<forall>e us. res = Undone e us \<longrightarrow> us = cl_created st))"
  unfolding write_clone_config_def
  by (intro does_say_bind does_bind [OF idles_restore] does_if does_bind [OF does_destroy_quietly] does_return)
    (auto simp: gives_up_def idle_list list_all_iff [of "destroyed h es" for es] Ball_def)


lemma does_under_holds:
  "does (clone_under_holds u now h c sid tags) (creation_post h)"
proof -
  let ?os = "origins_of c"
  have clones: "does (clone_disks h root s n snap g sizes \<lparr>cl_created = [], cl_map = []\<rparr> ds) (clone_post h [])"
    for root s n snap g sizes ds
    using does_clone_disks [of h root s n snap g sizes "\<lparr>cl_created = [], cl_map = []\<rparr>" ds] by simp
  have stop: "creation_post h res (es @ fs @ gs @ [])"
    if "\<forall>ss ts. set ?os \<subseteq> set ss \<longrightarrow> list_all (before_event h ss ts) es" "clone_post h [] (st, out) fs"
      "list_all (idle_event h) gs \<and> list_all (released h gs) ?os"
      "(\<exists>e. out = Clone_Failed e \<and> res = Undone e (cl_created st)) \<or> (\<exists>e. out = Bad_Volume e \<and> res = Clone_Crashed e)"
    for res es fs gs st out
  proof -
    from that(2) obtain a b where ab: "fs = a @ b" "list_all (before_event h [] (cl_created st)) a" "list_all (cloned h a) (cl_created st)"
      "case out of Clone_Failed e \<Rightarrow> list_all (after_event h (cl_created st)) b \<and> list_all (destroyed h b) (cl_created st) | _ \<Rightarrow> b = []"
      unfolding clone_post_def by (simp only: append_Nil fst_conv snd_conv) blast
    have "list_all (before_event h ?os (cl_created st)) (es @ a)"
      using that(1) [THEN spec, THEN spec] before_more [OF ab(2)] by auto
    then have "creation_parts h ?os (cl_created st) res (es @ a) (b @ gs)"
      unfolding creation_parts_def using ab(3,4) that(3,4)
      by (auto simp: gives_up_def idle_list list_all_iff [of "destroyed h es" for es] list_all_iff [of "cloned h es" for es]
          list_all_iff [of "released h es" for es] Ball_def)
    with ab(1) show ?thesis unfolding creation_post_def
      by (rule_tac x = "es @ a" in exI, rule_tac x = "b @ gs" in exI, rule_tac x = ?os in exI, rule_tac x = "cl_created st" in exI) simp
  qed
  have go: "creation_post h res (es @ fs @ gs @ ks)"
    if "\<forall>ss ts. set ?os \<subseteq> set ss \<longrightarrow> list_all (before_event h ss ts) es" "clone_post h [] (st, Cloned) fs"
      "list_all (idle_event h) gs \<and> list_all (released h gs) ?os"
      "list_all (after_event h (if gives_up res then cl_created st else [])) ks \<and>
       (gives_up res \<longrightarrow> list_all (destroyed h ks) (cl_created st)) \<and> (\<forall>e us. res = Undone e us \<longrightarrow> us = cl_created st)"
    for res es fs gs ks st
  proof -
    from that(2) have fs: "list_all (before_event h [] (cl_created st)) fs" "list_all (cloned h fs) (cl_created st)"
      unfolding clone_post_def by auto
    have "list_all (before_event h ?os (cl_created st)) (es @ fs)"
      using that(1) [THEN spec, THEN spec] before_more [OF fs(1)] by auto
    then have "creation_parts h ?os (cl_created st) res (es @ fs) (gs @ ks)"
      unfolding creation_parts_def using fs(2) that(3,4)
      by (auto simp: idle_list list_all_iff [of "destroyed h es" for es] list_all_iff [of "cloned h es" for es]
          list_all_iff [of "released h es" for es] Ball_def)
    then show ?thesis unfolding creation_post_def
      by (rule_tac x = "es @ fs" in exI, rule_tac x = "gs @ ks" in exI, rule_tac x = ?os in exI, rule_tac x = "cl_created st" in exI) simp
  qed
  show ?thesis unfolding clone_under_holds_def
    apply (rule does_bind [OF does_hold])
    apply (rule does_bind [OF clones])
    apply (rule does_prod, hypsubst)
    apply (rule does_bind [OF does_release_origins])
    subgoal for _ es _ fs st out _ gs
    proof (cases out)
      case Cloned
      assume "\<forall>ss ts. set ?os \<subseteq> set ss \<longrightarrow> list_all (before_event h ss ts) es" "clone_post h [] (st, out) fs"
        "list_all (idle_event h) gs \<and> list_all (released h gs) ?os"
      then show ?thesis unfolding Cloned clone_outcome.case by (intro does_weaken [OF does_write_config] go)
    qed (auto intro!: does_return stop)
    done
qed

lemma does_create_checked: "does (create_checked u now h c) (creation_post h)"
  unfolding create_checked_def Let_def
  by (intro creation_bind does_option does_sum creation_stop does_under_holds idle_ops)

lemma does_create_numbered: "does (create_numbered u now h n c) (creation_post h)"
  unfolding create_numbered_def Let_def
  by (intro creation_bind does_option does_sum does_if creation_stop does_create_checked idle_ops)

lemma does_create_job: "does (create_job u now h v g s n) (creation_post h)"
  unfolding create_job_def Let_def
  by (intro creation_bind does_option does_sum does_if does_prod creation_stop does_create_numbered idle_ops)

lemma after_destroys:
  "after_event h ts (Ran h' c r) \<Longrightarrow> destructive c \<Longrightarrow> h' = h \<and> (\<exists>t \<in> set ts. c = volume_destroy t)"
  by (auto simp: after_event_def idle_def)

lemma before_no_destroy: "before_event h ss ts (Ran h' c r) \<Longrightarrow> \<not> destructive c"
  by (auto simp: before_event_def idle_def destructive_def starts_with_def clone_command_def hold_command_def)

lemma creation_starts_nothing:
  "before_event h ss ts (Ran h' c r) \<or> after_event h ts (Ran h' c r) \<Longrightarrow> \<not> starts_guest c \<and> \<not> stops_guest c"
  by (auto simp: before_event_def after_event_def idle_def starts_guest_def stops_guest_def starts_with_def clone_command_def
      hold_command_def volume_destroy_def)

text \<open>C15: Whatever the host answers, the creation of a guest from a snapshot starts and stops no guest, and the only
  datasets that it destructive are those that it has itself cloned before, in the same run.\<close>

theorem creation_spares_the_rest:
  assumes "Ran h' c r \<in> set (history_of (create_job u now h v g s n) w)"
  shows "h' = h \<and> \<not> starts_guest c \<and> \<not> stops_guest c \<and> (destructive c \<longrightarrow>
    (\<exists>t a b. history_of (create_job u now h v g s n) w = a @ b \<and> c = volume_destroy t \<and> cloned h a t \<and> Ran h' c r \<in> set b))"
proof -
  let ?es = "history_of (create_job u now h v g s n) w" and ?res = "result_of (create_job u now h v g s n) w"
  from does_outcome [OF does_create_job [of u now h v g s n], of w] obtain a b ss ts where
    es: "?es = a @ b" and p: "creation_parts h ss ts ?res a b" unfolding creation_post_def by blast
  let ?ts = "if gives_up ?res then ts else []"
  from p have ev: "\<forall>e \<in> set a. before_event h ss ts e" "\<forall>e \<in> set b. after_event h ?ts e" and cl: "\<forall>t \<in> set ts. cloned h a t"
    unfolding creation_parts_def by (auto simp: list_all_iff)
  from assms es consider (a) "Ran h' c r \<in> set a" | (b) "Ran h' c r \<in> set b" by auto
  then show ?thesis
  proof cases
    case a
    with ev(1) have e: "before_event h ss ts (Ran h' c r)" by blast
    then have "h' = h" by (simp add: before_event_def)
    with before_no_destroy [OF e] creation_starts_nothing [OF disjI1, OF e] show ?thesis by simp
  next
    case b
    with ev(2) have e: "after_event h ?ts (Ran h' c r)" by blast
    have "\<exists>t \<in> set ts. c = volume_destroy t" if "destructive c" using after_destroys [OF e that] by (auto split: if_splits)
    moreover from e have "h' = h" by (simp add: after_event_def)
    ultimately show ?thesis using es cl b creation_starts_nothing [OF disjI2, OF e] by blast
  qed
qed


text \<open>C16: If a creation fails, every dataset that it has cloned is destroyed again and reported as undone; if the request is
  refused, nothing has been cloned.\<close>

theorem failed_creation_is_undone:
  assumes "gives_up (result_of (create_job u now h v g s n) w)"
  shows "\<exists>ts. (\<forall>e us. result_of (create_job u now h v g s n) w = Undone e us \<longrightarrow> us = ts) \<and>
    (\<forall>h' c r. Ran h' c r \<in> set (history_of (create_job u now h v g s n) w) \<and> clones c \<and> cr_success r \<longrightarrow>
       (\<exists>d k t y sz. c = clone_command d k t y sz @ '' 2>&1'' \<and> t \<in> set ts)) \<and>
    (\<forall>t \<in> set ts. destroyed h (history_of (create_job u now h v g s n) w) t)"
proof -
  let ?es = "history_of (create_job u now h v g s n) w" and ?res = "result_of (create_job u now h v g s n) w"
  from does_outcome [OF does_create_job [of u now h v g s n], of w] obtain a b ss ts where
    es: "?es = a @ b" and p: "creation_parts h ss ts ?res a b" unfolding creation_post_def by blast
  from p assms have ev: "\<forall>e \<in> set a. before_event h ss ts e" "\<forall>e \<in> set b. after_event h ts e"
    and d: "\<forall>t \<in> set ts. destroyed h b t" and u: "\<forall>e us. ?res = Undone e us \<longrightarrow> us = ts"
    unfolding creation_parts_def by (auto simp: list_all_iff)
  have cl: "\<exists>d k t y sz. c = clone_command d k t y sz @ '' 2>&1'' \<and> t \<in> set ts"
    if "Ran h' c r \<in> set ?es" "clones c" "cr_success r" for h' c r
  proof -
    have "Ran h' c r \<in> set a"
    proof (rule ccontr)
      assume "Ran h' c r \<notin> set a"
      with that(1) es ev(2) have "after_event h ts (Ran h' c r)" by auto
      with that(2) show False by (auto simp: after_event_def idle_def clones_def volume_destroy_def starts_with_def)
    qed
    with ev(1) have "before_event h ss ts (Ran h' c r)" by blast
    with that(2,3) show ?thesis by (auto simp: before_event_def idle_def clones_def hold_command_def starts_with_def)
  qed
  have "\<forall>t \<in> set ts. destroyed h ?es t" using d es by simp
  with u cl show ?thesis by blast
qed

text \<open>C17: Every hold that a creation places on a snapshot is released later on, however the creation ends.\<close>

theorem holds_are_released:
  assumes "history_of (create_job u now h v g s n) w = a @ Ran h' c r # b" and "holds c"
  shows "\<exists>o1. c = hold_command o1 \<and> released h b o1"
proof -
  let ?es = "history_of (create_job u now h v g s n) w" and ?res = "result_of (create_job u now h v g s n) w"
  from does_outcome [OF does_create_job [of u now h v g s n], of w] obtain p q ss ts where
    es: "?es = p @ q" and parts: "creation_parts h ss ts ?res p q" unfolding creation_post_def by blast
  let ?ts = "if gives_up ?res then ts else []"
  from parts have ev: "\<forall>e \<in> set p. before_event h ss ts e" "\<forall>e \<in> set q. after_event h ?ts e"
    and rel: "\<forall>x \<in> set ss. released h q x" unfolding creation_parts_def by (auto simp: list_all_iff)
  have "\<not> after_event h ?ts (Ran h' c r)" using assms(2)
    by (auto simp: after_event_def idle_def holds_def volume_destroy_def starts_with_def)
  with ev(2) have nq: "Ran h' c r \<notin> set q" by blast
  from assms(1) es have "a @ Ran h' c r # b = p @ q" by simp
  then obtain z where "(a @ z = p \<and> Ran h' c r # b = z @ q) \<or> (a = p @ z \<and> z @ Ran h' c r # b = q)"
    unfolding append_eq_append_conv2 by blast
  with nq obtain y where z: "p = a @ Ran h' c r # y" "b = y @ q" by (cases z) auto
  with ev(1) have "before_event h ss ts (Ran h' c r)" by simp
  with assms(2) obtain x where "x \<in> set ss" "c = hold_command x"
    by (auto simp: before_event_def idle_def holds_def clone_command_def starts_with_def)
  with rel z(2) show ?thesis by auto
qed

section \<open>Removing\<close>

text \<open>What a removal may do once the configuration has been read: \<open>vmid\<close> and \<open>gtype\<close> are the guest it was asked to remove.\<close>

definition removal_event :: "host \<Rightarrow> string \<Rightarrow> string \<Rightarrow> event \<Rightarrow> bool" where
  "removal_event h vmid gtype e = (case e of
     Ran h' c r \<Rightarrow> h' = h \<and> (idle c \<or> c = guest_tool gtype @ '' stop '' @ vmid @ '' 2>&1'' \<or> c = guest_destroy_command gtype vmid \<or>
       (\<exists>ds. c = volume_destroy ds \<and> in_recovery_root ds))
   | _ \<Rightarrow> True)"

abbreviation removes :: "host \<Rightarrow> string \<Rightarrow> string \<Rightarrow> 'a act \<Rightarrow> bool" where
  "removes h vmid gtype m \<equiv> does m (\<lambda>_ es. list_all (removal_event h vmid gtype) es)"

lemma idle_removal: "idle_event h e \<Longrightarrow> removal_event h v g e"
  by (auto simp: removal_event_def split: event.splits)

lemma removes_idle: "idles h m \<Longrightarrow> removes h v g m"
  by (erule does_weaken) (auto simp: list_all_iff idle_removal)

lemma removes_bind: "removes h v g m \<Longrightarrow> (\<And>x. removes h v g (f x)) \<Longrightarrow> removes h v g (State_Monad.bind m f)"
  by (rule does_bind, assumption) (auto elim: does_weaken)

lemma removes_run:
  "c = guest_tool g @ '' stop '' @ v @ '' 2>&1'' \<or> c = guest_destroy_command g v \<or> (\<exists>ds. c = volume_destroy ds \<and> in_recovery_root ds) \<Longrightarrow>
   removes h v g (run_command h c)"
  by (rule does_run) (auto simp: removal_event_def)

lemma removes_stop: "removes h v g (stop_if_running h g v)"
  unfolding stop_if_running_def
  by (intro removes_bind does_if removes_idle [OF idles_run [OF idle_status]] removes_run removes_idle [OF idles_say] removes_idle [OF idles_return]) simp_all

lemma idles_report: "idles h (report_removal h os mk)"
  unfolding report_removal_def Let_def clones_of_snapshot_def
  by (intro idles_bind does_if idles_for_each does_weaken [OF does_release_holds] idle_ops) simp_all

lemma idles_origin: "idles h (origin_of h ds)"
  unfolding origin_of_def Let_def by (intro does_rules) auto

text \<open>The leftovers are disks of the guest.\<close>

lemma does_leftovers:
  "does (for_each (\<lambda>d. leftover_of h (dk_dataset d)) ds) (\<lambda>ls es. list_all (idle_event h) es \<and>
     set (List.map_filter id ls) \<subseteq> dk_dataset ` set ds)"
proof (induction ds)
  case Nil
  show ?case by (auto intro: does_return simp: List.map_filter_def)
next
  case (Cons d ds)
  have one: "does (leftover_of h (dk_dataset d)) (\<lambda>l es. list_all (idle_event h) es \<and> (l = None \<or> l = Some (dk_dataset d)))"
    unfolding leftover_of_def by (rule does_bind [OF idles_exists], rule does_return) simp
  show ?case unfolding for_each.simps
    by (rule does_bind [OF one], rule does_bind [OF Cons.IH], rule does_return) (auto simp: List.map_filter_simps)
qed

lemma removes_guest:
  assumes "\<forall>d \<in> set disks. in_recovery_root (dk_dataset d)"
  shows "removes h v g (remove_guest h v g disks mk)"
proof -
  have left: "removes h v g (for_each (destroy_leftover h) (List.map_filter id ls))"
    if "set (List.map_filter id ls) \<subseteq> dk_dataset ` set disks" for ls
    unfolding destroy_leftover_def
    by (intro does_for_each_all removes_bind removes_idle [OF idles_say] removes_run) (use that assms in auto)
  have step: "removes h v g (State_Monad.bind (for_each (\<lambda>d. leftover_of h (dk_dataset d)) disks)
      (\<lambda>ls. State_Monad.bind (for_each (destroy_leftover h) (List.map_filter id ls)) (\<lambda>_. report_removal h os mk)))" for os
    by (rule does_bind [OF does_leftovers], rule does_weaken [OF removes_bind [OF left removes_idle [OF idles_report]]])
      (auto simp: list_all_iff idle_removal)
  show ?thesis unfolding remove_guest_def
    by (intro removes_bind does_if step removes_stop removes_run removes_idle [OF idles_say] removes_idle [OF idles_return]
        removes_idle [OF idles_for_each] idles_origin) simp
qed


text \<open>The marker was read before anything else was done.\<close>

definition marked_first :: "host \<Rightarrow> string \<Rightarrow> string \<Rightarrow> event list \<Rightarrow> bool" where
  "marked_first h vmid gtype es = (\<exists>r rest.
     es = Ran h (''cat '' @ shell_quote (config_path gtype vmid) @ '' 2>/dev/null'') r # rest \<and>
     cr_success r \<and> parse_marker (cr_stdout r) \<noteq> None \<and> list_all (removal_event h vmid gtype) rest)"

lemma does_read_config:
  assumes "validate_vmid v = Inr vmid"
  shows "does (read_guest_config h vmid gtype) (\<lambda>res es. list_all (idle_event h) es \<and> (\<forall>t p. res = Inr (t, p) \<longrightarrow>
    (\<exists>r. es = [Ran h (''cat '' @ shell_quote (config_path gtype vmid) @ '' 2>/dev/null'') r] \<and> cr_success r \<and> cr_stdout r = t)))"
  unfolding read_guest_config_def vmid.accepted_again [OF assms] Let_def sum.case by (intro does_rules) auto

lemma does_destroy_job:
  "does (destroy_job h v g) (\<lambda>_ es. list_all (idle_event h) es \<or>
     (\<exists>vmid gtype. validate_vmid v = Inr vmid \<and> validate_vm_type g = Inr gtype \<and> marked_first h vmid gtype es))"
proof -
  have rest: "marked_first h vmid gtype (es @ fs @ gs)"
    if "\<exists>r. es = [Ran h (''cat '' @ shell_quote (config_path gtype vmid) @ '' 2>/dev/null'') r] \<and> cr_success r \<and> cr_stdout r = t"
      "parse_marker t \<noteq> None" "list_all (idle_event h) fs" "list_all (removal_event h vmid gtype) gs" for vmid gtype es fs gs t
    using that unfolding marked_first_def by (auto simp: list_all_iff idle_removal)
  show ?thesis unfolding destroy_job_def
    apply (rule does_sum, simp add: does_return)
    apply (rule does_sum, simp add: does_return)
    subgoal premises v for vmid gtype
    proof (rule does_bind [OF does_read_config [OF v(1)]], rule does_sum, simp add: does_return)
      fix cfg es p
      assume cfg: "list_all (idle_event h) es \<and> (\<forall>t p. cfg = Inr (t, p) \<longrightarrow>
        (\<exists>r. es = [Ran h (''cat '' @ shell_quote (config_path gtype vmid) @ '' 2>/dev/null'') r] \<and> cr_success r \<and> cr_stdout r = t))"
        and p: "cfg = Inr p"
      show "does (case p of (content, path) \<Rightarrow> case parse_marker content of
          None \<Rightarrow> State_Monad.return (Destroy_Refused (''VMID '' @ vmid @ '' is not a snapshot clone (no '' @ MARKER @ '' marker) -- refusing''))
        | Some mk \<Rightarrow> do {
            (disks, unresolved) \<leftarrow> discover_guest_disks h gtype content;
            if unresolved \<noteq> [] then State_Monad.return (Destroy_Refused (''a disk does not resolve: ''
              @ join '', '' (map snd unresolved) @ '' -- refusing''))
            else (case List.find (\<lambda>d. \<not> in_recovery_root (dk_dataset d)) disks of
                Some d \<Rightarrow> State_Monad.return (Destroy_Refused (dk_dataset d @ '' is not under a recovery root -- refusing''))
              | None \<Rightarrow> remove_guest h vmid gtype disks mk) })
        (\<lambda>_ fs. list_all (idle_event h) (es @ fs) \<or>
          (\<exists>vmid gtype. validate_vmid v = Inr vmid \<and> validate_vm_type g = Inr gtype \<and> marked_first h vmid gtype (es @ fs)))"
        apply (intro does_prod does_option does_bind [OF idles_discover] does_if does_return)
        using cfg apply simp
        using cfg apply simp
         apply (rule does_weaken [OF removes_guest])
        using cfg p v by (auto simp: find_None_iff intro!: rest)
    qed
    done
qed


section \<open>A creation and a removal in full\<close>

text \<open>Container 1 has a disk with a snapshot; container 9 is a copy. Nothing can be written to the configuration file system.\<close>

definition ex_answers :: "(string \<times> cmd_result) list" where
  "ex_answers = [
    (''cat /etc/pve/lxc/1.conf'', cmd_ok ''rootfs: t:subvol-1-disk-0''),
    (''cat /etc/pve/lxc/9.conf'', cmd_ok (''#pve-zfs-tool-clone origin=1'' @ [newline] @ ''rootfs: c:subvol-9-disk-0'')),
    (''pvesm path t:'', cmd_ok ''/t/subvol-1-disk-0''),
    (''pvesm path c:'', cmd_ok ''/t/clone/subvol-9-disk-0''),
    (''zfs list -H -o name,used t/subvol-1-disk-0'', cmd_ok (''t/subvol-1-disk-0'' @ [tab] @ ''1G'')),
    (''zfs list -H -o name,used t/clone'', cmd_ok (''t/clone/subvol-9-disk-0'' @ [tab] @ ''1G'')),
    (''zfs list -H -o name -t snapshot'', cmd_ok ''t/subvol-1-disk-0@s''),
    (''zfs list -H -o name t/clone 2'', cmd_ok ''t/clone''),
    (''cat /etc/pve/storage.cfg'', cmd_ok (''zfspool: c'' @ [newline] @ '' pool t/clone'')),
    (''zfs clone'', cmd_ok []), (''zfs hold '', cmd_ok []), (''pct destroy'', cmd_ok [])]"

definition ex_node :: host where "ex_node = plain_host ''pve1'' ''10.0.0.1''"

definition ex_world :: world where "ex_world = fresh (answer_by ex_answers)"

abbreviation ex_create :: "create_result act" where
  "ex_create \<equiv> create_job (''u1'', ''u2'') (ex_time 10) ex_node (VStr ''1'') (VStr ''lxc'') ''s'' ''9''"

abbreviation ex_remove :: "destroy_result act" where
  "ex_remove \<equiv> destroy_job ex_node (VStr ''9'') (VStr ''lxc'')"

lemma history_fresh: "history_of m ex_world = w_log (snd (run_state m ex_world))"
  by (simp add: history_of_def ex_world_def fresh_def)

lemma ex_create_runs:
  "case run_state ex_create ex_world of (res, w) \<Rightarrow> gives_up res \<and> 13 < length (w_log w) \<and>
     Ran ex_node ''zfs destroy t/clone/subvol-9-disk-0 2>&1'' (cmd_fail ''unknown command'') \<in> set (w_log w) \<and>
     list_ex (\<lambda>n. w_log w ! n = Ran ex_node (hold_command ''t/subvol-1-disk-0@s'') (cmd_ok [])) [0..<14]"
  by code_simp

lemma ex_remove_runs:
  "Ran ex_node ''pct destroy 9 --purge 2>&1'' (cmd_ok []) \<in> set (w_log (snd (run_state ex_remove ex_world)))"
  by code_simp

theorem creation_spares_the_rest_witness:
  "\<exists>t a b. history_of ex_create ex_world = a @ b \<and> ''zfs destroy t/clone/subvol-9-disk-0 2>&1'' = volume_destroy t \<and> cloned ex_node a t \<and>
     Ran ex_node ''zfs destroy t/clone/subvol-9-disk-0 2>&1'' (cmd_fail ''unknown command'') \<in> set b"
proof -
  have "Ran ex_node ''zfs destroy t/clone/subvol-9-disk-0 2>&1'' (cmd_fail ''unknown command'') \<in> set (history_of ex_create ex_world)"
    unfolding history_fresh using ex_create_runs by (cases "run_state ex_create ex_world") simp
  moreover have "destructive ''zfs destroy t/clone/subvol-9-disk-0 2>&1''" by code_simp
  ultimately show ?thesis by (intro creation_spares_the_rest [THEN conjunct2, THEN conjunct2, THEN conjunct2, THEN mp])
qed

theorem failed_creation_is_undone_witness:
  "\<exists>ts. (\<forall>e us. result_of ex_create ex_world = Undone e us \<longrightarrow> us = ts) \<and>
    (\<forall>h' c r. Ran h' c r \<in> set (history_of ex_create ex_world) \<and> clones c \<and> cr_success r \<longrightarrow>
       (\<exists>d k t y sz. c = clone_command d k t y sz @ '' 2>&1'' \<and> t \<in> set ts)) \<and>
    (\<forall>t \<in> set ts. destroyed ex_node (history_of ex_create ex_world) t)"
proof -
  have "gives_up (result_of ex_create ex_world)" unfolding result_of_def using ex_create_runs by (cases "run_state ex_create ex_world") simp
  then show ?thesis by (rule failed_creation_is_undone)
qed

theorem holds_are_released_witness:
  "\<exists>n o1. hold_command ''t/subvol-1-disk-0@s'' = hold_command o1 \<and> released ex_node (drop (Suc n) (history_of ex_create ex_world)) o1"
proof -
  from ex_create_runs obtain n where "n < 14" "13 < length (history_of ex_create ex_world)"
    and n: "history_of ex_create ex_world ! n = Ran ex_node (hold_command ''t/subvol-1-disk-0@s'') (cmd_ok [])"
    unfolding history_fresh by (cases "run_state ex_create ex_world") (auto simp: list_ex_iff)
  then have l: "n < length (history_of ex_create ex_world)" by linarith
  have "history_of ex_create ex_world = take n (history_of ex_create ex_world) @
      Ran ex_node (hold_command ''t/subvol-1-disk-0@s'') (cmd_ok []) # drop (Suc n) (history_of ex_create ex_world)"
    using id_take_nth_drop [OF l] unfolding n .
  moreover have "holds (hold_command ''t/subvol-1-disk-0@s'')" by code_simp
  ultimately show ?thesis by (intro exI [of _ n] holds_are_released)
qed


text \<open>A disk whose name is not of the usual form stops the loop in the middle: what was cloned before it stays.\<close>

lemma odd_volume_keeps_clones:
  assumes "clone_volume_name (dk_dataset d) n = Inl e"
  shows "run_state (clone_disks h root sid n snap g sizes st (d # ds)) w = ((st, Bad_Volume e), w)"
  using assms by (simp add: State_Monad.return_def)

end
