(* ===== verification/RecoveryMarker.thy ===== *)
theory RecoveryMarker
  imports RecoveryGuest MigrateNaming Validators
begin

text \<open>
  The marker that the creation writes is the one the removal reads, and the name proposed for the storage of the
  clones is one that the storage configuration accepts.
\<close>

section \<open>Fields of the form name=value\<close>

lemma plus_first:
  assumes "u \<noteq> []" "list_all P u" "v = [] \<or> \<not> P (hd v)"
  shows "\<exists>ts. steps (plus (Ch P)) (b, u @ v, g) = (rev u @ b, v, g) # ts"
proof (cases u)
  case (Cons c w)
  with assms(2) have c: "P c" "list_all P w" by auto
  from star_ch_first [OF c(2) assms(3), of "c # b" g] obtain ts where
    "steps (Star (Ch P)) (c # b, w @ v, g) = (rev w @ c # b, v, g) # ts" by blast
  with Cons c(1) show ?thesis by (simp add: plus_def)
qed (use assms in simp)

lemma plus_in:
  assumes "t \<in> set (steps (plus (Ch P)) (b, s, g))"
  shows "\<exists>u v. s = u @ v \<and> u \<noteq> [] \<and> list_all P u \<and> t = (rev u @ b, v, g)"
proof (cases s)
  case (Cons c s')
  with assms have c: "P c" "t \<in> set (steps (Star (Ch P)) (c # b, s', g))" by (auto simp: plus_def split: if_splits)
  then obtain u v where "s' = u @ v" "list_all P u" "t = (rev u @ c # b, v, g)" unfolding set_steps_star_ch by blast
  with Cons c(1) show ?thesis by (intro exI [of _ "c # u"] exI [of _ v]) simp
qed (use assms in \<open>simp add: plus_def\<close>)

lemma field_none:
  assumes "list_all word_char w" and "t = [] \<or> \<not> word_char (hd t)" and "t = [] \<or> hd t \<noteq> CHR ''=''"
  shows "steps FIELD_RE (b, w @ t, g) = []"
proof (rule ccontr)
  assume "steps FIELD_RE (b, w @ t, g) \<noteq> []"
  then obtain x where x: "x \<in> set (steps (plus (Ch word_char)) (b, w @ t, g))"
    and y: "steps (Seq (chr CHR ''='') (Grp 2 (plus (Ch (\<lambda>c. \<not> is_space c))))) (close_group 1 (w @ t) x) \<noteq> []"
    unfolding FIELD_RE_def seqs.simps
    by (auto simp: steps.simps(3) [of "Grp 1 r" for r] simp del: steps.simps(3) close_group.simps One_nat_def)
  from plus_in [OF x] obtain u v where u: "w @ t = u @ v" "list_all word_char u" "x = (rev u @ b, v, g)" by blast
  from y [unfolded u(3) close_group.simps seq_ne] obtain z where v: "v = CHR ''='' # z" by blast
  have ne: "\<not> word_char CHR ''=''" by (simp add: word_char_def is_alnum_def is_lower_def is_upper_def is_digit_def cc_def)
  have "takeWhile word_char (w @ t) = w" using assms(1,2) by (cases t) (auto simp: list_all_iff takeWhile_append2)
  moreover have "takeWhile word_char (u @ v) = u" using u(2) v ne by (auto simp: list_all_iff takeWhile_append2)
  ultimately have "w = u" using u(1) by simp
  with u(1) v assms(3) show False by simp
qed

lemma field_skip:
  assumes "list_all word_char w" "\<not> word_char d" "d \<noteq> CHR ''=''"
  shows "find_from FIELD_RE b (w @ d # t) = find_from FIELD_RE (d # rev w @ b) t"
  using assms(1)
proof (induction w arbitrary: b)
  case Nil
  have "steps FIELD_RE (b, [] @ d # t, []) = []" using assms by (intro field_none) simp_all
  then show ?case by (subst find_from.simps) simp
next
  case (Cons c w)
  have "steps FIELD_RE (b, (c # w) @ d # t, []) = []" using Cons.prems assms by (intro field_none) simp_all
  then show ?case using Cons by (subst find_from.simps) simp
qed

lemma field_hit:
  assumes "w \<noteq> []" "list_all word_char w" "v \<noteq> []" "list_all (\<lambda>c. \<not> is_space c) v" "t = [] \<or> is_space (hd t)"
  shows "find_from FIELD_RE b (w @ CHR ''='' # v @ t) =
    (rev v @ CHR ''='' # rev w @ b, t, [(2, v), (1, w)]) # find_from FIELD_RE (rev v @ CHR ''='' # rev w @ b) t"
proof -
  have "\<not> word_char CHR ''=''" by (simp add: word_char_def is_alnum_def is_lower_def is_upper_def is_digit_def cc_def)
  then obtain xs where x: "steps (plus (Ch word_char)) (b, w @ CHR ''='' # v @ t, []) = (rev w @ b, CHR ''='' # v @ t, []) # xs"
    using plus_first [OF assms(1,2), of "CHR ''='' # v @ t" b "[]"] by auto
  obtain ys where y: "steps (plus (Ch (\<lambda>c. \<not> is_space c))) (CHR ''='' # rev w @ b, v @ t, [(1, w)]) =
      (rev v @ CHR ''='' # rev w @ b, t, [(1, w)]) # ys"
    using plus_first [OF assms(3,4), of t "CHR ''='' # rev w @ b" "[(1, w)]"] assms(5) by auto
  obtain zs where "steps FIELD_RE (b, w @ CHR ''='' # v @ t, []) = (rev v @ CHR ''='' # rev w @ b, t, [(2, v), (1, w)]) # zs"
    unfolding FIELD_RE_def seqs.simps steps.simps(3,7) x by (simp add: chr_def y del: One_nat_def)
  then show ?thesis using assms(3) by (subst find_from.simps) simp
qed

text \<open>A text of the form: word, words, then fields separated by a space.\<close>

lemma marker_text_fields:
  assumes "list_all (\<lambda>c. \<not> is_space c) o1" "o1 \<noteq> []" "list_all (\<lambda>c. \<not> is_space c) s" "s \<noteq> []"
    "list_all (\<lambda>c. \<not> is_space c) t" "t \<noteq> []"
  shows "marker_fields (MARKER @ '' origin='' @ o1 @ '' snapshot='' @ s @ '' created='' @ t) =
    \<lparr>mk_origin = o1, mk_snapshot = s, mk_created = t\<rparr>"
proof -
  have wc: "list_all word_char w" if "list_all is_lower w" for w
    using that by (auto simp: list_all_iff word_char_def is_alnum_def Let_def)
  have low: "list_all is_lower ''pve''" "list_all is_lower ''zfs''" "list_all is_lower ''tool''" "list_all is_lower ''clone''"
    "list_all is_lower ''origin''" "list_all is_lower ''snapshot''" "list_all is_lower ''created''" by code_simp+
  have sep: "\<not> word_char CHR ''-''" "\<not> word_char CHR '' ''" "is_space CHR '' ''" by code_simp+
  have split: "MARKER @ '' origin='' @ o1 @ '' snapshot='' @ s @ '' created='' @ t =
    ''pve'' @ CHR ''-'' # ''zfs'' @ CHR ''-'' # ''tool'' @ CHR ''-'' # ''clone'' @ CHR '' '' #
    ''origin'' @ CHR ''='' # o1 @ ([] @ CHR '' '' # ''snapshot'' @ CHR ''='' # s @ ([] @ CHR '' '' # ''created'' @ CHR ''='' # t @ []))"
    by (simp add: MARKER_def)
  have ne: "''origin'' \<noteq> []" "''snapshot'' \<noteq> []" "''created'' \<noteq> []" "CHR ''-'' \<noteq> CHR ''=''" "CHR '' '' \<noteq> CHR ''=''" by simp_all
  have nil: "list_all word_char []" by simp
  have sp: "[] @ CHR '' '' # x = [] \<or> is_space (hd ([] @ CHR '' '' # x))" for x using sep(3) by simp
  have nl: "([] :: string) = [] \<or> is_space (hd [])" by simp
  have last: "find_from FIELD_RE b [] = []" for b
    using field_none [of "[]" "[]" b "[]"] by (subst find_from.simps) simp
  show ?thesis unfolding marker_fields_def re_finditer_def split Let_def
    field_skip [OF wc [OF low(1)] sep(1) ne(4)] field_skip [OF wc [OF low(2)] sep(1) ne(4)]
    field_skip [OF wc [OF low(3)] sep(1) ne(4)] field_skip [OF wc [OF low(4)] sep(2) ne(5)]
    field_hit [OF ne(1) wc [OF low(5)] assms(2,1) sp] field_skip [OF nil sep(2) ne(5)]
    field_hit [OF ne(2) wc [OF low(6)] assms(4,3) sp] field_hit [OF ne(3) wc [OF low(7)] assms(6,5) nl] last
    by (simp add: group_str_def group_def dget_or_def dict_simps)
qed

section \<open>Reading the marker back\<close>

lemma unquote_plain: "CHR 0x25 \<notin> set s \<Longrightarrow> RecoveryConfig.unquote s = s"
  by (induction s) auto

lemma splitlines_first:
  assumes "plain_line l" shows "splitlines (l @ newline # s) = l # splitlines s"
proof -
  have nl: "cc newline \<noteq> 13" by (simp add: newline_def cc_def)
  have "squash_crlf (l @ newline # s) = l @ newline # squash_crlf s"
    using assms
  proof (induction l)
    case Nil
    show ?case using nl by (cases s) simp_all
  next
    case (Cons c l)
    then have "cc c \<noteq> 13" by (auto simp: plain_line_def is_linebreak_def Let_def)
    with Cons show ?case by (cases l) (simp_all add: plain_line_def)
  qed
  with lines_of_append [OF assms newline_break] show ?thesis by (simp add: splitlines_def)
qed

text \<open>The characters of the marker: those of labels, numbers and times.\<close>

definition marker_char :: "char \<Rightarrow> bool" where
  "marker_char c = (is_alnum c \<or> one_of ''_.:-'' c)"

lemma marker_char_plain: "marker_char c \<Longrightarrow> \<not> is_space c \<and> c \<noteq> CHR 0x25"
  by (auto simp: marker_char_def one_of_def is_alnum_def is_lower_def is_upper_def is_digit_def is_space_def Let_def cc_def)

lemma iso_time_chars: "valid_datetime t \<Longrightarrow> list_all marker_char (iso_time t) \<and> iso_time t \<noteq> []"
proof -
  assume t: "valid_datetime t"
  have "list_all marker_char (pad_digits w n)" if "0 \<le> n" for w n
    using pad_digit [OF that, of w] by (auto simp: list_all_iff marker_char_def is_alnum_def)
  with t have "list_all marker_char (iso_time t)" by (simp add: iso_time_def valid_datetime_def marker_char_def one_of_def is_alnum_def is_upper_def cc_def)
  then show ?thesis by (simp add: iso_time_def)
qed

lemma parse_marker_line:
  assumes "o1 \<noteq> []" "list_all marker_char o1" "s \<noteq> []" "list_all marker_char s" "valid_datetime now"
  shows "parse_marker (marker_line o1 s now @ newline # rest) = Some \<lparr>mk_origin = o1, mk_snapshot = s, mk_created = iso_time now\<rparr>"
proof -
  note t = iso_time_chars [OF assms(5)]
  let ?m = "MARKER @ '' origin='' @ o1 @ '' snapshot='' @ s @ '' created='' @ iso_time now"
  have ns: "list_all (\<lambda>c. \<not> is_space c) x" if "list_all marker_char x" for x
    using that marker_char_plain by (auto simp: list_all_iff)
  have fixed: "list_all (\<lambda>c. \<not> is_linebreak c \<and> c \<noteq> CHR 0x25) (''#'' @ MARKER @ '' origin='' @ '' snapshot='' @ '' created='')"
    by code_simp
  have "list_all (\<lambda>c. \<not> is_linebreak c \<and> c \<noteq> CHR 0x25) x" if "list_all marker_char x" for x
    using that marker_char_plain linebreak_space by (fastforce simp: list_all_iff)
  with fixed assms(2,4) t have all: "list_all (\<lambda>c. \<not> is_linebreak c \<and> c \<noteq> CHR 0x25) (''#'' @ ?m)"
    by (simp only: list_all_append simp_thms)
  then have line: "splitlines (marker_line o1 s now @ newline # rest) = marker_line o1 s now # splitlines rest"
    by (intro splitlines_first) (auto simp: plain_line_def marker_line_def list_all_iff)
  from all have "RecoveryConfig.unquote ?m = ?m" by (intro unquote_plain) (auto simp: list_all_iff)
  moreover have "is_marker ?m" unfolding is_marker_def by simp
  ultimately have "marker_of_line (marker_line o1 s now) = Some \<lparr>mk_origin = o1, mk_snapshot = s, mk_created = iso_time now\<rparr>"
    using marker_text_fields [OF ns [OF assms(2)] assms(1) ns [OF assms(4)] assms(3) ns] t
    by (simp add: marker_of_line_def marker_line_def starts_with_def)
  then show ?thesis unfolding parse_marker_def line by (simp add: List.map_filter_simps)
qed

lemma label_chars: "re_test SNAP_LABEL_RE (strip s) \<Longrightarrow> strip s \<noteq> [] \<and> list_all marker_char (strip s)"
  using whitelist_stripD [of marker_char marker_char s] unfolding SNAP_LABEL_RE_def marker_char_def [abs_def] by (cases "strip s") auto


lemma config_after_marker:
  "\<exists>rest. build_recovery_config u now text g m o1 s = marker_line o1 s now @ newline # rest"
proof -
  obtain x xs where "recovery_lines u now text g m o1 s = marker_line o1 s now # x # xs"
    unfolding recovery_lines_def by (cases "List.map_filter (recovery_line (map (\<lambda>e. (be_key e, be_value e)) (host_bound_entries text g)) m g)
      (splitlines (split_main_section text))") auto
  then show ?thesis unfolding build_recovery_config_def by simp
qed

text \<open>C39: The marker in the configuration that a creation writes is read back by the cleanup with the number of the original, the
  label of the snapshot and the time of the creation, whatever the rest of the configuration says.\<close>

theorem marker_read_back:
  assumes "validate_vmid v = Inr vmid" and "re_test SNAP_LABEL_RE (strip s)" and "valid_datetime now"
  shows "parse_marker (build_recovery_config u now text g m vmid (strip s)) =
    Some \<lparr>mk_origin = vmid, mk_snapshot = strip s, mk_created = iso_time now\<rparr>"
proof -
  obtain rest where c: "build_recovery_config u now text g m vmid (strip s) = marker_line vmid (strip s) now @ newline # rest"
    using config_after_marker by blast
  from vmid_accepted [OF assms(1)] have "vmid \<noteq> []" "list_all marker_char vmid"
    by (auto simp: list_all_iff marker_char_def is_alnum_def)
  with label_chars [OF assms(2)] assms(3) show ?thesis unfolding c by (intro parse_marker_line) auto
qed

theorem marker_read_back_witness:
  "parse_marker (build_recovery_config (''u1'', ''u2'') (ex_time 10) (''name: web'' @ [newline] @ ''memory: 512'') ''qemu'' [] ''100'' (strip '' daily''))
   = Some \<lparr>mk_origin = ''100'', mk_snapshot = strip '' daily'', mk_created = iso_time (ex_time 10)\<rparr>"
proof -
  have "validate_vmid (VStr ''100'') = Inr ''100''" "re_test SNAP_LABEL_RE (strip '' daily'')" "valid_datetime (ex_time 10)"
    by code_simp+
  then show ?thesis by (rule marker_read_back)
qed

section \<open>The storage of the clones\<close>

text \<open>C40: The identifier proposed for the storage of a pool's clones is one that a storage may have, whatever the pool is called.\<close>

theorem recovery_storage_id_typed:
  "re_test STORAGE_ID_RE (recovery_storage_id pool)"
proof -
  let ?sid = "strip_chars ''-.'' (map (\<lambda>c. if sid_char c then c else CHR ''-'') (lower_str (pool @ ''-'' @ RECOVERY_LEAF)))"
  have dash: "sid_char CHR ''-''" "is_lower CHR ''z''" "list_all sid_char ''fs-''" by code_simp+
  then have all: "list_all sid_char ?sid" using set_strip_chars by (fastforce simp: list_all_iff)
  have "\<exists>c u. recovery_storage_id pool = take 63 (c # u) \<and> is_lower c \<and> list_all sid_char u"
  proof (cases "\<exists>c u. ?sid = c # u \<and> is_lower c")
    case True
    then obtain c u where "?sid = c # u" "is_lower c" by blast
    with all show ?thesis unfolding recovery_storage_id_def Let_def by (intro exI [of _ c] exI [of _ u]) simp
  next
    case False
    then have "recovery_storage_id pool = take 63 (CHR ''z'' # ''fs-'' @ ?sid)"
      unfolding recovery_storage_id_def Let_def by (cases ?sid) auto
    with dash all show ?thesis by (intro exI [of _ "CHR ''z''"] exI [of _ "''fs-'' @ ?sid"]) simp
  qed
  then obtain c u where f: "recovery_storage_id pool = c # take 62 u" "is_lower c" "list_all sid_char u" by auto
  then show ?thesis unfolding f(1) by (intro storage_id_ok) (auto simp: list_all_iff dest: in_set_takeD)
qed

end
