(* ===== verification/RecoveryIsolation.thy ===== *)
theory RecoveryIsolation
  imports RecoveryMarker
begin

text \<open>
  What the configuration of a copy does not contain: no line of the kinds that are left out, network interfaces first
  of all, and no entry that points at the host. The patterns are read as statements about the text.
\<close>

section \<open>Patterns as statements\<close>

lemma seq_assoc: "steps (Seq (Seq a b) c) st = steps (Seq a (Seq b c)) st"
proof -
  have "concat (map (steps c) (concat (map (steps b) xs))) = concat (map (\<lambda>t. concat (map (steps c) (steps b t))) xs)" for xs
    by (induction xs) simp_all
  from this [of "steps a st"] show ?thesis unfolding steps.simps(3) [of "Seq a b"] steps.simps(3) [of a "Seq b c"]
      steps.simps(3) [of a b] steps.simps(3) [of b c, abs_def] .
qed

lemma alt_ne: "steps (Seq (Alt a b) c) st \<noteq> [] \<longleftrightarrow> steps (Seq a c) st \<noteq> [] \<or> steps (Seq b c) st \<noteq> []"
  by simp

lemma plus_ne:
  "steps (Seq (plus (Ch P)) r) (b, s, g) \<noteq> [] \<longleftrightarrow>
   (\<exists>u v. s = u @ v \<and> u \<noteq> [] \<and> list_all P u \<and> steps r (rev u @ b, v, g) \<noteq> [])"
proof
  assume "steps (Seq (plus (Ch P)) r) (b, s, g) \<noteq> []"
  then obtain t where t: "t \<in> set (steps (plus (Ch P)) (b, s, g))" "steps r t \<noteq> []" by (auto simp: plus_def simp del: steps.simps(2,3)) (auto simp: steps.simps(3))
  from plus_in [OF t(1)] t(2) show "\<exists>u v. s = u @ v \<and> u \<noteq> [] \<and> list_all P u \<and> steps r (rev u @ b, v, g) \<noteq> []" by blast
next
  assume "\<exists>u v. s = u @ v \<and> u \<noteq> [] \<and> list_all P u \<and> steps r (rev u @ b, v, g) \<noteq> []"
  then obtain c u v where s: "s = c # u @ v" "P c" "list_all P u" and r: "steps r (rev (c # u) @ b, v, g) \<noteq> []"
    by (metis append_Cons list.exhaust list.pred_inject(2))
  have "(rev u @ c # b, v, g) \<in> set (steps (Star (Ch P)) (c # b, u @ v, g))" unfolding set_steps_star_ch using s(3) by blast
  then have "(rev u @ c # b, v, g) \<in> set (steps (plus (Ch P)) (b, s, g))" using s(1,2) by (simp add: plus_def)
  moreover from r have "steps r (rev u @ c # b, v, g) \<noteq> []" by simp
  ultimately show "steps (Seq (plus (Ch P)) r) (b, s, g) \<noteq> []" by (subst steps.simps(3)) auto
qed

lemma chr_ne: "steps (chr c) (b, s, g) \<noteq> [] \<longleftrightarrow> (\<exists>t. s = c # t)"
  by (cases s) (auto simp: chr_def)

lemma prefix_split:
  "(\<exists>u v. c # s = u @ v \<and> S (rev u @ b) v) \<longleftrightarrow> S b (c # s) \<or> (\<exists>u v. s = u @ v \<and> S (rev u @ c # b) v)"
proof
  assume "\<exists>u v. c # s = u @ v \<and> S (rev u @ b) v"
  then obtain u v where uv: "c # s = u @ v" "S (rev u @ b) v" by blast
  then show "S b (c # s) \<or> (\<exists>u v. s = u @ v \<and> S (rev u @ c # b) v)" by (cases u) auto
next
  assume "S b (c # s) \<or> (\<exists>u v. s = u @ v \<and> S (rev u @ c # b) v)"
  then show "\<exists>u v. c # s = u @ v \<and> S (rev u @ b) v"
  proof
    assume "S b (c # s)"
    then show ?thesis by (rule_tac x = "[]" in exI, rule_tac x = "c # s" in exI) simp
  next
    assume "\<exists>u v. s = u @ v \<and> S (rev u @ c # b) v"
    then obtain u v where "s = u @ v" "S (rev u @ c # b) v" by blast
    then show ?thesis by (rule_tac x = "c # u" in exI, rule_tac x = v in exI) simp
  qed
qed

lemma search_ne: "re_search r s \<noteq> None \<longleftrightarrow> (\<exists>u v. s = u @ v \<and> steps r (rev u, v, []) \<noteq> [])"
proof -
  have "search_from r b s \<noteq> None \<longleftrightarrow> (\<exists>u v. s = u @ v \<and> steps r (rev u @ b, v, []) \<noteq> [])" for b
  proof (induction s arbitrary: b)
    case Nil
    show ?case by (simp split: list.splits)
  next
    case (Cons c s)
    have "search_from r b (c # s) \<noteq> None \<longleftrightarrow> steps r (b, c # s, []) \<noteq> [] \<or> search_from r (c # b) s \<noteq> None"
      by (simp split: list.splits)
    then show ?case unfolding Cons.IH prefix_split [of c s "\<lambda>b v. steps r (b, v, []) \<noteq> []"] .
  qed
  from this [of "[]"] show ?thesis by (simp add: re_search_def)
qed

section \<open>Lines that are left out\<close>

definition drop_words :: "string list" where
  "drop_words = [''lock'', ''parent'', ''onboot'', ''startup'', ''hookscript'', ''vmgenid'', ''smbios1'', ''template'', ''protection'']"

definition drop_key :: "string \<Rightarrow> bool" where
  "drop_key k = ((\<exists>d. d \<noteq> [] \<and> list_all is_digit d \<and> (k = ''net'' @ d \<or> k = ''unused'' @ d)) \<or> k \<in> set drop_words)"

lemma word_colon: "(\<exists>t. s = w @ t \<and> (\<exists>z. t = c # z)) \<longleftrightarrow> (\<exists>z. s = w @ c # z)"
  by auto

lemma indexed_colon:
  "(\<exists>t. s = w @ t \<and> (\<exists>u v. t = u @ v \<and> u \<noteq> [] \<and> list_all P u \<and> (\<exists>z. v = c # z))) \<longleftrightarrow>
   (\<exists>u. u \<noteq> [] \<and> list_all P u \<and> (\<exists>z. s = (w @ u) @ c # z))"
  by auto

lemma drop_iff: "re_test DROP_RE s \<longleftrightarrow> (\<exists>k t. s = k @ CHR '':'' # t \<and> drop_key k)"
proof -
  have "re_test DROP_RE s \<longleftrightarrow>
    (\<exists>u. u \<noteq> [] \<and> list_all is_digit u \<and> (\<exists>z. s = (''net'' @ u) @ CHR '':'' # z)) \<or>
    (\<exists>z. s = ''lock'' @ CHR '':'' # z) \<or> (\<exists>z. s = ''parent'' @ CHR '':'' # z) \<or> (\<exists>z. s = ''onboot'' @ CHR '':'' # z) \<or>
    (\<exists>z. s = ''startup'' @ CHR '':'' # z) \<or> (\<exists>z. s = ''hookscript'' @ CHR '':'' # z) \<or>
    (\<exists>u. u \<noteq> [] \<and> list_all is_digit u \<and> (\<exists>z. s = (''unused'' @ u) @ CHR '':'' # z)) \<or>
    (\<exists>z. s = ''vmgenid'' @ CHR '':'' # z) \<or> (\<exists>z. s = ''smbios1'' @ CHR '':'' # z) \<or> (\<exists>z. s = ''template'' @ CHR '':'' # z) \<or>
    (\<exists>z. s = ''protection'' @ CHR '':'' # z)" (is "_ \<longleftrightarrow> ?R")
    unfolding re_test_def DROP_RE_def seqs.simps seq_ne(1) alt_ne seq_assoc seq_ne(4) plus_ne chr_ne word_colon indexed_colon ..
  also have "?R \<longleftrightarrow> (\<exists>k \<in> set drop_words. \<exists>z. s = k @ CHR '':'' # z) \<or>
      (\<exists>u. u \<noteq> [] \<and> list_all is_digit u \<and> (\<exists>z. s = (''net'' @ u) @ CHR '':'' # z)) \<or>
      (\<exists>u. u \<noteq> [] \<and> list_all is_digit u \<and> (\<exists>z. s = (''unused'' @ u) @ CHR '':'' # z))"
    unfolding drop_words_def list.set ball_simps bex_simps by blast
  also have "\<dots> \<longleftrightarrow> (\<exists>k t. s = k @ CHR '':'' # t \<and> drop_key k)"
    unfolding drop_key_def by blast
  finally show ?thesis .
qed


section \<open>Entries of a configuration\<close>

definition key_form :: "string \<Rightarrow> bool" where
  "key_form k = (\<exists>a d. k = a @ d \<and> a \<noteq> [] \<and> list_all is_lower a \<and> list_all is_digit d)"

lemma lower_facts: "is_lower c \<Longrightarrow> \<not> is_digit c \<and> \<not> is_space c \<and> c \<noteq> CHR '':'' \<and> c \<noteq> CHR ''#'' \<and> c \<noteq> CHR ''.''"
  by (auto simp: is_lower_def is_digit_def is_space_def Let_def cc_def)

lemma digit_facts: "is_digit c \<Longrightarrow> \<not> is_lower c \<and> \<not> is_space c \<and> c \<noteq> CHR '':'' \<and> c \<noteq> CHR ''.''"
  by (auto simp: is_lower_def is_digit_def is_space_def Let_def cc_def)

lemma colon_facts: "\<not> is_lower CHR '':''" "\<not> is_digit CHR '':''" "\<not> is_space CHR '':''" "CHR '':'' \<noteq> newline" "is_space CHR '' ''"
  by code_simp+

lemma key_facts:
  assumes "key_form k"
  shows "k \<noteq> []" "CHR '':'' \<notin> set k" "CHR ''.'' \<notin> set k" "list_all (\<lambda>c. \<not> is_space c) k" "hd k \<noteq> CHR ''#''"
proof -
  from assms obtain a d where k: "k = a @ d" "a \<noteq> []" "list_all is_lower a" "list_all is_digit d" unfolding key_form_def by blast
  then show "k \<noteq> []" "CHR '':'' \<notin> set k" "CHR ''.'' \<notin> set k" "list_all (\<lambda>c. \<not> is_space c) k"
    using lower_facts digit_facts by (auto simp: list_all_iff)
  from k have "is_lower (hd k)" by (cases a) auto
  with lower_facts show "hd k \<noteq> CHR ''#''" by blast
qed

lemma seq_first: "steps r1 st = t # ts \<Longrightarrow> steps r2 t = y # ys \<Longrightarrow> \<exists>zs. steps (Seq r1 r2) st = y # zs"
  by simp

lemma grp_first: "steps r st = t # ts \<Longrightarrow> \<exists>zs. steps (Grp n r) st = close_group n (rest_of st) t # zs"
  by simp

lemma entry_match:
  assumes "key_form k" "list_all is_space sp" "x = [] \<or> \<not> is_space (hd x)" "newline \<notin> set x"
  shows "\<exists>b. re_match ENTRY_RE (k @ CHR '':'' # sp @ x) = Some (b, [], [(2, x), (1, k)])"
proof -
  from assms(1) obtain a d where k: "k = a @ d" "a \<noteq> []" "list_all is_lower a" "list_all is_digit d" unfolding key_form_def by blast
  let ?v = "CHR '':'' # sp @ x"
  have na: "d @ ?v = [] \<or> \<not> is_lower (hd (d @ ?v))" using k(4) digit_facts colon_facts(1) by (cases d) auto
  obtain t1 where 1: "steps (plus (Ch is_lower)) ([], a @ d @ ?v, []) = (rev a @ [], d @ ?v, []) # t1"
    using plus_first [OF k(2,3) na] by blast
  obtain t2 where 2: "steps (Star (Ch is_digit)) (rev a @ [], d @ ?v, []) = (rev d @ rev a @ [], ?v, []) # t2"
    using star_ch_first [OF k(4), of ?v "rev a @ []" "[]"] colon_facts(2) by auto
  from seq_first [OF 1 2] obtain t3 where
    3: "steps (Seq (plus (Ch is_lower)) (Star (Ch is_digit))) ([], k @ ?v, []) = (rev d @ rev a @ [], ?v, []) # t3"
    by (auto simp: k(1))
  from grp_first [OF 3, of 1] obtain t4 where
    4: "steps (Grp 1 (Seq (plus (Ch is_lower)) (Star (Ch is_digit)))) ([], k @ ?v, []) = (rev d @ rev a @ [], ?v, [(1, k)]) # t4"
    by (auto simp del: steps.simps)
  have 5: "steps (chr CHR '':'') (rev d @ rev a @ [], ?v, [(1, k)]) = [(CHR '':'' # rev d @ rev a @ [], sp @ x, [(1, k)])]"
    by (simp add: chr_def)
  obtain t6 where 6: "steps (Star (Ch is_space)) (CHR '':'' # rev d @ rev a @ [], sp @ x, [(1, k)]) =
      (rev sp @ CHR '':'' # rev d @ rev a @ [], x, [(1, k)]) # t6"
    using star_ch_first [OF assms(2,3)] by blast
  have all: "list_all (\<lambda>c. c \<noteq> newline) x" using assms(4) by (auto simp: list_all_iff)
  obtain t7 where 7: "steps (Star any_char) (rev sp @ CHR '':'' # rev d @ rev a @ [], x, [(1, k)]) =
      (rev x @ rev sp @ CHR '':'' # rev d @ rev a @ [], [], [(1, k)]) # t7"
    using star_ch_first [OF all, of "[]" "rev sp @ CHR '':'' # rev d @ rev a @ []" "[(1, k)]"] unfolding any_char_def by auto
  from grp_first [OF 7, of 2] obtain t8 where 8: "steps (Grp 2 (Star any_char)) (rev sp @ CHR '':'' # rev d @ rev a @ [], x, [(1, k)]) =
      (rev x @ rev sp @ CHR '':'' # rev d @ rev a @ [], [], [(2, x), (1, k)]) # t8" by (auto simp del: steps.simps)
  have 9: "steps Eol (rev x @ rev sp @ CHR '':'' # rev d @ rev a @ [], [], [(2, x), (1, k)]) =
      [(rev x @ rev sp @ CHR '':'' # rev d @ rev a @ [], [], [(2, x), (1, k)])]" by simp
  have 0: "steps Bol ([], k @ ?v, []) = [([], k @ ?v, [])]" by simp
  from seq_first [OF 8 9] obtain z1 where "steps (Seq (Grp 2 (Star any_char)) Eol) (rev sp @ CHR '':'' # rev d @ rev a @ [], x, [(1, k)]) =
    (rev x @ rev sp @ CHR '':'' # rev d @ rev a @ [], [], [(2, x), (1, k)]) # z1" by blast
  from seq_first [OF 6 this] obtain z2 where "steps (Seq (Star (Ch is_space)) (Seq (Grp 2 (Star any_char)) Eol))
      (CHR '':'' # rev d @ rev a @ [], sp @ x, [(1, k)]) = (rev x @ rev sp @ CHR '':'' # rev d @ rev a @ [], [], [(2, x), (1, k)]) # z2" by blast
  from seq_first [OF 5 this] obtain z3 where "steps (Seq (chr CHR '':'') (Seq (Star (Ch is_space)) (Seq (Grp 2 (Star any_char)) Eol)))
      (rev d @ rev a @ [], ?v, [(1, k)]) = (rev x @ rev sp @ CHR '':'' # rev d @ rev a @ [], [], [(2, x), (1, k)]) # z3" by blast
  from seq_first [OF 4 this] obtain z4 where "steps (Seq (Grp 1 (Seq (plus (Ch is_lower)) (Star (Ch is_digit))))
      (Seq (chr CHR '':'') (Seq (Star (Ch is_space)) (Seq (Grp 2 (Star any_char)) Eol)))) ([], k @ ?v, []) =
      (rev x @ rev sp @ CHR '':'' # rev d @ rev a @ [], [], [(2, x), (1, k)]) # z4" by blast
  from seq_first [OF 0 this] show ?thesis unfolding re_match_def ENTRY_RE_def seqs.simps by (auto simp del: steps.simps)
qed


lemma seq_ne_in: "steps (Seq r1 r2) st \<noteq> [] \<Longrightarrow> \<exists>t \<in> set (steps r1 st). steps r2 t \<noteq> []"
  by auto

lemma in_seq: "y \<in> set (steps (Seq r1 r2) st) \<Longrightarrow> \<exists>t \<in> set (steps r1 st). y \<in> set (steps r2 t)"
  by auto

lemma in_grp: "y \<in> set (steps (Grp n r) st) \<Longrightarrow> \<exists>t \<in> set (steps r st). y = close_group n (rest_of st) t"
  by auto

lemma entry_form:
  assumes "re_match ENTRY_RE s = Some m" "newline \<notin> set s"
  shows "\<exists>k sp x. s = k @ CHR '':'' # sp @ x \<and> key_form k \<and> list_all is_space sp \<and> (x = [] \<or> \<not> is_space (hd x)) \<and>
    group_str 1 m = k \<and> group_str 2 m = x"
proof -
  have "re_test ENTRY_RE s" using assms(1) by (auto simp: re_match_def re_test_def split: list.splits)
  then obtain t where t: "t \<in> set (steps (Grp 1 (Seq (plus (Ch is_lower)) (Star (Ch is_digit)))) ([], s, []))"
    and c: "steps (Seq (chr CHR '':'') (Seq (Star (Ch is_space)) (Seq (Grp 2 (Star any_char)) Eol))) t \<noteq> []"
    unfolding re_test_def ENTRY_RE_def seqs.simps seq_ne(1) using seq_ne_in by blast
  from t obtain y where y: "y \<in> set (steps (Seq (plus (Ch is_lower)) (Star (Ch is_digit))) ([], s, []))" "t = close_group 1 s y"
    using in_grp [OF t] by auto
  from in_seq [OF y(1)] obtain z where z: "z \<in> set (steps (plus (Ch is_lower)) ([], s, []))" "y \<in> set (steps (Star (Ch is_digit)) z)"
    by blast
  from plus_in [OF z(1)] obtain a v where a: "s = a @ v" "a \<noteq> []" "list_all is_lower a" "z = (rev a @ [], v, [])" by blast
  from z(2) obtain d r where d: "v = d @ r" "list_all is_digit d" "y = (rev d @ rev a @ [], r, [])"
    unfolding a(4) set_steps_star_ch by blast
  from c obtain w where w: "r = CHR '':'' # w" unfolding y(2) d(3) close_group.simps seq_ne by blast
  let ?k = "a @ d" and ?sp = "takeWhile is_space w" and ?x = "dropWhile is_space w"
  have k: "key_form ?k" unfolding key_form_def using a(2,3) d(2) by blast
  have s: "s = ?k @ CHR '':'' # ?sp @ ?x" using a(1) d(1) w by simp
  have sp: "list_all is_space ?sp" by (auto simp: list_all_iff dest: set_takeWhileD)
  have x: "?x = [] \<or> \<not> is_space (hd ?x)" using hd_dropWhile by blast
  have "newline \<notin> set ?x" using assms(2) s by (metis Un_iff list.set_intros(2) set_append)
  from entry_match [OF k sp x this] s assms(1) obtain b where "m = (b, [], [(2, ?x), (1, ?k)])" by auto
  then have "group_str 1 m = ?k" "group_str 2 m = ?x" by (simp_all add: group_str_def group_def)
  with s k sp x show ?thesis by blast
qed

section \<open>A line of the copy\<close>

lemma strip_spaces: "list_all is_space sp \<Longrightarrow> strip (sp @ x) = strip x"
proof -
  assume sp: "list_all is_space sp"
  have "dropWhile is_space (sp @ x) = dropWhile is_space x" using sp by (induction sp) auto
  then show ?thesis by (simp add: strip_def lstrip_def)
qed

lemma colon_split: "CHR '':'' \<notin> set k \<Longrightarrow> colon_parts (k @ CHR '':'' # t) = (k, t)"
  unfolding colon_parts_def using split_once_Some [of "CHR '':''" "k @ CHR '':'' # t" k t] by simp

lemma key_strip: "key_form k \<Longrightarrow> strip k = k"
  using key_facts by (intro strip_id) (auto simp: list_all_iff)

text \<open>What an entry is, for a stripped line of the form key, colon, spaces, value.\<close>

lemma entry_of_form:
  assumes "key_form k" "list_all is_space sp" "x = [] \<or> \<not> is_space (hd x)" "newline \<notin> set x"
    and "strip (k @ CHR '':'' # sp @ x) = k @ CHR '':'' # sp @ x"
  shows "bound_entry_of gtype (k @ CHR '':'' # sp @ x) =
    map_option (\<lambda>r. \<lparr>be_key = k, be_value = strip x, be_reason = r\<rparr>) (bound_reason_of gtype k (strip x))"
proof -
  note kf = key_facts [OF assms(1)]
  let ?s = "k @ CHR '':'' # sp @ x"
  have "?s \<noteq> []" "\<not> starts_with ''#'' ?s" using kf(1,5) by (cases k; simp add: starts_with_def)+
  moreover have "\<not> starts_with ''lxc.mount.entry:'' ?s"
  proof
    assume "starts_with ''lxc.mount.entry:'' ?s"
    then obtain t where "?s = ''lxc.mount.entry:'' @ t" by (auto simp: starts_with_iff)
    then have "?s = ''lxc.mount.entry'' @ CHR '':'' # t" by simp
    then have "colon_parts ?s = (''lxc.mount.entry'', t)" by (simp only: ) (rule colon_split, simp)
    with colon_split [OF kf(2)] have "k = ''lxc.mount.entry''" by simp
    with kf(3) show False by simp
  qed
  moreover have "\<not> re_test CGROUP_RE ?s"
  proof
    assume "re_test CGROUP_RE ?s"
    then have "\<exists>t. ?s = ''lxc.cgroup'' @ t" unfolding re_test_def CGROUP_RE_def seqs.simps seq_ne by blast
    then obtain t where "?s = ''lxc'' @ CHR ''.'' # t" by auto
    with kf(2,3) show False by (auto simp: append_eq_append_conv2 append_eq_Cons_conv Cons_eq_append_conv)
  qed
  moreover obtain b where "re_match ENTRY_RE ?s = Some (b, [], [(2, x), (1, k)])" using entry_match [OF assms(1-4)] by blast
  ultimately show ?thesis unfolding bound_entry_of_def assms(5) Let_def
    by (auto simp: group_str_def group_def split: prod.splits)
qed

text \<open>An identifier of a volume, as the creation makes them.\<close>

definition volume_id :: "string \<Rightarrow> bool" where
  "volume_id w = (w \<noteq> [] \<and> CHR '':'' \<in> set w \<and> hd w \<noteq> CHR ''/'' \<and> list_all (\<lambda>c. is_alnum c \<or> one_of ''_.:+/-'' c) w)"

lemma volume_char: "is_alnum c \<or> one_of ''_.:+/-'' c \<Longrightarrow> \<not> is_space c \<and> c \<noteq> CHR '','' \<and> c \<noteq> CHR ''='' \<and> c \<noteq> newline"
  by (auto simp: one_of_def is_alnum_def is_lower_def is_upper_def is_digit_def is_space_def Let_def cc_def newline_def)

lemma volume_facts:
  assumes "volume_id w"
  shows "w \<noteq> []" "CHR '':'' \<in> set w" "hd w \<noteq> CHR ''/''" "list_all (\<lambda>c. \<not> is_space c) w" "CHR '','' \<notin> set w"
    "CHR ''='' \<notin> set w" "newline \<notin> set w"
  using assms volume_char unfolding volume_id_def list_all_iff by blast+

text \<open>The first field and what follows it.\<close>

lemma field_split:
  assumes "x = [] \<or> \<not> is_space (hd x)"
  shows "\<exists>sps rest. x = first_field x @ sps @ rest \<and> list_all is_space sps \<and> (rest = [] \<or> hd rest = CHR '','')"
proof -
  let ?y = "takeWhile (\<lambda>c. c \<noteq> CHR '','') x"
  have "?y = [] \<or> \<not> is_space (hd ?y)" using assms by (cases x) auto
  then have l: "lstrip ?y = ?y" by (rule lstrip_id)
  have "?y = rstrip ?y @ rev (takeWhile is_space (rev ?y))"
    unfolding rstrip_def by (metis rev_append rev_rev_ident takeWhile_dropWhile_id)
  moreover have "first_field x = rstrip ?y" by (simp add: first_field_def strip_def l)
  moreover have "list_all is_space (rev (takeWhile is_space (rev ?y)))" by (auto simp: list_all_iff dest: set_takeWhileD)
  moreover have "x = ?y @ dropWhile (\<lambda>c. c \<noteq> CHR '','') x" by simp
  moreover have "dropWhile (\<lambda>c. c \<noteq> CHR '','') x = [] \<or> hd (dropWhile (\<lambda>c. c \<noteq> CHR '','') x) = CHR '',''"
    using hd_dropWhile [of "\<lambda>c. c \<noteq> CHR '',''" x] by blast
  ultimately show ?thesis by (metis append.assoc)
qed

lemma first_field_of:
  assumes "list_all (\<lambda>c. \<not> is_space c) w" "w \<noteq> []" "CHR '','' \<notin> set w" "list_all is_space sps" "rest = [] \<or> hd rest = CHR '',''"
  shows "first_field (w @ sps @ rest) = w"
proof -
  have c: "\<not> is_space CHR '',''" by code_simp
  have "takeWhile (\<lambda>c. c \<noteq> CHR '','') (w @ sps @ rest) = w @ sps"
  proof -
    have "\<forall>c \<in> set (w @ sps). c \<noteq> CHR '',''" using assms(3,4) c by (auto simp: list_all_iff)
    moreover have "takeWhile (\<lambda>c. c \<noteq> CHR '','') rest = []" using assms(5) by (cases rest) auto
    ultimately have "takeWhile (\<lambda>c. c \<noteq> CHR '','') ((w @ sps) @ rest) = w @ sps" by (subst takeWhile_append2) auto
    then show ?thesis by simp
  qed
  moreover have "strip (w @ sps) = w"
  proof -
    have "lstrip (w @ sps) = w @ sps" using assms(1,2) by (intro lstrip_id) (cases w; simp)
    moreover have "rstrip (w @ sps) = w"
    proof -
      have "dropWhile is_space (rev sps @ rev w) = dropWhile is_space (rev w)" using assms(4)
        by (subst dropWhile_append2) (auto simp: list_all_iff)
      also have "\<dots> = rev w" unfolding dropWhile_fix using assms(1,2) by (auto simp: hd_rev list_all_iff)
      finally show ?thesis by (simp add: rstrip_def)
    qed
    ultimately show ?thesis by (simp add: strip_def)
  qed
  ultimately show ?thesis by (simp add: first_field_def)
qed

section \<open>The device option of a USB entry\<close>

definition usb_host :: "string \<Rightarrow> bool" where
  "usb_host b = (starts_with ''host='' b \<or> starts_with ''mapping='' b)"

lemma usb_iff: "re_search USB_RE s \<noteq> None \<longleftrightarrow> usb_host s \<or> (\<exists>a b. s = a @ CHR '','' # b \<and> usb_host b)"
proof -
  have tail: "steps (Seq (Alt (lit ''host'') (lit ''mapping'')) (chr CHR ''='')) (b, v, g) \<noteq> [] \<longleftrightarrow> usb_host v" for b v g
    unfolding alt_ne seq_ne chr_ne usb_host_def starts_with_iff by auto
  have bol: "steps (Seq Bol r) (b, v, g) \<noteq> [] \<longleftrightarrow> b = [] \<and> steps r (b, v, g) \<noteq> []" for r b v g by auto
  have "steps USB_RE (rev u, v, []) \<noteq> [] \<longleftrightarrow> (u = [] \<and> usb_host v) \<or> (\<exists>b. v = CHR '','' # b \<and> usb_host b)" for u v
    unfolding USB_RE_def seqs.simps alt_ne [of Bol] bol seq_ne(3) tail by auto
  then show ?thesis unfolding search_ne by auto
qed

lemma usb_moved:
  assumes "volume_id w" "rest = [] \<or> is_space (hd rest) \<or> hd rest = CHR '',''" "re_search USB_RE (w @ rest) \<noteq> None"
  shows "re_search USB_RE (f @ rest) \<noteq> None"
proof -
  note vf = volume_facts [OF assms(1)]
  have start: "\<not> usb_host (w @ rest)"
  proof
    assume "usb_host (w @ rest)"
    then consider z where "w @ rest = ''host='' @ z" | z where "w @ rest = ''mapping='' @ z"
      unfolding usb_host_def starts_with_iff by blast
    then obtain p z where p: "w @ rest = p @ CHR ''='' # z" "p = ''host'' \<or> p = ''mapping''"
      by cases (auto intro: that [of "''host''"] that [of "''mapping''"])
    then have "CHR '':'' \<notin> set p" by auto
    from p(1) obtain y where "(w = p @ y \<and> y @ rest = CHR ''='' # z) \<or> (p = w @ y \<and> rest = y @ CHR ''='' # z)"
      by (auto simp: append_eq_append_conv2)
    then show False
    proof
      assume y: "w = p @ y \<and> y @ rest = CHR ''='' # z"
      with vf(6) have "y = []" by (cases y) auto
      with y \<open>CHR '':'' \<notin> set p\<close> vf(2) show False by simp
    next
      assume "p = w @ y \<and> rest = y @ CHR ''='' # z"
      with \<open>CHR '':'' \<notin> set p\<close> vf(2) show False by simp
    qed
  qed
  with assms(3) obtain a b where ab: "w @ rest = a @ CHR '','' # b" "usb_host b" unfolding usb_iff by blast
  from ab(1) obtain y where "(w = a @ y \<and> y @ rest = CHR '','' # b) \<or> (a = w @ y \<and> rest = y @ CHR '','' # b)"
    by (auto simp: append_eq_append_conv2)
  then obtain y' where "rest = y' @ CHR '','' # b"
  proof
    assume y: "w = a @ y \<and> y @ rest = CHR '','' # b"
    with vf(5) have "y = []" by (cases y) auto
    with y that [of "[]"] show ?thesis by simp
  qed (use that in blast)
  then have "f @ rest = (f @ y') @ CHR '','' # b" by simp
  with ab(2) show ?thesis unfolding usb_iff by blast
qed

lemma reason_moved:
  assumes "volume_id w" "list_all is_space sps" "rest = [] \<or> hd rest = CHR '',''" "bound_reason_of gtype key (f @ sps @ rest) = None"
  shows "bound_reason_of gtype key (w @ sps @ rest) = None"
proof -
  note vf = volume_facts [OF assms(1)]
  have ff: "first_field (w @ sps @ rest) = w" by (rule first_field_of [OF vf(4,1,5) assms(2,3)])
  have slash: "\<not> starts_with ''/'' w" "\<not> starts_with ''/dev/'' w" using vf(1,3) by (cases w; simp add: starts_with_def)+
  have hd: "sps @ rest = [] \<or> is_space (hd (sps @ rest)) \<or> hd (sps @ rest) = CHR '',''"
    using assms(2,3) by (cases sps) auto
  have usb: "re_search USB_RE (f @ sps @ rest) \<noteq> None" if "re_search USB_RE (w @ sps @ rest) \<noteq> None"
    by (rule usb_moved [OF assms(1) hd that])
  show ?thesis
  proof (cases "gtype = ''lxc''")
    case True
    with assms(4) vf(2) show ?thesis by (auto simp: bound_reason_of_def lxc_reason_def ff split: if_splits)
  next
    case False
    with assms(4) have "\<not> re_test (indexed_key ''hostpci'') key" "\<not> (re_test (indexed_key ''usb'') key \<and> re_search USB_RE (f @ sps @ rest) \<noteq> None)"
      by (auto simp: bound_reason_of_def qemu_reason_def Let_def split: if_splits)
    with usb slash False show ?thesis unfolding bound_reason_of_def qemu_reason_def Let_def ff by auto
  qed
qed

section \<open>The lines of the copy\<close>

lemma strip_end: "strip s = s \<Longrightarrow> s = a @ b \<Longrightarrow> b \<noteq> [] \<Longrightarrow> \<not> is_space (last b)"
  using strip_last [of s] by auto

lemma cgroup_iff:
  "re_test CGROUP_RE s \<longleftrightarrow> (\<exists>t. s = ''lxc.cgroup'' @ t \<and>
     ((\<exists>u. t = CHR ''2'' # u \<and> (\<exists>z. u = ''.devices.allow:'' @ z)) \<or> (\<exists>z. t = ''.devices.allow:'' @ z)))"
proof -
  have emp: "steps (Seq Emp r) st = steps r st" for r st by simp
  have lit: "steps (lit w) (b, x, g) \<noteq> [] \<longleftrightarrow> (\<exists>z. x = w @ z)" for w b x g by (simp add: steps_lit starts_with_iff)
  show ?thesis unfolding re_test_def CGROUP_RE_def seqs.simps opt_def seq_ne(1,4) alt_ne seq_ne(3) emp lit ..
qed

lemma entry_bound_in:
  assumes "bound_entry_of g line = Some e" "plain_line line" "colon_parts (strip line) = (k, v)"
  shows "(strip k, strip v) = (be_key e, be_value e)"
proof -
  let ?s = "strip line"
  have nl: "newline \<notin> set ?s" using assms(2) set_strip [of line] newline_break by (metis (no_types, lifting) list_all_iff plain_line_def subsetD)
  consider (mount) "starts_with ''lxc.mount.entry:'' ?s" "e = \<lparr>be_key = ''lxc.mount.entry'', be_value = strip v, be_reason = Bind_Mount\<rparr>"
    | (cgroup) "re_test CGROUP_RE ?s" "e = \<lparr>be_key = k, be_value = strip v, be_reason = Host_Device\<rparr>"
    | (entry) m r where "re_match ENTRY_RE ?s = Some m" "e = \<lparr>be_key = group_str 1 m, be_value = strip (group_str 2 m), be_reason = r\<rparr>"
    using assms(1,3) unfolding bound_entry_of_def Let_def by (auto split: if_splits option.splits)
  then show ?thesis
  proof cases
    case mount
    then obtain t where "?s = ''lxc.mount.entry'' @ CHR '':'' # t" by (auto simp: starts_with_iff)
    with assms(3) have "k = ''lxc.mount.entry''" using colon_split [of "''lxc.mount.entry''" t] by simp
    moreover have "strip ''lxc.mount.entry'' = ''lxc.mount.entry''" by code_simp
    ultimately show ?thesis using mount(2) by simp
  next
    case cgroup
    then obtain y z where "?s = ''lxc.cgroup'' @ y @ ''.devices.allow:'' @ z" "y = [] \<or> y = ''2''"
      unfolding cgroup_iff by (metis append_Cons append_Nil)
    then have "?s = (''lxc.cgroup'' @ y @ ''.devices.allow'') @ CHR '':'' # z" "CHR '':'' \<notin> set (''lxc.cgroup'' @ y @ ''.devices.allow'')" by auto
    with assms(3) have "k = ''lxc.cgroup'' @ y @ ''.devices.allow''" using colon_split by (metis prod.inject)
    moreover have "strip ''lxc.cgroup.devices.allow'' = ''lxc.cgroup.devices.allow''" "strip ''lxc.cgroup2.devices.allow'' = ''lxc.cgroup2.devices.allow''"
      by code_simp+
    ultimately have "strip k = k" using \<open>y = [] \<or> y = ''2''\<close> by auto
    with cgroup(2) show ?thesis by simp
  next
    case entry
    from entry_form [OF entry(1) nl] obtain k' sp x where f: "?s = k' @ CHR '':'' # sp @ x" "key_form k'" "list_all is_space sp"
      "group_str 1 m = k'" "group_str 2 m = x" by blast
    from assms(3) colon_split [OF key_facts(2) [OF f(2)]] f(1) have "k = k'" "v = sp @ x" by auto
    with f entry(2) strip_spaces [OF f(3)] key_strip [OF f(2)] show ?thesis by simp
  qed
qed

lemma drop_same: "CHR '':'' \<notin> set k \<Longrightarrow> re_test DROP_RE (k @ CHR '':'' # x) \<longleftrightarrow> drop_key k"
proof -
  assume k: "CHR '':'' \<notin> set k"
  have colon: "CHR '':'' \<notin> set j" if "drop_key j" for j
  proof -
    have "\<forall>w \<in> set drop_words. CHR '':'' \<notin> set w" by code_simp
    have "CHR '':'' \<notin> set d" if "list_all is_digit d" for d using that colon_facts(2) by (auto simp: list_all_iff)
    note facts = \<open>\<forall>w \<in> set drop_words. CHR '':'' \<notin> set w\<close> this
    from that consider d where "list_all is_digit d" "j = ''net'' @ d" | d where "list_all is_digit d" "j = ''unused'' @ d"
      | "j \<in> set drop_words" unfolding drop_key_def by blast
    then show ?thesis using facts by cases auto
  qed
  have "j = k" if "k @ CHR '':'' # x = j @ CHR '':'' # t" "drop_key j" for j t
    using colon_split [OF k, of x] colon_split [OF colon [OF that(2)], of t] unfolding that(1) by simp
  then show ?thesis unfolding drop_iff using k by blast
qed

lemma named_reason: "bound_reason_of g ''name'' v = None" if "g \<noteq> ''lxc''"
proof -
  have "\<not> re_test (indexed_key ''hostpci'') ''name''" "\<not> re_test (indexed_key ''usb'') ''name''" "\<not> re_test RECOVERY_DISK_KEY ''name''"
    "\<not> re_test (indexed_key ''serial'') ''name''" "\<not> re_test (indexed_key ''parallel'') ''name''" by code_simp+
  with that show ?thesis by (simp add: bound_reason_of_def qemu_reason_def)
qed

lemma hostname_reason: "bound_reason_of ''lxc'' ''hostname'' v = None"
proof -
  have "\<not> re_test (indexed_key ''mp'') ''hostname''" "\<not> re_test (indexed_key ''dev'') ''hostname''" by code_simp+
  then show ?thesis by (simp add: bound_reason_of_def lxc_reason_def)
qed

lemma named_line:
  assumes "key_form k" "\<not> drop_key k" "newline \<notin> set v" "\<And>x. bound_reason_of g k x = None"
  shows "\<not> re_test DROP_RE (k @ '': '' @ strip v @ ''-clone'') \<and> bound_entry_of g (k @ '': '' @ strip v @ ''-clone'') = None"
proof -
  let ?x = "strip v @ ''-clone''"
  have sp: "is_space CHR '' ''" "\<not> is_space CHR ''-''" "\<not> is_space CHR ''e''" "newline \<notin> set ''-clone''" by code_simp+
  have t: "k @ '': '' @ ?x = k @ CHR '':'' # [CHR '' ''] @ ?x" by simp
  have x: "?x = [] \<or> \<not> is_space (hd ?x)" using strip_hd [of v] sp(2) by (cases "strip v") auto
  have nl: "newline \<notin> set ?x" using assms(3) sp(4) set_strip [of v] by auto
  note kf = key_facts [OF assms(1)]
  have hd: "\<not> is_space (hd (k @ CHR '':'' # [CHR '' ''] @ ?x))" using kf(1,4) by (cases k) auto
  have last: "last (k @ CHR '':'' # [CHR '' ''] @ ?x) = CHR ''e''" by simp
  have "strip (k @ CHR '':'' # [CHR '' ''] @ ?x) = k @ CHR '':'' # [CHR '' ''] @ ?x" by (rule strip_id) (use hd last sp(3) in simp_all)
  from entry_of_form [OF assms(1) _ x nl this, of g] assms(4) have "bound_entry_of g (k @ CHR '':'' # [CHR '' ''] @ ?x) = None"
    using sp(1) by simp
  with drop_same [OF kf(2)] assms(2) show ?thesis unfolding t by simp
qed

lemma kept_line:
  assumes "plain_line line" "\<And>e. bound_entry_of g line = Some e \<Longrightarrow> (be_key e, be_value e) \<in> set left_out"
    and "\<And>d w. dget m d = Some w \<Longrightarrow> volume_id w" and "recovery_line left_out m g line = Some t"
  shows "\<not> re_test DROP_RE t \<and> bound_entry_of g t = None"
proof -
  let ?s = "strip line"
  obtain k0 v0 where kv: "colon_parts ?s = (k0, v0)" by (cases "colon_parts ?s")
  have nl: "newline \<notin> set ?s" using assms(1) set_strip [of line] newline_break by (metis (no_types, lifting) list_all_iff plain_line_def subsetD)
  from assms(4) kv have keep: "?s \<noteq> []" "\<not> re_test DROP_RE ?s" "(strip k0, strip v0) \<notin> set left_out"
    unfolding recovery_line_def Let_def by (auto split: if_splits)
  have own: "bound_entry_of g ?s = bound_entry_of g line" by (simp add: bound_entry_of_def)
  have none: "bound_entry_of g ?s = None"
  proof (cases "bound_entry_of g line")
    case (Some e)
    with assms(2) [OF Some] entry_bound_in [OF Some assms(1) kv] keep(3) show ?thesis by simp
  qed (simp add: own)
  show ?thesis
  proof (cases "t = ?s")
    case True
    with keep(2) none show ?thesis by simp
  next
    case False
    with assms(4) kv obtain mt where mt: "re_match ENTRY_RE ?s = Some mt" "point_at_clone m g (group_str 1 mt) (group_str 2 mt) = Some t"
      unfolding recovery_line_def Let_def by (auto split: if_splits option.splits)
    from entry_form [OF mt(1) nl] obtain k sp x where s: "?s = k @ CHR '':'' # sp @ x" "key_form k" "list_all is_space sp"
      "x = [] \<or> \<not> is_space (hd x)" and g: "group_str 1 mt = k" "group_str 2 mt = x" by blast
    have xnl: "newline \<notin> set x" using nl s(1) by auto
    note kf = key_facts [OF s(2)]
    have nd: "\<not> drop_key k" using keep(2) drop_same [OF kf(2)] s(1) by simp
    have st: "strip (k @ CHR '':'' # sp @ x) = k @ CHR '':'' # sp @ x" by (metis s(1) strip_strip)
    from entry_of_form [OF s(2-4) xnl st, of g] s(1) none have reason: "bound_reason_of g k (strip x) = None" by simp
    from mt(2) [unfolded g] consider
        (map) w where "dget m (first_field x) = Some w" "t = k @ '': '' @ w @ drop (length (first_field x)) x"
      | (nm) "k = ''name''" "g \<noteq> ''lxc''" "t = k @ '': '' @ strip x @ ''-clone''"
      | (hn) "k = ''hostname''" "g = ''lxc''" "t = k @ '': '' @ strip x @ ''-clone''"
      unfolding point_at_clone_def by (auto split: option.splits if_splits)
    then show ?thesis
    proof cases
      case nm
      show ?thesis unfolding nm(3) by (rule named_line [OF s(2) nd xnl]) (simp add: nm named_reason)
    next
      case hn
      show ?thesis unfolding hn(3) by (rule named_line [OF s(2) nd xnl]) (simp add: hn hostname_reason)
    next
      case map
      note vf = volume_facts [OF assms(3) [OF map(1)]]
      from field_split [OF s(4)] obtain sps rest where f: "x = first_field x @ sps @ rest" "list_all is_space sps" "rest = [] \<or> hd rest = CHR '',''" by blast
      then have dr: "drop (length (first_field x)) x = sps @ rest" by (metis append_eq_conv_conj)
      let ?x = "w @ sps @ rest"
      have t: "t = k @ CHR '':'' # [CHR '' ''] @ ?x" using map(2) dr by simp
      have sr: "sps @ rest \<noteq> [] \<Longrightarrow> \<not> is_space (last (sps @ rest))"
        using strip_end [of ?s "k @ CHR '':'' # sp @ first_field x" "sps @ rest"] s(1) f(1) by (metis append.assoc append_Cons strip_strip)
      have xl: "\<not> is_space (last ?x)" using sr vf(1,4) by (cases "sps @ rest = []") (auto simp: list_all_iff)
      have xh: "?x = [] \<or> \<not> is_space (hd ?x)" "\<not> is_space (hd ?x)" "?x \<noteq> []" using vf(1,4) by (cases w; simp)+
      have strips: "strip ?x = ?x" using xh(2,3) xl by (intro strip_id) simp_all
      have "strip x = x"
      proof (cases "x = []")
        case False
        then have "\<not> is_space (last x)" using strip_end [OF st, of "k @ CHR '':'' # sp" x] by simp
        with False s(4) show ?thesis by (intro strip_id) auto
      qed (simp add: strip_def lstrip_def rstrip_def)
      with reason f(1) have "bound_reason_of g k (first_field x @ sps @ rest) = None" by simp
      from reason_moved [OF assms(3) [OF map(1)] f(2,3) this] have rn: "bound_reason_of g k ?x = None" .
      have "newline \<notin> set (sps @ rest)" using xnl f(1) by (metis Un_iff set_append)
      with vf(7) have tnl: "newline \<notin> set ?x" by simp
      have th: "\<not> is_space (hd t)" unfolding t using kf(1,4) by (cases k) auto
      have "t \<noteq> []" unfolding t by simp
      moreover have "last t = last ?x" unfolding t using vf(1) by simp
      ultimately have "strip t = t" using th xl by (intro strip_id) simp_all
      from entry_of_form [OF s(2) _ xh(1) tnl, of "[CHR '' '']" g] this strips rn colon_facts(5) t
      have "bound_entry_of g t = None" by simp
      moreover have "\<not> re_test DROP_RE t" unfolding t using drop_same [OF kf(2)] nd by simp
      ultimately show ?thesis by simp
    qed
  qed
qed

text \<open>The lines that the creation writes itself.\<close>

lemma own_line_unbound:
  assumes that: "k = ''onboot'' \<or> k = ''vmgenid'' \<or> k = ''smbios1''" "list_all (\<lambda>c. \<not> is_space c \<and> c \<noteq> newline) x" "gtype \<noteq> ''lxc'' \<or> k = ''onboot''"
  shows "bound_entry_of gtype (k @ CHR '':'' # [CHR '' ''] @ x) = None"
proof -
  have "key_form ''onboot''" "key_form ''vmgenid''" unfolding key_form_def
    by (rule exI [of _ "''onboot''"], rule exI [of _ "[]"], code_simp, rule exI [of _ "''vmgenid''"], rule exI [of _ "[]"], code_simp)
  moreover have "key_form ''smbios1''" unfolding key_form_def by (rule exI [of _ "''smbios''"], rule exI [of _ "''1''"], code_simp)
  ultimately have kf: "key_form k" using that(1) by auto
  have keys: "\<not> re_test (indexed_key w) k" if "w \<in> set [''hostpci'', ''usb'', ''serial'', ''parallel'', ''mp'', ''dev'']" for w
    using \<open>k = ''onboot'' \<or> k = ''vmgenid'' \<or> k = ''smbios1''\<close>
  proof -
    have "\<forall>w \<in> set [''hostpci'', ''usb'', ''serial'', ''parallel'', ''mp'', ''dev''].
      \<forall>k \<in> set [''onboot'', ''vmgenid'', ''smbios1'']. \<not> re_test (indexed_key w) k" by code_simp
    with that \<open>k = ''onboot'' \<or> k = ''vmgenid'' \<or> k = ''smbios1''\<close> show ?thesis by (metis list.set_intros)
  qed
  have "\<forall>k \<in> set [''onboot'', ''vmgenid'', ''smbios1'']. \<not> re_test RECOVERY_DISK_KEY k" by code_simp
  with that(1) have disk: "\<not> re_test RECOVERY_DISK_KEY k" by auto
  have r: "bound_reason_of gtype k y = None" for y
    using keys disk by (simp add: bound_reason_of_def qemu_reason_def lxc_reason_def)
  let ?t = "k @ CHR '':'' # [CHR '' ''] @ x"
  have x: "x = [] \<or> \<not> is_space (hd x)" "newline \<notin> set x" using that(2) by (cases x; auto simp: list_all_iff)+
  show ?thesis
  proof (cases "x = []")
    case True
    have "bound_entry_of gtype ?t = bound_entry_of gtype (k @ CHR '':'' # [] @ [])"
    proof -
      have "strip (k @ '': '') = k @ '':''" using that(1) by (elim disjE; hypsubst; code_simp)
      moreover have "strip (k @ '':'') = k @ '':''" using that(1) by (elim disjE; hypsubst; code_simp)
      ultimately show ?thesis unfolding True by (simp add: bound_entry_of_def)
    qed
    moreover have "strip (k @ CHR '':'' # [] @ []) = k @ CHR '':'' # [] @ []" using that(1) by (elim disjE; hypsubst; code_simp)
    ultimately show ?thesis using entry_of_form [OF kf, of "[]" "[]" gtype] r by simp
  next
    case False
    have "strip ?t = ?t" using key_facts(1,4) [OF kf] False that(2) by (intro strip_id) (cases k; auto simp: list_all_iff)+
    from entry_of_form [OF kf _ x this, of gtype] r show ?thesis using colon_facts(5) by simp
  qed
qed

lemma marker_line_unbound:
  "bound_entry_of gtype (marker_line origin snap now) = None \<and> \<not> re_test DROP_RE (marker_line origin snap now)"
proof -
  let ?line = "marker_line origin snap now"
  have none: "\<not> is_space CHR ''#''" by code_simp
  have hash: "?line = CHR ''#'' # tl ?line" unfolding marker_line_def by simp
  have "strip ?line = CHR ''#'' # tl (strip ?line)"
    unfolding strip_def using lstrip_id [of ?line] rstrip_hd [of ?line] none hash by (metis list.collapse list.discI list.sel(1))
  then have "starts_with ''#'' (strip ?line)" unfolding starts_with_iff by (metis append_Cons append_Nil)
  then have "bound_entry_of gtype ?line = None" unfolding bound_entry_of_def Let_def by (simp split: prod.splits)
  moreover have "\<not> re_test DROP_RE ?line"
  proof
    assume "re_test DROP_RE ?line"
    then obtain k t where k: "?line = k @ CHR '':'' # t" "drop_key k" unfolding drop_iff by blast
    have "\<forall>w \<in> set drop_words. w \<noteq> [] \<and> hd w \<noteq> CHR ''#''" by code_simp
    with k(2) have "k \<noteq> [] \<and> hd k \<noteq> CHR ''#''" unfolding drop_key_def by auto
    with k(1) hash show False by (cases k) auto
  qed
  ultimately show ?thesis by simp
qed



end
