(* ===== verification/DrFiles.thy ===== *)
theory DrFiles
  imports Migrate
begin

text \<open>
  \<open>app/dr.py\<close>, putting files of a configuration backup back on a host. A backup is the list of its members, or the
  text of the error with which it could not be read; the contents of a member are its bytes, as characters. Reading a
  member by its name takes the last of that name, as \<open>tarfile\<close> does.
\<close>

record member =
  am_name :: string
  am_file :: bool
  am_exec :: bool
  am_data :: string

type_synonym archive = "string + member list"

section \<open>Bytes as text\<close>

text \<open>\<open>decode("utf-8", "replace")\<close>; a character that would be at 256 or above is shown as a question mark.\<close>

definition byte_continues :: "string \<Rightarrow> bool" where
  "byte_continues s = (case s of [] \<Rightarrow> False | c # _ \<Rightarrow> 128 \<le> cc c \<and> cc c < 192)"

definition skip_byte :: "string \<Rightarrow> string" where
  "skip_byte s = (if byte_continues s then tl s else s)"

lemma skip_byte_shorter: "length (skip_byte s) \<le> length s"
  by (simp add: skip_byte_def)

function decode_utf8 :: "string \<Rightarrow> string" where
  "decode_utf8 [] = []"
| "decode_utf8 (c # s) =
     (let v = cc c in
      if v < 128 then c # decode_utf8 s
      else if (v = 194 \<or> v = 195) \<and> byte_continues s then char_of ((v - 192) * 64 + (cc (hd s) - 128)) # decode_utf8 (tl s)
      else if 194 \<le> v \<and> v < 224 then CHR ''?'' # decode_utf8 (skip_byte s)
      else if 224 \<le> v \<and> v < 240 then CHR ''?'' # decode_utf8 (skip_byte (skip_byte s))
      else if 240 \<le> v \<and> v < 245 then CHR ''?'' # decode_utf8 (skip_byte (skip_byte (skip_byte s)))
      else CHR ''?'' # decode_utf8 s)"
  by pat_completeness auto
termination
  using skip_byte_shorter le_trans [OF skip_byte_shorter skip_byte_shorter]
    le_trans [OF skip_byte_shorter le_trans [OF skip_byte_shorter skip_byte_shorter]]
  by (relation "measure length") (auto simp: le_imp_less_Suc)

section \<open>Paths\<close>

definition rel_path :: "string \<Rightarrow> string" where
  "rel_path name = lstrip_chars ''./'' name"

definition GUEST_CONF_RE :: re where
  "GUEST_CONF_RE = seqs [chr CHR ''/'', Grp 1 (Alt (lit ''qemu-server'') (lit ''lxc'')), chr CHR ''/'', Grp 2 (plus (Ch is_digit)),
     lit ''.conf'', Eol]"

definition begins_any :: "string list \<Rightarrow> string \<Rightarrow> bool" where
  "begins_any ps s = list_ex (\<lambda>p. starts_with p s) ps"

definition CLUSTER_FILES :: "string list" where
  "CLUSTER_FILES = [''etc/pve/corosync.conf'', ''etc/corosync/corosync.conf'']"

definition categorize :: "string \<Rightarrow> string" where
  "categorize rel =
     (if rel \<in> set CLUSTER_FILES then ''cluster''
      else if rel = ''root/.ssh/authorized_keys'' \<or> starts_with ''etc/ssh/'' rel then ''ssh''
      else if re_search GUEST_CONF_RE rel \<noteq> None then ''guests''
      else if starts_with ''etc/network/'' rel \<or> rel \<in> set [''etc/hosts'', ''etc/hostname'', ''etc/resolv.conf'']
        \<or> begins_any [''etc/udev/'', ''etc/systemd/network/'', ''lib/systemd/network/''] rel then ''network''
      else if rel \<in> set [''etc/pve/storage.cfg'', ''etc/fstab'', ''etc/exports''] \<or> starts_with ''etc/samba/'' rel then ''storage''
      else if starts_with ''etc/postfix/'' rel \<or> rel = ''etc/aliases'' then ''mail''
      else if begins_any [''etc/systemd/system/'', ''etc/sysctl.d/'', ''etc/modprobe.d/''] rel
        \<or> rel \<in> set [''etc/sysctl.conf'', ''etc/timezone''] then ''system''
      else if begins_any [''etc/apt/'', ''usr/share/keyrings/''] rel then ''apt''
      else if starts_with ''etc/pve/firewall/'' rel \<or> path_ends ''host.fw'' rel then ''firewall''
      else if rel \<in> set [''etc/pve/jobs.cfg'', ''etc/pve/vzdump.cron'', ''etc/pve/replication.cfg'', ''etc/vzdump.conf'']
        \<or> begins_any [''etc/cron.'', ''etc/bashclub/''] rel then ''jobs''
      else if rel \<in> set [''etc/pve/user.cfg'', ''etc/pve/datacenter.cfg'', ''etc/pve/domains.cfg''] \<or> starts_with ''etc/pve/priv/'' rel
        then ''access''
      else if starts_with ''cmd/'' rel then ''info''
      else ''other'')"

definition NODE_PATH_RE :: re where
  "NODE_PATH_RE = seqs [lit ''etc/pve/nodes/'', plus (Ch (\<lambda>c. c \<noteq> CHR ''/'')), chr CHR ''/'', Grp 1 (plus any_char)]"

definition plain_target :: "string \<Rightarrow> string option" where
  "plain_target rel =
     (if rel = ''root/.ssh/authorized_keys'' then Some ''/root/.ssh/authorized_keys''
      else if starts_with ''usr/share/keyrings/'' rel \<and> (path_ends ''.gpg'' rel \<or> path_ends ''.asc'' rel) then Some (CHR ''/'' # rel)
      else if begins_any [''etc/'', ''lib/systemd/network/''] rel then Some (CHR ''/'' # rel)
      else None)"

definition backup_target_path :: "string \<Rightarrow> string \<Rightarrow> string option" where
  "backup_target_path rel local_node =
     (if rel = [] \<or> starts_with ''cmd/'' rel then None
      else case re_match NODE_PATH_RE rel of
          Some m \<Rightarrow> if local_node \<noteq> [] then Some (''/etc/pve/nodes/'' @ local_node @ ''/'' @ group_str 1 m) else plain_target rel
        | None \<Rightarrow> plain_target rel)"

section \<open>Looking into a backup\<close>

definition get_member :: "member list \<Rightarrow> string \<Rightarrow> member option" where
  "get_member ms name = List.find (\<lambda>m. am_name m = rstrip_chars ''/'' name) (rev ms)"

record content_row =
  cr_member :: string
  cr_path :: string
  cr_size :: nat
  cr_category :: string
  cr_restorable :: bool

definition content_row_of :: "member \<Rightarrow> content_row option" where
  "content_row_of m =
     (let rel = rel_path (am_name m)
      in if \<not> am_file m \<or> rel = [] then None
         else Some \<lparr>cr_member = am_name m, cr_path = rel, cr_size = length (am_data m), cr_category = categorize rel,
                cr_restorable = (backup_target_path rel ''x'' \<noteq> None)\<rparr>)"

definition list_backup_contents :: "archive \<Rightarrow> string + content_row list" where
  "list_backup_contents ar = map_sum (take 200) (\<lambda>ms. sort_key (\<lambda>r. (cr_category r, cr_path r)) (List.map_filter content_row_of ms)) ar"

text \<open>The contents, the size and the path of a member.\<close>

definition read_backup_member :: "archive \<Rightarrow> string \<Rightarrow> string + (string \<times> nat \<times> string) option" where
  "read_backup_member ar name =
     map_sum (take 200) (\<lambda>ms.
       case get_member ms name of
         Some m \<Rightarrow> if am_file m then Some (decode_utf8 (take 200000 (am_data m)), length (am_data m), rel_path name) else None
       | None \<Rightarrow> None) ar"

definition guest_subdir :: "string \<Rightarrow> string" where
  "guest_subdir gtype = (if gtype = ''lxc'' then ''lxc'' else if gtype = ''qemu'' then ''qemu-server'' else [])"

text \<open>The configuration of a guest and the member it is in; the error of an unreadable backup.\<close>

definition extract_guest_config :: "archive \<Rightarrow> string \<Rightarrow> string \<Rightarrow> string + (string \<times> string) option" where
  "extract_guest_config ar gtype vmid =
     (if guest_subdir gtype = [] \<or> \<not> re_test VMID_RE vmid then Inr None
      else map_sum (take 200) (\<lambda>ms.
        map_option (\<lambda>m. (decode_utf8 (am_data m), am_name m))
          (List.find (\<lambda>m. am_file m \<and> path_ends (''/'' @ guest_subdir gtype @ ''/'' @ vmid @ ''.conf'') (rstrip_chars ''/'' (am_name m))) ms)) ar)"

section \<open>Restoring one file\<close>

datatype file_result =
    Backup_Error string
  | Not_In_Backup
  | Not_Restorable
  | Target_Exists string
  | File_Written bool bool string string

text \<open>\<open>File_Written success existed dest stderr\<close>.\<close>

definition parent_dir :: "string \<Rightarrow> string" where
  "parent_dir path = rev (drop 1 (dropWhile (\<lambda>c. c \<noteq> CHR ''/'') (rev path)))"

definition file_command :: "string \<Rightarrow> bool \<Rightarrow> string \<Rightarrow> string" where
  "file_command dest exec data =
     ''mkdir -p '' @ shell_quote (parent_dir dest) @ '' 2>/dev/null; echo '' @ shell_quote (b64_bytes (map cc data)) @ '' | base64 -d > ''
     @ shell_quote dest @ (if exec then '' && chmod +x '' @ shell_quote dest else []) @ '' && echo __OK__''"

definition exists_command :: "string \<Rightarrow> string" where
  "exists_command dest = ''[ -e '' @ shell_quote dest @ '' ] && echo __EXISTS__ || echo __NO__''"

definition write_file :: "host \<Rightarrow> member \<Rightarrow> string \<Rightarrow> bool \<Rightarrow> file_result act" where
  "write_file h m dest force = do {
     ex \<leftarrow> run_command h (exists_command dest);
     let existed = contains_str ''__EXISTS__'' (cr_stdout ex) in
       if existed \<and> \<not> force then State_Monad.return (Target_Exists dest)
       else do {
         w \<leftarrow> run_command h (file_command dest (am_exec m) (am_data m));
         State_Monad.return (File_Written (contains_str ''__OK__'' (cr_stdout w)) existed dest (take 200 (strip (cr_stderr w)))) } }"

text \<open>The name of the node is asked for when the caller has not given it.\<close>

definition node_or_ask :: "host \<Rightarrow> string option \<Rightarrow> string act" where
  "node_or_ask h node = (case node of Some n \<Rightarrow> State_Monad.return n | None \<Rightarrow> read_node h)"

definition restore_backup_file :: "host \<Rightarrow> archive \<Rightarrow> string \<Rightarrow> bool \<Rightarrow> string option \<Rightarrow> file_result act" where
  "restore_backup_file h ar name force node =
     (case ar of
        Inl e \<Rightarrow> State_Monad.return (Backup_Error (take 200 e))
      | Inr ms \<Rightarrow>
          (case get_member ms name of
             None \<Rightarrow> State_Monad.return Not_In_Backup
           | Some m \<Rightarrow>
               if \<not> am_file m then State_Monad.return Not_In_Backup
               else do {
                 n \<leftarrow> node_or_ask h node;
                 (case backup_target_path (rel_path name) n of
                    None \<Rightarrow> State_Monad.return Not_Restorable
                  | Some dest \<Rightarrow> write_file h m dest force) }))"

section \<open>Restoring many files\<close>

record restore_summary =
  su_success :: bool
  su_results :: "(string \<times> file_result) list"
  su_restored :: nat
  su_skipped :: nat
  su_failed :: nat

definition file_ok :: "file_result \<Rightarrow> bool" where
  "file_ok r = (case r of File_Written ok existed dest err \<Rightarrow> ok | _ \<Rightarrow> False)"

definition file_existed :: "file_result \<Rightarrow> bool" where
  "file_existed r = (case r of File_Written ok existed dest err \<Rightarrow> existed | Target_Exists d \<Rightarrow> True | _ \<Rightarrow> False)"

definition restorable_members :: "(string \<Rightarrow> bool) \<Rightarrow> member list \<Rightarrow> (string \<times> string) list" where
  "restorable_members pred ms =
     map (\<lambda>m. (am_name m, rel_path (am_name m)))
       (filter (\<lambda>m. am_file m \<and> rel_path (am_name m) \<noteq> [] \<and> backup_target_path (rel_path (am_name m)) ''x'' \<noteq> None
          \<and> pred (rel_path (am_name m))) ms)"

definition summary_of :: "(string \<times> file_result) list \<Rightarrow> restore_summary" where
  "summary_of rs =
     (let restored = length (filter (file_ok \<circ> snd) rs);
          skipped = length (filter (\<lambda>(p, r). file_existed r \<and> \<not> file_ok r) rs);
          failed = length rs - restored - skipped
      in \<lparr>su_success = (failed = 0), su_results = rs, su_restored = restored, su_skipped = skipped, su_failed = failed\<rparr>)"

definition restore_member_list :: "host \<Rightarrow> archive \<Rightarrow> (string \<times> string) list \<Rightarrow> bool \<Rightarrow> restore_summary act" where
  "restore_member_list h ar ms force =
     (if ms = [] then State_Monad.return (summary_of [])
      else do {
        node \<leftarrow> read_node h;
        rs \<leftarrow> for_each (\<lambda>(name, rel). do {
          res \<leftarrow> restore_backup_file h ar name force (Some node);
          State_Monad.return (rel, res) }) ms;
        State_Monad.return (summary_of rs) })"

definition restore_selected :: "host \<Rightarrow> archive \<Rightarrow> (string \<Rightarrow> bool) \<Rightarrow> bool \<Rightarrow> (string + restore_summary) act" where
  "restore_selected h ar pred force =
     (case ar of
        Inl e \<Rightarrow> State_Monad.return (Inl (take 200 e))
      | Inr ms \<Rightarrow> do { s \<leftarrow> restore_member_list h ar (restorable_members pred ms) force; State_Monad.return (Inr s) })"

definition restore_backup_category :: "host \<Rightarrow> archive \<Rightarrow> string \<Rightarrow> bool \<Rightarrow> (string + restore_summary) act" where
  "restore_backup_category h ar cat force = restore_selected h ar (\<lambda>rel. categorize rel = cat) force"

definition NON_CONFIG_CATEGORIES :: "string list" where
  "NON_CONFIG_CATEGORIES = [''guests'', ''info'', ''cluster'']"

definition restore_all_configs :: "host \<Rightarrow> archive \<Rightarrow> bool \<Rightarrow> (string + restore_summary) act" where
  "restore_all_configs h ar force = restore_selected h ar (\<lambda>rel. categorize rel \<notin> set NON_CONFIG_CATEGORIES) force"

section \<open>All guests\<close>

definition guest_conf_of :: "member \<Rightarrow> (string \<times> string \<times> string) option" where
  "guest_conf_of m =
     (case re_search GUEST_CONF_RE (am_name m) of
        None \<Rightarrow> None
      | Some g \<Rightarrow>
          if am_file m then Some (if group_str 1 g = ''lxc'' then ''lxc'' else ''qemu'', group_str 2 g, decode_utf8 (am_data m)) else None)"

definition restore_all_guest_configs ::
  "host \<Rightarrow> archive \<Rightarrow> bool \<Rightarrow> (string + (string \<times> string \<times> config_write) list) act" where
  "restore_all_guest_configs h ar force =
     (case ar of
        Inl e \<Rightarrow> State_Monad.return (Inl (take 200 e))
      | Inr ms \<Rightarrow> do {
          rs \<leftarrow> for_each (\<lambda>(gtype, vmid, content). do {
            wr \<leftarrow> restore_guest_config h gtype vmid content force;
            State_Monad.return (vmid, gtype, wr) }) (List.map_filter guest_conf_of ms);
          State_Monad.return (Inr rs) })"

text \<open>What the view counts: written, present before and not written, and whether nothing failed.\<close>

definition guests_restored :: "(string \<times> string \<times> config_write) list \<Rightarrow> nat" where
  "guests_restored rs = length (filter (\<lambda>(v, g, w). config_write_ok w) rs)"

definition guests_success :: "(string \<times> string \<times> config_write) list \<Rightarrow> bool" where
  "guests_success rs = list_all (\<lambda>(v, g, w). config_write_ok w) rs"

end
