(* ===== verification/DrSync.thy ===== *)
theory DrSync
  imports Migrate ReplConfig
begin

text \<open>
  \<open>app/dr.py\<close>, the replicas of a host and their way back to a rebuilt source: which datasets are replicas, their
  snapshots, the checks before a reverse synchronisation, and the transfer itself. Messages have ASCII arrows and
  dots; the time limits of the commands are left out.
\<close>

definition dr_ds_char :: "char \<Rightarrow> bool" where
  "dr_ds_char c = (is_alnum c \<or> one_of ''._:/-'' c)"

definition DR_DS_RE :: re where
  "DR_DS_RE = whitelist dr_ds_char dr_ds_char"

definition dr_snap_char :: "char \<Rightarrow> bool" where
  "dr_snap_char c = (is_alnum c \<or> one_of ''._:/@-'' c)"

definition DR_SNAP_RE :: re where
  "DR_SNAP_RE = whitelist dr_snap_char dr_snap_char"

text \<open>A dataset below a pool.\<close>

definition dr_dataset :: "string \<Rightarrow> bool" where
  "dr_dataset ds = (re_test DR_DS_RE ds \<and> CHR ''/'' \<in> set ds)"

section \<open>Discovery\<close>

record replica_root =
  rr_source :: string
  rr_source_ip :: string
  rr_target :: string
  rr_config_path :: string

definition replica_root_of :: "config_entry \<Rightarrow> replica_root option" where
  "replica_root_of c =
     (let src = strip (ce_source c); tgt = strip (ce_target c)
      in if path_ends ''/zsync.conf'' (ce_path c) then None
         else if tgt = [] \<or> CHR ''/'' \<notin> set tgt \<or> lower_str src = ''user@host'' then None
         else Some \<lparr>rr_source = src, rr_source_ip = extract_ip src, rr_target = tgt, rr_config_path = ce_path c\<rparr>)"

definition replica_roots_for_host :: "(host \<Rightarrow> string \<Rightarrow> cmd_result) \<Rightarrow> host \<Rightarrow> replica_root list" where
  "replica_roots_for_host run h = List.map_filter replica_root_of (list_configs run h)"

text \<open>Each root with the address and the name of its host.\<close>

definition list_replica_pairs :: "(host \<Rightarrow> string \<Rightarrow> cmd_result) \<Rightarrow> host list \<Rightarrow> (string \<times> string \<times> replica_root) list" where
  "list_replica_pairs run hosts =
     concat (map (\<lambda>h. map (\<lambda>r. (ho_address h, ho_name h, r)) (replica_roots_for_host run h)) hosts)"

record replica_ds =
  rd_name :: string
  rd_type :: string
  rd_used :: string
  rd_source_path :: string

definition replica_ds_of :: "string \<Rightarrow> string \<Rightarrow> replica_ds option" where
  "replica_ds_of root line =
     (case split_on (\<lambda>c. c = tab) line of
        n # t # u # _ \<Rightarrow>
          if n = root then None
          else Some \<lparr>rd_name = n, rd_type = t, rd_used = u,
                 rd_source_path = (if starts_with (root @ ''/'') n then drop (length root + 1) n else n)\<rparr>
      | _ \<Rightarrow> None)"

definition failed_text :: "cmd_result \<Rightarrow> string" where
  "failed_text r = take 200 (strip (if cr_stderr r \<noteq> [] then cr_stderr r else cr_stdout r))"

definition list_replica_datasets :: "host \<Rightarrow> string \<Rightarrow> (string + replica_ds list) act" where
  "list_replica_datasets h root =
     (if \<not> dr_dataset root then State_Monad.return (Inl ''invalid replica root'')
      else do {
        r \<leftarrow> run_command h (''zfs list -H -o name,type,used -t filesystem,volume -r '' @ shell_quote root @ '' 2>/dev/null'');
        State_Monad.return
          (if \<not> cr_success r then Inl (failed_text r)
           else Inr (List.map_filter (replica_ds_of root) (splitlines (cr_stdout r)))) })"

record replica_snap =
  rs_name :: string
  rs_creation :: int
  rs_used :: int

text \<open>A line whose numbers \<open>int\<close> does not read is skipped.\<close>

definition replica_snap_of :: "string \<Rightarrow> replica_snap option" where
  "replica_snap_of line =
     (case split_on (\<lambda>c. c = tab) line of
        n # c # u # _ \<Rightarrow>
          (case (py_int c, if is_digit_str u then py_int u else Some 0) of
             (Some ts, Some b) \<Rightarrow> Some \<lparr>rs_name = n, rs_creation = ts, rs_used = b\<rparr>
           | _ \<Rightarrow> None)
      | _ \<Rightarrow> None)"

definition snap_limit :: "int \<Rightarrow> int" where
  "snap_limit limit = max 1 (min (if limit = 0 then 200 else limit) 2000)"

definition list_replica_snapshots :: "host \<Rightarrow> string \<Rightarrow> int \<Rightarrow> (string + replica_snap list) act" where
  "list_replica_snapshots h dataset limit =
     (if \<not> dr_dataset dataset then State_Monad.return (Inl ''invalid dataset'')
      else do {
        r \<leftarrow> run_command h (''zfs list -H -t snapshot -o name,creation,used -p -s creation -r -d 1 '' @ shell_quote dataset
          @ '' 2>/dev/null'');
        State_Monad.return
          (if \<not> cr_success r then Inl (failed_text r)
           else Inr (take (nat (snap_limit limit)) (rev (List.map_filter replica_snap_of (splitlines (cr_stdout r)))))) })"

section \<open>The request for a reverse synchronisation\<close>

definition strip_replica_root :: "string \<Rightarrow> string \<Rightarrow> string" where
  "strip_replica_root replica root =
     (if starts_with (root @ ''/'') replica then drop (length root + 1) replica else [])"

definition ADDRESS_RE :: re where
  "ADDRESS_RE = whitelist (\<lambda>c. is_alnum c \<or> one_of ''._:-'' c) (\<lambda>c. is_alnum c \<or> one_of ''._:-'' c)"

definition SSH_USER_RE :: re where
  "SSH_USER_RE = whitelist (\<lambda>c. is_alnum c \<or> one_of ''_.-'' c) (\<lambda>c. is_alnum c \<or> one_of ''_.-'' c)"

text \<open>\<open>int(source_port or 22)\<close>.\<close>

definition port_number :: "pyval \<Rightarrow> int option" where
  "port_number v =
     (if \<not> truthy v then Some 22
      else case v of VInt i \<Rightarrow> Some i | VBool b \<Rightarrow> Some 1 | VStr s \<Rightarrow> py_int s | _ \<Rightarrow> None)"

record sync_request =
  sy_replica :: string
  sy_address :: string
  sy_port :: int
  sy_user :: string
  sy_source :: string
  sy_snapshot :: string
  sy_force :: bool
  sy_refresh :: bool

definition reverse_request ::
  "string \<Rightarrow> string \<Rightarrow> string \<Rightarrow> pyval \<Rightarrow> string \<Rightarrow> string \<Rightarrow> string \<Rightarrow> bool \<Rightarrow> bool \<Rightarrow> py_exc + sync_request" where
  "reverse_request replica root addr port0 user source0 snapshot force refresh =
     (if \<not> dr_dataset replica then Inl (ValueError ''invalid replica dataset'')
      else if \<not> dr_dataset root then Inl (ValueError ''invalid replica root'')
      else if addr = [] \<or> \<not> re_test ADDRESS_RE addr then Inl (ValueError ''invalid source address'')
      else if user \<noteq> [] \<and> \<not> re_test SSH_USER_RE user then Inl (ValueError ''invalid source user'')
      else case port_number port0 of
          None \<Rightarrow> Inl (ValueError ''invalid source port'')
        | Some p \<Rightarrow>
            let source = (if source0 = [] then strip_replica_root replica root else source0)
            in if \<not> (1 \<le> p \<and> p \<le> 65535) then Inl (ValueError ''invalid source port'')
               else if \<not> dr_dataset source then Inl (ValueError ''could not determine valid source dataset'')
               else Inr \<lparr>sy_replica = replica, sy_address = addr, sy_port = p, sy_user = (if user = [] then ''root'' else user),
                      sy_source = source, sy_snapshot = snapshot, sy_force = force, sy_refresh = refresh\<rparr>)"

section \<open>The job\<close>

definition refresh_command :: "string \<Rightarrow> int \<Rightarrow> string" where
  "refresh_command addr port =
     ''mkdir -p ~/.ssh && chmod 700 ~/.ssh; touch ~/.ssh/known_hosts; ''
     @ ''ssh-keygen -f ~/.ssh/known_hosts -R '' @ shell_quote addr @ '' >/dev/null 2>&1; ''
     @ ''ssh-keygen -f ~/.ssh/known_hosts -R '' @ shell_quote (''['' @ addr @ '']:'' @ show_int port) @ '' >/dev/null 2>&1; ''
     @ ''ssh-keyscan -T 10 -p '' @ show_int port @ '' '' @ shell_quote addr @ '' 2>/dev/null ''
     @ ''| tee -a ~/.ssh/known_hosts | ssh-keygen -lf - 2>/dev/null | head -n 3''"

definition nonempty_lines :: "string \<Rightarrow> string list" where
  "nonempty_lines out = filter (\<lambda>l. l \<noteq> []) (map strip (splitlines out))"

definition refresh_key :: "host \<Rightarrow> sync_request \<Rightarrow> unit act" where
  "refresh_key h q =
     (if \<not> sy_refresh q then State_Monad.return ()
      else do {
        say (''Refreshing SSH host key for '' @ sy_address q @ '':'' @ show_int (sy_port q) @ '' ...'') None;
        pr \<leftarrow> run_command h (refresh_command (sy_address q) (sy_port q));
        (case nonempty_lines (cr_stdout pr) of
           fp # _ \<Rightarrow> say (''Accepted host key '' @ take 120 fp) None
         | [] \<Rightarrow> say ''Warning: could not scan destination host key (continuing) ...'' None) })"

text \<open>The snapshot asked for, or the newest one; None if there is none.\<close>

definition newest_snapshot :: "host \<Rightarrow> sync_request \<Rightarrow> string option act" where
  "newest_snapshot h q =
     (if sy_snapshot q \<noteq> [] then State_Monad.return (Some (sy_snapshot q))
      else do {
        say ''Resolving newest replica snapshot ...'' None;
        r \<leftarrow> run_command h (''zfs list -H -t snapshot -o name -s creation -r -d 1 '' @ shell_quote (sy_replica q)
          @ '' 2>/dev/null | tail -n 1'');
        State_Monad.return (map_option snd (split_once CHR ''@'' (strip (cr_stdout r)))) })"

definition dr_ssh :: "sync_request \<Rightarrow> string" where
  "dr_ssh q = ''ssh -o BatchMode=yes -o StrictHostKeyChecking=yes -o ConnectTimeout=20 -p '' @ show_int (sy_port q) @ '' ''
     @ shell_quote (sy_user q @ ''@'' @ sy_address q) @ '' ''"

definition guard_command :: "sync_request \<Rightarrow> string" where
  "guard_command q = dr_ssh q @ sq @ ''zfs list -H -t snapshot -o name -r -d 1 '' @ shell_quote (sy_source q)
     @ '' 2>/dev/null | head -5'' @ sq"

definition send_command :: "sync_request \<Rightarrow> string \<Rightarrow> string" where
  "send_command q full =
     ''set -o pipefail 2>/dev/null; zfs send -R '' @ shell_quote full @ '' | '' @ dr_ssh q
     @ sq @ ''zfs recv '' @ (if sy_force q then ''-F'' else []) @ '' '' @ shell_quote (sy_source q) @ sq @ '' 2>&1; echo __exit=$?''"

record sync_done =
  sd_success :: bool
  sd_exit_code :: "int option"
  sd_snapshot :: string
  sd_host_key_error :: bool
  sd_log :: string

datatype sync_result = No_Replica_Snapshot string | Bad_Snapshot | Refused_Force nat string | Transferred sync_done

text \<open>The snapshots that the destination is seen to have, asked for before a forced receive only.\<close>

definition destination_snapshots :: "host \<Rightarrow> sync_request \<Rightarrow> string list act" where
  "destination_snapshots h q =
     (if \<not> sy_force q then State_Monad.return []
      else do {
        say ''Checking destination for existing snapshots ...'' None;
        cr \<leftarrow> run_command h (guard_command q);
        State_Monad.return (nonempty_lines (cr_stdout cr)) })"

definition show_exit :: "int option \<Rightarrow> string" where
  "show_exit c = (case c of None \<Rightarrow> ''None'' | Some n \<Rightarrow> show_int n)"

definition transfer_replica :: "host \<Rightarrow> sync_request \<Rightarrow> string \<Rightarrow> sync_result act" where
  "transfer_replica h q full = do {
     r \<leftarrow> run_command h (send_command q full);
     let out = cr_stdout r; code = parse_exit_marker out; ok = (cr_success r \<and> code = Some 0) in do {
       say (''Finished (exit='' @ show_exit code @ '')'') (Some ok);
       State_Monad.return (Transferred \<lparr>sd_success = ok, sd_exit_code = code, sd_snapshot = full,
         sd_host_key_error = (contains_str ''REMOTE HOST IDENTIFICATION HAS CHANGED'' out
           \<or> contains_str ''Host key verification failed'' out),
         sd_log = last_chars 3000 (drop_exit_marker out)\<rparr>) } }"

definition reverse_sync :: "host \<Rightarrow> sync_request \<Rightarrow> sync_result act" where
  "reverse_sync h q = do {
     refresh_key h q;
     found \<leftarrow> newest_snapshot h q;
     (case found of
        None \<Rightarrow> State_Monad.return (No_Replica_Snapshot (sy_replica q))
      | Some snap \<Rightarrow>
          if \<not> re_test DR_SNAP_RE snap then State_Monad.return Bad_Snapshot
          else let full = sy_replica q @ ''@'' @ snap in do {
            say (''Sending '' @ full @ '' -> '' @ sy_user q @ ''@'' @ sy_address q @ '':'' @ sy_source q) None;
            there \<leftarrow> destination_snapshots h q;
            if there \<noteq> [] then do {
              say ''Aborted: destination still has snapshots'' (Some False);
              State_Monad.return (Refused_Force (length there) full) }
            else transfer_replica h q full }) }"

definition reverse_sync_async ::
  "host \<Rightarrow> string \<Rightarrow> string \<Rightarrow> string \<Rightarrow> pyval \<Rightarrow> string \<Rightarrow> string \<Rightarrow> string \<Rightarrow> bool \<Rightarrow> bool \<Rightarrow> (py_exc + sync_result) act" where
  "reverse_sync_async h replica root addr port0 user source0 snapshot force refresh =
     (case reverse_request replica root addr port0 user source0 snapshot force refresh of
        Inl e \<Rightarrow> State_Monad.return (Inl e)
      | Inr q \<Rightarrow> do { res \<leftarrow> reverse_sync h q; State_Monad.return (Inr res) })"

section \<open>The check beforehand\<close>

record reverse_target =
  rt_exists :: bool
  rt_count :: nat
  rt_examples :: "string list"

definition check_reverse_target :: "host \<Rightarrow> string \<Rightarrow> (string + reverse_target) act" where
  "check_reverse_target h dataset =
     (if \<not> dr_dataset dataset then State_Monad.return (Inl ''invalid dataset'')
      else do {
        r \<leftarrow> run_command h (''zfs list -H -o name '' @ shell_quote dataset @ '' 2>/dev/null'');
        if \<not> (cr_success r \<and> strip (cr_stdout r) = dataset)
        then State_Monad.return (Inr \<lparr>rt_exists = False, rt_count = 0, rt_examples = []\<rparr>)
        else do {
          rs \<leftarrow> run_command h (''zfs list -H -t snapshot -o name -r -d 1 '' @ shell_quote dataset @ '' 2>/dev/null'');
          let snaps = nonempty_lines (cr_stdout rs) in
            State_Monad.return (Inr \<lparr>rt_exists = True, rt_count = length snaps, rt_examples = take 5 snaps\<rparr>) } })"

end
