(* ===== verification/DrHost.thy ===== *)
theory DrHost
  imports DrFiles DrSync Shell
begin

text \<open>
  \<open>app/dr.py\<close>, what is done on a rebuilt host besides the files: pools on its disks are imported, the properties of
  pools and datasets that the backup holds are set again, the packages of the backup are installed, the host is
  restarted. A list of names is sorted and without duplicates where the code sorts a set.
\<close>

definition sorted_names :: "string list \<Rightarrow> string list" where
  "sorted_names xs = sort (remdups xs)"

section \<open>Pools on the disks\<close>

definition DR_POOL_NAME_RE :: re where
  "DR_POOL_NAME_RE = whitelist (\<lambda>c. is_lower c \<or> is_upper c) (\<lambda>c. is_alnum c \<or> one_of ''_.:-'' c)"

record import_pool_row =
  ip_name :: string
  ip_state :: string
  ip_id :: string

definition field_re :: "string \<Rightarrow> re \<Rightarrow> re" where
  "field_re key r = seqs [Bol, Star (Ch is_space), lit key, plus (Ch is_space), Grp 1 r, Star (Ch is_space), Eol]"

definition POOL_LINE_RE :: re where
  "POOL_LINE_RE = field_re ''pool:'' (plus (Ch (\<lambda>c. \<not> is_space c)))"

definition STATE_LINE_RE :: re where
  "STATE_LINE_RE = field_re ''state:'' (Seq any_char (Lazy any_char))"

definition ID_LINE_RE :: re where
  "ID_LINE_RE = field_re ''id:'' (plus (Ch is_digit))"

text \<open>The pool that the lines are about is the last one seen.\<close>

definition on_last :: "('a \<Rightarrow> 'a) \<Rightarrow> 'a list \<Rightarrow> 'a list" where
  "on_last f ps = (if ps = [] then [] else butlast ps @ [f (last ps)])"

definition import_line :: "string \<Rightarrow> import_pool_row list \<Rightarrow> import_pool_row list" where
  "import_line line ps =
     (case re_match POOL_LINE_RE line of
        Some m \<Rightarrow> ps @ [\<lparr>ip_name = group_str 1 m, ip_state = [], ip_id = []\<rparr>]
      | None \<Rightarrow>
          (case re_match STATE_LINE_RE line of
             Some m \<Rightarrow> on_last (\<lambda>p. p\<lparr>ip_state := group_str 1 m\<rparr>) ps
           | None \<Rightarrow>
               (case re_match ID_LINE_RE line of
                  Some m \<Rightarrow> on_last (\<lambda>p. p\<lparr>ip_id := group_str 1 m\<rparr>) ps
                | None \<Rightarrow> ps)))"

definition parse_importable_pools :: "string \<Rightarrow> import_pool_row list" where
  "parse_importable_pools out = fold import_line (splitlines out) []"

definition pool_names_command :: string where
  "pool_names_command = ''zpool list -H -o name 2>/dev/null''"

text \<open>The pools imported and those that could be.\<close>

definition list_pool_import_status :: "host \<Rightarrow> (string list \<times> import_pool_row list) act" where
  "list_pool_import_status h = do {
     cur \<leftarrow> run_command h pool_names_command;
     av \<leftarrow> run_command h ''zpool import 2>&1'';
     let imported = nonempty_lines (cr_stdout cur) in
       State_Monad.return (imported, filter (\<lambda>p. ip_name p \<notin> set imported) (parse_importable_pools (cr_stdout av))) }"

datatype import_result = Bad_Pool_Name | Pool_Import bool "int option" string string

text \<open>\<open>Pool_Import success exit_code pool output\<close>.\<close>

definition import_command :: "bool \<Rightarrow> string \<Rightarrow> string" where
  "import_command force pool = ''zpool import '' @ (if force then ''-f '' else []) @ shell_quote pool @ '' 2>&1; echo __exit=$?''"

definition import_pool :: "host \<Rightarrow> string \<Rightarrow> bool \<Rightarrow> import_result act" where
  "import_pool h pool force =
     (if \<not> re_test DR_POOL_NAME_RE pool then State_Monad.return Bad_Pool_Name
      else do {
        r \<leftarrow> run_command h (import_command force pool);
        let code = parse_exit_marker (cr_stdout r) in
          State_Monad.return (Pool_Import (code = Some 0) code pool (take 1000 (drop_exit_marker (cr_stdout r)))) })"

definition reboot_command :: string where
  "reboot_command = script_text ''^@%'' [''nohup sh -c @sleep 2; systemctl reboot || reboot@ >/dev/null 2>&1 & echo __reboot_scheduled__'']"

text \<open>None, or the text of the error.\<close>

definition reboot_target :: "host \<Rightarrow> string option act" where
  "reboot_target h = do {
     r \<leftarrow> run_command h reboot_command;
     State_Monad.return
       (if contains_str ''__reboot_scheduled__'' (cr_stdout r) then None
        else let e = take 200 (strip (cr_stderr r)) in Some (if e = [] then ''reboot command failed'' else e)) }"

section \<open>Properties\<close>

definition ZPROP_SKIP_DATASET :: "string list" where
  "ZPROP_SKIP_DATASET = [''volblocksize'', ''volsize'', ''casesensitivity'', ''normalization'', ''utf8only'',
     ''encryption'', ''keyformat'', ''keylocation'', ''pbkdf2iters'']"

definition ZPROP_SKIP_POOL :: "string list" where
  "ZPROP_SKIP_POOL = [''ashift'', ''version'']"

definition PROP_NAME_RE :: re where
  "PROP_NAME_RE = whitelist is_lower (\<lambda>c. is_alnum c \<or> one_of ''_.:-'' c)"

text \<open>The text of the first file of the backup at a path.\<close>

definition text_of_file :: "archive \<Rightarrow> string \<Rightarrow> string" where
  "text_of_file ar target =
     (case ar of
        Inl e \<Rightarrow> []
      | Inr ms \<Rightarrow>
          (case List.find (\<lambda>m. am_file m \<and> rel_path (am_name m) = target) ms of
             None \<Rightarrow> []
           | Some m \<Rightarrow> decode_utf8 (am_data m)))"

definition prop_row_of :: "string \<Rightarrow> (string \<times> string \<times> string \<times> string) option" where
  "prop_row_of line = (case split_on (\<lambda>c. c = tab) line of n # p # v # s # _ \<Rightarrow> Some (n, p, v, s) | _ \<Rightarrow> None)"

definition read_prop_rows :: "archive \<Rightarrow> string \<Rightarrow> (string \<times> string \<times> string \<times> string) list" where
  "read_prop_rows ar target = List.map_filter prop_row_of (splitlines (text_of_file ar target))"

record zfs_prop =
  zp_name :: string
  zp_prop :: string
  zp_value :: string

definition pool_prop_of :: "string \<times> string \<times> string \<times> string \<Rightarrow> zfs_prop option" where
  "pool_prop_of row = (case row of (n, p, v, s) \<Rightarrow>
     if s \<noteq> ''local'' \<or> p \<in> set ZPROP_SKIP_POOL \<or> starts_with ''feature@'' p then None
     else if \<not> re_test PROP_NAME_RE p then None
     else Some \<lparr>zp_name = n, zp_prop = p, zp_value = v\<rparr>)"

definition ds_prop_of :: "string \<times> string \<times> string \<times> string \<Rightarrow> zfs_prop option" where
  "ds_prop_of row = (case row of (n, p, v, s) \<Rightarrow>
     if s \<noteq> ''local'' \<or> p \<in> set ZPROP_SKIP_DATASET then None
     else if \<not> re_test PROP_NAME_RE p then None
     else Some \<lparr>zp_name = n, zp_prop = p, zp_value = v\<rparr>)"

text \<open>Of the pools and of the datasets.\<close>

definition read_zfs_properties :: "archive \<Rightarrow> zfs_prop list \<times> zfs_prop list" where
  "read_zfs_properties ar =
     (List.map_filter pool_prop_of (read_prop_rows ar ''cmd/zpool-properties.txt''),
      List.map_filter ds_prop_of (read_prop_rows ar ''cmd/zfs-properties.txt''))"

record set_result =
  se_status :: string
  se_kind :: string
  se_name :: string
  se_prop :: string

record apply_result =
  ap_success :: bool
  ap_pools :: nat
  ap_datasets :: nat
  ap_skipped :: nat
  ap_failed :: nat
  ap_results :: "set_result list"
  ap_absent :: "string list"

definition set_line :: "string \<times> zfs_prop \<Rightarrow> string" where
  "set_line item = (case item of (kind, p) \<Rightarrow>
     let tag = join [tab] [kind, zp_name p, zp_prop p]
     in ''if '' @ (if kind = ''pool'' then ''zpool'' else ''zfs'') @ '' set '' @ shell_quote (zp_prop p @ ''='' @ zp_value p) @ '' ''
        @ shell_quote (zp_name p) @ '' >/dev/null 2>&1; then echo '' @ shell_quote (''OK'' @ [tab] @ tag)
        @ ''; else echo '' @ shell_quote (''ERR'' @ [tab] @ tag) @ ''; fi'')"

definition set_result_of :: "string \<Rightarrow> set_result option" where
  "set_result_of line =
     (case split_on (\<lambda>c. c = tab) line of
        st # k # n # p # _ \<Rightarrow>
          if st \<in> {''OK'', ''ERR''} then Some \<lparr>se_status = st, se_kind = k, se_name = n, se_prop = p\<rparr> else None
      | _ \<Rightarrow> None)"

definition count_ok :: "string \<Rightarrow> set_result list \<Rightarrow> nat" where
  "count_ok kind rs = length (filter (\<lambda>r. se_status r = ''OK'' \<and> se_kind r = kind) rs)"

definition is_there :: "string list \<Rightarrow> string list \<Rightarrow> string \<times> zfs_prop \<Rightarrow> bool" where
  "is_there pools dss item = (zp_name (snd item) \<in> set (if fst item = ''pool'' then pools else dss))"

definition ds_names_command :: string where
  "ds_names_command = ''zfs list -H -o name -t filesystem,volume 2>/dev/null''"

definition run_set_lines :: "host \<Rightarrow> string list \<Rightarrow> set_result list act" where
  "run_set_lines h ls =
     (if ls = [] then State_Monad.return []
      else do {
        r \<leftarrow> run_command h (join [newline] ls);
        State_Monad.return (List.map_filter set_result_of (splitlines (cr_stdout r))) })"

definition property_plan :: "archive \<Rightarrow> (string \<times> zfs_prop) list" where
  "property_plan ar = (case read_zfs_properties ar of (ps, ds) \<Rightarrow> map (Pair ''pool'') ps @ map (Pair ''ds'') ds)"

definition apply_zfs_properties :: "host \<Rightarrow> archive \<Rightarrow> apply_result act" where
  "apply_zfs_properties h ar =
     (let plan = property_plan ar
      in if plan = [] then State_Monad.return \<lparr>ap_success = True, ap_pools = 0, ap_datasets = 0, ap_skipped = 0, ap_failed = 0,
           ap_results = [], ap_absent = []\<rparr>
         else do {
           pr \<leftarrow> run_command h pool_names_command;
           dr \<leftarrow> run_command h ds_names_command;
           let here = is_there (nonempty_lines (cr_stdout pr)) (nonempty_lines (cr_stdout dr)) in do {
             rs \<leftarrow> run_set_lines h (map set_line (filter here plan));
             let absent = sorted_names (map (zp_name \<circ> snd) (filter (\<lambda>i. \<not> here i) plan));
                 failed = length (filter (\<lambda>r. se_status r = ''ERR'') rs)
             in State_Monad.return \<lparr>ap_success = (failed = 0), ap_pools = count_ok ''pool'' rs, ap_datasets = count_ok ''ds'' rs,
                  ap_skipped = length absent, ap_failed = failed, ap_results = rs, ap_absent = absent\<rparr> } })"

section \<open>Packages\<close>

definition read_dpkg_selections :: "archive \<Rightarrow> string" where
  "read_dpkg_selections ar = text_of_file ar ''cmd/dpkg-selections.txt''"

definition before_colon :: "string \<Rightarrow> string" where
  "before_colon s = takeWhile (\<lambda>c. c \<noteq> CHR '':'') s"

definition read_apt_manual :: "archive \<Rightarrow> string list" where
  "read_apt_manual ar = sorted_names (map before_colon (nonempty_lines (text_of_file ar ''cmd/apt-manual.txt'')))"

definition selection_line :: "string \<Rightarrow> string option" where
  "selection_line line =
     (let parts = split_ws line
      in if 2 \<le> length parts \<and> last parts \<in> {''install'', ''hold''} then Some (hd parts @ [tab] @ last parts) else None)"

definition filter_selections :: "string \<Rightarrow> string" where
  "filter_selections txt = join [newline] (List.map_filter selection_line (splitlines txt))"

definition install_name :: "string \<Rightarrow> string option" where
  "install_name line =
     (let parts = split_ws line
      in if 2 \<le> length parts \<and> last parts = ''install'' then Some (before_colon (hd parts)) else None)"

definition install_package_names :: "string \<Rightarrow> string list" where
  "install_package_names sel = sorted_names (List.map_filter install_name (splitlines sel))"

definition wanted_packages :: "archive \<Rightarrow> string list" where
  "wanted_packages ar =
     (if read_apt_manual ar \<noteq> [] then read_apt_manual ar
      else install_package_names (filter_selections (read_dpkg_selections ar)))"

definition REINSTALL_STEPS :: "string list" where
  "REINSTALL_STEPS = [
     ''DEBIAN_FRONTEND=noninteractive apt-get update -qq || true'',
     ''apt-cache pkgnames 2>/dev/null | sort -u > /tmp/.pvezfs_avail'',
     ''grep -Fxf /tmp/.pvezfs_avail /tmp/.pvezfs_req > /tmp/.pvezfs_inst 2>/dev/null || true'',
     ''if [ -s /tmp/.pvezfs_inst ]; then'',
     ''  DEBIAN_FRONTEND=noninteractive xargs apt-get install -y -o Dpkg::Options::=--force-confold < /tmp/.pvezfs_inst 2>&1'',
     ''  EC=$?'',
     ''else EC=0; echo @no requested package is available from the repos@; fi'',
     ''dpkg-query -W -f=@${Package}%n@ 2>/dev/null | sort -u > /tmp/.pvezfs_have'',
     ''grep -Fxv -f /tmp/.pvezfs_have /tmp/.pvezfs_req > /tmp/.pvezfs_miss 2>/dev/null || true'',
     ''echo ^__missing_count=$(grep -c . /tmp/.pvezfs_miss 2>/dev/null || echo 0)^'',
     ''echo __missing_begin'',
     ''head -60 /tmp/.pvezfs_miss 2>/dev/null || true'',
     ''echo __missing_end'',
     ''rm -f /tmp/.pvezfs_req /tmp/.pvezfs_avail /tmp/.pvezfs_inst /tmp/.pvezfs_have /tmp/.pvezfs_miss'',
     ''echo __exit=$EC'',
     []]"

definition reinstall_script :: "string list \<Rightarrow> string" where
  "reinstall_script want =
     ''echo '' @ shell_quote (b64encode (join [newline] want @ [newline])) @ '' | base64 -d | sort -u > /tmp/.pvezfs_req''
     @ [newline] @ script_text ''^@%'' REINSTALL_STEPS"

definition anything :: re where
  "anything = Lazy (Ch (\<lambda>c. True))"

definition MISSING_COUNT_RE :: re where
  "MISSING_COUNT_RE = Seq (lit ''__missing_count='') (Grp 1 (plus (Ch is_digit)))"

definition MISSING_RE :: re where
  "MISSING_RE = seqs [lit ''__missing_begin'', chr newline, Grp 1 anything, opt (chr newline), lit ''__missing_end'']"

definition MARKER_BLOCK_RE :: re where
  "MARKER_BLOCK_RE = seqs [opt (chr newline), lit ''__missing_count='', anything, EXIT_RE]"

record reinstall_done =
  pk_success :: bool
  pk_exit_code :: "int option"
  pk_requested :: nat
  pk_apt_restored :: nat
  pk_missing_count :: "int option"
  pk_missing :: "string list"
  pk_log_tail :: string

datatype reinstall_result = No_Package_List nat | Reinstalled reinstall_done

definition missing_count :: "string \<Rightarrow> int option" where
  "missing_count out = map_option (\<lambda>m. digits_val (group_str 1 m)) (re_search MISSING_COUNT_RE out)"

definition missing_names :: "string \<Rightarrow> string list" where
  "missing_names out = (case re_search MISSING_RE out of None \<Rightarrow> [] | Some m \<Rightarrow> nonempty_lines (group_str 1 m))"

definition apt_restored :: "string + restore_summary \<Rightarrow> nat" where
  "apt_restored r = (case r of Inl e \<Rightarrow> 0 | Inr s \<Rightarrow> su_restored s)"

definition run_reinstall :: "host \<Rightarrow> string list \<Rightarrow> nat \<Rightarrow> reinstall_result act" where
  "run_reinstall h want restored = do {
     say (''Repos restored ('' @ show_nat restored @ ''). Installing '' @ show_nat (length want) @ '' packages via apt ...'') None;
     say ''Running apt-get install (this can take a while) ...'' None;
     r \<leftarrow> run_command h (reinstall_script want);
     let out = cr_stdout r; code = parse_exit_marker out; missing = missing_count out;
         ok = (cr_success r \<and> code = Some 0 \<and> missing = Some 0)
     in do {
       say (''Finished (exit='' @ show_exit code @ '', '' @ (case missing of None \<Rightarrow> ''?'' | Some n \<Rightarrow> show_int n)
         @ '' still missing)'') (Some ok);
       State_Monad.return (Reinstalled \<lparr>pk_success = ok, pk_exit_code = code, pk_requested = length want,
         pk_apt_restored = restored, pk_missing_count = missing, pk_missing = missing_names out,
         pk_log_tail = last_chars 4000 (strip (re_sub MARKER_BLOCK_RE [] out))\<rparr>) } }"

definition reinstall_packages :: "host \<Rightarrow> archive \<Rightarrow> reinstall_result act" where
  "reinstall_packages h ar = do {
     say ''Restoring APT sources + signing keys from backup ...'' None;
     apt \<leftarrow> restore_backup_category h ar ''apt'' True;
     let want = wanted_packages ar; restored = apt_restored apt in
       if want = [] then do {
         say ''No installable package list in backup'' (Some False);
         State_Monad.return (No_Package_List restored) }
       else run_reinstall h want restored }"

end
