(* ===== verification/DrSafety.thy ===== *)
theory DrSafety
  imports DrHost MigrateSafety
begin

text \<open>
  What bringing a host back does to it, in every environment: when a replica is sent back over existing data, which
  files are written and with what contents, which properties are set.
\<close>

section \<open>Sending a replica back\<close>

definition sends :: "string \<Rightarrow> bool" where
  "sends c = starts_with ''set -o pipefail'' c"

definition silent :: "event list \<Rightarrow> bool" where
  "silent es = list_all (\<lambda>e. case e of Ran h c r \<Rightarrow> \<not> sends c | _ \<Rightarrow> True) es"

lemma silent_simps [simp]:
  "silent []" "silent (Said m f # es) = silent es" "silent (Ran h c r # es) = (\<not> sends c \<and> silent es)"
  "silent (es @ fs) = (silent es \<and> silent fs)"
  by (simp_all add: silent_def)

lemma silent_commands [simp]:
  "\<not> sends (refresh_command a p)" "\<not> sends (guard_command q)" "\<not> sends (''zfs list '' @ x)"
  by (simp_all add: sends_def refresh_command_def guard_command_def dr_ssh_def starts_with_def)

lemma silent_list [simp]: "\<not> sends (CHR ''z'' # x)"
  by (simp add: sends_def starts_with_def)

lemma silent_not_in: "silent es \<Longrightarrow> sends c \<Longrightarrow> Ran h c r \<notin> set es"
  by (auto simp: silent_def list_all_iff)

text \<open>The only transfer comes right after the destination was looked at, when data there may be overwritten.\<close>

definition sync_parts ::
  "host \<Rightarrow> sync_request \<Rightarrow> sync_done \<Rightarrow> event list \<Rightarrow> event list \<Rightarrow> cmd_result \<Rightarrow> event list \<Rightarrow> bool" where
  "sync_parts h q d es a r b =
     (es = a @ Ran h (send_command q (sd_snapshot d)) r # b \<and> silent a \<and> silent b \<and>
      (\<exists>snap. sd_snapshot d = sy_replica q @ ''@'' @ snap \<and> re_test DR_SNAP_RE snap) \<and>
      (sy_force q \<longrightarrow> (\<exists>a' g. a = a' @ [Ran h (guard_command q) g] \<and> nonempty_lines (cr_stdout g) = [])) \<and>
      sd_success d = (cr_success r \<and> parse_exit_marker (cr_stdout r) = Some 0))"

definition sync_post :: "host \<Rightarrow> sync_request \<Rightarrow> sync_result \<Rightarrow> event list \<Rightarrow> bool" where
  "sync_post h q res es = (case res of Transferred d \<Rightarrow> \<exists>a r b. sync_parts h q d es a r b | _ \<Rightarrow> silent es)"

lemma does_refresh: "does (refresh_key h q) (\<lambda>_ es. silent es)"
  unfolding refresh_key_def by (intro does_if does_say_bind does_run_bind) (auto intro!: does_return does_say split: list.split)

lemma does_newest: "does (newest_snapshot h q) (\<lambda>_ es. silent es)"
  unfolding newest_snapshot_def by (intro does_rules) auto

lemma does_there:
  "does (destination_snapshots h q) (\<lambda>l es. silent es \<and>
     (sy_force q \<longrightarrow> (\<exists>a g. es = a @ [Ran h (guard_command q) g] \<and> l = nonempty_lines (cr_stdout g))))"
  unfolding destination_snapshots_def by (intro does_rules) auto

lemma does_transfer_replica:
  "does (transfer_replica h q full) (\<lambda>res es. \<exists>d r m f. res = Transferred d \<and> sd_snapshot d = full \<and>
     es = [Ran h (send_command q full) r, Said m f] \<and>
     sd_success d = (cr_success r \<and> parse_exit_marker (cr_stdout r) = Some 0))"
  unfolding transfer_replica_def Let_def by (intro does_rules) auto

lemma sync_made:
  assumes "silent a" "silent b" "sd_snapshot d = sy_replica q @ ''@'' @ snap" "re_test DR_SNAP_RE snap"
    "sy_force q \<longrightarrow> (\<exists>a' g. a = a' @ [Ran h (guard_command q) g] \<and> nonempty_lines (cr_stdout g) = [])"
    "sd_success d = (cr_success r \<and> parse_exit_marker (cr_stdout r) = Some 0)" "full = sd_snapshot d"
    "es = a @ Ran h (send_command q full) r # b"
  shows "sync_post h q (Transferred d) es"
  unfolding sync_post_def sync_parts_def sync_result.case
  by (rule exI [of _ a], rule exI [of _ r], rule exI [of _ b]) (use assms in simp)

lemma sync_silent:
  "silent es \<Longrightarrow> sync_post h q (No_Replica_Snapshot s) es" "silent es \<Longrightarrow> sync_post h q Bad_Snapshot es"
  "silent es \<Longrightarrow> sync_post h q (Refused_Force n full) es"
  by (simp_all add: sync_post_def)

lemma does_reverse: "does (reverse_sync h q) (sync_post h q)"
  unfolding reverse_sync_def Let_def
proof (intro does_bind [OF does_refresh] does_bind [OF does_newest] does_option does_return does_if does_say_bind
    does_bind [OF does_there] does_weaken [OF does_transfer_replica], simp_all add: sync_silent, elim exE conjE, goal_cases)
  case (1 e1 found e2 snap there e3 res e4 d r m f)
  let ?s = "Said (''Sending '' @ sy_replica q @ ''@'' @ snap @ '' -> '' @ sy_user q @ ''@'' @ sy_address q @ '':'' @ sy_source q) None"
  have g: "sy_force q \<longrightarrow> (\<exists>a' g. e1 @ e2 @ ?s # e3 = a' @ [Ran h (guard_command q) g] \<and> nonempty_lines (cr_stdout g) = [])"
    using 1(7) by (metis append_Cons append_assoc)
  have s: "sd_snapshot d = sy_replica q @ ''@'' @ snap" using 1(9) by simp
  show ?case unfolding 1(8)
    by (rule sync_made [OF _ _ s 1(4) g 1(10) s [symmetric], where b = "[Said m f]"]) (use 1 in simp_all)
qed


text \<open>The request that a checked call makes.\<close>

lemma request_checked:
  "reverse_request replica root addr port user source snapshot force refresh = Inr q \<Longrightarrow>
   sy_replica q = replica \<and> dr_dataset replica \<and> dr_dataset (sy_source q) \<and> sy_address q = addr \<and> sy_force q = force \<and>
   1 \<le> sy_port q \<and> sy_port q \<le> 65535"
  by (auto simp: reverse_request_def Let_def split: if_splits option.splits)

definition asked :: "string \<Rightarrow> string \<Rightarrow> bool \<Rightarrow> sync_request \<Rightarrow> bool" where
  "asked replica addr force q =
     (sy_replica q = replica \<and> dr_dataset replica \<and> dr_dataset (sy_source q) \<and> sy_address q = addr \<and> sy_force q = force \<and>
      1 \<le> sy_port q \<and> sy_port q \<le> 65535)"

lemma does_async:
  "does (reverse_sync_async h replica root addr port user source snapshot force refresh) (\<lambda>res es. case res of
     Inl e \<Rightarrow> es = [] | Inr out \<Rightarrow> \<exists>q. asked replica addr force q \<and> sync_post h q out es)"
  unfolding reverse_sync_async_def
  by (intro does_sum does_return does_bind [OF does_reverse]) (auto simp: asked_def dest: request_checked)

lemma only_transfer:
  assumes "a @ Ran h' c r # b = x @ Ran h d s # y" "sends c" "silent x" "silent y"
  shows "a = x \<and> h' = h \<and> c = d \<and> r = s \<and> b = y"
proof -
  have "Ran h' c r \<notin> set x" "Ran h' c r \<notin> set y" using assms(2-4) by (auto dest: silent_not_in)
  from split_after [OF assms(1) this(1)] obtain u where u: "a = x @ u" "Ran h d s # y = u @ Ran h' c r # b" by blast
  with \<open>Ran h' c r \<notin> set y\<close> have "u = []" by (cases u) auto
  with u show ?thesis by simp
qed


text \<open>A host whose replica of a dataset goes back to an empty place.\<close>

definition ex_sync_world :: world where
  "ex_sync_world = fresh (answer_by [(''set -o pipefail'', cmd_ok ''__exit=0''), (''ssh '', cmd_ok [])])"

abbreviation ex_sync :: "(py_exc + sync_result) act" where
  "ex_sync \<equiv> reverse_sync_async ex_tgt ''b/r/d'' ''b/r'' ''pve2'' (VInt 22) [] ''t/d'' ''s1'' True False"

lemma ex_sync_history: "\<exists>x y. history_of ex_sync ex_sync_world = x @ Ran ex_tgt (send_command
    \<lparr>sy_replica = ''b/r/d'', sy_address = ''pve2'', sy_port = 22, sy_user = ''root'', sy_source = ''t/d'', sy_snapshot = ''s1'',
     sy_force = True, sy_refresh = False\<rparr> ''b/r/d@s1'') (cmd_ok ''__exit=0'') # y"
proof -
  let ?l = "history_of ex_sync ex_sync_world"
  have "length ?l = 5 \<and> ?l ! 3 = Ran ex_tgt (send_command
    \<lparr>sy_replica = ''b/r/d'', sy_address = ''pve2'', sy_port = 22, sy_user = ''root'', sy_source = ''t/d'', sy_snapshot = ''s1'',
     sy_force = True, sy_refresh = False\<rparr> ''b/r/d@s1'') (cmd_ok ''__exit=0'')" by code_simp
  then show ?thesis using id_take_nth_drop [of 3 ?l] by (intro exI [of _ "take 3 ?l"] exI [of _ "drop 4 ?l"]) simp
qed

lemma send_sends [simp]: "sends (send_command q full)"
  by (simp add: sends_def send_command_def starts_with_def)


section \<open>Writing files\<close>

text \<open>What happens for one member: nothing, a look at the target, or a look and the write of just its bytes.\<close>

definition file_step :: "host \<Rightarrow> member list \<Rightarrow> (string \<Rightarrow> bool) \<Rightarrow> bool \<Rightarrow> event list \<Rightarrow> bool" where
  "file_step h ms pred force es = (es = [] \<or>
     (\<exists>m name node d r. m \<in> set ms \<and> am_file m \<and> am_name m = rstrip_chars ''/'' name \<and> pred (rel_path name) \<and>
       backup_target_path (rel_path name) node = Some d \<and>
       (es = [Ran h (exists_command d) r] \<or>
        (\<exists>s. es = [Ran h (exists_command d) r, Ran h (file_command d (am_exec m) (am_data m)) s] \<and>
          (contains_str ''__EXISTS__'' (cr_stdout r) \<longrightarrow> force)))))"

lemma does_write_file:
  "does (write_file h m d force) (\<lambda>_ es. \<exists>r. es = [Ran h (exists_command d) r] \<or>
     (\<exists>s. es = [Ran h (exists_command d) r, Ran h (file_command d (am_exec m) (am_data m)) s] \<and>
       (contains_str ''__EXISTS__'' (cr_stdout r) \<longrightarrow> force)))"
  unfolding write_file_def Let_def by (intro does_rules) auto

lemma get_member_in: "get_member ms name = Some m \<Longrightarrow> m \<in> set ms \<and> am_name m = rstrip_chars ''/'' name"
  unfolding get_member_def by (auto dest!: find_SomeD)

lemma does_restore_member:
  assumes "pred (rel_path name)"
  shows "does (restore_backup_file h (Inr ms) name force (Some node)) (\<lambda>_ es. file_step h ms pred force es)"
  unfolding restore_backup_file_def node_or_ask_def sum.case option.case
  using assms by (intro does_rules does_weaken [OF does_write_file])
    (auto simp: file_step_def dest!: get_member_in, blast+)

lemma restorable_pred: "(name, rel) \<in> set (restorable_members pred ms) \<Longrightarrow> pred (rel_path name)"
  by (auto simp: restorable_members_def)

text \<open>At most the name of the node is asked for, then one step per member.\<close>

lemma does_member_list:
  assumes "\<And>name rel. (name, rel) \<in> set ns \<Longrightarrow> pred (rel_path name)"
  shows "does (restore_member_list h (Inr ms) ns force) (\<lambda>_ es. es = [] \<or> (\<exists>r ess.
     es = Ran h ''hostname'' r # concat ess \<and> list_all (file_step h ms pred force) ess))"
proof -
  have node: "does (read_node h) (\<lambda>_ es. \<exists>r. es = [Ran h ''hostname'' r])"
    unfolding read_node_def by (intro does_rules) auto
  have each: "does (for_each (\<lambda>(name, rel). do {
      res \<leftarrow> restore_backup_file h (Inr ms) name force (Some node); State_Monad.return (rel, res) }) ns)
    (\<lambda>_ es. \<exists>ess. es = concat ess \<and> list_all (file_step h ms pred force) ess)" for node
  proof (rule does_weaken [OF does_for_each [where P = "\<lambda>_ _ es. file_step h ms pred force es"]])
    fix p assume p: "p \<in> set ns"
    obtain name rel where "p = (name, rel)" by (cases p)
    with p assms have "pred (rel_path (fst p))" by auto
    then show "does (case p of (name, rel) \<Rightarrow> do {
        res \<leftarrow> restore_backup_file h (Inr ms) name force (Some node); State_Monad.return (rel, res) })
      (\<lambda>es. file_step h ms pred force)"
      by (auto split: prod.split intro!: does_bind [OF does_restore_member [where pred = pred]] does_return)
  qed (elim exE conjE, rule exI, rule conjI, assumption, simp add: list_all_length)
  show ?thesis unfolding restore_member_list_def
    by (intro does_if does_return does_bind [OF node] does_bind [OF each]) auto
qed

lemma does_selected:
  "does (restore_selected h ar pred force) (\<lambda>_ es. es = [] \<or> (\<exists>ms r ess. ar = Inr ms \<and>
     es = Ran h ''hostname'' r # concat ess \<and> list_all (file_step h ms pred force) ess))"
proof (cases ar)
  case (Inr ms)
  then show ?thesis unfolding restore_selected_def Inr sum.case
    by (intro does_bind [OF does_member_list [where pred = pred]] does_return) (auto dest: restorable_pred)
qed (auto simp: restore_selected_def intro: does_return)

lemma concat_split: "concat ess = a @ e # b \<Longrightarrow> \<exists>us u v. u @ e # v \<in> set ess \<and> a = concat us @ u"
proof (induction ess arbitrary: a)
  case (Cons f ess)
  have "f @ concat ess = a @ e # b" using Cons.prems by simp
  then obtain z where "f @ z = a \<and> concat ess = z @ e # b \<or> f = a @ z \<and> z @ concat ess = e # b"
    unfolding append_eq_append_conv2 by blast
  then show ?case
  proof (elim disjE conjE)
    assume z: "f @ z = a" "concat ess = z @ e # b"
    from Cons.IH [OF z(2)] obtain us u v where "u @ e # v \<in> set ess" "z = concat us @ u" by blast
    with z(1) show ?thesis by (intro exI [of _ "f # us"] exI [of _ u] exI [of _ v]) auto
  next
    assume z: "f = a @ z" "z @ concat ess = e # b"
    show ?thesis
    proof (cases z)
      case Nil
      with z Cons.IH [of "[]"] have "\<exists>us u v. u @ e # v \<in> set ess \<and> [] = concat us @ u" by simp
      then obtain us u v where "u @ e # v \<in> set ess" "concat us @ u = []" by metis
      with Nil z(1) show ?thesis by (intro exI [of _ "[a]"] exI [of _ u] exI [of _ v]) auto
    next
      case (Cons y zs)
      with z show ?thesis by (intro exI [of _ "[]"] exI [of _ a] exI [of _ zs]) auto
    qed
  qed
qed simp

text \<open>The places where files may be put.\<close>

definition may_write :: "string \<Rightarrow> bool" where
  "may_write d = (d = ''/root/.ssh/authorized_keys'' \<or> begins_any [''/etc/'', ''/lib/systemd/network/'', ''/usr/share/keyrings/''] d)"

lemma target_may_write: "backup_target_path rel node = Some d \<Longrightarrow> may_write d"
  by (auto simp: backup_target_path_def plain_target_def may_write_def begins_any_def starts_with_def
      split: if_splits option.splits)

lemma target_not_cluster:
  "backup_target_path rel node = Some d \<Longrightarrow> categorize rel \<noteq> ''cluster'' \<Longrightarrow> d \<notin> set (map (Cons CHR ''/'') CLUSTER_FILES)"
  by (auto simp: backup_target_path_def plain_target_def CLUSTER_FILES_def categorize_def split: if_splits option.splits)

definition writes_file :: "string \<Rightarrow> bool" where
  "writes_file c = starts_with ''mkdir '' c"

lemma writes_simps [simp]: "writes_file (file_command d x s)" "\<not> writes_file (exists_command d)" "\<not> writes_file ''hostname''"
  by (simp_all add: writes_file_def file_command_def exists_command_def starts_with_def)



text \<open>A backup with one file, and a host on which it is missing.\<close>

definition ex_backup :: "member list" where
  "ex_backup = [\<lparr>am_name = ''./etc/hosts'', am_file = True, am_exec = False, am_data = ''x''\<rparr>]"

definition ex_restore_world :: world where
  "ex_restore_world = fresh (answer_by [(''['', cmd_ok ''__NO__''), (''mkdir'', cmd_ok ''__OK__''), (''hostname'', cmd_ok ''pve1'')])"

lemma ex_restore_history:
  "\<exists>x y r. history_of (restore_all_configs ex_tgt (Inr ex_backup) False) ex_restore_world
     = x @ Ran ex_tgt (file_command ''/etc/hosts'' False ''x'') r # y"
proof -
  let ?l = "history_of (restore_all_configs ex_tgt (Inr ex_backup) False) ex_restore_world"
  have "length ?l = 3 \<and> ?l ! 2 = Ran ex_tgt (file_command ''/etc/hosts'' False ''x'') (cmd_ok ''__OK__'')" by code_simp
  then show ?thesis using id_take_nth_drop [of 2 ?l] by (intro exI [of _ "take 2 ?l"] exI [of _ "[]"]) auto
qed


section \<open>Setting properties\<close>

definition sets_properties :: "string \<Rightarrow> bool" where
  "sets_properties c = starts_with ''if '' c"

lemma set_commands [simp]: "\<not> sets_properties pool_names_command" "\<not> sets_properties ds_names_command"
  by (simp_all add: sets_properties_def pool_names_command_def ds_names_command_def starts_with_def)

definition set_script :: "archive \<Rightarrow> cmd_result \<Rightarrow> cmd_result \<Rightarrow> string" where
  "set_script ar pr dr = join [newline] (map set_line
     (filter (is_there (nonempty_lines (cr_stdout pr)) (nonempty_lines (cr_stdout dr))) (property_plan ar)))"

lemma does_set_lines: "does (run_set_lines h ls) (\<lambda>_ es. es = [] \<or> (\<exists>r. es = [Ran h (join [newline] ls) r]))"
  unfolding run_set_lines_def by (intro does_rules) auto

lemma does_apply:
  "does (apply_zfs_properties h ar) (\<lambda>_ es. es = [] \<or> (\<exists>pr dr fs. es = [Ran h pool_names_command pr, Ran h ds_names_command dr] @ fs \<and>
     (fs = [] \<or> (\<exists>r. fs = [Ran h (set_script ar pr dr) r]))))"
  unfolding apply_zfs_properties_def Let_def
  by (intro does_if does_run_bind does_bind [OF does_set_lines] does_return) (auto simp: set_script_def)

text \<open>A property that may be set again.\<close>

definition settable :: "string \<times> zfs_prop \<Rightarrow> bool" where
  "settable item = (case item of (kind, p) \<Rightarrow> re_test PROP_NAME_RE (zp_prop p) \<and>
     (if kind = ''pool'' then zp_prop p \<notin> set ZPROP_SKIP_POOL \<and> \<not> starts_with ''feature@'' (zp_prop p)
      else zp_prop p \<notin> set ZPROP_SKIP_DATASET))"

lemma plan_settable: "item \<in> set (property_plan ar) \<Longrightarrow> settable item"
  by (auto simp: property_plan_def read_zfs_properties_def settable_def pool_prop_of_def ds_prop_of_def
      List.map_filter_def split: if_splits)

lemma plan_local:
  "(kind, p) \<in> set (property_plan ar) \<Longrightarrow> (zp_name p, zp_prop p, zp_value p, ''local'') \<in>
     set (read_prop_rows ar (if kind = ''pool'' then ''cmd/zpool-properties.txt'' else ''cmd/zfs-properties.txt''))"
  by (auto simp: property_plan_def read_zfs_properties_def pool_prop_of_def ds_prop_of_def List.map_filter_def
      split: if_splits)

text \<open>C38: The properties of a backup are set in one command, right after the host has listed its pools and datasets; it
  holds a line for just the properties of what was listed; and these are properties that the backup has as set locally, with a
  well-formed name, that can be changed after creation.\<close>

theorem properties_set_where_present:
  assumes "history_of (apply_zfs_properties h ar) w = a @ Ran h' c r # b" "sets_properties c"
  shows "h' = h \<and> b = [] \<and> (\<exists>pr dr. a = [Ran h pool_names_command pr, Ran h ds_names_command dr] \<and>
    c = join [newline] (map set_line
      (filter (is_there (nonempty_lines (cr_stdout pr)) (nonempty_lines (cr_stdout dr))) (property_plan ar)))) \<and>
    list_all settable (property_plan ar) \<and>
    (\<forall>(kind, p) \<in> set (property_plan ar). (zp_name p, zp_prop p, zp_value p, ''local'') \<in>
       set (read_prop_rows ar (if kind = ''pool'' then ''cmd/zpool-properties.txt'' else ''cmd/zfs-properties.txt'')))"
proof -
  from does_outcome [OF does_apply, of h ar w] obtain pr dr s where
    e: "a @ Ran h' c r # b = [Ran h pool_names_command pr, Ran h ds_names_command dr, Ran h (set_script ar pr dr) s]"
    using assms by (auto simp: append_eq_Cons_conv)
  then have "h' = h \<and> b = [] \<and> a = [Ran h pool_names_command pr, Ran h ds_names_command dr] \<and> c = set_script ar pr dr"
    using assms(2) by (auto simp: append_eq_Cons_conv)
  moreover have "list_all settable (property_plan ar)" by (auto simp: list_all_iff plan_settable)
  ultimately show ?thesis unfolding set_script_def using plan_local by blast
qed

text \<open>A backup with a property of a pool, and a host that has the pool.\<close>

definition ex_prop_backup :: archive where
  "ex_prop_backup = Inr [\<lparr>am_name = ''cmd/zpool-properties.txt'', am_file = True, am_exec = False,
     am_data = join [tab] [''t'', ''autotrim'', ''on'', ''local'']\<rparr>]"

definition ex_prop_world :: world where
  "ex_prop_world = fresh (answer_by [(''zpool list'', cmd_ok ''t''), (''zfs list'', cmd_ok ''t''), (''if '', cmd_ok [])])"

lemma ex_prop_history: "\<exists>x h c r y. history_of (apply_zfs_properties ex_tgt ex_prop_backup) ex_prop_world = x @ Ran h c r # y \<and>
   sets_properties c"
proof -
  let ?l = "history_of (apply_zfs_properties ex_tgt ex_prop_backup) ex_prop_world"
  have l: "2 < length ?l \<and> (case ?l ! 2 of Ran h c r \<Rightarrow> sets_properties c | _ \<Rightarrow> False)" by code_simp
  then obtain h c r where "?l ! 2 = Ran h c r" "sets_properties c" by (auto split: event.splits)
  with l id_take_nth_drop [of 2 ?l] show ?thesis by (metis One_nat_def)
qed

theorem properties_set_where_present_witness:
  "list_all settable (property_plan ex_prop_backup) \<and> property_plan ex_prop_backup \<noteq> []"
proof -
  from ex_prop_history obtain x h c r y where
    "history_of (apply_zfs_properties ex_tgt ex_prop_backup) ex_prop_world = x @ Ran h c r # y" "sets_properties c" by blast
  from properties_set_where_present [OF this] have "list_all settable (property_plan ex_prop_backup)" by blast
  moreover have "property_plan ex_prop_backup \<noteq> []" by code_simp
  ultimately show ?thesis by simp
qed

section \<open>What the checks let through\<close>

text \<open>The look at the destination counts lines; a look that failed has none, and the overwriting transfer is sent.\<close>

definition ex_deaf_world :: world where
  "ex_deaf_world = fresh (answer_by [(''set -o pipefail'', cmd_ok ''__exit=0''), (''ssh '', cmd_fail ''Connection timed out'')])"

lemma failed_guard_is_ignored:
  "case history_of ex_sync ex_deaf_world of
     [_, _, Ran h1 c1 r1, Ran h2 c2 r2, _] \<Rightarrow> \<not> cr_success r1 \<and> sends c2 \<and> contains_str ''zfs recv -F'' c2
   | _ \<Rightarrow> False"
  by code_simp

text \<open>A file that was there and could not be overwritten counts as one left alone, and the whole as a success.\<close>

lemma failed_overwrite_is_success:
  "su_success (summary_of [(p, File_Written False True d e)]) \<and> su_skipped (summary_of [(p, File_Written False True d e)]) = 1"
  by (simp add: summary_of_def file_ok_def file_existed_def Let_def)

text \<open>Files of all nodes of a cluster go to the same place on the one being restored.\<close>

lemma nodes_collide:
  "backup_target_path ''etc/pve/nodes/a/pve-ssl.key'' ''c'' = Some ''/etc/pve/nodes/c/pve-ssl.key''"
  "backup_target_path ''etc/pve/nodes/b/pve-ssl.key'' ''c'' = Some ''/etc/pve/nodes/c/pve-ssl.key''"
  by code_simp+

text \<open>A path is judged as it is written.\<close>

lemma dots_pass:
  "backup_target_path ''etc/../root/.profile'' ''c'' = Some ''/etc/../root/.profile''"
  "categorize ''etc/pve/./corosync.conf'' = ''other''"
  "backup_target_path ''etc/pve/./corosync.conf'' ''c'' = Some ''/etc/pve/./corosync.conf''"
  by code_simp+

end
