(* ===== verification/Spec2Isabelle.thy ===== *)
theory Spec2Isabelle
  imports Validators SnapTags UnionFind ReplInventory ReplMatrix Backups PoolTopology Monitor GuestIntent
    Base64 ReplConfig Cache SshPool HostIdentity Wol HostRegistry ReplMonitor Tasks SnapAnalysis Autosnap
    StaleCheck HostBackup MigrateNaming MigrateSafety ZfsSafety RecoverySafety RecoveryMarker RecoveryIsolation DrSafety
begin

text \<open>
  pve-zfs-tool is a web application that manages ZFS on a set of Proxmox hosts. One Python process
  keeps a registry of hosts (\<open>hosts.json\<close>), runs shell commands on them over SSH, parses their output
  and shows, judges and changes what it finds. This development models the parts of \<open>app/\<close> that decide
  something; what a remote command prints is a parameter of type \<open>host \<Rightarrow> string \<Rightarrow> cmd_result\<close>.

  Shared ground: \<open>Prelude\<close> has Python's insertion-ordered dictionaries, the store interface
  \<open>kv_store\<close>, hosts and command results. \<open>PyStr\<close> has the string operations, \<open>PyRegex\<close> the regular
  expressions with the matching order of the module \<open>re\<close>, \<open>PyVal\<close> JSON values, \<open>repr\<close> and
  \<open>shlex.quote\<close>, \<open>Base64\<close> UTF-8 and base64. Characters are code points below 256.

  The components, in the order in which they build on each other:

  \<open>Validators\<close> (\<open>app/validators.py\<close>): what may reach a shell. \<open>SnapTags\<close> (\<open>app/snaptags.py\<close>): labels of
  snapshot names and the selection per host.

  \<open>Cache\<close> (\<open>app/cache.py\<close>), \<open>SshPool\<close> and \<open>HostRegistry\<close> (\<open>app/ssh_manager.py\<close>): the result cache as a store
  with lifetimes; a pool of connections with one reconnect, over a network whose answers are
  numbered so that the same call can fail and then succeed; the host list and the pinned keys, as a
  step relation over the operations of several threads. \<open>HostIdentity\<close> (\<open>app/host_identity.py\<close>) decides
  which machines are admitted, \<open>Wol\<close> (\<open>app/wol.py\<close>) wakes them.

  \<open>UnionFind\<close>, \<open>ReplInventory\<close> and \<open>ReplMatrix\<close> (\<open>app/replication_inventory.py\<close>): snapshots of all hosts
  are grouped by their guids with union-find, each group is one guest disk and its copies, the copy
  with the newest snapshot is the source. The loop of \<open>find\<close> is a function with a termination proof
  over acyclic parents, and the grouping is shown to be the connected components of the relation
  "share a guid".

  \<open>Backups\<close> (\<open>app/backups.py\<close>), \<open>GuestIntent\<close> (\<open>app/guest_intent.py\<close>): storages, volumes and jobs, the
  verdict on a guest's backup and on its protection as a whole, and the tags by which a gap is
  declared deliberate.

  \<open>PoolTopology\<close> (\<open>app/pool_topology.py\<close>): the device tree of \<open>zpool status\<close> and the devices whose loss
  costs the pool. \<open>Monitor\<close> (\<open>app/monitor.py\<close>): the table of monitor states and the checks that turn a
  change of state into a notification. \<open>ReplConfig\<close> (\<open>app/replication.py\<close>): configuration files,
  schedules, tagged datasets. \<open>ReplMonitor\<close> (\<open>app/replication_monitor.py\<close>): how often a cron line fires,
  how far a replica lags, when that is announced.

  \<open>SnapAnalysis\<close> (\<open>app/snapshot_analysis.py\<close>): ages, holes and counts of snapshots per label, from what
  \<open>app/zfs_commands.py\<close> reads. \<open>StaleCheck\<close>: the check for stale snapshots and the round of all checks of a
  host; a locale states what the checks share (each owns one row of the table, and repeated on an
  unchanged item sends nothing), and the round is shown to be quiet on an unchanged host.
  \<open>Autosnap\<close> (\<open>app/autosnap.py\<close>): the schedules of zfs-auto-snapshot are read from cron files and
  changed in place; the option's pattern is shown to be a simple scanner, from which reading back what
  was written follows.

  \<open>Remote\<close> is the state monad of code that talks to hosts: the world is the list of what happened so far and
  a function that answers the next command knowing all of it, so a statement about all worlds is one
  about all environments; \<open>does\<close> and its rules prove what an operation adds to that history.
  \<open>MigrateConfig\<close>, \<open>MigrateNaming\<close>, \<open>Migrate\<close> and \<open>MigrateSafety\<close> (\<open>app/migrate.py\<close>, and the writer of guest
  configurations of \<open>app/dr.py\<close>): migration of a guest between two hosts. The first two hold the text
  functions (disks of a configuration, storages, the rewritten configuration, names) and what they promise,
  over the searching functions of \<open>PyScan\<close>; the third every operation on the hosts, from discovery and preflight
  over transfer and cutover to rollback and cleanup; the last proves over all environments in which
  order things happen and what is left alone when they fail. The time limits of commands are left out.

  \<open>ZfsPools\<close>, \<open>ZfsData\<close>, \<open>ZfsRestore\<close> and \<open>ZfsSmart\<close> (\<open>app/zfs_commands.py\<close>) are the operations on pools, on datasets,
  snapshots and guests, on mounted snapshots and volumes, and on disks, in the same monad; \<open>ZfsSafety\<close>
  proves over all environments what they may run, read, mount and destroy, and shows at its end where
  their checks do not reach.

  \<open>RecoveryConfig\<close> and \<open>RecoveryGuest\<close> (\<open>app/recovery_guest.py\<close>): a guest made of clones of one snapshot, to look
  at what was in it. The first has the names, the marker in the configuration and the configuration itself, the second
  what is done on the host, creation and removal included. \<open>RecoverySafety\<close> proves over all environments that the original
  is left alone, that a creation that fails is undone, that holds are released, and what is proved of a guest before
  it is destroyed; \<open>RecoveryMarker\<close> that the marker reads back; \<open>RecoveryIsolation\<close> that the copy has no network, no
  device of the host and no volume but its own.

  \<open>DrSync\<close>, \<open>DrFiles\<close> and \<open>DrHost\<close> (\<open>app/dr.py\<close>): bringing back a host. The first sends replicas to a rebuilt source,
  the second puts files and guest configurations of a backup back, the third imports pools, sets properties, installs
  packages and restarts. A backup is a list of members; reading the archive format is left to the library, as in the
  code. \<open>DrSafety\<close> proves when data may be overwritten, which files are written and with what, which
  properties are set, and shows where the checks do not reach.

  \<open>Tasks\<close> (\<open>app/tasks.py\<close>): background tasks as a step relation over threads. \<open>HostBackup\<close>
  (\<open>app/hostbackup.py\<close>, over \<open>Calendar\<close> and \<open>Shell\<close>): backups of a host's configuration, which are kept, when
  one is due, what is announced.

  Conventions. State is passed explicitly; a persistent JSON file is a value of its type, absent or
  unreadable files are \<open>None\<close>. The clock is an argument. Exceptions that the code lets out are the left
  side of a sum or \<open>None\<close>. Numbers that the code reads as float are whole numbers here. A set is
  iterated in sorted order; where the code's result depends on the order of a set, it sorts.

  Not modelled: the HTTP routes (\<open>main.py\<close>) and the browser code, PDF and AI reports, the network and
  the database themselves, and the parts named as partly modelled in the manifest.
\<close>

end
